(* ===== verification/Prelude.thy ===== *)
theory Prelude
  imports Main "HOL-Library.Product_Lexorder" "HOL-Library.List_Lexorder" "HOL-Library.Char_ord"
    "HOL-Library.AList"
begin

text \<open>
  Shared vocabulary of the development.

  \<^item> Relational tables: a table is the list of its rows; \<open>sql_update\<close>, \<open>sql_delete\<close>,
    \<open>rowcount\<close> and \<open>fresh_id\<close> are the statements the persistence layer issues, with SQL's
    treatment of \<open>NULL\<close> written out (\<open>null_lt\<close> and friends are false on \<open>NULL\<close>).
  \<^item> Sessions: \<open>'d dbsession\<close> holds the database as the open transaction sees it (\<open>cur\<close>), the
    last committed database (\<open>saved\<close>) and the work claim stored in the session's \<open>info\<close>
    dictionary; \<open>commit\<close> and \<open>rollback\<close> move between the two.
  \<^item> JSON columns: \<open>json\<close> with the readers that the code uses on it.
  \<^item> Localised messages are represented by their message key.
\<close>

section \<open>Collections of facts\<close>

named_theorems sql_simps \<open>rewrite rules for statements on tables\<close>
named_theorems session_simps \<open>rewrite rules for transactions\<close>

section \<open>Exceptions\<close>

text \<open>The exceptions the modelled code raises or lets through, with the key of their message.\<close>

datatype py_error =
    ValueError string
  | RuntimeError string
  | CancelledError string
  | ParameterException string
  | TypeError
  | IntegrityError
  | MultipleResultsFound
  | MissingGreenlet

section \<open>Comparisons with a nullable column\<close>

definition null_lt :: "int option \<Rightarrow> int \<Rightarrow> bool" where
  "null_lt c v = (case c of None \<Rightarrow> False | Some x \<Rightarrow> x < v)"

definition null_le :: "int option \<Rightarrow> int \<Rightarrow> bool" where
  "null_le c v = (case c of None \<Rightarrow> False | Some x \<Rightarrow> x \<le> v)"

definition null_ge :: "int option \<Rightarrow> int \<Rightarrow> bool" where
  "null_ge c v = (case c of None \<Rightarrow> False | Some x \<Rightarrow> v \<le> x)"

definition null_gt :: "int option \<Rightarrow> int \<Rightarrow> bool" where
  "null_gt c v = (case c of None \<Rightarrow> False | Some x \<Rightarrow> v < x)"

lemma null_cmp_None [simp]:
  "\<not> null_lt None v" "\<not> null_le None v" "\<not> null_ge None v" "\<not> null_gt None v"
  by (simp_all add: null_lt_def null_le_def null_ge_def null_gt_def)

lemma null_cmp_Some [simp]:
  "null_lt (Some x) v \<longleftrightarrow> x < v" "null_le (Some x) v \<longleftrightarrow> x \<le> v"
  "null_ge (Some x) v \<longleftrightarrow> v \<le> x" "null_gt (Some x) v \<longleftrightarrow> v < x"
  by (simp_all add: null_lt_def null_le_def null_ge_def null_gt_def)

lemma null_lt_iff: "null_lt c v \<longleftrightarrow> (\<exists>x. c = Some x \<and> x < v)"
  by (cases c) auto

lemma null_ge_iff: "null_ge c v \<longleftrightarrow> (\<exists>x. c = Some x \<and> v \<le> x)"
  by (cases c) auto

lemma null_gt_iff: "null_gt c v \<longleftrightarrow> (\<exists>x. c = Some x \<and> v < x)"
  by (cases c) auto

lemma null_le_iff: "null_le c v \<longleftrightarrow> (\<exists>x. c = Some x \<and> x \<le> v)"
  by (cases c) auto

section \<open>Tables\<close>

definition sql_update :: "('r \<Rightarrow> bool) \<Rightarrow> ('r \<Rightarrow> 'r) \<Rightarrow> 'r list \<Rightarrow> 'r list" where
  "sql_update p f t = map (\<lambda>r. if p r then f r else r) t"

definition sql_delete :: "('r \<Rightarrow> bool) \<Rightarrow> 'r list \<Rightarrow> 'r list" where
  "sql_delete p t = filter (\<lambda>r. \<not> p r) t"

definition rowcount :: "('r \<Rightarrow> bool) \<Rightarrow> 'r list \<Rightarrow> nat" where
  "rowcount p t = length (filter p t)"

definition fresh_id :: "('r \<Rightarrow> int) \<Rightarrow> 'r list \<Rightarrow> int" where
  "fresh_id f t = fold max (map f t) 0 + 1"

definition sql_limit :: "int \<Rightarrow> 'r list \<Rightarrow> 'r list" where
  "sql_limit n t = take (nat n) t"

lemma length_sql_update [simp]: "length (sql_update p f t) = length t"
  by (simp add: sql_update_def)

lemma set_sql_update: "set (sql_update p f t) = f ` {r \<in> set t. p r} \<union> {r \<in> set t. \<not> p r}"
  by (auto simp: sql_update_def)

lemma map_sql_update [sql_simps]:
  "(\<And>r. p r \<Longrightarrow> g (f r) = g r) \<Longrightarrow> map g (sql_update p f t) = map g t"
  by (auto simp: sql_update_def)

lemma sql_update_none: "rowcount p t = 0 \<Longrightarrow> sql_update p f t = t"
  by (induction t) (auto simp: sql_update_def rowcount_def split: if_splits)

lemma rowcount_0_iff: "rowcount p t = 0 \<longleftrightarrow> (\<forall>r\<in>set t. \<not> p r)"
  by (auto simp: rowcount_def filter_empty_conv)

lemma rowcount_pos_iff: "0 < rowcount p t \<longleftrightarrow> (\<exists>r\<in>set t. p r)"
  using rowcount_0_iff [of p t] by auto

lemma rowcount_1_obtain: "rowcount p t = 1 \<Longrightarrow> \<exists>r\<in>set t. p r"
  using rowcount_pos_iff [of p t] by simp

lemma rowcount_Suc_0D: "rowcount p t = Suc 0 \<Longrightarrow> \<exists>r\<in>set t. p r"
  using rowcount_1_obtain [of p t] by simp

lemma rowcount_le_length: "rowcount p t \<le> length t"
  by (simp add: rowcount_def)

lemma filter_sql_update:
  "(\<And>r. p r \<Longrightarrow> q (f r) = q r) \<Longrightarrow> filter q (sql_update p f t) = sql_update p f (filter q t)"
  by (induction t) (auto simp: sql_update_def)

lemma set_sql_delete [simp]: "set (sql_delete p t) = {r \<in> set t. \<not> p r}"
  by (auto simp: sql_delete_def)

lemma distinct_key_eq:
  assumes "distinct (map k t)" and "r \<in> set t" and "r' \<in> set t" and "k r = k r'"
  shows "r = r'"
  using assms by (metis inj_onD distinct_map)

lemma key_in_image:
  assumes "distinct (map k t)" and "v \<in> set t" and "R \<subseteq> set t"
  shows "k v \<in> k ` R \<longleftrightarrow> v \<in> R"
  using inj_on_image_mem_iff [of k "set t" v R] assms by (simp add: distinct_map)

lemma distinct_key_find:
  assumes "distinct (map k t)" and "r \<in> set t"
  shows "find (\<lambda>x. k x = k r) t = Some r"
  using assms by (induction t) force+

lemma rowcount_key_le_1:
  assumes "distinct (map k t)" and "\<And>r. p r \<Longrightarrow> k r = a"
  shows "rowcount p t \<le> 1"
  using assms
proof (induction t)
  case Nil
  then show ?case by (simp add: rowcount_def)
next
  case (Cons x t)
  show ?case
  proof (cases "p x")
    case True
    with Cons.prems have "k x = a" by blast
    with Cons.prems(1) have "a \<notin> k ` set t" by auto
    with Cons.prems(2) have "\<forall>r\<in>set t. \<not> p r" by (metis imageI)
    then have "filter p t = []" by (auto simp: filter_empty_conv)
    with True show ?thesis by (simp add: rowcount_def)
  next
    case False
    with Cons show ?thesis by (simp add: rowcount_def)
  qed
qed

lemma rowcount_key_eq_1:
  assumes "distinct (map k t)" and "\<And>r. p r \<Longrightarrow> k r = a"
  shows "rowcount p t = 1 \<longleftrightarrow> (\<exists>r\<in>set t. p r)"
  using rowcount_key_le_1 [of k t p a] assms rowcount_pos_iff [of p t] by force

lemma rowcount_key_cases:
  assumes "distinct (map k t)" and "\<And>r. p r \<Longrightarrow> k r = a" and "rowcount p t \<noteq> 1"
  shows "rowcount p t = 0"
  using rowcount_key_le_1 [of k t p a] assms by force

lemma rowcount_ids_bound:
  assumes "distinct (map k t)" and "\<And>r. p r \<Longrightarrow> k r \<in> set c"
  shows "rowcount p t \<le> length c"
proof -
  have "rowcount p t = card (set (map k (filter p t)))"
    using distinct_card [of "map k (filter p t)"] assms(1) by (simp add: rowcount_def distinct_map_filter)
  also have "\<dots> \<le> card (set c)" by (rule card_mono) (use assms(2) in auto)
  also have "\<dots> \<le> length c" by (rule card_length)
  finally show ?thesis .
qed

lemma rowcount_ids_eq:
  assumes "distinct (map k t)" and "distinct ids" and "set ids \<subseteq> k ` set t"
  shows "rowcount (\<lambda>r. k r \<in> set ids) t = length ids"
proof -
  have "rowcount (\<lambda>r. k r \<in> set ids) t = card (set (map k (filter (\<lambda>r. k r \<in> set ids) t)))"
    using distinct_card [of "map k (filter (\<lambda>r. k r \<in> set ids) t)"] assms(1) by (simp add: rowcount_def distinct_map_filter)
  also have "set (map k (filter (\<lambda>r. k r \<in> set ids) t)) = set ids" using assms(3) by auto
  also have "card (set ids) = length ids" using assms(2) by (rule distinct_card)
  finally show ?thesis .
qed

lemma sql_limit_subset: "set (sql_limit n xs) \<subseteq> set xs"
  by (simp add: sql_limit_def set_take_subset)

lemma length_sql_limit: "length (sql_limit n xs) \<le> nat n"
  by (simp add: sql_limit_def)

lemma rowcount_limit_bound:
  assumes "distinct (map k t)" and "\<And>r. p r \<Longrightarrow> k r \<in> set (map g (sql_limit n xs))"
  shows "rowcount p t \<le> nat n"
  using rowcount_ids_bound [of k t p "map g (sql_limit n xs)"] assms length_sql_limit [of n xs] by simp

lemma find_sql_update:
  assumes "\<And>r. p r \<Longrightarrow> q (f r) = q r"
  shows "find q (sql_update p f t) = map_option (\<lambda>r. if p r then f r else r) (find q t)"
  using assms by (induction t) (auto simp: sql_update_def)

lemma find_sql_update_other:
  assumes "\<And>r. p r \<Longrightarrow> \<not> q r" and "\<And>r. p r \<Longrightarrow> \<not> q (f r)"
  shows "find q (sql_update p f t) = find q t"
  using assms by (induction t) (auto simp: sql_update_def)

lemma fold_max_ge: "a \<le> fold max xs (a::int)"
  by (induction xs arbitrary: a) (auto intro: order_trans [OF max.cobounded2])

lemma fold_max_upper: "x \<in> set xs \<Longrightarrow> x \<le> fold max xs (a::int)"
proof (induction xs arbitrary: a)
  case Nil
  then show ?case by simp
next
  case (Cons y xs)
  then show ?case
    using fold_max_ge [of "max y a" xs] by auto
qed

lemma fresh_id_not_in: "fresh_id f t \<notin> f ` set t"
proof
  assume "fresh_id f t \<in> f ` set t"
  then have "fresh_id f t \<le> fold max (map f t) 0" by (auto intro: fold_max_upper)
  then show False by (simp add: fresh_id_def)
qed

lemma fresh_id_gt: "r \<in> set t \<Longrightarrow> f r < fresh_id f t"
proof -
  assume "r \<in> set t"
  then have "f r \<le> fold max (map f t) 0" by (intro fold_max_upper) auto
  then show ?thesis by (simp add: fresh_id_def)
qed

lemma find_Some_iff_in: "find p xs = Some r \<Longrightarrow> r \<in> set xs \<and> p r"
  by (induction xs) (auto split: if_splits)

lemma find_None_all: "find p xs = None \<longleftrightarrow> (\<forall>r\<in>set xs. \<not> p r)"
  by (induction xs) auto

lemma find_ex: "r \<in> set xs \<Longrightarrow> p r \<Longrightarrow> \<exists>r'. find p xs = Some r'"
  by (induction xs) auto

lemma find_append: "find p (xs @ ys) = (case find p xs of None \<Rightarrow> find p ys | Some r \<Rightarrow> Some r)"
  by (induction xs) auto

lemma rowcount_update_key:
  assumes "distinct (map k t)" and "w \<in> set t"
  shows "rowcount q (sql_update (\<lambda>r. k r = k w) f t) + (if q w then 1 else 0) =
    rowcount q t + (if q (f w) then 1 else 0)"
  using assms
proof (induction t)
  case Nil
  then show ?case by simp
next
  case (Cons x t)
  show ?case
  proof (cases "x = w")
    case True
    with Cons.prems have "\<forall>r\<in>set t. k r \<noteq> k w" by (auto simp: rev_image_eqI)
    then have "rowcount (\<lambda>r. k r = k w) t = 0" by (simp only: rowcount_0_iff simp_thms)
    then have "sql_update (\<lambda>r. k r = k w) f t = t" by (rule sql_update_none)
    with True show ?thesis by (simp add: rowcount_def sql_update_def)
  next
    case False
    with Cons.prems have "w \<in> set t" "k x \<noteq> k w" by auto
    with Cons show ?thesis by (simp add: rowcount_def sql_update_def)
  qed
qed

lemma sql_update_cong:
  "(\<And>r. r \<in> set t \<Longrightarrow> p r = p' r) \<Longrightarrow> (\<And>r. r \<in> set t \<Longrightarrow> p r \<Longrightarrow> f r = f' r) \<Longrightarrow> sql_update p f t = sql_update p' f' t"
  by (auto simp: sql_update_def)

lemma sql_update_one:
  assumes "distinct (map k t)" and "r \<in> set t" and "p r" and "\<And>q. p q \<Longrightarrow> k q = k r"
  shows "sql_update p f t = map (\<lambda>q. if q = r then f r else q) t"
proof -
  have "p q \<longleftrightarrow> q = r" if "q \<in> set t" for q
    using distinct_key_eq [OF assms(1) that assms(2)] assms(3,4) by blast
  then show ?thesis unfolding sql_update_def by (intro map_cong refl) auto
qed

lemma sort_key_hd:
  assumes "sort_key k xs = y # ys"
  shows "y \<in> set xs \<and> (\<forall>x\<in>set xs. k y \<le> k x)"
proof -
  have "set xs = set (y # ys)" using assms by (metis set_sort)
  moreover have "sorted (map k (y # ys))" using assms by (metis sorted_sort_key)
  ultimately show ?thesis by auto
qed

subsection \<open>A table read by key\<close>

text \<open>\<open>key_view k v t\<close> reads table \<open>t\<close> as a map: key \<open>k\<close> of a row to its attribute \<open>v\<close>.\<close>

definition key_view :: "('r \<Rightarrow> 'k) \<Rightarrow> ('r \<Rightarrow> 'v option) \<Rightarrow> 'r list \<Rightarrow> 'k \<Rightarrow> 'v option" where
  "key_view k v t a = Option.bind (find (\<lambda>r. k r = a) t) v"

lemma key_view_row:
  assumes "distinct (map k t)" and "r \<in> set t"
  shows "key_view k v t (k r) = v r"
  using distinct_key_find [OF assms] by (simp add: key_view_def)

lemma key_view_SomeE:
  assumes "key_view k v t a = Some x"
  obtains r where "r \<in> set t" and "k r = a" and "v r = Some x"
  using assms by (auto simp: key_view_def bind_eq_Some_conv dest!: find_Some_iff_in)

lemma key_view_Some_iff:
  assumes "distinct (map k t)"
  shows "key_view k v t a = Some x \<longleftrightarrow> (\<exists>r\<in>set t. k r = a \<and> v r = Some x)"
  using key_view_row [OF assms, of _ v] by (auto elim!: key_view_SomeE)

lemma key_view_update:
  assumes "distinct (map k t)" and "\<And>r. p r \<Longrightarrow> k r = a"
    and "\<And>r. p r \<Longrightarrow> k (f r) = a" and "\<And>r. p r \<Longrightarrow> v (f r) = x"
  shows "key_view k v (sql_update p f t) =
    (if rowcount p t = 1 then (key_view k v t)(a := x) else key_view k v t)"
proof (cases "rowcount p t = 1")
  case True
  then obtain r where r: "r \<in> set t" "p r" using rowcount_1_obtain by blast
  with assms(2) have "k r = a" by blast
  with assms(1) r(1) have fr: "find (\<lambda>x. k x = a) t = Some r" using distinct_key_find by metis
  have "key_view k v (sql_update p f t) n = ((key_view k v t)(a := x)) n" for n
  proof (cases "n = a")
    case True
    with fr r(2) assms(2-4) show ?thesis by (simp add: key_view_def find_sql_update)
  next
    case False
    with assms(2,3) have "find (\<lambda>r. k r = n) (sql_update p f t) = find (\<lambda>r. k r = n) t"
      by (intro find_sql_update_other) auto
    with False show ?thesis by (simp add: key_view_def)
  qed
  with True show ?thesis by auto
next
  case False
  have "rowcount p t = 0" by (rule rowcount_key_cases [OF assms(1,2) False])
  with False show ?thesis by (simp add: sql_update_none)
qed

lemma key_view_absent:
  assumes "\<forall>r\<in>set t. k r \<noteq> a"
  shows "key_view k v t a = None"
proof -
  from assms have "find (\<lambda>r. k r = a) t = None" by (simp only: find_None_all)
  then show ?thesis by (simp add: key_view_def)
qed

lemma key_view_append:
  assumes "\<forall>r\<in>set t. k r \<noteq> k x"
  shows "key_view k v (t @ [x]) = (key_view k v t)(k x := v x)"
proof
  fix n
  from assms have "find (\<lambda>r. k r = k x) t = None" by (simp add: find_None_all)
  then show "key_view k v (t @ [x]) n = ((key_view k v t)(k x := v x)) n"
    by (auto simp: key_view_def find_append split: option.splits)
qed

lemma key_view_delete:
  assumes "distinct (map k t)" and "\<And>r. p r \<Longrightarrow> k r = a"
  shows "key_view k v (sql_delete p t) =
    (if rowcount p t = 1 then (key_view k v t)(a := None) else key_view k v t)"
proof (cases "rowcount p t = 1")
  case True
  then obtain r where r: "r \<in> set t" "p r" using rowcount_1_obtain by blast
  with assms have only: "k r' = a \<longleftrightarrow> r' = r" if "r' \<in> set t" for r'
    using that distinct_key_eq by metis
  then have "find (\<lambda>x. k x = a) (sql_delete p t) = None"
    using r by (auto simp: find_None_all)
  moreover have "find (\<lambda>x. k x = n) (sql_delete p t) = find (\<lambda>x. k x = n) t" if "n \<noteq> a" for n
    using that assms(2) by (induction t) (auto simp: sql_delete_def)
  ultimately show ?thesis using True by (auto simp: key_view_def fun_eq_iff)
next
  case False
  have "rowcount p t = 0" by (rule rowcount_key_cases [OF assms False])
  then have "sql_delete p t = t" by (simp add: sql_delete_def rowcount_def filter_empty_conv filter_id_conv)
  with False show ?thesis by simp
qed

section \<open>Sessions and transactions\<close>

record 'd dbsession =
  cur :: 'd
  saved :: 'd
  work_claim :: "(int \<times> string) option"

definition commit :: "('d, 'z) dbsession_scheme \<Rightarrow> ('d, 'z) dbsession_scheme" where
  "commit s = s\<lparr>saved := cur s\<rparr>"

definition rollback :: "('d, 'z) dbsession_scheme \<Rightarrow> ('d, 'z) dbsession_scheme" where
  "rollback s = s\<lparr>cur := saved s\<rparr>"

definition commit_if :: "bool \<Rightarrow> ('d, 'z) dbsession_scheme \<Rightarrow> ('d, 'z) dbsession_scheme" where
  "commit_if b s = (if b then commit s else s)"

definition execute :: "('d \<Rightarrow> 'd) \<Rightarrow> ('d, 'z) dbsession_scheme \<Rightarrow> ('d, 'z) dbsession_scheme" where
  "execute f s = s\<lparr>cur := f (cur s)\<rparr>"

definition open_session :: "'d \<Rightarrow> 'd dbsession" where
  "open_session d = \<lparr>cur = d, saved = d, work_claim = None\<rparr>"

lemma commit_fields [simp, session_simps]:
  "cur (commit s) = cur s" "saved (commit s) = cur s" "work_claim (commit s) = work_claim s"
  by (simp_all add: commit_def)

lemma rollback_fields [simp, session_simps]:
  "cur (rollback s) = saved s" "saved (rollback s) = saved s" "work_claim (rollback s) = work_claim s"
  by (simp_all add: rollback_def)

lemma commit_if_fields [simp, session_simps]:
  "cur (commit_if b s) = cur s" "saved (commit_if b s) = (if b then cur s else saved s)"
  "work_claim (commit_if b s) = work_claim s"
  by (simp_all add: commit_if_def)

lemma execute_fields [simp, session_simps]:
  "cur (execute f s) = f (cur s)" "saved (execute f s) = saved s"
  "work_claim (execute f s) = work_claim s"
  by (simp_all add: execute_def)

lemma open_session_fields [simp, session_simps]:
  "cur (open_session d) = d" "saved (open_session d) = d" "work_claim (open_session d) = None"
  by (simp_all add: open_session_def)

section \<open>JSON columns\<close>

datatype json = JNull | JBool bool | JInt int | JStr string | JList "json list"
  | JObj "(string \<times> json) list"

fun json_get :: "json \<Rightarrow> string \<Rightarrow> json option" where
  "json_get (JObj kvs) k = map_of kvs k"
| "json_get _ k = None"

fun json_is_dict :: "json \<Rightarrow> bool" where
  "json_is_dict (JObj kvs) = True"
| "json_is_dict _ = False"

fun json_items :: "json \<Rightarrow> (string \<times> json) list" where
  "json_items (JObj kvs) = kvs"
| "json_items _ = []"

definition json_put :: "string \<Rightarrow> json \<Rightarrow> json \<Rightarrow> json" where
  "json_put k v j = JObj (AList.update k v (json_items j))"

fun json_as_string :: "json option \<Rightarrow> string option" where
  "json_as_string (Some (JStr x)) = Some x"
| "json_as_string _ = None"

fun json_as_int :: "json option \<Rightarrow> int option" where
  "json_as_int (Some (JInt x)) = Some x"
| "json_as_int _ = None"

text \<open>\<open>isinstance(v, int)\<close>, with the value: Python's booleans are integers.\<close>

fun json_py_int :: "json option \<Rightarrow> int option" where
  "json_py_int (Some (JInt x)) = Some x"
| "json_py_int (Some (JBool b)) = Some (if b then 1 else 0)"
| "json_py_int _ = None"

fun json_truthy :: "json \<Rightarrow> bool" where
  "json_truthy JNull = False"
| "json_truthy (JBool b) = b"
| "json_truthy (JInt i) = (i \<noteq> 0)"
| "json_truthy (JStr x) = (x \<noteq> [])"
| "json_truthy (JList js) = (js \<noteq> [])"
| "json_truthy (JObj kvs) = (kvs \<noteq> [])"

fun json_as_bool :: "json option \<Rightarrow> bool option" where
  "json_as_bool (Some (JBool x)) = Some x"
| "json_as_bool _ = None"

lemma json_get_put [simp]: "json_get (json_put k v j) k = Some v"
  by (simp add: json_put_def update_conv')

lemma json_get_put_other [simp]:
  "json_is_dict j \<Longrightarrow> k \<noteq> k' \<Longrightarrow> json_get (json_put k v j) k' = json_get j k'"
  by (cases j) (simp_all add: json_put_def update_conv')

end
