(* ===== verification/Lease_Interface.thy ===== *)
theory Lease_Interface
  imports Prelude
begin

text \<open>
  The contract that every leased resource of the program offers: worker roles, queued reply work,
  background executions and background replies are all held by one owner until a deadline.
  \<open>holder s k\<close> is the owner of key \<open>k\<close> with the deadline of its lease. A \<open>lease_keeper\<close> can
  extend and give up a lease, a \<open>lease_protocol\<close> can also take one. The clients' facts are
  proved here once and reach each component by interpretation.
\<close>

datatype 'k lease_cmd =
    Acquire int int 'k string
  | Renew int int 'k string
  | Finish int 'k string

fun cmd_now :: "'k lease_cmd \<Rightarrow> int" where
  "cmd_now (Acquire now secs k w) = now"
| "cmd_now (Renew now secs k w) = now"
| "cmd_now (Finish now k w) = now"

fun cmd_key :: "'k lease_cmd \<Rightarrow> 'k" where
  "cmd_key (Acquire now secs k w) = k"
| "cmd_key (Renew now secs k w) = k"
| "cmd_key (Finish now k w) = k"

fun cmd_owner :: "'k lease_cmd \<Rightarrow> string" where
  "cmd_owner (Acquire now secs k w) = w"
| "cmd_owner (Renew now secs k w) = w"
| "cmd_owner (Finish now k w) = w"

text \<open>A command of somebody else, issued before the deadline \<open>u\<close> of \<open>w\<close>'s lease on \<open>k\<close>.\<close>

definition foreign_cmd :: "'k \<Rightarrow> string \<Rightarrow> int \<Rightarrow> 'k lease_cmd \<Rightarrow> bool" where
  "foreign_cmd k w u c \<longleftrightarrow> (cmd_key c = k \<longrightarrow> cmd_owner c \<noteq> w \<and> cmd_now c \<le> u)"

locale lease_keeper =
  fixes holder :: "'s \<Rightarrow> 'k \<Rightarrow> (string \<times> int) option"
    and wf_store :: "'s \<Rightarrow> bool"
    and renew :: "int \<Rightarrow> int \<Rightarrow> 'k \<Rightarrow> string \<Rightarrow> 's \<Rightarrow> 's \<times> bool"
    and finish :: "int \<Rightarrow> 'k \<Rightarrow> string \<Rightarrow> 's \<Rightarrow> 's \<times> bool"
  assumes renew_wf: "wf_store s \<Longrightarrow> wf_store (fst (renew now secs k w s))"
    and renew_holder: "wf_store s \<Longrightarrow> holder (fst (renew now secs k w s)) =
          (if snd (renew now secs k w s) then (holder s)(k \<mapsto> (w, now + secs)) else holder s)"
    and renew_owner: "wf_store s \<Longrightarrow> snd (renew now secs k w s) \<Longrightarrow> \<exists>u. holder s k = Some (w, u)"
    and finish_wf: "wf_store s \<Longrightarrow> wf_store (fst (finish now k w s))"
    and finish_holder: "wf_store s \<Longrightarrow> holder (fst (finish now k w s)) =
          (if snd (finish now k w s) then (holder s)(k := None) else holder s)"
    and finish_owner: "wf_store s \<Longrightarrow> snd (finish now k w s) \<Longrightarrow> \<exists>u. holder s k = Some (w, u)"
begin

lemma renew_foreign:
  assumes "wf_store s" and "holder s k = Some (w, u)" and "k' = k \<Longrightarrow> w' \<noteq> w"
  shows "holder (fst (renew now secs k' w' s)) k = Some (w, u)"
  using renew_holder [OF assms(1), of now secs k' w'] renew_owner [OF assms(1), of now secs k' w'] assms
  by (cases "snd (renew now secs k' w' s)"; cases "k' = k") auto

lemma finish_foreign:
  assumes "wf_store s" and "holder s k = Some (w, u)" and "k' = k \<Longrightarrow> w' \<noteq> w"
  shows "holder (fst (finish now k' w' s)) k = Some (w, u)"
  using finish_holder [OF assms(1), of now k' w'] finish_owner [OF assms(1), of now k' w'] assms
  by (cases "snd (finish now k' w' s)"; cases "k' = k") auto

lemma finish_once:
  assumes "wf_store s" and "snd (finish now k w s)"
  shows "\<not> snd (finish now' k w' (fst (finish now k w s)))"
proof
  assume "snd (finish now' k w' (fst (finish now k w s)))"
  then have "\<exists>u. holder (fst (finish now k w s)) k = Some (w', u)"
    by (rule finish_owner [OF finish_wf [OF assms(1)]])
  then show False using finish_holder [OF assms(1), of now k w] assms(2) by simp
qed

end

locale lease_protocol = lease_keeper +
  fixes acquire :: "int \<Rightarrow> int \<Rightarrow> 'b \<Rightarrow> string \<Rightarrow> 'a \<Rightarrow> 'a \<times> bool"
  assumes acquire_wf: "wf_store s \<Longrightarrow> wf_store (fst (acquire now secs k w s))"
    and acquire_holder: "wf_store s \<Longrightarrow> holder (fst (acquire now secs k w s)) =
          (if snd (acquire now secs k w s) then (holder s)(k \<mapsto> (w, now + secs)) else holder s)"
    and acquire_guard: "wf_store s \<Longrightarrow> snd (acquire now secs k w s) \<Longrightarrow>
          holder s k = Some (w', u) \<Longrightarrow> w' = w \<or> u < now"
begin

fun run_cmd :: "'b lease_cmd \<Rightarrow> 'a \<Rightarrow> 'a" where
  "run_cmd (Acquire now secs k w) s = fst (acquire now secs k w s)"
| "run_cmd (Renew now secs k w) s = fst (renew now secs k w s)"
| "run_cmd (Finish now k w) s = fst (finish now k w s)"

lemma run_cmd_wf: "wf_store s \<Longrightarrow> wf_store (run_cmd c s)"
  by (cases c) (auto simp: acquire_wf renew_wf finish_wf)

lemma run_cmd_foreign:
  assumes "wf_store s" and "holder s k = Some (w, u)" and "foreign_cmd k w u c"
  shows "holder (run_cmd c s) k = Some (w, u)"
proof (cases c)
  case (Acquire now secs k' w')
  with assms acquire_holder [OF assms(1), of now secs k' w']
    acquire_guard [OF assms(1), of now secs k' w' w u]
  show ?thesis
    by (cases "snd (acquire now secs k' w' s)"; cases "k' = k") (auto simp: foreign_cmd_def)
next
  case (Renew now secs k' w')
  with assms show ?thesis by (auto simp: foreign_cmd_def intro!: renew_foreign)
next
  case (Finish now k' w')
  with assms show ?thesis by (auto simp: foreign_cmd_def intro!: finish_foreign)
qed

lemma foreign_run_keeps_lease:
  assumes "wf_store s" and "holder s k = Some (w, u)" and "\<forall>c\<in>set cs. foreign_cmd k w u c"
  shows "holder (fold run_cmd cs s) k = Some (w, u)"
  using assms
proof (induction cs arbitrary: s)
  case Nil
  then show ?case by simp
next
  case (Cons c cs)
  then have "holder (run_cmd c s) k = Some (w, u)" by (auto intro: run_cmd_foreign)
  with Cons show ?case by (auto simp: run_cmd_wf)
qed

lemma no_second_winner:
  assumes "wf_store s" and "snd (acquire now secs k w s)" and "w' \<noteq> w" and "now' \<le> now + secs"
  shows "\<not> snd (acquire now' secs' k w' (fst (acquire now secs k w s)))"
  using acquire_guard [OF acquire_wf [OF assms(1)], of now' secs' k w' now secs k w w "now + secs"]
    acquire_holder [OF assms(1), of now secs k w] assms by auto

end

end
