(* ===== verification/Worker_Lease.thy ===== *)
theory Worker_Lease
  imports Lease_Interface
begin

text \<open>
  Worker leases (\<open>app/models/worker_lease.py\<close>, \<open>app/core/crud/worker/lease.py\<close>,
  \<open>app/workers/lease.py\<close>): one row per worker role; the process whose owner identifier is in the
  row runs the role until \<open>lease_until\<close>. The table is a list of rows whose primary key is the
  worker name. \<open>acquire\<close> consists of three statements between which other processes may run;
  they are modelled one by one and composed by \<open>lease_acquire\<close>, and the step relation
  \<open>lease_step\<close> interleaves the statements of any number of processes with the clock.
\<close>

record worker_lease =
  wl_worker_name :: string
  wl_owner_id :: string
  wl_lease_until :: int
  wl_updated_at :: int

definition lease_get_by_name :: "string \<Rightarrow> worker_lease list \<Rightarrow> worker_lease option" where
  "lease_get_by_name name t = find (\<lambda>r. wl_worker_name r = name) t"

section \<open>The three statements of acquire\<close>

definition lease_takeable :: "string \<Rightarrow> string \<Rightarrow> int \<Rightarrow> worker_lease \<Rightarrow> bool" where
  "lease_takeable name owner now r \<longleftrightarrow>
     wl_worker_name r = name \<and> (wl_owner_id r = owner \<or> wl_lease_until r < now)"

definition lease_stale :: "string \<Rightarrow> int \<Rightarrow> worker_lease \<Rightarrow> bool" where
  "lease_stale name now r \<longleftrightarrow> wl_worker_name r = name \<and> wl_lease_until r < now"

definition lease_grant :: "string \<Rightarrow> int \<Rightarrow> int \<Rightarrow> worker_lease \<Rightarrow> worker_lease" where
  "lease_grant owner secs now r =
     r\<lparr>wl_owner_id := owner, wl_lease_until := now + secs, wl_updated_at := now\<rparr>"

definition lease_take :: "string \<Rightarrow> string \<Rightarrow> int \<Rightarrow> int \<Rightarrow> worker_lease list \<Rightarrow> worker_lease list \<times> bool" where
  "lease_take name owner secs now t =
     (sql_update (lease_takeable name owner now) (lease_grant owner secs now) t,
      rowcount (lease_takeable name owner now) t = 1)"

definition lease_insert :: "string \<Rightarrow> string \<Rightarrow> int \<Rightarrow> int \<Rightarrow> worker_lease list \<Rightarrow> worker_lease list option" where
  \<comment> \<open>\<open>None\<close> is the \<open>IntegrityError\<close> of the primary key\<close>
  "lease_insert name owner secs now t =
     (if \<exists>r\<in>set t. wl_worker_name r = name then None
      else Some (t @ [\<lparr>wl_worker_name = name, wl_owner_id = owner,
                       wl_lease_until = now + secs, wl_updated_at = now\<rparr>]))"

definition lease_take_stale :: "string \<Rightarrow> string \<Rightarrow> int \<Rightarrow> int \<Rightarrow> worker_lease list \<Rightarrow> worker_lease list \<times> bool" where
  "lease_take_stale name owner secs now t =
     (sql_update (lease_stale name now) (lease_grant owner secs now) t,
      rowcount (lease_stale name now) t = 1)"

definition lease_acquire :: "int \<Rightarrow> int \<Rightarrow> string \<Rightarrow> string \<Rightarrow> worker_lease list \<Rightarrow> worker_lease list \<times> bool" where
  "lease_acquire now secs name owner t =
     (let (t1, taken) = lease_take name owner secs now t
      in if taken then (t1, True)
         else case lease_insert name owner secs now t1 of
                Some t2 \<Rightarrow> (t2, True)
              | None \<Rightarrow> lease_take_stale name owner secs now t)"

section \<open>Renewal and release\<close>

definition lease_renewable :: "string \<Rightarrow> string \<Rightarrow> int \<Rightarrow> worker_lease \<Rightarrow> bool" where
  "lease_renewable name owner now r \<longleftrightarrow>
     wl_worker_name r = name \<and> wl_owner_id r = owner \<and> now \<le> wl_lease_until r"

definition lease_renew :: "int \<Rightarrow> int \<Rightarrow> string \<Rightarrow> string \<Rightarrow> worker_lease list \<Rightarrow> worker_lease list \<times> bool" where
  "lease_renew now secs name owner t =
     (sql_update (lease_renewable name owner now)
        (\<lambda>r. r\<lparr>wl_lease_until := now + secs, wl_updated_at := now\<rparr>) t,
      rowcount (lease_renewable name owner now) t = 1)"

definition lease_release :: "string \<Rightarrow> string \<Rightarrow> worker_lease list \<Rightarrow> worker_lease list \<times> bool" where
  "lease_release name owner t =
     (let mine = (\<lambda>r. wl_worker_name r = name \<and> wl_owner_id r = owner)
      in (sql_delete mine t, rowcount mine t = 1))"

section \<open>The table's invariant and the abstract holder\<close>

definition lease_wf :: "worker_lease list \<Rightarrow> bool" where
  "lease_wf t \<longleftrightarrow> distinct (map wl_worker_name t)"

definition lease_attr :: "worker_lease \<Rightarrow> (string \<times> int) option" where
  "lease_attr r = Some (wl_owner_id r, wl_lease_until r)"

definition lease_holder :: "worker_lease list \<Rightarrow> string \<Rightarrow> (string \<times> int) option" where
  "lease_holder t = key_view wl_worker_name lease_attr t"

lemma lease_holder_row:
  "lease_wf t \<Longrightarrow> lease_holder t name = Some (w, u) \<longleftrightarrow>
    (\<exists>r\<in>set t. wl_worker_name r = name \<and> wl_owner_id r = w \<and> wl_lease_until r = u)"
  unfolding lease_holder_def lease_wf_def by (subst key_view_Some_iff) (auto simp: lease_attr_def)

lemma lease_update_wf:
  "lease_wf t \<Longrightarrow> (\<And>r. p r \<Longrightarrow> wl_worker_name (f r) = wl_worker_name r) \<Longrightarrow> lease_wf (sql_update p f t)"
  by (simp add: lease_wf_def map_sql_update)

lemma lease_take_holder:
  "lease_wf t \<Longrightarrow> lease_holder (fst (lease_take name w secs now t)) =
     (if snd (lease_take name w secs now t) then (lease_holder t)(name \<mapsto> (w, now + secs)) else lease_holder t)"
  unfolding lease_take_def fst_conv snd_conv lease_holder_def lease_wf_def
  by (rule key_view_update) (auto simp: lease_takeable_def lease_grant_def lease_attr_def)

lemma lease_take_stale_holder:
  "lease_wf t \<Longrightarrow> lease_holder (fst (lease_take_stale name w secs now t)) =
     (if snd (lease_take_stale name w secs now t) then (lease_holder t)(name \<mapsto> (w, now + secs)) else lease_holder t)"
  unfolding lease_take_stale_def fst_conv snd_conv lease_holder_def lease_wf_def
  by (rule key_view_update) (auto simp: lease_stale_def lease_grant_def lease_attr_def)

lemma lease_renew_holder:
  "lease_wf t \<Longrightarrow> lease_holder (fst (lease_renew now secs name w t)) =
     (if snd (lease_renew now secs name w t) then (lease_holder t)(name \<mapsto> (w, now + secs)) else lease_holder t)"
  unfolding lease_renew_def fst_conv snd_conv lease_holder_def lease_wf_def
  by (rule key_view_update) (auto simp: lease_renewable_def lease_attr_def)

lemma lease_release_holder:
  "lease_wf t \<Longrightarrow> lease_holder (fst (lease_release name w t)) =
     (if snd (lease_release name w t) then (lease_holder t)(name := None) else lease_holder t)"
  unfolding lease_release_def Let_def fst_conv snd_conv lease_holder_def lease_wf_def
  by (rule key_view_delete) auto

lemma lease_insert_holder:
  "lease_insert name w secs now t = Some t' \<Longrightarrow>
     lease_holder t name = None \<and> lease_holder t' = (lease_holder t)(name \<mapsto> (w, now + secs))"
  by (auto simp: lease_insert_def lease_holder_def key_view_append key_view_absent lease_attr_def
      split: if_splits)

lemma lease_take_wf: "lease_wf t \<Longrightarrow> lease_wf (fst (lease_take name w secs now t))"
  by (auto simp: lease_take_def lease_grant_def intro: lease_update_wf)

lemma lease_take_stale_wf: "lease_wf t \<Longrightarrow> lease_wf (fst (lease_take_stale name w secs now t))"
  by (auto simp: lease_take_stale_def lease_grant_def intro: lease_update_wf)

lemma lease_renew_wf: "lease_wf t \<Longrightarrow> lease_wf (fst (lease_renew now secs name w t))"
  by (auto simp: lease_renew_def intro: lease_update_wf)

lemma lease_release_wf: "lease_wf t \<Longrightarrow> lease_wf (fst (lease_release name w t))"
  by (simp add: lease_release_def lease_wf_def sql_delete_def distinct_map_filter)

lemma lease_insert_wf: "lease_wf t \<Longrightarrow> lease_insert name w secs now t = Some t' \<Longrightarrow> lease_wf t'"
  by (auto simp: lease_wf_def lease_insert_def split: if_splits)

lemma lease_row_holder:
  "lease_wf t \<Longrightarrow> r \<in> set t \<Longrightarrow>
     lease_holder t (wl_worker_name r) = Some (wl_owner_id r, wl_lease_until r)"
  by (auto simp: lease_holder_row)

lemma lease_holder_unique:
  "lease_wf t \<Longrightarrow> lease_holder t name = Some (w, u) \<Longrightarrow> r \<in> set t \<Longrightarrow> wl_worker_name r = name \<Longrightarrow>
     wl_owner_id r = w \<and> wl_lease_until r = u"
  using lease_row_holder by fastforce

lemma lease_take_owner:
  assumes "lease_wf t" and "snd (lease_take name w secs now t)" and "lease_holder t name = Some (w', u)"
  shows "w' = w \<or> u < now"
  using assms lease_holder_unique [OF assms(1,3)]
  by (auto simp: lease_take_def lease_takeable_def dest!: rowcount_Suc_0D)

lemma lease_take_stale_owner:
  assumes "lease_wf t" and "snd (lease_take_stale name w secs now t)" and "lease_holder t name = Some (w', u)"
  shows "u < now"
  using assms lease_holder_unique [OF assms(1,3)]
  by (auto simp: lease_take_stale_def lease_stale_def dest!: rowcount_Suc_0D)

lemma lease_renew_owner:
  "lease_wf t \<Longrightarrow> snd (lease_renew now secs name w t) \<Longrightarrow>
     \<exists>u. lease_holder t name = Some (w, u) \<and> now \<le> u"
  using lease_row_holder [of t]
  by (fastforce simp: lease_renew_def lease_renewable_def dest!: rowcount_Suc_0D)

lemma lease_release_owner:
  "lease_wf t \<Longrightarrow> snd (lease_release name w t) \<Longrightarrow> \<exists>u. lease_holder t name = Some (w, u)"
  by (auto simp: lease_release_def Let_def lease_holder_row dest!: rowcount_Suc_0D)

lemma lease_take_miss: "lease_wf t \<Longrightarrow> \<not> snd (lease_take name w secs now t) \<Longrightarrow> fst (lease_take name w secs now t) = t"
  unfolding lease_take_def lease_wf_def fst_conv snd_conv
  by (rule sql_update_none, rule rowcount_key_cases [where k = wl_worker_name]) (auto simp: lease_takeable_def)

lemmas lease_wf_intros = lease_take_wf lease_take_stale_wf lease_renew_wf lease_release_wf lease_insert_wf

lemma lease_acquire_cases:
  assumes "lease_wf t"
  obtains (taken) "snd (lease_take name w secs now t)" "lease_acquire now secs name w t = lease_take name w secs now t"
  | (inserted) t' where "lease_insert name w secs now t = Some t'" "lease_acquire now secs name w t = (t', True)"
  | (retried) "lease_acquire now secs name w t = lease_take_stale name w secs now t"
proof (cases "snd (lease_take name w secs now t)")
  case True
  then show ?thesis using taken by (simp add: lease_acquire_def split_beta prod_eq_iff)
next
  case False
  then have t1: "fst (lease_take name w secs now t) = t" using assms by (rule lease_take_miss [rotated])
  show ?thesis
  proof (cases "lease_insert name w secs now t")
    case None
    with False t1 show ?thesis using retried by (simp add: lease_acquire_def split_beta)
  next
    case (Some t')
    with False t1 show ?thesis using inserted by (simp add: lease_acquire_def split_beta)
  qed
qed

lemma lease_acquire_wf: "lease_wf t \<Longrightarrow> lease_wf (fst (lease_acquire now secs name w t))"
  by (cases rule: lease_acquire_cases [of t name w secs now])
    (simp_all add: lease_take_wf lease_take_stale_wf lease_insert_wf)

lemma lease_acquire_holder:
  assumes "lease_wf t"
  shows "lease_holder (fst (lease_acquire now secs name w t)) =
     (if snd (lease_acquire now secs name w t) then (lease_holder t)(name \<mapsto> (w, now + secs)) else lease_holder t)"
proof (cases rule: lease_acquire_cases [of t name w secs now, OF assms])
  case 1
  then show ?thesis using lease_take_holder [OF assms] by simp
next
  case (2 t')
  then show ?thesis using lease_insert_holder by simp
next
  case 3
  then show ?thesis using lease_take_stale_holder [OF assms] by simp
qed

lemma lease_acquire_guard:
  assumes "lease_wf t" and "snd (lease_acquire now secs name w t)" and "lease_holder t name = Some (w', u)"
  shows "w' = w \<or> u < now"
proof (cases rule: lease_acquire_cases [of t name w secs now, OF assms(1)])
  case 1
  then show ?thesis using lease_take_owner [OF assms(1)] assms by simp
next
  case (2 t')
  then show ?thesis using lease_insert_holder assms by fastforce
next
  case 3
  then show ?thesis using lease_take_stale_owner [OF assms(1)] assms by simp
qed

interpretation wl: lease_protocol lease_holder lease_wf lease_renew
  "\<lambda>now name owner. lease_release name owner" lease_acquire
  by unfold_locales
    (auto simp: lease_renew_wf lease_renew_holder lease_release_wf lease_release_holder lease_acquire_wf
      lease_acquire_holder dest: lease_renew_owner lease_release_owner lease_acquire_guard)


section \<open>Processes that interleave\<close>

text \<open>
  Any number of processes, named by their (unique) owner identifier, contend for the leases. A
  process reads the clock once when it enters \<open>acquire\<close> and uses that reading in all three
  statements, so its later statements run with a stale clock: \<open>AcqInsert\<close> and \<open>AcqRetry\<close>
  remember it. A step is labelled with the process that moves; the clock's own step has no label.
\<close>

datatype acquire_pc = AcqIdle | AcqInsert string int int | AcqRetry string int int

record lease_world =
  lw_rows :: "worker_lease list"
  lw_clock :: int
  lw_pc :: "string \<Rightarrow> acquire_pc"

inductive lease_step :: "string option \<Rightarrow> lease_world \<Rightarrow> lease_world \<Rightarrow> bool" where
  tick: "lw_clock x \<le> c \<Longrightarrow> lease_step None x (x\<lparr>lw_clock := c\<rparr>)"
| acquire_take: "lw_pc x p = AcqIdle \<Longrightarrow> lease_take name p secs (lw_clock x) (lw_rows x) = (t, True) \<Longrightarrow>
    lease_step (Some p) x (x\<lparr>lw_rows := t\<rparr>)"
| acquire_miss: "lw_pc x p = AcqIdle \<Longrightarrow> lease_take name p secs (lw_clock x) (lw_rows x) = (t, False) \<Longrightarrow>
    lease_step (Some p) x (x\<lparr>lw_rows := t, lw_pc := (lw_pc x)(p := AcqInsert name secs (lw_clock x))\<rparr>)"
| acquire_insert: "lw_pc x p = AcqInsert name secs now \<Longrightarrow> lease_insert name p secs now (lw_rows x) = Some t \<Longrightarrow>
    lease_step (Some p) x (x\<lparr>lw_rows := t, lw_pc := (lw_pc x)(p := AcqIdle)\<rparr>)"
| acquire_conflict: "lw_pc x p = AcqInsert name secs now \<Longrightarrow> lease_insert name p secs now (lw_rows x) = None \<Longrightarrow>
    lease_step (Some p) x (x\<lparr>lw_pc := (lw_pc x)(p := AcqRetry name secs now)\<rparr>)"
| acquire_retry: "lw_pc x p = AcqRetry name secs now \<Longrightarrow> lease_take_stale name p secs now (lw_rows x) = (t, b) \<Longrightarrow>
    lease_step (Some p) x (x\<lparr>lw_rows := t, lw_pc := (lw_pc x)(p := AcqIdle)\<rparr>)"
| renew: "lease_renew (lw_clock x) secs name p (lw_rows x) = (t, b) \<Longrightarrow>
    lease_step (Some p) x (x\<lparr>lw_rows := t\<rparr>)"
| release: "lease_release name p (lw_rows x) = (t, b) \<Longrightarrow> lease_step (Some p) x (x\<lparr>lw_rows := t\<rparr>)"

inductive_cases lease_step_tickE: "lease_step None x y"
inductive_cases lease_step_procE: "lease_step (Some p) x y"

definition lease_world_inv :: "lease_world \<Rightarrow> bool" where
  "lease_world_inv x \<longleftrightarrow> lease_wf (lw_rows x) \<and>
     (\<forall>p name secs now. lw_pc x p = AcqInsert name secs now \<or> lw_pc x p = AcqRetry name secs now
        \<longrightarrow> now \<le> lw_clock x)"

definition lease_init :: "int \<Rightarrow> lease_world" where
  "lease_init c = \<lparr>lw_rows = [], lw_clock = c, lw_pc = (\<lambda>_. AcqIdle)\<rparr>"

lemma lease_world_inv_init: "lease_world_inv (lease_init c)"
  by (simp add: lease_world_inv_def lease_init_def lease_wf_def)

lemma lease_step_inv: "lease_step l x y \<Longrightarrow> lease_world_inv x \<Longrightarrow> lease_world_inv y"
proof (induction rule: lease_step.induct)
  case (tick x c)
  then show ?case by (fastforce simp: lease_world_inv_def)
next
  case (acquire_take x p name secs t)
  then show ?case using lease_take_wf [of "lw_rows x" name p secs "lw_clock x"]
    by (auto simp: lease_world_inv_def)
next
  case (acquire_miss x p name secs t)
  then show ?case using lease_take_wf [of "lw_rows x" name p secs "lw_clock x"]
    by (auto simp: lease_world_inv_def)
next
  case (acquire_insert x p name secs now t)
  then show ?case by (auto simp: lease_world_inv_def lease_insert_wf)
next
  case (acquire_conflict x p name secs now)
  then show ?case by (auto simp: lease_world_inv_def)
next
  case (acquire_retry x p name secs now t b)
  then show ?case using lease_take_stale_wf [of "lw_rows x" name p secs now]
    by (auto simp: lease_world_inv_def)
next
  case (renew x secs name p t b)
  then show ?case using lease_renew_wf [of "lw_rows x" "lw_clock x" secs name p]
    by (auto simp: lease_world_inv_def)
next
  case (release name p x t b)
  then show ?case using lease_release_wf [of "lw_rows x" name p]
    by (auto simp: lease_world_inv_def)
qed

inductive lease_reachable :: "lease_world \<Rightarrow> bool" where
  start: "lease_reachable (lease_init c)"
| step: "lease_reachable x \<Longrightarrow> lease_step l x y \<Longrightarrow> lease_reachable y"

lemma lease_reachable_inv: "lease_reachable x \<Longrightarrow> lease_world_inv x"
  by (induction rule: lease_reachable.induct) (auto intro: lease_world_inv_init lease_step_inv)

text \<open>A step of another process never touches a lease that has not run out.\<close>

lemma foreign_step_keeps_holder:
  assumes inv: "lease_world_inv x" and st: "lease_step (Some p) x y" and "p \<noteq> w"
    and held: "lease_holder (lw_rows x) k = Some (w, u)" and "lw_clock x \<le> u"
  shows "lease_holder (lw_rows y) k = Some (w, u) \<and> lw_clock y = lw_clock x"
proof (cases rule: lease_step_procE [OF st, case_names take miss insert conflict retry renewal released])
  case (take name secs t)
  then show ?thesis
    using lease_take_holder [of "lw_rows x" name p secs "lw_clock x"]
      lease_take_owner [of "lw_rows x" name p secs "lw_clock x" w u] assms
    by (cases "name = k") (auto simp: lease_world_inv_def)
next
  case (miss name secs t)
  then show ?thesis using lease_take_holder [of "lw_rows x" name p secs "lw_clock x"] assms
    by (auto simp: lease_world_inv_def)
next
  case (insert name secs now t)
  then show ?thesis using lease_insert_holder [OF insert(3)] assms
    by (cases "name = k") auto
next
  case (conflict name secs now)
  then show ?thesis using assms by simp
next
  case (retry name secs now t b)
  then have nle: "now \<le> lw_clock x" using inv by (auto simp: lease_world_inv_def)
  have wf: "lease_wf (lw_rows x)" using inv by (simp add: lease_world_inv_def)
  show ?thesis
    using nle wf retry lease_take_stale_holder [of "lw_rows x" name p secs now]
      lease_take_stale_owner [of "lw_rows x" name p secs now w u] assms(3-5)
    by (cases "name = k"; cases b) auto
next
  case (renewal secs name t b)
  then show ?thesis
    using lease_renew_holder [of "lw_rows x" "lw_clock x" secs name p]
      lease_renew_owner [of "lw_rows x" "lw_clock x" secs name p] assms
    by (cases "name = k"; cases b) (auto simp: lease_world_inv_def)
next
  case (released name t b)
  then show ?thesis
    using lease_release_holder [of "lw_rows x" name p] lease_release_owner [of "lw_rows x" name p] assms
    by (cases "name = k"; cases b) (auto simp: lease_world_inv_def)
qed

text \<open>Runs in which every labelled step is one of another process.\<close>

inductive foreign_run :: "string \<Rightarrow> lease_world \<Rightarrow> lease_world \<Rightarrow> bool" for w where
  foreign_refl: "foreign_run w x x"
| foreign_step: "foreign_run w x y \<Longrightarrow> lease_step l y z \<Longrightarrow> l \<noteq> Some w \<Longrightarrow> foreign_run w x z"

lemma lease_step_clock: "lease_step l x y \<Longrightarrow> lw_clock x \<le> lw_clock y"
  by (induction rule: lease_step.induct) auto

lemma foreign_run_keeps_holder:
  assumes "foreign_run w x y" and "lease_world_inv x" and "lease_holder (lw_rows x) k = Some (w, u)"
    and "lw_clock y \<le> u"
  shows "lease_holder (lw_rows y) k = Some (w, u) \<and> lease_world_inv y"
  using assms
proof (induction rule: foreign_run.induct)
  case (foreign_refl x)
  then show ?case by simp
next
  case (foreign_step x y l z)
  from foreign_step.hyps(2) have "lw_clock y \<le> lw_clock z" by (rule lease_step_clock)
  with foreign_step have y: "lease_holder (lw_rows y) k = Some (w, u)" "lease_world_inv y" by auto
  have inv: "lease_world_inv z" by (rule lease_step_inv [OF foreign_step.hyps(2) y(2)])
  show ?case
  proof (cases l)
    case None
    with foreign_step.hyps(2) have "lw_rows z = lw_rows y" by (auto elim: lease_step_tickE)
    with y inv show ?thesis by simp
  next
    case (Some p)
    with foreign_step foreign_step_keeps_holder [OF y(2), of p z w k u] y inv \<open>lw_clock y \<le> lw_clock z\<close>
    show ?thesis by auto
  qed
qed

lemma lease_take_succeeds:
  assumes "lease_wf t" and "lease_holder t name = Some (w', u)" and "w' = w \<or> u < now"
  shows "snd (lease_take name w secs now t)"
proof -
  from assms(2) lease_holder_row [OF assms(1)] obtain r where
    "r \<in> set t" "wl_worker_name r = name" "wl_owner_id r = w'" "wl_lease_until r = u" by blast
  with assms(3) have "\<exists>r\<in>set t. lease_takeable name w now r" by (auto simp: lease_takeable_def)
  then have "rowcount (lease_takeable name w now) t = 1"
    using rowcount_key_eq_1 [of wl_worker_name t "lease_takeable name w now" name] assms(1)
    by (auto simp: lease_takeable_def lease_wf_def)
  then show ?thesis by (simp add: lease_take_def)
qed

lemma lease_acquire_outcome:
  assumes "lease_wf t"
  shows "snd (lease_acquire now secs name w t) \<longleftrightarrow>
      (case lease_holder t name of None \<Rightarrow> True | Some (w', u) \<Rightarrow> w' = w \<or> u < now)"
proof (cases "lease_holder t name")
  case None
  then have "\<forall>r\<in>set t. wl_worker_name r \<noteq> name"
    using lease_row_holder [OF assms] by fastforce
  then show ?thesis
    using None lease_take_miss [OF assms, of name w secs now]
    by (auto simp: lease_acquire_def Let_def split_beta lease_insert_def)
next
  case (Some h)
  obtain w' u where h: "h = (w', u)" by (cases h)
  have "snd (lease_acquire now secs name w t)" if "w' = w \<or> u < now"
    using lease_take_succeeds [OF assms] Some h that by (simp add: lease_acquire_def split_beta)
  then show ?thesis using lease_acquire_guard [OF assms, of now secs name w w' u] Some h by auto
qed

section \<open>Properties\<close>

text \<open>C12: In every reachable state of any number of interleaved processes, a process that holds a
  worker role keeps it until its deadline: whatever the other processes do (any statement of
  acquire, with a clock reading taken earlier, renewals, releases), the row still names the holder
  with the same deadline as long as the clock has not passed it.\<close>

theorem worker_lease_not_stolen:
  assumes "lease_reachable x" and "lease_holder (lw_rows x) name = Some (w, u)"
    and "foreign_run w x y" and "lw_clock y \<le> u"
  shows "lease_holder (lw_rows y) name = Some (w, u)"
  using foreign_run_keeps_holder [OF assms(3) lease_reachable_inv [OF assms(1)] assms(2,4)] by blast

theorem worker_lease_not_stolen_witness:
  "lease_holder (lw_rows ((lease_init 0)\<lparr>lw_rows := [\<lparr>wl_worker_name = ''general'', wl_owner_id = ''a'',
      wl_lease_until = 60, wl_updated_at = 0\<rparr>], lw_clock := 60\<rparr>)) ''general'' = Some (''a'', 60)"
proof -
  let ?r = "\<lparr>wl_worker_name = ''general'', wl_owner_id = ''a'', wl_lease_until = 60, wl_updated_at = 0\<rparr>"
  let ?x0 = "lease_init 0"
  let ?x1 = "?x0\<lparr>lw_rows := [], lw_pc := (lw_pc ?x0)(''a'' := AcqInsert ''general'' 60 0)\<rparr>"
  let ?x2 = "?x1\<lparr>lw_rows := [?r], lw_pc := (lw_pc ?x1)(''a'' := AcqIdle)\<rparr>"
  have "lease_step (Some ''a'') ?x0 (?x0\<lparr>lw_rows := [], lw_pc := (lw_pc ?x0)(''a'' := AcqInsert ''general'' 60 (lw_clock ?x0))\<rparr>)"
    by (rule acquire_miss) (simp_all add: lease_init_def lease_take_def sql_update_def rowcount_def)
  then have 1: "lease_step (Some ''a'') ?x0 ?x1" by (simp add: lease_init_def)
  have 2: "lease_step (Some ''a'') ?x1 ?x2"
    by (rule acquire_insert [where name = "''general''" and secs = 60 and now = 0])
      (simp_all add: lease_init_def lease_insert_def)
  have r: "lease_reachable ?x2" using 1 2 lease_reachable.start lease_reachable.step by blast
  have "lease_step None ?x2 (?x2\<lparr>lw_clock := 60\<rparr>)" by (rule tick) (simp add: lease_init_def)
  then have f: "foreign_run ''a'' ?x2 (?x2\<lparr>lw_clock := 60\<rparr>)"
    by (intro foreign_step [OF foreign_refl]) auto
  have "lease_holder (lw_rows (?x2\<lparr>lw_clock := 60\<rparr>)) ''general'' = Some (''a'', 60)"
    by (rule worker_lease_not_stolen [OF r _ f])
      (simp_all add: lease_holder_def key_view_def lease_attr_def)
  then show ?thesis by (simp add: lease_init_def)
qed

text \<open>What acquire does, on every branch: it succeeds exactly when the role is free, already
  its own, or held by a lease whose deadline lies strictly before the clock; on success the row
  names the caller until \<open>now + lease_seconds\<close>, on failure no lease changes.\<close>

theorem lease_acquire_correct:
  assumes "lease_wf t"
  shows "(snd (lease_acquire now secs name w t) \<longleftrightarrow>
      (case lease_holder t name of None \<Rightarrow> True | Some (w', u) \<Rightarrow> w' = w \<or> u < now)) \<and>
    lease_holder (fst (lease_acquire now secs name w t)) =
      (if snd (lease_acquire now secs name w t) then (lease_holder t)(name \<mapsto> (w, now + secs))
       else lease_holder t)"
  using lease_acquire_outcome [OF assms] lease_acquire_holder [OF assms] by blast

theorem lease_acquire_correct_witness:
  "snd (lease_acquire 61 60 ''general'' ''b''
     [\<lparr>wl_worker_name = ''general'', wl_owner_id = ''a'', wl_lease_until = 60, wl_updated_at = 0\<rparr>])"
  using lease_acquire_correct [of "[\<lparr>wl_worker_name = ''general'', wl_owner_id = ''a'',
      wl_lease_until = 60, wl_updated_at = 0\<rparr>]" 61 60 "''general''" "''b''"]
  by (simp add: lease_wf_def lease_holder_def key_view_def lease_attr_def)

text \<open>Two processes that try to take the same role while the first one's lease is running
  cannot both win, and a role is renewed only by its holder: the second attempt and every foreign
  renewal before the deadline report failure.\<close>

theorem worker_role_exclusive:
  assumes "lease_wf t" and "snd (lease_acquire now secs name w t)" and "w' \<noteq> w" and "now' \<le> now + secs"
  shows "\<not> snd (lease_acquire now' secs' name w' (fst (lease_acquire now secs name w t)))
       \<and> \<not> snd (lease_renew now' secs' name w' (fst (lease_acquire now secs name w t)))"
proof
  show "\<not> snd (lease_acquire now' secs' name w' (fst (lease_acquire now secs name w t)))"
    by (rule wl.no_second_winner [OF assms])
  show "\<not> snd (lease_renew now' secs' name w' (fst (lease_acquire now secs name w t)))"
    using lease_renew_owner [OF lease_acquire_wf [OF assms(1)], of now' secs' name w' now secs name w]
      lease_acquire_holder [OF assms(1), of now secs name w] assms(2,3) by auto
qed

theorem worker_role_exclusive_witness:
  "\<not> snd (lease_acquire 60 60 ''general'' ''b'' (fst (lease_acquire 0 60 ''general'' ''a'' [])))"
proof -
  have "snd (lease_acquire 0 60 ''general'' ''a'' [])"
    by (simp add: lease_acquire_def lease_take_def lease_insert_def sql_update_def)
  then show ?thesis
    using worker_role_exclusive [of "[]" 0 60 "''general''" "''a''" "''b''" 60 60] by (simp add: lease_wf_def)
qed

end
