(* ===== verification/Reply_Tables.thy ===== *)
theory Reply_Tables
  imports Prelude
begin

text \<open>
  The tables of the session reply queue (\<open>app/models/session_reply_work_item.py\<close>,
  \<open>app/models/session_reply_stream_event.py\<close>): work items, the per-session sequence counter,
  stream events, and the checkpoint store. Column \<open>c\<close> of a table is the record field with the
  table's prefix (\<open>wi_c\<close>, \<open>sq_c\<close>, \<open>se_c\<close>, \<open>cm_c\<close>, \<open>cr_c\<close>). Of the tables outside the queue that
  its statements read, \<open>chat_session\<close> is kept by its key columns and \<open>subagent_tool_call\<close> by its
  parent work identifier. Date-times are integers (seconds).
\<close>

datatype work_category_kind = C_FOREGROUND | C_SCHEDULED_TASK | C_SUBAGENT

datatype work_type = FOREGROUND_REPLY | CONFIRMED_TOOL_EXECUTION | BACKGROUND_TOOL_SUMMARY
  | BACKGROUND_TASK_RESUME | AGENT_WORK

datatype work_source = USER_MESSAGE | AUDIT_RECORD | BACKGROUND_TASK | SCHEDULED_TASK_RUN
  | PARENT_WORK | TOOL_RESULT

datatype work_status = W_READY_FOR_LLM | W_RUNNING | W_WAITING_EXTERNAL_WORK | W_MERGED
  | W_SUCCEEDED | W_FAILED | W_CANCELLED

definition SESSION_REPLY_ACTIVE_STATUSES :: "work_status set" where
  "SESSION_REPLY_ACTIVE_STATUSES = {W_READY_FOR_LLM, W_RUNNING, W_WAITING_EXTERNAL_WORK}"

definition SESSION_REPLY_TERMINAL_STATUSES :: "work_status set" where
  "SESSION_REPLY_TERMINAL_STATUSES = {W_MERGED, W_SUCCEEDED, W_FAILED, W_CANCELLED}"

lemma work_status_partition:
  "st \<notin> SESSION_REPLY_TERMINAL_STATUSES \<longleftrightarrow> st \<in> SESSION_REPLY_ACTIVE_STATUSES"
  by (cases st) (simp_all add: SESSION_REPLY_TERMINAL_STATUSES_def SESSION_REPLY_ACTIVE_STATUSES_def)

lemma terminal_status_simps [simp]:
  "W_MERGED \<in> SESSION_REPLY_TERMINAL_STATUSES" "W_SUCCEEDED \<in> SESSION_REPLY_TERMINAL_STATUSES"
  "W_FAILED \<in> SESSION_REPLY_TERMINAL_STATUSES" "W_CANCELLED \<in> SESSION_REPLY_TERMINAL_STATUSES"
  "W_READY_FOR_LLM \<notin> SESSION_REPLY_TERMINAL_STATUSES" "W_RUNNING \<notin> SESSION_REPLY_TERMINAL_STATUSES"
  "W_WAITING_EXTERNAL_WORK \<notin> SESSION_REPLY_TERMINAL_STATUSES"
  by (simp_all add: SESSION_REPLY_TERMINAL_STATUSES_def)

fun category_value :: "work_category_kind \<Rightarrow> string" where
  "category_value C_FOREGROUND = ''foreground''"
| "category_value C_SCHEDULED_TASK = ''scheduled_task''"
| "category_value C_SUBAGENT = ''subagent''"

definition parse_category :: "string \<Rightarrow> work_category_kind option" where
  "parse_category v = find (\<lambda>c. category_value c = v) [C_FOREGROUND, C_SCHEDULED_TASK, C_SUBAGENT]"

record work_item =
  wi_id :: int
  wi_uid :: string
  wi_session_id :: string
  wi_profile_id :: int
  wi_subagent_id :: "string option"
  wi_sequence_no :: int
  wi_work_type :: work_type
  wi_source_type :: work_source
  wi_source_id :: string
  wi_dedupe_key :: string
  wi_status :: work_status
  wi_merged_into_id :: "int option"
  wi_input_message_ids :: "int list option"
  wi_result_message_id :: "int option"
  wi_execution_state :: json
  wi_event_sent :: bool
  wi_locked_by :: "string option"
  wi_lock_until :: "int option"
  wi_attempt_count :: int
  wi_max_attempts :: int
  wi_available_at :: int
  wi_error :: "string option"
  wi_created_at :: int
  wi_updated_at :: int

text \<open>The Python property \<open>work_category\<close>: an unknown value raises \<open>ValueError\<close>.\<close>

definition work_category :: "work_item \<Rightarrow> py_error + work_category_kind" where
  "work_category w =
     (if wi_work_type w = AGENT_WORK
      then Inr (if wi_source_type w = PARENT_WORK then C_SUBAGENT else C_SCHEDULED_TASK)
      else case json_get (wi_execution_state w) ''work_category'' of
             None \<Rightarrow> Inr C_FOREGROUND
           | Some (JStr v) \<Rightarrow> (case parse_category v of Some c \<Rightarrow> Inr c | None \<Rightarrow> Inl (ValueError ''work_category''))
           | Some _ \<Rightarrow> Inl (ValueError ''work_category''))"

text \<open>The SQL expression of the same name, a string.\<close>

definition work_category_expression :: "work_item \<Rightarrow> string" where
  "work_category_expression w =
     (if wi_work_type w = AGENT_WORK
      then (if wi_source_type w = PARENT_WORK then category_value C_SUBAGENT else category_value C_SCHEDULED_TASK)
      else case json_as_string (json_get (wi_execution_state w) ''work_category'') of
             None \<Rightarrow> category_value C_FOREGROUND
           | Some v \<Rightarrow> v)"

lemma parse_category_value: "parse_category v = Some c \<Longrightarrow> category_value c = v"
  by (auto simp: parse_category_def split: if_splits)

lemma work_category_agrees:
  "work_category w = Inr c \<Longrightarrow> work_category_expression w = category_value c"
  by (auto simp: work_category_def work_category_expression_def dest: parse_category_value
      split: if_splits option.splits json.splits)

abbreviation is_foreground :: "work_item \<Rightarrow> bool" where
  "is_foreground w \<equiv> work_category_expression w = ''foreground''"

record reply_sequence =
  sq_session_id :: string
  sq_next_sequence_no :: int
  sq_updated_at :: int

record stream_event =
  se_id :: int
  se_work_id :: int
  se_sequence_no :: int
  se_event :: json
  se_created_at :: int

record work_checkpoint =
  wc_work_id :: int
  wc_checkpoint :: json

record checkpoint_message =
  cm_id :: int
  cm_uid :: string
  cm_session_id :: string
  cm_content_hash :: string
  cm_payload :: json

record checkpoint_reference =
  cr_work_id :: int
  cr_kind :: string
  cr_message_id :: int

record reply_db =
  rq_work :: "work_item list"
  rq_sequences :: "reply_sequence list"
  rq_events :: "stream_event list"
  rq_checkpoints :: "work_checkpoint list"
  rq_messages :: "checkpoint_message list"
  rq_references :: "checkpoint_reference list"
  rq_chat_sessions :: "(string \<times> string) list"
  rq_subagent_parents :: "int list"

text \<open>
  Deleting work items. The foreign keys of the stream events, checkpoints, checkpoint references
  and subagent calls are declared \<open>ON DELETE CASCADE\<close>.
\<close>

definition delete_work :: "(work_item \<Rightarrow> bool) \<Rightarrow> 'a reply_db_scheme \<Rightarrow> 'a reply_db_scheme" where
  "delete_work p d =
     (let gone = map wi_id (filter p (rq_work d))
      in d\<lparr>rq_work := sql_delete p (rq_work d),
           rq_events := sql_delete (\<lambda>e. se_work_id e \<in> set gone) (rq_events d),
           rq_checkpoints := sql_delete (\<lambda>c. wc_work_id c \<in> set gone) (rq_checkpoints d),
           rq_references := sql_delete (\<lambda>r. cr_work_id r \<in> set gone) (rq_references d),
           rq_subagent_parents := filter (\<lambda>i. i \<notin> set gone) (rq_subagent_parents d)\<rparr>)"

definition work_get :: "int \<Rightarrow> 'a reply_db_scheme \<Rightarrow> work_item option" where
  "work_get work_id d = find (\<lambda>w. wi_id w = work_id) (rq_work d)"

lemma work_get_Some: "work_get i d = Some w \<Longrightarrow> w \<in> set (rq_work d) \<and> wi_id w = i"
  unfolding work_get_def by (rule find_Some_iff_in)


section \<open>Concrete rows, for the witnesses\<close>

definition sample_work :: "int \<Rightarrow> int \<Rightarrow> work_item" where
  "sample_work i n = \<lparr>wi_id = i, wi_uid = ''u'', wi_session_id = ''s'', wi_profile_id = 1,
     wi_subagent_id = None, wi_sequence_no = n, wi_work_type = FOREGROUND_REPLY,
     wi_source_type = USER_MESSAGE, wi_source_id = ''7'', wi_dedupe_key = ''k'',
     wi_status = W_READY_FOR_LLM, wi_merged_into_id = None, wi_input_message_ids = None,
     wi_result_message_id = None, wi_execution_state = JObj [(''work_category'', JStr ''foreground'')],
     wi_event_sent = False, wi_locked_by = None, wi_lock_until = None, wi_attempt_count = 0,
     wi_max_attempts = 2, wi_available_at = 0, wi_error = None, wi_created_at = 0, wi_updated_at = 0\<rparr>"

definition sample_reply_db :: "work_item list \<Rightarrow> reply_db" where
  "sample_reply_db ws = \<lparr>rq_work = ws, rq_sequences = [], rq_events = [], rq_checkpoints = [],
     rq_messages = [], rq_references = [], rq_chat_sessions = [(''s'', ''u'')], rq_subagent_parents = []\<rparr>"

lemma sample_work_fields [simp]:
  "wi_id (sample_work i n) = i" "wi_sequence_no (sample_work i n) = n"
  "wi_session_id (sample_work i n) = ''s''" "wi_status (sample_work i n) = W_READY_FOR_LLM"
  "wi_locked_by (sample_work i n) = None" "wi_dedupe_key (sample_work i n) = ''k''"
  by (simp_all add: sample_work_def)

lemma sample_reply_db_fields [simp]:
  "rq_work (sample_reply_db ws) = ws" "rq_events (sample_reply_db ws) = []"
  "rq_sequences (sample_reply_db ws) = []" "rq_chat_sessions (sample_reply_db ws) = [(''s'', ''u'')]"
  by (simp_all add: sample_reply_db_def)

lemmas sample_defs = sample_work_def sample_reply_db_def

end
