(* ===== verification/Checkpoint_Store.thy ===== *)
theory Checkpoint_Store
  imports Reply_Tables
begin

text \<open>
  The checkpoint store of a work item (\<open>app/core/crud/session/reply_checkpoint_message.py\<close> and
  the checkpoint methods of \<open>app/core/crud/session/reply_work_item.py\<close>). Messages are stored once
  per user, session and content hash; a work item refers to them by identifier, separately for its
  checkpoint and its frozen context. The content hash (SHA-256 of the canonical JSON text) is a
  parameter \<open>hash\<close>; what the code relies on is that it tells different payloads apart
  (\<open>hash_separates\<close>). Statements run in batches of at most
  \<open>SESSION_REPLY_CHECKPOINT_BATCH_SIZE\<close> values.
\<close>

definition SESSION_REPLY_CHECKPOINT_BATCH_SIZE :: nat where
  "SESSION_REPLY_CHECKPOINT_BATCH_SIZE = 200"

definition ERR_SESSION_REPLY_CHECKPOINT_INVALID :: string where
  "ERR_SESSION_REPLY_CHECKPOINT_INVALID = ''ERR_SESSION_REPLY_CHECKPOINT_INVALID''"

definition ERR_SESSION_REPLY_WORK_NOT_FOUND :: string where
  "ERR_SESSION_REPLY_WORK_NOT_FOUND = ''ERR_SESSION_REPLY_WORK_NOT_FOUND''"

section \<open>Batches\<close>

function batches :: "nat \<Rightarrow> 'a list \<Rightarrow> 'a list list" where
  "batches n xs = (if xs = [] \<or> n = 0 then [] else take n xs # batches n (drop n xs))"
  by pat_completeness auto
termination
  by (relation "measure (\<lambda>(n, xs). length xs)") auto

declare batches.simps [simp del]

lemma batches_Nil [simp]: "batches n [] = []"
  by (simp add: batches.simps)

lemma concat_batches: "0 < n \<Longrightarrow> concat (batches n xs) = xs"
proof (induction n xs rule: batches.induct)
  case (1 n xs)
  then show ?case by (cases "xs = []") (simp_all add: batches.simps [of n xs])
qed

lemma batches_bound: "0 < n \<Longrightarrow> b \<in> set (batches n xs) \<Longrightarrow> length b \<le> n \<and> b \<noteq> []"
proof (induction n xs rule: batches.induct)
  case (1 n xs)
  then show ?case by (cases "xs = []") (auto simp: batches.simps [of n xs])
qed

section \<open>save\_groups\<close>

text \<open>The first occurrence of every hash, in order, with the payload it was first seen with.\<close>

fun collect_hashes :: "(json \<Rightarrow> string) \<Rightarrow> (string \<times> json) list \<Rightarrow> json list \<Rightarrow> (string \<times> json) list" where
  "collect_hashes hash acc [] = acc"
| "collect_hashes hash acc (p # ps) =
     (if hash p \<in> fst ` set acc then collect_hashes hash acc ps
      else collect_hashes hash (acc @ [(hash p, p)]) ps)"

text \<open>One \<open>SELECT id, content_hash ... WHERE content_hash IN batch\<close>, into the dictionary.\<close>

definition select_hashes ::
  "string \<Rightarrow> string \<Rightarrow> checkpoint_message list \<Rightarrow> string list \<Rightarrow> (string \<Rightarrow> int option) \<Rightarrow> (string \<Rightarrow> int option)" where
  "select_hashes uid sid ms batch m =
     fold (\<lambda>r m. m(cm_content_hash r \<mapsto> cm_id r))
       (filter (\<lambda>r. cm_session_id r = sid \<and> cm_uid r = uid \<and> cm_content_hash r \<in> set batch) ms) m"

definition lookup_hashes ::
  "string \<Rightarrow> string \<Rightarrow> checkpoint_message list \<Rightarrow> string list \<Rightarrow> (string \<Rightarrow> int option) \<Rightarrow> (string \<Rightarrow> int option)" where
  "lookup_hashes uid sid ms hs m =
     fold (select_hashes uid sid ms) (batches SESSION_REPLY_CHECKPOINT_BATCH_SIZE hs) m"

text \<open>\<open>INSERT ... ON CONFLICT (session_id, uid, content_hash) DO NOTHING\<close>, row by row.\<close>

definition insert_message ::
  "string \<Rightarrow> string \<Rightarrow> string \<times> json \<Rightarrow> checkpoint_message list \<Rightarrow> checkpoint_message list" where
  "insert_message uid sid hp ms =
     (if \<exists>r\<in>set ms. cm_session_id r = sid \<and> cm_uid r = uid \<and> cm_content_hash r = fst hp then ms
      else ms @ [\<lparr>cm_id = fresh_id cm_id ms, cm_uid = uid, cm_session_id = sid,
                  cm_content_hash = fst hp, cm_payload = snd hp\<rparr>])"

definition insert_missing ::
  "string \<Rightarrow> string \<Rightarrow> (string \<times> json) list \<Rightarrow> checkpoint_message list \<Rightarrow> checkpoint_message list" where
  "insert_missing uid sid rows ms =
     fold (\<lambda>b ms. fold (insert_message uid sid) b ms) (batches SESSION_REPLY_CHECKPOINT_BATCH_SIZE rows) ms"

fun resolve_group :: "(string \<Rightarrow> int option) \<Rightarrow> string list \<Rightarrow> int list option" where
  "resolve_group m [] = Some []"
| "resolve_group m (h # hs) =
     (case m h of None \<Rightarrow> None
      | Some i \<Rightarrow> (case resolve_group m hs of None \<Rightarrow> None | Some is \<Rightarrow> Some (i # is)))"

fun resolve_groups :: "(string \<Rightarrow> int option) \<Rightarrow> string list list \<Rightarrow> int list list option" where
  "resolve_groups m [] = Some []"
| "resolve_groups m (g # gs) =
     (case resolve_group m g of None \<Rightarrow> None
      | Some ids \<Rightarrow> (case resolve_groups m gs of None \<Rightarrow> None | Some idss \<Rightarrow> Some (ids # idss)))"

definition replace_references ::
  "int \<Rightarrow> string \<Rightarrow> int set \<Rightarrow> int list \<Rightarrow> checkpoint_reference list \<Rightarrow> checkpoint_reference list" where
  "replace_references work_id kind existing desired refs =
     (let removed = sql_delete (\<lambda>r. cr_work_id r = work_id \<and> cr_kind r = kind \<and>
                                    cr_message_id r \<in> existing - set desired) refs
      in removed @ map (\<lambda>i. \<lparr>cr_work_id = work_id, cr_kind = kind, cr_message_id = i\<rparr>)
                     (sort (remdups (filter (\<lambda>i. i \<notin> existing) desired))))"

definition save_groups ::
  "(json \<Rightarrow> string) \<Rightarrow> int \<Rightarrow> string \<Rightarrow> json list list \<Rightarrow> 'a reply_db_scheme
    \<Rightarrow> 'a reply_db_scheme \<times> (py_error + int list list)" where
  "save_groups hash work_id kind groups d =
     (case work_get work_id d of
        None \<Rightarrow> (d, Inl (ValueError ERR_SESSION_REPLY_WORK_NOT_FOUND))
      | Some w \<Rightarrow>
          let uid = wi_uid w; sid = wi_session_id w;
              existing = cr_message_id ` {r \<in> set (rq_references d). cr_work_id r = work_id \<and> cr_kind r = kind};
              hps = collect_hashes hash [] (concat groups);
              hash_order = map fst hps;
              group_hashes = map (map hash) groups;
              m0 = lookup_hashes uid sid (rq_messages d) hash_order Map.empty;
              missing = filter (\<lambda>hp. m0 (fst hp) = None) hps;
              ms = insert_missing uid sid missing (rq_messages d);
              m1 = lookup_hashes uid sid ms (map fst missing) m0;
              d1 = d\<lparr>rq_messages := ms\<rparr>
          in case resolve_groups m1 group_hashes of
               None \<Rightarrow> (d1, Inl (ValueError ERR_SESSION_REPLY_CHECKPOINT_INVALID))
             | Some ids \<Rightarrow>
                 (d1\<lparr>rq_references := replace_references work_id kind existing (concat ids) (rq_references d1)\<rparr>,
                  Inr ids))"

section \<open>load\_messages, references, cleanup\<close>

fun collect_ids :: "json list \<Rightarrow> int list option" where
  "collect_ids [] = Some []"
| "collect_ids (JInt i # js) =
     (if i \<le> 0 then None else case collect_ids js of None \<Rightarrow> None | Some is \<Rightarrow> Some (i # is))"
| "collect_ids (_ # js) = None"

definition select_payloads ::
  "string \<Rightarrow> string \<Rightarrow> checkpoint_message list \<Rightarrow> int list \<Rightarrow> (int \<Rightarrow> json option) \<Rightarrow> (int \<Rightarrow> json option)" where
  "select_payloads uid sid ms batch m =
     fold (\<lambda>r m. m(cm_id r \<mapsto> cm_payload r))
       (filter (\<lambda>r. cm_id r \<in> set batch \<and> cm_uid r = uid \<and> cm_session_id r = sid) ms) m"

text \<open>The identifiers arrive as JSON values of the stored checkpoint, not yet known to be integers.\<close>

definition load_messages :: "int \<Rightarrow> json list \<Rightarrow> 'a reply_db_scheme \<Rightarrow> py_error + json list" where
  "load_messages work_id message_ids d =
     (if message_ids = [] then Inr []
      else case work_get work_id d of
        None \<Rightarrow> Inl (ValueError ERR_SESSION_REPLY_WORK_NOT_FOUND)
      | Some w \<Rightarrow>
          (case collect_ids message_ids of
             None \<Rightarrow> Inl (ValueError ERR_SESSION_REPLY_CHECKPOINT_INVALID)
           | Some ids \<Rightarrow>
               let m = fold (select_payloads (wi_uid w) (wi_session_id w) (rq_messages d))
                         (batches SESSION_REPLY_CHECKPOINT_BATCH_SIZE (rev (remdups (rev ids)))) Map.empty
               in if \<exists>i\<in>set ids. m i = None then Inl (ValueError ERR_SESSION_REPLY_CHECKPOINT_INVALID)
                  else Inr (map (\<lambda>i. the (m i)) ids)))"

definition delete_references :: "int \<Rightarrow> string \<Rightarrow> 'a reply_db_scheme \<Rightarrow> 'a reply_db_scheme" where
  "delete_references work_id kind d =
     d\<lparr>rq_references := sql_delete (\<lambda>r. cr_work_id r = work_id \<and> cr_kind r = kind) (rq_references d)\<rparr>"

definition unreferenced :: "'a reply_db_scheme \<Rightarrow> checkpoint_message \<Rightarrow> bool" where
  "unreferenced d m \<longleftrightarrow> \<not> (\<exists>r\<in>set (rq_references d). cr_message_id r = cm_id m)"

definition cleanup_unreferenced :: "int \<Rightarrow> 'a reply_db_scheme \<Rightarrow> 'a reply_db_scheme \<times> nat" where
  "cleanup_unreferenced limit d =
     (if limit \<le> 0 then (d, 0)
      else let candidates = map cm_id (sql_limit limit (sort_key cm_id (filter (unreferenced d) (rq_messages d))));
               p = (\<lambda>m. cm_id m \<in> set candidates \<and> unreferenced d m)
           in if candidates = [] then (d, 0)
              else (d\<lparr>rq_messages := sql_delete p (rq_messages d)\<rparr>, rowcount p (rq_messages d)))"


section \<open>Checkpoints and frozen contexts of a work item\<close>

definition message_key :: "string \<Rightarrow> bool" where
  "message_key k \<longleftrightarrow> k = ''messages'' \<or> k = ''turn_messages''"

definition get_checkpoint_payload :: "int \<Rightarrow> 'a reply_db_scheme \<Rightarrow> json option" where
  "get_checkpoint_payload work_id d =
     map_option wc_checkpoint (find (\<lambda>c. wc_work_id c = work_id) (rq_checkpoints d))"

definition save_checkpoint_payload :: "int \<Rightarrow> json \<Rightarrow> 'a reply_db_scheme \<Rightarrow> 'a reply_db_scheme" where
  "save_checkpoint_payload work_id checkpoint d =
     (case get_checkpoint_payload work_id d of
        None \<Rightarrow> d\<lparr>rq_checkpoints := rq_checkpoints d @ [\<lparr>wc_work_id = work_id, wc_checkpoint = checkpoint\<rparr>]\<rparr>
      | Some existing \<Rightarrow>
          if existing = checkpoint then d
          else d\<lparr>rq_checkpoints := sql_update (\<lambda>c. wc_work_id c = work_id)
                                     (\<lambda>c. c\<lparr>wc_checkpoint := checkpoint\<rparr>) (rq_checkpoints d)\<rparr>)"

text \<open>Separates the message lists of a checkpoint from its other entries.\<close>

fun split_checkpoint ::
  "(string \<times> json) list \<Rightarrow> ((string \<times> json) list \<times> (string \<times> json list) list) option" where
  "split_checkpoint [] = Some ([], [])"
| "split_checkpoint ((k, v) # kvs) =
     (case split_checkpoint kvs of None \<Rightarrow> None
      | Some (light, groups) \<Rightarrow>
          if message_key k then (case v of JList ms \<Rightarrow> Some (light, (k, ms) # groups) | _ \<Rightarrow> None)
          else Some ((k, v) # light, groups))"

definition save_checkpoint ::
  "(json \<Rightarrow> string) \<Rightarrow> int \<Rightarrow> (string \<times> json) list \<Rightarrow> 'a reply_db_scheme
    \<Rightarrow> 'a reply_db_scheme \<times> (py_error + unit)" where
  "save_checkpoint hash work_id checkpoint d =
     (case split_checkpoint checkpoint of
        None \<Rightarrow> (d, Inl (ValueError ERR_SESSION_REPLY_CHECKPOINT_INVALID))
      | Some (light, groups) \<Rightarrow>
          (case save_groups hash work_id ''checkpoint'' (map snd groups) d of
             (d1, Inl e) \<Rightarrow> (d1, Inl e)
           | (d1, Inr ids) \<Rightarrow>
               (save_checkpoint_payload work_id
                  (JObj (light @ zip (map fst groups) (map (\<lambda>g. JList (map JInt g)) ids))) d1, Inr ())))"

definition save_checkpoint_metadata ::
  "int \<Rightarrow> (string \<times> json) list \<Rightarrow> 'a reply_db_scheme \<Rightarrow> 'a reply_db_scheme \<times> (py_error + unit)" where
  "save_checkpoint_metadata work_id metadata d =
     (if \<exists>kv\<in>set metadata. message_key (fst kv)
      then (d, Inl (ValueError ERR_SESSION_REPLY_CHECKPOINT_INVALID))
      else let kept = (case get_checkpoint_payload work_id d of
                         None \<Rightarrow> []
                       | Some old \<Rightarrow> concat (map (\<lambda>k. case json_get old k of None \<Rightarrow> [] | Some v \<Rightarrow> [(k, v)])
                                             [''messages'', ''turn_messages'']))
           in (save_checkpoint_payload work_id (JObj (kept @ metadata)) d, Inr ()))"

definition get_checkpoint_metadata :: "int \<Rightarrow> 'a reply_db_scheme \<Rightarrow> json option" where
  "get_checkpoint_metadata work_id d =
     map_option (\<lambda>c. JObj (filter (\<lambda>kv. \<not> message_key (fst kv)) (json_items c)))
       (get_checkpoint_payload work_id d)"

text \<open>The identifier lists of the message keys that are present, in the order of the code's loop.\<close>

fun stored_groups :: "json \<Rightarrow> string list \<Rightarrow> (string \<times> json list) list option" where
  "stored_groups c [] = Some []"
| "stored_groups c (k # ks) =
     (case stored_groups c ks of None \<Rightarrow> None
      | Some rest \<Rightarrow>
          (case json_get c k of None \<Rightarrow> Some rest
           | Some (JList ids) \<Rightarrow> Some ((k, ids) # rest)
           | Some _ \<Rightarrow> None))"

fun restore_groups :: "(string \<times> json list) list \<Rightarrow> json list \<Rightarrow> json \<Rightarrow> json" where
  "restore_groups [] loaded c = c"
| "restore_groups ((k, ids) # gs) loaded c =
     restore_groups gs (drop (length ids) loaded) (json_put k (JList (take (length ids) loaded)) c)"

definition get_checkpoint :: "int \<Rightarrow> 'a reply_db_scheme \<Rightarrow> py_error + json option" where
  "get_checkpoint work_id d =
     (case get_checkpoint_payload work_id d of
        None \<Rightarrow> Inr None
      | Some c \<Rightarrow>
          (case stored_groups c [''messages'', ''turn_messages''] of
             None \<Rightarrow> Inl TypeError
           | Some [] \<Rightarrow> Inr (Some c)
           | Some gs \<Rightarrow>
               (case load_messages work_id (concat (map snd gs)) d of
                  Inl e \<Rightarrow> Inl e
                | Inr loaded \<Rightarrow> Inr (Some (restore_groups gs loaded c)))))"

definition save_frozen_context ::
  "(json \<Rightarrow> string) \<Rightarrow> int \<Rightarrow> json list \<Rightarrow> 'a reply_db_scheme \<Rightarrow> 'a reply_db_scheme \<times> (py_error + int list)" where
  "save_frozen_context hash work_id messages d =
     (case save_groups hash work_id ''frozen'' [messages] d of
        (d1, Inl e) \<Rightarrow> (d1, Inl e)
      | (d1, Inr ids) \<Rightarrow> (d1, Inr (hd ids)))"

definition get_frozen_context :: "work_item \<Rightarrow> 'a reply_db_scheme \<Rightarrow> py_error + json list option" where
  "get_frozen_context w d =
     (case json_get (wi_execution_state w) ''frozen_context_message_ids'' of
        None \<Rightarrow> Inr None
      | Some (JList ids) \<Rightarrow>
          (case load_messages (wi_id w) ids d of Inl e \<Rightarrow> Inl e | Inr ms \<Rightarrow> Inr (Some ms))
      | Some _ \<Rightarrow> Inl TypeError)"

definition delete_checkpoint :: "int \<Rightarrow> 'a reply_db_scheme \<Rightarrow> 'a reply_db_scheme" where
  "delete_checkpoint work_id d =
     delete_references work_id ''checkpoint''
       (d\<lparr>rq_checkpoints := sql_delete (\<lambda>c. wc_work_id c = work_id) (rq_checkpoints d)\<rparr>)"

section \<open>The content-addressed store: invariant and lookup\<close>

definition message_row :: "string \<Rightarrow> string \<Rightarrow> string \<Rightarrow> checkpoint_message \<Rightarrow> bool" where
  "message_row uid sid h r \<longleftrightarrow> cm_session_id r = sid \<and> cm_uid r = uid \<and> cm_content_hash r = h"

definition store_wf :: "(json \<Rightarrow> string) \<Rightarrow> checkpoint_message list \<Rightarrow> bool" where
  "store_wf hash ms \<longleftrightarrow> distinct (map cm_id ms) \<and>
     distinct (map (\<lambda>r. (cm_session_id r, cm_uid r, cm_content_hash r)) ms) \<and>
     (\<forall>r\<in>set ms. 0 < cm_id r \<and> cm_content_hash r = hash (cm_payload r))"

definition hash_separates :: "(json \<Rightarrow> string) \<Rightarrow> json set \<Rightarrow> bool" where
  "hash_separates hash P \<longleftrightarrow> inj_on hash P"

definition message_id :: "string \<Rightarrow> string \<Rightarrow> checkpoint_message list \<Rightarrow> string \<Rightarrow> int option" where
  "message_id uid sid ms h = map_option cm_id (find (message_row uid sid h) ms)"

lemma fold_map_upd:
  "fold (\<lambda>r m. m(k r \<mapsto> v r)) rs m x =
     (case find (\<lambda>r. k r = x) (rev rs) of Some r \<Rightarrow> Some (v r) | None \<Rightarrow> m x)"
  by (induction rs arbitrary: m) (auto simp: find_append split: option.splits)

lemma unique_row_find:
  assumes "\<And>r r'. r \<in> set rs \<Longrightarrow> r' \<in> set rs \<Longrightarrow> p r \<Longrightarrow> p r' \<Longrightarrow> r = r'"
  shows "find p (rev rs) = find p rs"
proof (cases "find p rs")
  case None
  then have "\<forall>r\<in>set rs. \<not> p r" by (simp only: find_None_all)
  then have "find p (rev rs) = None" by (simp add: find_None_all)
  with None show ?thesis by (simp only:)
next
  case (Some r)
  then have r: "r \<in> set rs" "p r" using find_Some_iff_in by metis+
  then have "find p (rev rs) \<noteq> None" by (metis find_None_all set_rev)
  then obtain r' where "find p (rev rs) = Some r'" by auto
  with r assms Some show ?thesis using find_Some_iff_in [of p "rev rs" r'] by auto
qed

lemma store_row_unique:
  assumes "store_wf hash ms" and "r \<in> set ms" and "r' \<in> set ms"
    and "message_row uid sid h r" and "message_row uid sid h r'"
  shows "r = r'"
proof (rule distinct_key_eq [where k = "\<lambda>r. (cm_session_id r, cm_uid r, cm_content_hash r)"])
  show "distinct (map (\<lambda>r. (cm_session_id r, cm_uid r, cm_content_hash r)) ms)"
    using assms(1) by (simp add: store_wf_def)
qed (use assms in \<open>auto simp: message_row_def\<close>)

lemma find_filter_same:
  "(\<And>r. p r \<Longrightarrow> q r) \<Longrightarrow> find p (filter q xs) = find p xs"
  by (induction xs) auto

lemma select_hashes_eq:
  assumes "store_wf hash ms"
  shows "select_hashes uid sid ms batch m h =
    (if h \<in> set batch \<and> message_id uid sid ms h \<noteq> None then message_id uid sid ms h else m h)"
proof -
  let ?rs = "filter (\<lambda>r. cm_session_id r = sid \<and> cm_uid r = uid \<and> cm_content_hash r \<in> set batch) ms"
  have uni: "find (\<lambda>r. cm_content_hash r = h) (rev ?rs) = find (\<lambda>r. cm_content_hash r = h) ?rs"
    by (rule unique_row_find) (use store_row_unique [OF assms, of _ _ uid sid h] in \<open>auto simp: message_row_def\<close>)
  show ?thesis
  proof (cases "h \<in> set batch")
    case True
    have "find (\<lambda>r. cm_content_hash r = h) ?rs = find (message_row uid sid h) ms"
      using True by (induction ms) (auto simp: message_row_def)
    with True uni show ?thesis
      by (auto simp: select_hashes_def fold_map_upd message_id_def split: option.splits)
  next
    case False
    then have "find (\<lambda>r. cm_content_hash r = h) ?rs = None" by (auto simp: find_None_all)
    with False uni show ?thesis by (simp add: select_hashes_def fold_map_upd)
  qed
qed

lemma fold_select_hashes:
  assumes "store_wf hash ms"
  shows "fold (select_hashes uid sid ms) bs m h =
    (if h \<in> set (concat bs) \<and> message_id uid sid ms h \<noteq> None then message_id uid sid ms h else m h)"
  by (induction bs arbitrary: m) (auto simp: select_hashes_eq [OF assms])

lemma lookup_hashes_eq:
  assumes "store_wf hash ms"
  shows "lookup_hashes uid sid ms hs m h =
    (if h \<in> set hs \<and> message_id uid sid ms h \<noteq> None then message_id uid sid ms h else m h)"
  using concat_batches [of SESSION_REPLY_CHECKPOINT_BATCH_SIZE hs]
  by (simp add: lookup_hashes_def fold_select_hashes [OF assms] SESSION_REPLY_CHECKPOINT_BATCH_SIZE_def)

lemma insert_message_wf:
  assumes "store_wf hash ms" and "fst hp = hash (snd hp)"
  shows "store_wf hash (insert_message uid sid hp ms)"
proof (cases "\<exists>r\<in>set ms. message_row uid sid (fst hp) r")
  case True
  with assms show ?thesis by (simp add: insert_message_def message_row_def)
next
  case False
  have "0 < fresh_id cm_id ms"
    using fold_max_ge [of 0 "map cm_id ms"] by (simp add: fresh_id_def)
  with False assms fresh_id_not_in [of cm_id ms] show ?thesis
    by (auto simp: insert_message_def message_row_def store_wf_def)
qed

lemma insert_message_finds:
  "message_id uid sid (insert_message uid sid hp ms) (fst hp) \<noteq> None"
  by (auto simp: insert_message_def message_id_def message_row_def find_None_all find_append
      split: option.splits)

lemma insert_message_keeps:
  "message_id uid sid ms h = Some i \<Longrightarrow> message_id uid sid (insert_message uid' sid' hp ms) h = Some i"
  by (auto simp: insert_message_def message_id_def find_append split: option.splits)

lemma insert_message_mono: "set ms \<subseteq> set (insert_message uid sid hp ms)"
  by (auto simp: insert_message_def)

lemma fold_concat_batches: "fold (\<lambda>b. fold f b) bs x = fold f (concat bs) x"
  by (induction bs arbitrary: x) auto

lemma insert_missing_flat: "insert_missing uid sid rows ms = fold (insert_message uid sid) rows ms"
  using concat_batches [of SESSION_REPLY_CHECKPOINT_BATCH_SIZE rows]
  by (simp add: insert_missing_def fold_concat_batches SESSION_REPLY_CHECKPOINT_BATCH_SIZE_def)

lemma insert_missing_keeps:
  "message_id uid sid ms h = Some i \<Longrightarrow> message_id uid sid (insert_missing uid' sid' rows ms) h = Some i"
  unfolding insert_missing_flat by (induction rows arbitrary: ms) (auto simp: insert_message_keeps)

lemma insert_missing_mono: "set ms \<subseteq> set (insert_missing uid sid rows ms)"
  unfolding insert_missing_flat
proof (induction rows arbitrary: ms)
  case (Cons a rows)
  then show ?case using insert_message_mono [of ms uid sid a] by fastforce
qed simp

lemma insert_missing_wf:
  "store_wf hash ms \<Longrightarrow> \<forall>hp\<in>set rows. fst hp = hash (snd hp) \<Longrightarrow> store_wf hash (insert_missing uid sid rows ms)"
  unfolding insert_missing_flat by (induction rows arbitrary: ms) (auto intro: insert_message_wf)

lemma insert_missing_finds:
  "hp \<in> set rows \<Longrightarrow> message_id uid sid (insert_missing uid sid rows ms) (fst hp) \<noteq> None"
  unfolding insert_missing_flat
proof (induction rows arbitrary: ms)
  case Nil
  then show ?case by simp
next
  case (Cons a rows)
  show ?case
  proof (cases "hp = a")
    case True
    then obtain i where "message_id uid sid (insert_message uid sid a ms) (fst hp) = Some i"
      using insert_message_finds by fastforce
    then show ?thesis using insert_missing_keeps [of uid sid _ "fst hp" i uid sid rows]
      by (simp add: insert_missing_flat)
  next
    case False
    with Cons show ?thesis by simp
  qed
qed

lemma collect_hashes_hash:
  "\<forall>hp\<in>set acc. fst hp = hash (snd hp) \<Longrightarrow> \<forall>hp\<in>set (collect_hashes hash acc ps). fst hp = hash (snd hp)"
  by (induction hash acc ps rule: collect_hashes.induct) auto

lemma collect_hashes_fst: "fst ` set (collect_hashes hash acc ps) = fst ` set acc \<union> hash ` set ps"
  by (induction hash acc ps rule: collect_hashes.induct) auto

lemma resolve_group_total:
  "\<forall>h\<in>set hs. m h \<noteq> None \<Longrightarrow> resolve_group m hs = Some (map (\<lambda>h. the (m h)) hs)"
  by (induction hs) auto

lemma resolve_groups_total:
  "\<forall>h\<in>set (concat gs). m h \<noteq> None \<Longrightarrow> resolve_groups m gs = Some (map (map (\<lambda>h. the (m h))) gs)"
  by (induction gs) (auto simp: resolve_group_total)


section \<open>Saving and loading\<close>

text \<open>The messages table after a save and the dictionary the identifiers are read from.\<close>

lemma save_groups_table:
  fixes d :: "'a reply_db_scheme" and groups :: "json list list"
  assumes wf: "store_wf hash (rq_messages d)" and w: "work_get work_id d = Some w"
  defines "ms' \<equiv> insert_missing (wi_uid w) (wi_session_id w)
      (filter (\<lambda>hp. lookup_hashes (wi_uid w) (wi_session_id w) (rq_messages d)
          (map fst (collect_hashes hash [] (concat groups))) Map.empty (fst hp) = None)
        (collect_hashes hash [] (concat groups))) (rq_messages d)"
  defines "ids \<equiv> map (map (\<lambda>p. the (message_id (wi_uid w) (wi_session_id w) ms' (hash p)))) groups"
  shows "store_wf hash ms'" and "set (rq_messages d) \<subseteq> set ms'"
    and "\<forall>p\<in>set (concat groups). message_id (wi_uid w) (wi_session_id w) ms' (hash p) \<noteq> None"
    and "save_groups hash work_id kind groups d =
      (d\<lparr>rq_messages := ms',
         rq_references := replace_references work_id kind
           (cr_message_id ` {r \<in> set (rq_references d). cr_work_id r = work_id \<and> cr_kind r = kind})
           (concat ids) (rq_references d)\<rparr>, Inr ids)"
proof -
  let ?uid = "wi_uid w" and ?sid = "wi_session_id w" and ?ms = "rq_messages d"
  let ?hps = "collect_hashes hash [] (concat groups)"
  let ?m0 = "lookup_hashes ?uid ?sid ?ms (map fst ?hps) Map.empty"
  let ?missing = "filter (\<lambda>hp. ?m0 (fst hp) = None) ?hps"
  let ?m1 = "lookup_hashes ?uid ?sid ms' (map fst ?missing) ?m0"
  have hp: "\<forall>hp\<in>set ?hps. fst hp = hash (snd hp)" by (rule collect_hashes_hash) simp
  have fs: "fst ` set ?hps = hash ` set (concat groups)" by (simp add: collect_hashes_fst)
  show wf': "store_wf hash ms'" unfolding ms'_def by (rule insert_missing_wf [OF wf]) (use hp in auto)
  show "set ?ms \<subseteq> set ms'" unfolding ms'_def by (rule insert_missing_mono)
  have m0: "?m0 h = (if h \<in> fst ` set ?hps then message_id ?uid ?sid ?ms h else None)" for h
    by (simp add: lookup_hashes_eq [OF wf])
  have found: "message_id ?uid ?sid ms' h \<noteq> None" and m1: "?m1 h = message_id ?uid ?sid ms' h"
    if h: "h \<in> fst ` set ?hps" for h
  proof -
    from h obtain hq where hq: "hq \<in> set ?hps" "h = fst hq" by blast
    show f: "message_id ?uid ?sid ms' h \<noteq> None"
    proof (cases "?m0 h")
      case None
      with hq have "hq \<in> set ?missing" by simp
      then show ?thesis unfolding ms'_def hq(2) by (rule insert_missing_finds)
    next
      case (Some i)
      with h m0 have "message_id ?uid ?sid ?ms h = Some i" by simp
      then show ?thesis unfolding ms'_def by (simp add: insert_missing_keeps)
    qed
    show "?m1 h = message_id ?uid ?sid ms' h"
    proof (cases "?m0 h")
      case None
      with hq have "h \<in> fst ` set ?missing" by force
      with f show ?thesis by (simp add: lookup_hashes_eq [OF wf'])
    next
      case (Some i)
      with h m0 have "message_id ?uid ?sid ?ms h = Some i" by simp
      then have "message_id ?uid ?sid ms' h = Some i" unfolding ms'_def by (rule insert_missing_keeps)
      with Some show ?thesis by (auto simp: lookup_hashes_eq [OF wf'])
    qed
  qed
  show "\<forall>p\<in>set (concat groups). message_id ?uid ?sid ms' (hash p) \<noteq> None"
    using found fs by blast
  have m1': "?m1 (hash p) = message_id ?uid ?sid ms' (hash p)" and f1: "?m1 (hash p) \<noteq> None"
    if "g \<in> set groups" and "p \<in> set g" for g p
  proof -
    from that fs have "hash p \<in> fst ` set ?hps" by auto
    then show "?m1 (hash p) = message_id ?uid ?sid ms' (hash p)" and "?m1 (hash p) \<noteq> None"
      using found m1 by simp_all
  qed
  have "\<forall>h\<in>set (concat (map (map hash) groups)). ?m1 h \<noteq> None" using f1 by fastforce
  then have "resolve_groups ?m1 (map (map hash) groups) = Some (map (map (\<lambda>h. the (?m1 h))) (map (map hash) groups))"
    by (rule resolve_groups_total)
  also have "map (map (\<lambda>h. the (?m1 h))) (map (map hash) groups) = ids"
    unfolding ids_def map_map o_def using m1' by (intro map_cong refl) simp
  finally show "save_groups hash work_id kind groups d =
      (d\<lparr>rq_messages := ms',
         rq_references := replace_references work_id kind
           (cr_message_id ` {r \<in> set (rq_references d). cr_work_id r = work_id \<and> cr_kind r = kind})
           (concat ids) (rq_references d)\<rparr>, Inr ids)"
    using w by (simp add: save_groups_def Let_def ms'_def [symmetric])
qed

lemma load_messages_cong:
  "rq_messages d = rq_messages d' \<Longrightarrow> rq_work d = rq_work d' \<Longrightarrow>
     load_messages work_id js d = load_messages work_id js d'"
  by (auto simp: load_messages_def work_get_def split: option.splits)

lemma collect_ids_JInt: "\<forall>i\<in>set is. 0 < i \<Longrightarrow> collect_ids (map JInt is) = Some is"
  by (induction "is") auto

lemma select_payloads_eq:
  assumes "distinct (map cm_id ms)"
  shows "select_payloads uid sid ms batch m i =
    (case find (\<lambda>r. cm_id r = i \<and> cm_uid r = uid \<and> cm_session_id r = sid) ms of
       Some r \<Rightarrow> if i \<in> set batch then Some (cm_payload r) else m i
     | None \<Rightarrow> m i)"
proof -
  let ?rs = "filter (\<lambda>r. cm_id r \<in> set batch \<and> cm_uid r = uid \<and> cm_session_id r = sid) ms"
  have uni: "find (\<lambda>r. cm_id r = i) (rev ?rs) = find (\<lambda>r. cm_id r = i) ?rs"
    by (rule unique_row_find) (use distinct_key_eq [OF assms] in auto)
  have "find (\<lambda>r. cm_id r = i) ?rs = (if i \<in> set batch
      then find (\<lambda>r. cm_id r = i \<and> cm_uid r = uid \<and> cm_session_id r = sid) ms else None)"
    by (induction ms) auto
  with uni show ?thesis by (auto simp: select_payloads_def fold_map_upd split: option.splits)
qed

lemma fold_select_payloads:
  assumes "distinct (map cm_id ms)"
  shows "fold (select_payloads uid sid ms) bs m i =
    (case find (\<lambda>r. cm_id r = i \<and> cm_uid r = uid \<and> cm_session_id r = sid) ms of
       Some r \<Rightarrow> if i \<in> set (concat bs) then Some (cm_payload r) else m i
     | None \<Rightarrow> m i)"
  by (induction bs arbitrary: m) (auto simp: select_payloads_eq [OF assms] split: option.splits)

text \<open>A load returns the stored payloads in the order of the identifiers, duplicates included.\<close>

lemma load_messages_stored:
  assumes wf: "store_wf hash (rq_messages d)" and w: "work_get work_id d = Some w"
    and rows: "\<forall>i\<in>set is. \<exists>r\<in>set (rq_messages d). cm_id r = i \<and> cm_uid r = wi_uid w \<and>
        cm_session_id r = wi_session_id w \<and> cm_payload r = f i"
  shows "load_messages work_id (map JInt is) d = Inr (map f is)"
proof (cases "is = []")
  case True
  then show ?thesis by (simp add: load_messages_def)
next
  case False
  let ?bs = "batches SESSION_REPLY_CHECKPOINT_BATCH_SIZE (rev (remdups (rev is)))"
  let ?m = "fold (select_payloads (wi_uid w) (wi_session_id w) (rq_messages d)) ?bs Map.empty"
  have dist: "distinct (map cm_id (rq_messages d))" using wf by (simp add: store_wf_def)
  have pos: "\<forall>i\<in>set is. 0 < i" using rows wf by (fastforce simp: store_wf_def)
  have cb: "concat ?bs = rev (remdups (rev is))"
    by (rule concat_batches) (simp add: SESSION_REPLY_CHECKPOINT_BATCH_SIZE_def)
  have m: "?m i = Some (f i)" if i: "i \<in> set is" for i
  proof -
    from rows i obtain r where r: "r \<in> set (rq_messages d)" "cm_id r = i" "cm_uid r = wi_uid w"
      "cm_session_id r = wi_session_id w" "cm_payload r = f i" by blast
    then obtain r' where r': "find (\<lambda>r. cm_id r = i \<and> cm_uid r = wi_uid w \<and> cm_session_id r = wi_session_id w)
        (rq_messages d) = Some r'"
      using find_ex [OF r(1), of "\<lambda>r. cm_id r = i \<and> cm_uid r = wi_uid w \<and> cm_session_id r = wi_session_id w"]
      by auto
    with distinct_key_eq [OF dist, of r' r] r find_Some_iff_in [OF r'] have "r' = r" by auto
    with r' r i show ?thesis by (simp add: fold_select_payloads [OF dist] cb)
  qed
  with False pos w show ?thesis
    by (auto simp: load_messages_def collect_ids_JInt Let_def intro!: map_cong)
qed


section \<open>A saved checkpoint is restored\<close>

lemma insert_missing_payloads:
  "cm_payload ` set (insert_missing uid sid rows ms) \<subseteq> cm_payload ` set ms \<union> snd ` set rows"
  unfolding insert_missing_flat
proof (induction rows arbitrary: ms)
  case (Cons hp rows)
  have "cm_payload ` set (insert_message uid sid hp ms) \<subseteq> cm_payload ` set ms \<union> {snd hp}"
    by (auto simp: insert_message_def)
  with Cons [of "insert_message uid sid hp ms"] show ?case by auto
qed simp

lemma collect_hashes_snd: "snd ` set (collect_hashes hash acc ps) \<subseteq> snd ` set acc \<union> set ps"
  by (induction hash acc ps rule: collect_hashes.induct) auto

text \<open>
  Saving message groups: it succeeds, keeps the store's invariant, and every payload of a group is
  found under the identifier returned for it.
\<close>

lemma save_groups_correct:
  assumes wf: "store_wf hash (rq_messages d)" and w: "work_get work_id d = Some w"
    and sep: "hash_separates hash (cm_payload ` set (rq_messages d) \<union> set (concat groups))"
  obtains F ms' refs where
    "save_groups hash work_id kind groups d =
       (d\<lparr>rq_messages := ms', rq_references := refs\<rparr>, Inr (map (map F) groups))"
    and "store_wf hash ms'" and "set (rq_messages d) \<subseteq> set ms'"
    and "\<And>is. set is \<subseteq> set (concat groups) \<Longrightarrow>
       load_messages work_id (map JInt (map F is)) (d\<lparr>rq_messages := ms', rq_references := refs\<rparr>) = Inr is"
proof -
  let ?uid = "wi_uid w" and ?sid = "wi_session_id w"
  note tab = save_groups_table [OF wf w, where groups = groups]
  obtain ms' refs where
    sg: "save_groups hash work_id kind groups d = (d\<lparr>rq_messages := ms', rq_references := refs\<rparr>,
       Inr (map (map (\<lambda>p. the (message_id ?uid ?sid ms' (hash p)))) groups))"
    and wf': "store_wf hash ms'" and sub: "set (rq_messages d) \<subseteq> set ms'"
    and found: "\<forall>p\<in>set (concat groups). message_id ?uid ?sid ms' (hash p) \<noteq> None"
    and pay: "cm_payload ` set ms' \<subseteq> cm_payload ` set (rq_messages d) \<union> set (concat groups)"
  proof -
    let ?rows = "filter (\<lambda>hp. lookup_hashes ?uid ?sid (rq_messages d)
        (map fst (collect_hashes hash [] (concat groups))) Map.empty (fst hp) = None)
        (collect_hashes hash [] (concat groups))"
    have "snd ` set ?rows \<subseteq> snd ` set (collect_hashes hash [] (concat groups))"
      by (rule image_mono) (rule filter_is_subset)
    also have "\<dots> \<subseteq> set (concat groups)" using collect_hashes_snd [of hash "[]" "concat groups"] by simp
    finally have "cm_payload ` set (insert_missing ?uid ?sid ?rows (rq_messages d))
        \<subseteq> cm_payload ` set (rq_messages d) \<union> set (concat groups)"
      using insert_missing_payloads [of ?uid ?sid ?rows "rq_messages d"] by (rule order_trans [rotated, OF Un_mono [OF subset_refl]])
    from that [OF tab(4) tab(1-3) this] show thesis .
  qed
  let ?F = "\<lambda>p. the (message_id ?uid ?sid ms' (hash p))"
  let ?d = "d\<lparr>rq_messages := ms', rq_references := refs\<rparr>"
  have row: "\<exists>r\<in>set ms'. cm_id r = ?F p \<and> cm_uid r = ?uid \<and> cm_session_id r = ?sid \<and> cm_payload r = p"
    if p: "p \<in> set (concat groups)" for p
  proof -
    from found p obtain r where fr: "find (message_row ?uid ?sid (hash p)) ms' = Some r"
      by (auto simp: message_id_def)
    from find_Some_iff_in [OF fr] fr
    have r: "r \<in> set ms'" "message_row ?uid ?sid (hash p) r" "?F p = cm_id r"
      by (simp_all add: message_id_def)
    then have "hash (cm_payload r) = hash p" using wf' by (simp add: store_wf_def message_row_def)
    moreover have "cm_payload r \<in> cm_payload ` set (rq_messages d) \<union> set (concat groups)"
      using pay r(1) by blast
    ultimately have "cm_payload r = p"
      using sep p unfolding hash_separates_def by (metis UnI2 inj_onD)
    with r show ?thesis by (auto simp: message_row_def)
  qed
  have load: "load_messages work_id (map JInt (map ?F is)) ?d = Inr is"
    if "set is \<subseteq> set (concat groups)" for "is"
  proof -
    define g where "g i = cm_payload (the (find (\<lambda>r. cm_id r = i) ms'))" for i
    have g: "g (?F p) = p" if "p \<in> set (concat groups)" for p
    proof -
      from row [OF that] obtain r where r: "r \<in> set ms'" "cm_id r = ?F p" "cm_payload r = p" by blast
      have "distinct (map cm_id ms')" using wf' by (simp add: store_wf_def)
      from distinct_key_find [OF this r(1)] r show ?thesis by (simp add: g_def)
    qed
    have "load_messages work_id (map JInt (map ?F is)) ?d = Inr (map g (map ?F is))"
    proof (rule load_messages_stored [where hash = hash and w = w])
      show "store_wf hash (rq_messages ?d)" using wf' by simp
      show "work_get work_id ?d = Some w" using w by (simp add: work_get_def)
      show "\<forall>i\<in>set (map ?F is). \<exists>r\<in>set (rq_messages ?d). cm_id r = i \<and> cm_uid r = ?uid \<and>
          cm_session_id r = ?sid \<and> cm_payload r = g i"
      proof
        fix i
        assume "i \<in> set (map ?F is)"
        then obtain p where p: "p \<in> set is" "i = ?F p" by auto
        with that have pin: "p \<in> set (concat groups)" by blast
        from row [OF pin] obtain r where "r \<in> set ms'" "cm_id r = ?F p" "cm_uid r = ?uid"
          "cm_session_id r = ?sid" "cm_payload r = p" by blast
        with g [OF pin] p(2) show "\<exists>r\<in>set (rq_messages ?d). cm_id r = i \<and> cm_uid r = ?uid \<and>
          cm_session_id r = ?sid \<and> cm_payload r = g i" by auto
      qed
    qed
    also have "map g (map ?F is) = is" unfolding map_map o_def by (rule map_idI) (use g that in blast)
    finally show ?thesis .
  qed
  from that [OF sg wf' sub load] show thesis .
qed

lemma split_checkpoint_ok:
  assumes "split_checkpoint kvs = Some (light, groups)"
  shows "(\<forall>k. map_of kvs k = (if message_key k then map_option JList (map_of groups k) else map_of light k))
    \<and> (\<forall>k. message_key k \<longrightarrow> map_of light k = None)
    \<and> (\<forall>k. \<not> message_key k \<longrightarrow> map_of groups k = None)"
  using assms
proof (induction kvs arbitrary: light groups)
  case Nil
  then show ?case by auto
next
  case (Cons kv kvs)
  obtain k v where kv: "kv = (k, v)" by (cases kv)
  with Cons.prems obtain l g where s: "split_checkpoint kvs = Some (l, g)"
    by (auto split: option.splits)
  with Cons.prems kv Cons.IH [OF s] show ?case
    by (auto split: if_splits json.splits)
qed

lemma restore_groups_get:
  assumes "distinct (map fst gs)" and "\<forall>g\<in>set gs. length (f g) = length (snd g)" and "json_is_dict c"
  shows "json_get (restore_groups gs (concat (map f gs)) c) k =
    (case map_of gs k of Some ids \<Rightarrow> Some (JList (f (k, ids))) | None \<Rightarrow> json_get c k)"
  using assms
proof (induction gs arbitrary: c)
  case Nil
  then show ?case by simp
next
  case (Cons g gs)
  obtain k' ids where g: "g = (k', ids)" by (cases g)
  have dict: "json_is_dict (json_put k' (JList (f g)) c)" by (simp add: json_put_def)
  have "map_of gs k' = None" using Cons.prems(1) g by (simp add: map_of_eq_None_iff)
  with Cons.IH [OF _ _ dict] Cons.prems g show ?case by (auto split: option.splits)
qed




section \<open>References and cleanup\<close>

lemma replace_references_set:
  assumes "existing = cr_message_id ` {r \<in> set refs. cr_work_id r = work_id \<and> cr_kind r = kind}"
  shows "r \<in> set (replace_references work_id kind existing desired refs) \<longleftrightarrow>
    (if cr_work_id r = work_id \<and> cr_kind r = kind then cr_message_id r \<in> set desired else r \<in> set refs)"
proof -
  have eq: "r \<in> set refs" if "cr_work_id r = work_id" "cr_kind r = kind" "cr_message_id r \<in> existing"
  proof -
    from that(3) assms obtain r' where "r' \<in> set refs" "cr_work_id r' = work_id" "cr_kind r' = kind"
      "cr_message_id r' = cr_message_id r" by auto
    with that show ?thesis by (metis checkpoint_reference.equality old.unit.exhaust)
  qed
  have ex: "cr_message_id r \<in> existing" if "r \<in> set refs" "cr_work_id r = work_id" "cr_kind r = kind"
    using that assms by blast
  have rec: "r = \<lparr>cr_work_id = a, cr_kind = b, cr_message_id = c\<rparr> \<longleftrightarrow>
      cr_work_id r = a \<and> cr_kind r = b \<and> cr_message_id r = c" for a b c
    by (cases r) auto
  show ?thesis
    using eq ex by (auto simp: replace_references_def Let_def image_iff rec)
qed

text \<open>Saving the messages of a work item makes its references of that kind exactly the
  identifiers that were returned, leaves the references of every other work item and kind alone,
  and removes no stored message, so checkpoints of other work items stay loadable.\<close>

theorem save_groups_references:
  assumes "store_wf hash (rq_messages d)" and "work_get work_id d = Some w"
  shows "\<exists>d' ids. save_groups hash work_id kind groups d = (d', Inr ids) \<and>
    {cr_message_id r | r. r \<in> set (rq_references d') \<and> cr_work_id r = work_id \<and> cr_kind r = kind} = set (concat ids) \<and>
    (\<forall>r. cr_work_id r \<noteq> work_id \<or> cr_kind r \<noteq> kind \<longrightarrow> (r \<in> set (rq_references d') \<longleftrightarrow> r \<in> set (rq_references d))) \<and>
    set (rq_messages d) \<subseteq> set (rq_messages d') \<and> rq_work d' = rq_work d"
proof -
  let ?ex = "cr_message_id ` {r \<in> set (rq_references d). cr_work_id r = work_id \<and> cr_kind r = kind}"
  obtain ms' ids where sg: "save_groups hash work_id kind groups d = (d\<lparr>rq_messages := ms',
         rq_references := replace_references work_id kind ?ex (concat ids) (rq_references d)\<rparr>, Inr ids)"
    and sub: "set (rq_messages d) \<subseteq> set ms'"
    using save_groups_table(2,4) [OF assms] by blast
  let ?refs = "replace_references work_id kind ?ex (concat ids) (rq_references d)"
  have "i \<in> set (concat ids) \<longleftrightarrow>
      (\<exists>r. i = cr_message_id r \<and> r \<in> set ?refs \<and> cr_work_id r = work_id \<and> cr_kind r = kind)" for i
  proof
    show "\<exists>r. i = cr_message_id r \<and> r \<in> set ?refs \<and> cr_work_id r = work_id \<and> cr_kind r = kind"
      if "i \<in> set (concat ids)"
      by (rule exI [of _ "\<lparr>cr_work_id = work_id, cr_kind = kind, cr_message_id = i\<rparr>"])
        (use that in \<open>simp add: replace_references_set [OF refl]\<close>)
  qed (auto simp: replace_references_set [OF refl])
  then have "{cr_message_id r | r. r \<in> set ?refs \<and> cr_work_id r = work_id \<and> cr_kind r = kind} = set (concat ids)"
    by (simp only: set_eq_iff mem_Collect_eq) blast
  with sg sub show ?thesis by (simp add: replace_references_set [OF refl])
qed

theorem save_groups_references_witness:
  "\<exists>d' ids. save_groups (\<lambda>_. ''h'') 3 ''frozen'' [[JInt 1]] (sample_reply_db [sample_work 3 1]) = (d', Inr ids) \<and>
    {cr_message_id r | r. r \<in> set (rq_references d') \<and> cr_work_id r = 3 \<and> cr_kind r = ''frozen''} = set (concat ids)"
  using save_groups_references [of "\<lambda>_. ''h''" "sample_reply_db [sample_work 3 1]" 3 "sample_work 3 1" "''frozen''" "[[JInt 1]]"]
  by (auto simp: sample_defs store_wf_def work_get_def)

lemma cleanup_unreferenced_bound:
  assumes "distinct (map cm_id (rq_messages d))"
  shows "int (snd (cleanup_unreferenced n d)) \<le> max 0 n"
proof -
  let ?c = "map cm_id (sql_limit n (sort_key cm_id (filter (unreferenced d) (rq_messages d))))"
  have "rowcount (\<lambda>m. cm_id m \<in> set ?c \<and> unreferenced d m) (rq_messages d) \<le> nat n"
    using assms by (rule rowcount_limit_bound) blast
  then show ?thesis by (auto simp: cleanup_unreferenced_def Let_def)
qed

text \<open>The garbage collection of stored messages never removes a message that a checkpoint or a
  frozen context still refers to, removes nothing else than messages, and removes at most
  \<open>limit\<close> rows.\<close>

theorem cleanup_keeps_referenced:
  assumes "distinct (map cm_id (rq_messages d))"
  shows "(\<forall>m\<in>set (rq_messages d). \<not> unreferenced d m \<longrightarrow> m \<in> set (rq_messages (fst (cleanup_unreferenced n d)))) \<and>
    set (rq_messages (fst (cleanup_unreferenced n d))) \<subseteq> set (rq_messages d) \<and>
    rq_references (fst (cleanup_unreferenced n d)) = rq_references d \<and>
    int (snd (cleanup_unreferenced n d)) \<le> max 0 n"
  using cleanup_unreferenced_bound [OF assms, of n]
  by (auto simp: cleanup_unreferenced_def Let_def split: if_splits)

theorem cleanup_keeps_referenced_witness:
  "int (snd (cleanup_unreferenced 1 (sample_reply_db []))) \<le> 1"
  using cleanup_keeps_referenced [of "sample_reply_db []" 1] by (simp add: sample_reply_db_def)

end
