(* ===== verification/Reply_Queue.thy ===== *)
theory Reply_Queue
  imports Checkpoint_Store Lease_Interface
begin

text \<open>
  The operations of \<open>CRUDSessionReplyWorkItem\<close> (\<open>app/core/crud/session/reply_work_item.py\<close>):
  the queue from which reply workers claim work. Every method is a function on the database
  session; \<open>now\<close> is the reading of \<open>int(time.time())\<close> and \<open>lt\<close> the one of \<open>get_local_time()\<close>,
  both in seconds. A claimed work item is \<open>RUNNING\<close>, names its worker in \<open>locked_by\<close> and expires at
  \<open>lock_until\<close>.
\<close>

definition ERR_SESSION_REPLY_DEDUPLICATION_FAILED :: string where
  "ERR_SESSION_REPLY_DEDUPLICATION_FAILED = ''ERR_SESSION_REPLY_DEDUPLICATION_FAILED''"

definition ERR_SESSION_REPLY_AUDIT_EXECUTION_UNKNOWN :: string where
  "ERR_SESSION_REPLY_AUDIT_EXECUTION_UNKNOWN = ''ERR_SESSION_REPLY_AUDIT_EXECUTION_UNKNOWN''"

definition ERR_SESSION_REPLY_LEASE_LOST :: string where
  "ERR_SESSION_REPLY_LEASE_LOST = ''ERR_SESSION_REPLY_LEASE_LOST''"

definition SESSION_REPLY_ACTIVE_AUDIT_EXECUTION_KEY :: string where
  "SESSION_REPLY_ACTIVE_AUDIT_EXECUTION_KEY = ''active_audit_execution''"

definition interactive_types :: "work_type set" where
  "interactive_types = {FOREGROUND_REPLY, CONFIRMED_TOOL_EXECUTION}"

definition background_summary_types :: "work_type set" where
  "background_summary_types = {BACKGROUND_TOOL_SUMMARY, BACKGROUND_TASK_RESUME}"

text \<open>An \<open>UPDATE\<close> of the work table: the new session and the row count.\<close>

definition update_work ::
  "(work_item \<Rightarrow> bool) \<Rightarrow> (work_item \<Rightarrow> work_item) \<Rightarrow> 'a reply_db_scheme dbsession
    \<Rightarrow> 'a reply_db_scheme dbsession \<times> nat" where
  "update_work p f s =
     (execute (\<lambda>d. d\<lparr>rq_work := sql_update p f (rq_work d)\<rparr>) s, rowcount p (rq_work (cur s)))"

lemma update_work_fields [simp]:
  "rq_work (cur (fst (update_work p f s))) = sql_update p f (rq_work (cur s))"
  "snd (update_work p f s) = rowcount p (rq_work (cur s))"
  "saved (fst (update_work p f s)) = saved s"
  "work_claim (fst (update_work p f s)) = work_claim s"
  by (simp_all add: update_work_def)

lemma update_work_eqD:
  "update_work p f s = (s1, n) \<Longrightarrow> rq_work (cur s1) = sql_update p f (rq_work (cur s)) \<and>
     n = rowcount p (rq_work (cur s)) \<and> saved s1 = saved s"
  by (auto simp: update_work_def)

section \<open>Queries\<close>

definition get_by_dedupe_key :: "string \<Rightarrow> 'a reply_db_scheme \<Rightarrow> work_item option" where
  "get_by_dedupe_key key d = find (\<lambda>w. wi_dedupe_key w = key) (rq_work d)"

definition get_by_input_message :: "string \<Rightarrow> string \<Rightarrow> int \<Rightarrow> (int \<Rightarrow> string) \<Rightarrow> 'a reply_db_scheme \<Rightarrow> work_item option" where
  \<comment> \<open>\<open>str\<close> is Python's decimal rendering of the identifier\<close>
  "get_by_input_message uid sid mid str d =
     find (\<lambda>w. wi_uid w = uid \<and> wi_session_id w = sid \<and>
        (wi_work_type w = FOREGROUND_REPLY \<and> wi_source_type w = USER_MESSAGE \<and> wi_source_id w = str mid \<or>
         wi_work_type w = CONFIRMED_TOOL_EXECUTION \<and>
           json_as_int (json_get (wi_execution_state w) ''decision_message_id'') = Some mid)) (rq_work d)"

definition has_active_interactive_work :: "string \<Rightarrow> string \<Rightarrow> 'a reply_db_scheme \<Rightarrow> bool" where
  "has_active_interactive_work uid sid d \<longleftrightarrow>
     (\<exists>w\<in>set (rq_work d). wi_uid w = uid \<and> wi_session_id w = sid \<and> wi_work_type w \<in> interactive_types \<and>
        wi_status w \<in> SESSION_REPLY_ACTIVE_STATUSES)"

definition list_recent_http_for_sessions ::
  "string \<Rightarrow> bool \<Rightarrow> string list \<Rightarrow> nat \<Rightarrow> int \<Rightarrow> 'a reply_db_scheme \<Rightarrow> work_item list" where
  "list_recent_http_for_sessions uid is_admin session_ids limit_per_session lt d =
     (let common = (\<lambda>w. wi_session_id w \<in> set session_ids \<and> wi_work_type w \<in> interactive_types \<and>
            json_as_string (json_get (wi_execution_state w) ''message_source'') = Some ''http'' \<and>
            (is_admin \<or> wi_uid w = uid));
          recent = filter (\<lambda>w. common w \<and> wi_status w \<in> SESSION_REPLY_TERMINAL_STATUSES \<and>
            lt - 24 * 3600 \<le> wi_updated_at w) (rq_work d);
          row_number = (\<lambda>w. 1 + rowcount (\<lambda>v. wi_session_id v = wi_session_id w \<and>
            wi_sequence_no w < wi_sequence_no v) recent);
          ranked = map wi_id (filter (\<lambda>w. row_number w \<le> limit_per_session) recent)
      in if session_ids = [] then []
         else rev (sort_key (\<lambda>w. (wi_session_id w, wi_sequence_no w))
           (filter (\<lambda>w. common w \<and>
              (wi_status w \<in> SESSION_REPLY_ACTIVE_STATUSES \<or> wi_id w \<in> set ranked)) (rq_work d))))"

definition unseen_turn :: "int \<Rightarrow> 'a reply_db_scheme \<Rightarrow> work_item \<Rightarrow> bool" where
  "unseen_turn history_message_id d w \<longleftrightarrow>
     (\<exists>e\<in>set (rq_events d). se_work_id e = wi_id w \<and>
        json_as_string (json_get (se_event e) ''type'') = Some ''turn_end'' \<and>
        null_gt (json_as_int (json_get (se_event e) ''message_id'')) history_message_id)"

definition get_next_for_session_resume ::
  "string \<Rightarrow> string \<Rightarrow> int \<Rightarrow> int \<Rightarrow> bool \<Rightarrow> 'a reply_db_scheme \<Rightarrow> work_item option" where
  "get_next_for_session_resume uid sid history_message_id after_sequence_no interactive_only d =
     (let visible = (\<lambda>w. wi_status w \<in> SESSION_REPLY_ACTIVE_STATUSES \<or>
            null_gt (wi_result_message_id w) history_message_id \<or> unseen_turn history_message_id d w \<or>
            interactive_only \<and> wi_status w = W_CANCELLED \<and> wi_result_message_id w = None);
          rows = filter (\<lambda>w. wi_uid w = uid \<and> wi_session_id w = sid \<and> after_sequence_no < wi_sequence_no w \<and>
            wi_status w \<noteq> W_MERGED \<and> (interactive_only \<longrightarrow> wi_work_type w \<in> interactive_types) \<and>
            visible w) (rq_work d)
      in case sort_key (\<lambda>w. (wi_sequence_no w, wi_id w)) rows of [] \<Rightarrow> None | w # _ \<Rightarrow> Some w)"

definition has_nonterminal_predecessor :: "work_item \<Rightarrow> 'a reply_db_scheme \<Rightarrow> py_error + bool" where
  "has_nonterminal_predecessor work d =
     (case work_category work of
        Inl e \<Rightarrow> Inl e
      | Inr c \<Rightarrow>
          if c \<noteq> C_FOREGROUND then Inr False
          else Inr (\<exists>w\<in>set (rq_work d). wi_uid w = wi_uid work \<and> wi_session_id w = wi_session_id work \<and>
                 wi_sequence_no w < wi_sequence_no work \<and> is_foreground w \<and>
                 wi_status w \<notin> SESSION_REPLY_TERMINAL_STATUSES \<and> wi_status w \<noteq> W_WAITING_EXTERNAL_WORK))"

section \<open>Enqueueing\<close>

definition allocate_sequence_no ::
  "string \<Rightarrow> int \<Rightarrow> 'a reply_db_scheme \<Rightarrow> (py_error + 'a reply_db_scheme \<times> int)" where
  "allocate_sequence_no sid lt d =
     (case find (\<lambda>q. sq_session_id q = sid) (rq_sequences d) of
        Some q \<Rightarrow>
          Inr (d\<lparr>rq_sequences := sql_update (\<lambda>q. sq_session_id q = sid)
                 (\<lambda>q. q\<lparr>sq_next_sequence_no := sq_next_sequence_no q + 1, sq_updated_at := lt\<rparr>) (rq_sequences d)\<rparr>,
               (sq_next_sequence_no q + 1) - 1)
      | None \<Rightarrow>
          if \<exists>c\<in>set (rq_chat_sessions d). fst c = sid
          then Inr (d\<lparr>rq_sequences := rq_sequences d @
                 [\<lparr>sq_session_id = sid, sq_next_sequence_no = 2, sq_updated_at = lt\<rparr>]\<rparr>, 2 - 1)
          else Inl IntegrityError)"

record enqueue_args =
  eq_uid :: string
  eq_session_id :: string
  eq_profile_id :: int
  eq_work_type :: work_type
  eq_source_type :: work_source
  eq_source_id :: string
  eq_dedupe_key :: string
  eq_work_category :: "work_category_kind option"

definition resolved_work_category :: "enqueue_args \<Rightarrow> work_category_kind" where
  "resolved_work_category a =
     (case eq_work_category a of
        Some c \<Rightarrow> c
      | None \<Rightarrow> if eq_work_type a = AGENT_WORK
                then (if eq_source_type a = PARENT_WORK then C_SUBAGENT else C_SCHEDULED_TASK)
                else C_FOREGROUND)"

definition new_work_item :: "enqueue_args \<Rightarrow> int \<Rightarrow> int \<Rightarrow> int \<Rightarrow> int \<Rightarrow> work_item" where
  "new_work_item a i seq now lt =
     \<lparr>wi_id = i, wi_uid = eq_uid a, wi_session_id = eq_session_id a, wi_profile_id = eq_profile_id a,
      wi_subagent_id = None, wi_sequence_no = seq, wi_work_type = eq_work_type a,
      wi_source_type = eq_source_type a, wi_source_id = eq_source_id a, wi_dedupe_key = eq_dedupe_key a,
      wi_status = W_READY_FOR_LLM, wi_merged_into_id = None, wi_input_message_ids = None,
      wi_result_message_id = None,
      wi_execution_state = JObj [(''work_category'', JStr (category_value (resolved_work_category a)))],
      wi_event_sent = False, wi_locked_by = None, wi_lock_until = None, wi_attempt_count = 0,
      wi_max_attempts = 2, wi_available_at = now, wi_error = None, wi_created_at = lt, wi_updated_at = lt\<rparr>"

definition enqueue ::
  "enqueue_args \<Rightarrow> bool \<Rightarrow> int \<Rightarrow> int \<Rightarrow> 'a reply_db_scheme dbsession
    \<Rightarrow> 'a reply_db_scheme dbsession \<times> (py_error + work_item \<times> bool)" where
  "enqueue a do_commit now lt s =
     (let savepoint = cur s
      in case allocate_sequence_no (eq_session_id a) lt savepoint of
           Inl e \<Rightarrow> (s, Inl e)
         | Inr (d1, seq) \<Rightarrow>
             if get_by_dedupe_key (eq_dedupe_key a) d1 \<noteq> None
             then (case get_by_dedupe_key (eq_dedupe_key a) savepoint of
                     None \<Rightarrow> (s, Inl (RuntimeError ERR_SESSION_REPLY_DEDUPLICATION_FAILED))
                   | Some w \<Rightarrow> (commit_if do_commit s, Inr (w, False)))
             else if (eq_session_id a, eq_uid a) \<notin> set (rq_chat_sessions d1) \<or>
                     (\<exists>w\<in>set (rq_work d1). wi_session_id w = eq_session_id a \<and> wi_sequence_no w = seq)
             then (s, Inl IntegrityError)
             else let w = new_work_item a (fresh_id wi_id (rq_work d1)) seq now lt
                  in (commit_if do_commit (s\<lparr>cur := d1\<lparr>rq_work := rq_work d1 @ [w]\<rparr>\<rparr>), Inr (w, True)))"

section \<open>Claiming\<close>

definition running_now :: "int \<Rightarrow> work_item \<Rightarrow> bool" where
  "running_now now w \<longleftrightarrow> wi_status w = W_RUNNING \<and> null_gt (wi_lock_until w) now"

definition independent_running_count :: "int \<Rightarrow> work_item list \<Rightarrow> nat" where
  "independent_running_count now ws = rowcount (\<lambda>v. \<not> is_foreground v \<and> running_now now v) ws"

definition profile_running_count :: "work_category_kind \<Rightarrow> int \<Rightarrow> int \<Rightarrow> work_item list \<Rightarrow> nat" where
  "profile_running_count c profile_id now ws =
     rowcount (\<lambda>v. wi_profile_id v = profile_id \<and> work_category_expression v = category_value c \<and>
       running_now now v) ws"

definition profile_limit :: "(int \<times> int) list \<Rightarrow> int \<Rightarrow> int" where
  "profile_limit limits profile_id = (case map_of limits profile_id of None \<Rightarrow> 4 | Some l \<Rightarrow> l)"

record claim_args =
  ca_worker_id :: string
  ca_lease_seconds :: int
  ca_scheduled_limits :: "(int \<times> int) list"
  ca_independent_only :: "bool option"
  ca_max_concurrency :: int
  ca_subagent_limits :: "(int \<times> int) list"
  ca_exclude :: "int list"

definition claim_condition :: "claim_args \<Rightarrow> int \<Rightarrow> work_item list \<Rightarrow> work_item \<Rightarrow> bool" where
  "claim_condition a now ws w \<longleftrightarrow>
     wi_status w = W_READY_FOR_LLM \<and> wi_available_at w \<le> now \<and>
     (is_foreground w \<or> int (independent_running_count now ws) < ca_max_concurrency a) \<and>
     (work_category_expression w \<noteq> category_value C_SCHEDULED_TASK \<or>
        int (profile_running_count C_SCHEDULED_TASK (wi_profile_id w) now ws)
          < profile_limit (ca_scheduled_limits a) (wi_profile_id w)) \<and>
     (work_category_expression w \<noteq> category_value C_SUBAGENT \<or>
        int (profile_running_count C_SUBAGENT (wi_profile_id w) now ws)
          < profile_limit (ca_subagent_limits a) (wi_profile_id w)) \<and>
     (case ca_independent_only a of None \<Rightarrow> True | Some False \<Rightarrow> is_foreground w | Some True \<Rightarrow> \<not> is_foreground w) \<and>
     wi_id w \<notin> set (ca_exclude a) \<and>
     (\<not> is_foreground w \<or>
        \<not> (\<exists>v\<in>set ws. wi_session_id v = wi_session_id w \<and> wi_sequence_no v < wi_sequence_no w \<and>
             is_foreground v \<and> wi_status v \<notin> SESSION_REPLY_TERMINAL_STATUSES \<and>
             wi_status v \<noteq> W_WAITING_EXTERNAL_WORK)) \<and>
     (\<not> is_foreground w \<or>
        \<not> (\<exists>v\<in>set ws. wi_session_id v = wi_session_id w \<and> is_foreground v \<and> running_now now v))"

definition claim_candidate :: "claim_args \<Rightarrow> int \<Rightarrow> work_item list \<Rightarrow> int option" where
  "claim_candidate a now ws =
     (case sort_key (\<lambda>w. (wi_created_at w, wi_id w)) (filter (claim_condition a now ws) ws) of
        [] \<Rightarrow> None | w # _ \<Rightarrow> Some (wi_id w))"

definition grant_claim :: "string \<Rightarrow> int \<Rightarrow> int \<Rightarrow> int \<Rightarrow> work_item \<Rightarrow> work_item" where
  "grant_claim worker_id lease_seconds now lt w =
     w\<lparr>wi_status := W_RUNNING, wi_locked_by := Some worker_id, wi_lock_until := Some (now + lease_seconds),
       wi_attempt_count := wi_attempt_count w + 1, wi_updated_at := lt\<rparr>"

definition claim_next ::
  "claim_args \<Rightarrow> int \<Rightarrow> int \<Rightarrow> 'a reply_db_scheme dbsession \<Rightarrow> 'a reply_db_scheme dbsession \<times> work_item option" where
  "claim_next a now lt s =
     (let candidate = claim_candidate a now (rq_work (cur s));
          p = (\<lambda>w. Some (wi_id w) = candidate \<and> wi_status w = W_READY_FOR_LLM);
          f = grant_claim (ca_worker_id a) (ca_lease_seconds a) now lt;
          claimed = map f (filter p (rq_work (cur s)))
      in (commit (fst (update_work p f s)), case claimed of [] \<Rightarrow> None | w # _ \<Rightarrow> Some w))"

section \<open>Leases of claimed work\<close>

definition claimed_by :: "int \<Rightarrow> string \<Rightarrow> work_item \<Rightarrow> bool" where
  "claimed_by work_id worker_id w \<longleftrightarrow>
     wi_id w = work_id \<and> wi_status w = W_RUNNING \<and> wi_locked_by w = Some worker_id"

definition get_active_claims :: "(int \<times> string) list \<Rightarrow> 'a reply_db_scheme \<Rightarrow> (int \<times> string) set" where
  "get_active_claims claims d =
     (if claims = [] then {}
      else set (concat (map (\<lambda>w. case wi_locked_by w of None \<Rightarrow> []
             | Some x \<Rightarrow> if wi_status w = W_RUNNING \<and> (wi_id w, x) \<in> set claims then [(wi_id w, x)] else [])
             (rq_work d))))"

definition renew_active_claims ::
  "(int \<times> string) list \<Rightarrow> int \<Rightarrow> int \<Rightarrow> int \<Rightarrow> 'a reply_db_scheme dbsession
    \<Rightarrow> 'a reply_db_scheme dbsession \<times> (int \<times> string) set" where
  "renew_active_claims claims lease_seconds now lt s =
     (let active = get_active_claims claims (cur s)
      in if active = {} then (s, active)
         else (commit (fst (update_work
                 (\<lambda>w. (case wi_locked_by w of None \<Rightarrow> False | Some x \<Rightarrow> (wi_id w, x) \<in> active) \<and> wi_status w = W_RUNNING)
                 (\<lambda>w. w\<lparr>wi_lock_until := Some (now + lease_seconds), wi_updated_at := lt\<rparr>) s)), active))"

definition list_ready_agent_profile_ids :: "'a reply_db_scheme \<Rightarrow> int set" where
  "list_ready_agent_profile_ids d =
     set (map wi_profile_id (filter (\<lambda>w. wi_status w = W_READY_FOR_LLM \<and> \<not> is_foreground w) (rq_work d)))"

definition work_renew_lease ::
  "int \<Rightarrow> int \<Rightarrow> int \<Rightarrow> int \<Rightarrow> string \<Rightarrow> 'a reply_db_scheme dbsession \<Rightarrow> 'a reply_db_scheme dbsession \<times> bool" where
  "work_renew_lease lt now lease_seconds work_id worker_id s =
     (let (s1, n) = update_work (claimed_by work_id worker_id)
            (\<lambda>w. w\<lparr>wi_lock_until := Some (now + lease_seconds), wi_updated_at := lt\<rparr>) s
      in (commit s1, n = 1))"

definition release_for_retry ::
  "int \<Rightarrow> string \<Rightarrow> int \<Rightarrow> int \<Rightarrow> int \<Rightarrow> string \<Rightarrow> 'a reply_db_scheme dbsession \<Rightarrow> 'a reply_db_scheme dbsession \<times> bool" where
  "release_for_retry lt error delay_seconds now work_id worker_id s =
     (let (s1, n) = update_work (claimed_by work_id worker_id)
            (\<lambda>w. w\<lparr>wi_status := W_READY_FOR_LLM, wi_locked_by := None, wi_lock_until := None,
                   wi_available_at := now + delay_seconds, wi_error := Some error, wi_updated_at := lt\<rparr>) s
      in (commit s1, n = 1))"

definition update_claimed ::
  "(json \<Rightarrow> string) \<Rightarrow> int \<Rightarrow> string \<Rightarrow> (work_item \<Rightarrow> work_item) \<Rightarrow> (string \<times> json) list option \<Rightarrow> bool \<Rightarrow> int
    \<Rightarrow> 'a reply_db_scheme dbsession \<Rightarrow> 'a reply_db_scheme dbsession \<times> (py_error + bool)" where
  "update_claimed hash work_id worker_id values checkpoint do_commit lt s =
     (let (s1, n) = update_work (claimed_by work_id worker_id) (\<lambda>w. (values w)\<lparr>wi_updated_at := lt\<rparr>) s;
          claimed = (n = 1)
      in case (if claimed then checkpoint else None) of
           None \<Rightarrow> (commit_if do_commit s1, Inr claimed)
         | Some cp \<Rightarrow>
             (case save_checkpoint hash work_id cp (cur s1) of
                (d, Inl e) \<Rightarrow> (s1\<lparr>cur := d\<rparr>, Inl e)
              | (d, Inr _) \<Rightarrow> (commit_if do_commit (s1\<lparr>cur := d\<rparr>), Inr claimed)))"

definition terminal_values ::
  "work_status \<Rightarrow> int option \<Rightarrow> string option \<Rightarrow> bool option \<Rightarrow> work_item \<Rightarrow> work_item" where
  "terminal_values status result_message_id error event_sent w =
     (let w1 = w\<lparr>wi_status := status, wi_result_message_id := result_message_id, wi_error := error,
                 wi_locked_by := None, wi_lock_until := None\<rparr>
      in case event_sent of None \<Rightarrow> w1 | Some b \<Rightarrow> w1\<lparr>wi_event_sent := b\<rparr>)"

definition mark_terminal ::
  "(json \<Rightarrow> string) \<Rightarrow> int \<Rightarrow> string \<Rightarrow> work_status \<Rightarrow> int option \<Rightarrow> string option \<Rightarrow> bool option \<Rightarrow> bool \<Rightarrow> int
    \<Rightarrow> 'a reply_db_scheme dbsession \<Rightarrow> 'a reply_db_scheme dbsession \<times> (py_error + bool)" where
  "mark_terminal hash work_id worker_id status result_message_id error event_sent do_commit lt s =
     update_claimed hash work_id worker_id (terminal_values status result_message_id error event_sent)
       None do_commit lt s"

definition ensure_session_reply_work_claim ::
  "bool \<Rightarrow> int \<Rightarrow> 'a reply_db_scheme dbsession \<Rightarrow> 'a reply_db_scheme dbsession \<times> (py_error + unit)" where
  "ensure_session_reply_work_claim do_commit lt s =
     (case work_claim s of
        None \<Rightarrow> (s, Inr ())
      | Some (work_id, worker_id) \<Rightarrow>
          let (s1, n) = update_work (claimed_by work_id worker_id) (\<lambda>w. w\<lparr>wi_updated_at := lt\<rparr>) s
          in if n \<noteq> 1 then (rollback s1, Inl (CancelledError ERR_SESSION_REPLY_LEASE_LOST))
             else (commit_if do_commit s1, Inr ()))"

section \<open>Merging\<close>

definition merge_ready_foreground ::
  "int list \<Rightarrow> int \<Rightarrow> int \<Rightarrow> 'a reply_db_scheme dbsession \<Rightarrow> 'a reply_db_scheme dbsession \<times> int list" where
  "merge_ready_foreground work_ids merged_into_id lt s =
     (let p = (\<lambda>w. wi_id w \<in> set work_ids \<and> wi_work_type w = FOREGROUND_REPLY \<and> wi_status w = W_READY_FOR_LLM);
          f = (\<lambda>w. w\<lparr>wi_status := W_MERGED, wi_merged_into_id := Some merged_into_id, wi_locked_by := None,
                     wi_lock_until := None, wi_updated_at := lt\<rparr>)
      in if work_ids = [] then (s, [])
         else (fst (update_work p f s), map wi_id (filter p (rq_work (cur s)))))"

text \<open>
  \<open>resolve_merged_target\<close> follows \<open>merged_into_id\<close>; \<open>visited\<close> holds the identifiers seen, and a
  second visit ends the search with \<open>None\<close>. The measure is the number of rows not yet visited.
\<close>

function follow_merged :: "'a reply_db_scheme \<Rightarrow> int set \<Rightarrow> work_item option \<Rightarrow> work_item option" where
  "follow_merged d visited current =
     (case current of
        None \<Rightarrow> None
      | Some w \<Rightarrow>
          (case (wi_status w, wi_merged_into_id w) of
             (W_MERGED, Some target) \<Rightarrow>
               if target = 0 then Some w
               else if wi_id w \<in> visited \<or> w \<notin> set (rq_work d) then None
               else follow_merged d (insert (wi_id w) visited) (work_get target d)
           | _ \<Rightarrow> Some w))"
  by pat_completeness auto
termination
proof (relation "measure (\<lambda>(d, visited, current). card (wi_id ` set (rq_work d) - visited))", goal_cases)
  case 1
  then show ?case by simp
next
  case (2 d visited current w x y target)
  then have "wi_id w \<in> wi_id ` set (rq_work d) - visited" by auto
  then have "card (wi_id ` set (rq_work d) - insert (wi_id w) visited)
      < card (wi_id ` set (rq_work d) - visited)"
    by (intro psubset_card_mono) auto
  then show ?case by simp
qed

declare follow_merged.simps [simp del]

definition resolve_merged_target :: "int \<Rightarrow> 'a reply_db_scheme \<Rightarrow> work_item option" where
  "resolve_merged_target work_id d = follow_merged d {} (work_get work_id d)"

definition contiguous_blocker :: "work_item \<Rightarrow> work_item list \<Rightarrow> int option" where
  "contiguous_blocker work ws =
     (case sort_key wi_sequence_no (filter (\<lambda>w. wi_session_id w = wi_session_id work \<and>
         wi_sequence_no work < wi_sequence_no w \<and> wi_status w \<notin> SESSION_REPLY_TERMINAL_STATUSES \<and>
         wi_status w \<noteq> W_WAITING_EXTERNAL_WORK \<and> is_foreground w \<and>
         (wi_work_type w \<noteq> FOREGROUND_REPLY \<or> wi_profile_id w \<noteq> wi_profile_id work)) ws) of
        [] \<Rightarrow> None | w # _ \<Rightarrow> Some (wi_sequence_no w))"

definition list_contiguous_foreground :: "work_item \<Rightarrow> 'a reply_db_scheme \<Rightarrow> work_item list" where
  "list_contiguous_foreground work d =
     (let blocking = contiguous_blocker work (rq_work d)
      in sort_key wi_sequence_no (filter (\<lambda>w. wi_session_id w = wi_session_id work \<and>
           wi_sequence_no work \<le> wi_sequence_no w \<and> wi_work_type w = FOREGROUND_REPLY \<and>
           wi_profile_id w = wi_profile_id work \<and> wi_status w \<in> {W_READY_FOR_LLM, W_RUNNING} \<and>
           (case blocking of None \<Rightarrow> True | Some b \<Rightarrow> wi_sequence_no w < b)) (rq_work d)))"

section \<open>Cancellation, recovery, deletion\<close>

definition cancel_values :: "int \<Rightarrow> work_item \<Rightarrow> work_item" where
  "cancel_values lt w = w\<lparr>wi_status := W_CANCELLED, wi_locked_by := None, wi_lock_until := None, wi_updated_at := lt\<rparr>"

definition cancel_session ::
  "string \<Rightarrow> string option \<Rightarrow> bool \<Rightarrow> bool \<Rightarrow> bool \<Rightarrow> int \<Rightarrow> 'a reply_db_scheme dbsession
    \<Rightarrow> 'a reply_db_scheme dbsession \<times> nat" where
  "cancel_session sid uid is_admin do_commit interactive_only lt s =
     (let (s1, n) = update_work (\<lambda>w. wi_session_id w = sid \<and> wi_status w \<notin> SESSION_REPLY_TERMINAL_STATUSES \<and>
            (is_admin \<or> Some (wi_uid w) = uid) \<and> (interactive_only \<longrightarrow> wi_work_type w \<in> interactive_types))
            (cancel_values lt) s
      in (commit_if do_commit s1, n))"

definition cancel_agent_work_by_profile ::
  "string \<Rightarrow> int \<Rightarrow> bool \<Rightarrow> int \<Rightarrow> 'a reply_db_scheme dbsession \<Rightarrow> 'a reply_db_scheme dbsession \<times> nat" where
  "cancel_agent_work_by_profile uid profile_id do_commit lt s =
     (let (s1, n) = update_work (\<lambda>w. wi_uid w = uid \<and> wi_profile_id w = profile_id \<and> wi_work_type w = AGENT_WORK \<and>
            wi_status w \<in> SESSION_REPLY_ACTIVE_STATUSES) (cancel_values lt) s
      in (commit_if do_commit s1, n))"

definition cancel_background_tool_summaries ::
  "string \<Rightarrow> int option \<Rightarrow> bool \<Rightarrow> int \<Rightarrow> 'a reply_db_scheme dbsession \<Rightarrow> 'a reply_db_scheme dbsession \<times> nat" where
  "cancel_background_tool_summaries error before do_commit lt s =
     (let snapshot = map wi_id (filter (\<lambda>w. wi_work_type w \<in> background_summary_types \<and>
            wi_status w \<notin> SESSION_REPLY_TERMINAL_STATUSES \<and>
            (case before of None \<Rightarrow> True | Some b \<Rightarrow> wi_created_at w \<le> b)) (rq_work (cur s)));
          (s1, n) = (if snapshot = [] then (s, 0)
            else update_work (\<lambda>w. wi_id w \<in> set snapshot \<and> wi_work_type w \<in> background_summary_types \<and>
                   wi_status w \<notin> SESSION_REPLY_TERMINAL_STATUSES)
                   (\<lambda>w. (cancel_values lt w)\<lparr>wi_error := Some error\<rparr>) s)
      in (commit_if do_commit s1, n))"

definition list_startup_cancellation_work_items :: "int option \<Rightarrow> 'a reply_db_scheme \<Rightarrow> work_item list" where
  "list_startup_cancellation_work_items before d =
     sort_key wi_id (filter (\<lambda>w. (wi_work_type w \<in> background_summary_types \<and>
          wi_status w \<notin> SESSION_REPLY_TERMINAL_STATUSES \<or> wi_status w = W_WAITING_EXTERNAL_WORK) \<and>
        (case before of None \<Rightarrow> True | Some b \<Rightarrow> wi_created_at w \<le> b)) (rq_work d))"

definition work_expired :: "int \<Rightarrow> work_item \<Rightarrow> bool" where
  "work_expired now w \<longleftrightarrow> wi_status w = W_RUNNING \<and> (wi_lock_until w = None \<or> null_le (wi_lock_until w) now)"

definition stream_started :: "'a reply_db_scheme \<Rightarrow> int \<Rightarrow> bool" where
  "stream_started d work_id \<longleftrightarrow>
     (\<exists>e\<in>set (rq_events d). se_work_id e = work_id \<and>
        json_as_string (json_get (se_event e) ''type'') \<noteq> Some ''work_suspended'')"

text \<open>Why an expired work item may not be retried; \<open>None\<close> when it may.\<close>

definition recovery_error :: "'a reply_db_scheme \<Rightarrow> work_item \<Rightarrow> string option" where
  "recovery_error d w =
     (if json_get (wi_execution_state w) SESSION_REPLY_ACTIVE_AUDIT_EXECUTION_KEY \<noteq> None
      then Some ERR_SESSION_REPLY_AUDIT_EXECUTION_UNKNOWN
      else if wi_work_type w = CONFIRMED_TOOL_EXECUTION
      then Some ''Confirmed tool execution was interrupted; result unknown and automatic retry is forbidden''
      else if stream_started d (wi_id w) then Some ''Stream interrupted after partial response''
      else if wi_max_attempts w \<le> wi_attempt_count w
      then Some ''Maximum retry attempts reached after worker interruption''
      else None)"

definition recover_values :: "int \<Rightarrow> int \<Rightarrow> work_item \<Rightarrow> work_item" where
  "recover_values now lt w =
     w\<lparr>wi_status := W_READY_FOR_LLM, wi_locked_by := None, wi_lock_until := None, wi_available_at := now,
       wi_updated_at := lt\<rparr>"

fun recover_each ::
  "'a reply_db_scheme \<Rightarrow> int \<Rightarrow> int \<Rightarrow> work_item list \<Rightarrow> 'a reply_db_scheme dbsession \<Rightarrow> nat \<Rightarrow> (int \<times> string \<times> string) list
    \<Rightarrow> 'a reply_db_scheme dbsession \<times> nat \<times> (int \<times> string \<times> string) list" where
  "recover_each d0 now lt [] s n claims = (s, n, claims)"
| "recover_each d0 now lt (w # ws) s n claims =
     (case wi_locked_by w of
        None \<Rightarrow> recover_each d0 now lt ws s n claims
      | Some owner \<Rightarrow>
          (case recovery_error d0 w of
             Some e \<Rightarrow> recover_each d0 now lt ws s n (claims @ [(wi_id w, owner, e)])
           | None \<Rightarrow>
               let (s1, k) = update_work (\<lambda>v. claimed_by (wi_id w) owner v \<and> work_expired now v \<and>
                     wi_attempt_count v < wi_max_attempts v) (recover_values now lt) s
               in recover_each d0 now lt ws s1 (n + k) claims))"

definition recover_expired ::
  "int \<Rightarrow> int \<Rightarrow> 'a reply_db_scheme dbsession \<Rightarrow> 'a reply_db_scheme dbsession \<times> nat \<times> (int \<times> string \<times> string) list" where
  "recover_expired now lt s =
     (let expired = filter (\<lambda>w. work_expired now w \<and> wi_locked_by w \<noteq> None) (rq_work (cur s));
          (s1, recovered, terminal_claims) = recover_each (cur s) now lt expired s 0 []
      in (commit s1, recovered + length terminal_claims, terminal_claims))"

definition delete_by_session ::
  "string \<Rightarrow> string option \<Rightarrow> bool \<Rightarrow> bool \<Rightarrow> 'a reply_db_scheme dbsession \<Rightarrow> 'a reply_db_scheme dbsession \<times> nat" where
  "delete_by_session sid uid is_admin do_commit s =
     (let p = (\<lambda>w. wi_session_id w = sid \<and> (is_admin \<or> Some (wi_uid w) = uid));
          n = rowcount p (rq_work (cur s));
          s1 = execute (\<lambda>d. (delete_work p d)\<lparr>rq_sequences := sql_delete (\<lambda>q. sq_session_id q = sid) (rq_sequences d)\<rparr>) s
      in (commit_if do_commit s1, n))"

section \<open>Retention\<close>

record cleanup_result =
  cl_work_items :: nat
  cl_stream_events :: nat
  cl_sequences :: nat
  cl_checkpoint_messages :: nat

definition cleanup_total :: "cleanup_result \<Rightarrow> nat" where
  "cleanup_total r = cl_work_items r + cl_stream_events r + cl_sequences r + cl_checkpoint_messages r"

definition expired_work :: "int \<Rightarrow> 'a reply_db_scheme \<Rightarrow> work_item \<Rightarrow> bool" where
  "expired_work cutoff d w \<longleftrightarrow> wi_status w \<in> SESSION_REPLY_TERMINAL_STATUSES \<and> wi_updated_at w < cutoff \<and>
     wi_subagent_id w = None \<and> wi_id w \<notin> set (rq_subagent_parents d)"

text \<open>\<open>SELECT k \<dots> ORDER BY k LIMIT n\<close>: the subquery of every bounded deletion.\<close>

definition limited_keys :: "('r \<Rightarrow> 'k::linorder) \<Rightarrow> ('r \<Rightarrow> bool) \<Rightarrow> int \<Rightarrow> 'r list \<Rightarrow> 'k list" where
  "limited_keys k p n t = sql_limit n (map k (sort_key k (filter p t)))"

definition delete_events ::
  "(stream_event \<Rightarrow> bool) \<Rightarrow> int \<Rightarrow> 'a reply_db_scheme dbsession \<Rightarrow> 'a reply_db_scheme dbsession \<times> nat" where
  "delete_events p n s =
     (let ids = limited_keys se_id p n (rq_events (cur s)); q = (\<lambda>e. se_id e \<in> set ids)
      in (commit (execute (\<lambda>d. d\<lparr>rq_events := sql_delete q (rq_events d)\<rparr>) s), rowcount q (rq_events (cur s))))"

definition cleanup_expired_events ::
  "int \<Rightarrow> int \<Rightarrow> 'a reply_db_scheme dbsession \<Rightarrow> 'a reply_db_scheme dbsession \<times> nat" where
  "cleanup_expired_events cutoff n s =
     delete_events (\<lambda>e. se_work_id e \<in> wi_id ` set (filter (expired_work cutoff (cur s)) (rq_work (cur s)))) n s"

definition cleanup_expired_work ::
  "int \<Rightarrow> int \<Rightarrow> 'a reply_db_scheme dbsession \<Rightarrow> 'a reply_db_scheme dbsession \<times> nat" where
  "cleanup_expired_work cutoff n s =
     (let ids = limited_keys wi_id (\<lambda>w. expired_work cutoff (cur s) w \<and>
            \<not> (\<exists>e\<in>set (rq_events (cur s)). se_work_id e = wi_id w)) n (rq_work (cur s));
          q = (\<lambda>w. wi_id w \<in> set ids)
      in (commit (execute (delete_work q) s), rowcount q (rq_work (cur s))))"

definition cleanup_orphan_events ::
  "int \<Rightarrow> 'a reply_db_scheme dbsession \<Rightarrow> 'a reply_db_scheme dbsession \<times> nat" where
  "cleanup_orphan_events n s =
     delete_events (\<lambda>e. \<not> (\<exists>w\<in>set (rq_work (cur s)). wi_id w = se_work_id e)) n s"

definition cleanup_orphan_sequences ::
  "int \<Rightarrow> 'a reply_db_scheme dbsession \<Rightarrow> 'a reply_db_scheme dbsession \<times> nat" where
  "cleanup_orphan_sequences n s =
     (let ids = limited_keys sq_session_id (\<lambda>q.
            \<not> (\<exists>c\<in>set (rq_chat_sessions (cur s)). fst c = sq_session_id q) \<and>
            \<not> (\<exists>w\<in>set (rq_work (cur s)). wi_session_id w = sq_session_id q)) n (rq_sequences (cur s));
          q = (\<lambda>r. sq_session_id r \<in> set ids)
      in (commit (execute (\<lambda>d. d\<lparr>rq_sequences := sql_delete q (rq_sequences d)\<rparr>) s),
          rowcount q (rq_sequences (cur s))))"

definition cleanup_messages ::
  "int \<Rightarrow> 'a reply_db_scheme dbsession \<Rightarrow> 'a reply_db_scheme dbsession \<times> nat" where
  "cleanup_messages n s =
     (let (d, k) = cleanup_unreferenced n (cur s) in (commit (s\<lparr>cur := d\<rparr>), k))"

text \<open>A stage runs only while rows may still be deleted.\<close>

definition stage ::
  "(int \<Rightarrow> 's \<Rightarrow> 's \<times> nat) \<Rightarrow> int \<Rightarrow> 's \<Rightarrow> 's \<times> nat" where
  "stage f remaining s = (if 0 < remaining then f remaining s else (s, 0))"

definition cleanup_terminal_items ::
  "int \<Rightarrow> int \<Rightarrow> int \<Rightarrow> 'a reply_db_scheme dbsession \<Rightarrow> 'a reply_db_scheme dbsession \<times> cleanup_result" where
  "cleanup_terminal_items retention_hours batch_size lt s =
     (let cutoff = lt - retention_hours * 3600;
          r0 = max 1 batch_size;
          (s1, n1) = cleanup_expired_events cutoff r0 s; r1 = r0 - int n1;
          (s2, n2) = stage (cleanup_expired_work cutoff) r1 s1; r2 = r1 - int n2;
          (s3, n3) = stage cleanup_orphan_events r2 s2; r3 = r2 - int n3;
          (s4, n4) = stage cleanup_orphan_sequences r3 s3; r4 = r3 - int n4;
          (s5, n5) = stage cleanup_messages r4 s4
      in (s5, \<lparr>cl_work_items = n2, cl_stream_events = n1 + n3, cl_sequences = n4, cl_checkpoint_messages = n5\<rparr>))"

end
