(* ===== verification/Reply_Queue_Laws.thy ===== *)
theory Reply_Queue_Laws
  imports Reply_Queue
begin

text \<open>
  What the reply queue promises: deduplicated enqueueing with increasing sequence numbers, exclusive
  and ordered claiming within the capacity limits, leases that only their owner can renew or end,
  recovery that never repeats a side effect, terminal statuses that no operation leaves, and bounded
  retention.
\<close>

section \<open>The invariant of the tables\<close>

definition sequence_ahead :: "reply_sequence list \<Rightarrow> work_item \<Rightarrow> bool" where
  "sequence_ahead qs w \<longleftrightarrow> (\<exists>q\<in>set qs. sq_session_id q = wi_session_id w \<and> wi_sequence_no w < sq_next_sequence_no q)"

definition queue_wf :: "'a reply_db_scheme \<Rightarrow> bool" where
  "queue_wf d \<longleftrightarrow> distinct (map wi_id (rq_work d)) \<and> distinct (map wi_dedupe_key (rq_work d)) \<and>
     distinct (map sq_session_id (rq_sequences d)) \<and> (\<forall>w\<in>set (rq_work d). sequence_ahead (rq_sequences d) w)"

lemma allocate_sequence_no_correct:
  assumes wf: "queue_wf d" and chat: "sid \<in> fst ` set (rq_chat_sessions d)"
  obtains d' n where "allocate_sequence_no sid lt d = Inr (d', n)"
    and "d' = d\<lparr>rq_sequences := rq_sequences d'\<rparr>"
    and "distinct (map sq_session_id (rq_sequences d'))"
    and "\<And>w. w \<in> set (rq_work d) \<Longrightarrow> sequence_ahead (rq_sequences d') w"
    and "\<And>w. w \<in> set (rq_work d) \<Longrightarrow> wi_session_id w = sid \<Longrightarrow> wi_sequence_no w < n"
    and "\<exists>q\<in>set (rq_sequences d'). sq_session_id q = sid \<and> sq_next_sequence_no q = n + 1"
proof (cases "find (\<lambda>q. sq_session_id q = sid) (rq_sequences d)")
  case None
  then have none: "\<forall>q\<in>set (rq_sequences d). sq_session_id q \<noteq> sid" by (simp only: find_None_all)
  have ahead: "sequence_ahead (rq_sequences d) w \<and> wi_session_id w \<noteq> sid" if "w \<in> set (rq_work d)" for w
    using that wf none by (fastforce simp: queue_wf_def sequence_ahead_def)
  let ?q = "\<lparr>sq_session_id = sid, sq_next_sequence_no = 2, sq_updated_at = lt\<rparr>"
  let ?d = "d\<lparr>rq_sequences := rq_sequences d @ [?q]\<rparr>"
  have "allocate_sequence_no sid lt d = Inr (?d, 1)"
    using None chat by (auto simp: allocate_sequence_no_def)
  then show ?thesis
  proof (rule that)
    show "distinct (map sq_session_id (rq_sequences ?d))" using wf none by (auto simp: queue_wf_def)
  qed (use ahead in \<open>auto simp: sequence_ahead_def\<close>)
next
  case (Some q)
  then have q: "q \<in> set (rq_sequences d)" "sq_session_id q = sid" by (auto dest: find_Some_iff_in)
  let ?f = "\<lambda>q. q\<lparr>sq_next_sequence_no := sq_next_sequence_no q + 1, sq_updated_at := lt\<rparr>"
  let ?d = "d\<lparr>rq_sequences := sql_update (\<lambda>q. sq_session_id q = sid) ?f (rq_sequences d)\<rparr>"
  have keys: "map sq_session_id (rq_sequences ?d) = map sq_session_id (rq_sequences d)"
    by (simp add: map_sql_update)
  have only: "q' = q" if "q' \<in> set (rq_sequences d)" "sq_session_id q' = sid" for q'
    using that q wf distinct_key_eq by (fastforce simp: queue_wf_def)
  have "allocate_sequence_no sid lt d = Inr (?d, sq_next_sequence_no q)"
    using Some by (simp add: allocate_sequence_no_def)
  then show ?thesis
  proof (rule that)
    show "distinct (map sq_session_id (rq_sequences ?d))" using keys wf by (simp add: queue_wf_def)
    show "sequence_ahead (rq_sequences ?d) w" if "w \<in> set (rq_work d)" for w
    proof -
      from that wf obtain q' where q': "q' \<in> set (rq_sequences d)" "sq_session_id q' = wi_session_id w"
          "wi_sequence_no w < sq_next_sequence_no q'"
        by (auto simp: queue_wf_def sequence_ahead_def)
      let ?q = "if sq_session_id q' = sid then ?f q' else q'"
      have "?q \<in> set (rq_sequences ?d)" using q'(1) by (simp add: sql_update_def)
      moreover have "sq_session_id ?q = wi_session_id w" "wi_sequence_no w < sq_next_sequence_no ?q"
        using q' by auto
      ultimately show ?thesis unfolding sequence_ahead_def by blast
    qed
    show "wi_sequence_no w < sq_next_sequence_no q" if "w \<in> set (rq_work d)" "wi_session_id w = sid" for w
      using that wf only by (fastforce simp: queue_wf_def sequence_ahead_def)
    show "\<exists>q'\<in>set (rq_sequences ?d). sq_session_id q' = sid \<and> sq_next_sequence_no q' = sq_next_sequence_no q + 1"
      using q by (intro bexI [of _ "?f q"]) (auto simp: set_sql_update)
  qed simp
qed

lemma get_by_dedupe_key_None: "get_by_dedupe_key k d = None \<longleftrightarrow> (\<forall>w\<in>set (rq_work d). wi_dedupe_key w \<noteq> k)"
  unfolding get_by_dedupe_key_def by (rule find_None_all)

lemma get_by_dedupe_key_append:
  assumes "get_by_dedupe_key (wi_dedupe_key w) d = None" and "rq_work d' = rq_work d @ [w]"
  shows "get_by_dedupe_key (wi_dedupe_key w) d' = Some w"
  using assms by (simp add: get_by_dedupe_key_def find_append)

lemma new_work_item_fields [simp]:
  "wi_id (new_work_item a i n now lt) = i" "wi_sequence_no (new_work_item a i n now lt) = n"
  "wi_session_id (new_work_item a i n now lt) = eq_session_id a"
  "wi_dedupe_key (new_work_item a i n now lt) = eq_dedupe_key a"
  "wi_status (new_work_item a i n now lt) = W_READY_FOR_LLM"
  "wi_locked_by (new_work_item a i n now lt) = None"
  by (simp_all add: new_work_item_def)

lemma enqueue_existing:
  assumes "queue_wf (cur s)" and "eq_session_id a \<in> fst ` set (rq_chat_sessions (cur s))"
    and "get_by_dedupe_key (eq_dedupe_key a) (cur s) = Some w"
  shows "enqueue a c now lt s = (commit_if c s, Inr (w, False))"
proof -
  obtain d' n where al: "allocate_sequence_no (eq_session_id a) lt (cur s) = Inr (d', n)"
    and d': "d' = (cur s)\<lparr>rq_sequences := rq_sequences d'\<rparr>"
    by (rule allocate_sequence_no_correct [OF assms(1,2), of lt])
  from d' have "rq_work d' = rq_work (cur s)" by (metis reply_db.ext_inject reply_db.surjective reply_db.update_convs(2))
  then have "get_by_dedupe_key (eq_dedupe_key a) d' = Some w" using assms(3) by (simp add: get_by_dedupe_key_def)
  then show ?thesis using al assms(3) by (simp add: enqueue_def)
qed

lemma enqueue_new:
  assumes wf: "queue_wf (cur s)" and chat: "(eq_session_id a, eq_uid a) \<in> set (rq_chat_sessions (cur s))"
    and fresh: "get_by_dedupe_key (eq_dedupe_key a) (cur s) = None"
  obtains s' w where "enqueue a c now lt s = (s', Inr (w, True))"
    and "rq_work (cur s') = rq_work (cur s) @ [w]" and "queue_wf (cur s')"
    and "\<And>v. v \<in> set (rq_work (cur s)) \<Longrightarrow> wi_session_id v = eq_session_id a \<Longrightarrow> wi_sequence_no v < wi_sequence_no w"
    and "wi_dedupe_key w = eq_dedupe_key a" and "wi_status w = W_READY_FOR_LLM" and "wi_session_id w = eq_session_id a"
    and "c \<Longrightarrow> saved s' = cur s'" and "rq_chat_sessions (cur s') = rq_chat_sessions (cur s)"
proof -
  have "eq_session_id a \<in> fst ` set (rq_chat_sessions (cur s))" using chat by force
  from wf this obtain d' n where al: "allocate_sequence_no (eq_session_id a) lt (cur s) = Inr (d', n)"
    and d': "d' = (cur s)\<lparr>rq_sequences := rq_sequences d'\<rparr>"
    and dist: "distinct (map sq_session_id (rq_sequences d'))"
    and ahead: "\<And>w. w \<in> set (rq_work (cur s)) \<Longrightarrow> sequence_ahead (rq_sequences d') w"
    and below: "\<And>w. w \<in> set (rq_work (cur s)) \<Longrightarrow> wi_session_id w = eq_session_id a \<Longrightarrow> wi_sequence_no w < n"
    and top: "\<exists>q\<in>set (rq_sequences d'). sq_session_id q = eq_session_id a \<and> sq_next_sequence_no q = n + 1"
    by (rule allocate_sequence_no_correct [where lt = lt]) blast
  obtain qs where d'': "d' = (cur s)\<lparr>rq_sequences := qs\<rparr>" using d' by blast
  let ?w = "new_work_item a (fresh_id wi_id (rq_work (cur s))) n now lt"
  let ?s = "commit_if c (s\<lparr>cur := d'\<lparr>rq_work := rq_work d' @ [?w]\<rparr>\<rparr>)"
  have fresh': "get_by_dedupe_key (eq_dedupe_key a) d' = None"
    using fresh d'' by (simp add: get_by_dedupe_key_def)
  have noclash: "\<not> (\<exists>w\<in>set (rq_work d'). wi_session_id w = eq_session_id a \<and> wi_sequence_no w = n)"
    using below d'' by fastforce
  have eq: "enqueue a c now lt s = (?s, Inr (?w, True))"
    using al fresh' noclash chat d'' by (auto simp: enqueue_def Let_def)
  have wf': "queue_wf (cur ?s)"
    using wf dist ahead top fresh fresh_id_not_in [of wi_id "rq_work (cur s)"] d''
    by (auto simp: queue_wf_def sequence_ahead_def get_by_dedupe_key_None commit_if_def)
  show ?thesis
    by (rule that [OF eq]) (use below wf' d'' in \<open>auto simp: commit_if_def\<close>)
qed

text \<open>Enqueueing is idempotent in the deduplication key. If a work item with the key exists, it is
  returned with \<open>False\<close> and no row changes; otherwise exactly one row is added, ready, with a sequence
  number above every other of its session, the tables stay well formed, and enqueueing the same key
  again returns that row.\<close>

theorem enqueue_idempotent:
  assumes "queue_wf (cur s)" and "(eq_session_id a, eq_uid a) \<in> set (rq_chat_sessions (cur s))"
  shows "case get_by_dedupe_key (eq_dedupe_key a) (cur s) of
     Some w \<Rightarrow> enqueue a c now lt s = (commit_if c s, Inr (w, False))
   | None \<Rightarrow> \<exists>s' w. enqueue a c now lt s = (s', Inr (w, True)) \<and>
       rq_work (cur s') = rq_work (cur s) @ [w] \<and> wi_status w = W_READY_FOR_LLM \<and> queue_wf (cur s') \<and>
       (\<forall>v\<in>set (rq_work (cur s)). wi_session_id v = wi_session_id w \<longrightarrow> wi_sequence_no v < wi_sequence_no w) \<and>
       enqueue a c now' lt' s' = (commit_if c s', Inr (w, False))"
proof (cases "get_by_dedupe_key (eq_dedupe_key a) (cur s)")
  case None
  from assms None obtain s' w where new: "enqueue a c now lt s = (s', Inr (w, True))"
      "rq_work (cur s') = rq_work (cur s) @ [w]" "queue_wf (cur s')"
      "\<And>v. v \<in> set (rq_work (cur s)) \<Longrightarrow> wi_session_id v = eq_session_id a \<Longrightarrow> wi_sequence_no v < wi_sequence_no w"
      "wi_dedupe_key w = eq_dedupe_key a" "wi_status w = W_READY_FOR_LLM" "wi_session_id w = eq_session_id a"
      "rq_chat_sessions (cur s') = rq_chat_sessions (cur s)"
    by (rule enqueue_new [where c = c and now = now and lt = lt]) blast
  have "enqueue a c now' lt' s' = (commit_if c s', Inr (w, False))"
    using assms(2) new(8) get_by_dedupe_key_append [of w "cur s"] None new(2,5)
    by (intro enqueue_existing [OF new(3)]) force+
  with new None show ?thesis by auto
next
  case (Some w)
  have "eq_session_id a \<in> fst ` set (rq_chat_sessions (cur s))" using assms(2) by force
  with Some show ?thesis by (simp add: enqueue_existing [OF assms(1)])
qed


definition sample_enqueue :: enqueue_args where
  "sample_enqueue = \<lparr>eq_uid = ''u'', eq_session_id = ''s'', eq_profile_id = 1, eq_work_type = FOREGROUND_REPLY,
     eq_source_type = USER_MESSAGE, eq_source_id = ''7'', eq_dedupe_key = ''k'', eq_work_category = None\<rparr>"

theorem enqueue_idempotent_witness:
  "\<exists>s' w. enqueue sample_enqueue True 5 6 (open_session (sample_reply_db [])) = (s', Inr (w, True)) \<and>
     enqueue sample_enqueue True 8 9 s' = (commit s', Inr (w, False))"
  using enqueue_idempotent [of "open_session (sample_reply_db [])" sample_enqueue True 5 6 8 9]
  by (auto simp: sample_defs sample_enqueue_def open_session_def queue_wf_def get_by_dedupe_key_def commit_if_def)

section \<open>Claiming\<close>

lemma grant_claim_fields [simp]:
  "wi_id (grant_claim x secs now lt w) = wi_id w"
  "wi_session_id (grant_claim x secs now lt w) = wi_session_id w"
  "wi_profile_id (grant_claim x secs now lt w) = wi_profile_id w"
  "wi_sequence_no (grant_claim x secs now lt w) = wi_sequence_no w"
  "wi_status (grant_claim x secs now lt w) = W_RUNNING"
  "wi_locked_by (grant_claim x secs now lt w) = Some x"
  "wi_lock_until (grant_claim x secs now lt w) = Some (now + secs)"
  "work_category_expression (grant_claim x secs now lt w) = work_category_expression w"
  by (simp_all add: grant_claim_def work_category_expression_def)

lemma claim_condition_ready: "claim_condition a now ws w \<Longrightarrow> wi_status w = W_READY_FOR_LLM"
  by (simp add: claim_condition_def)

lemma claim_candidate_None: "claim_candidate a now ws = None \<longleftrightarrow> (\<forall>w\<in>set ws. \<not> claim_condition a now ws w)"
proof -
  have "sort_key (\<lambda>w. (wi_created_at w, wi_id w)) (filter (claim_condition a now ws) ws) = [] \<longleftrightarrow>
      filter (claim_condition a now ws) ws = []"
    by (metis length_0_conv length_sort)
  then show ?thesis by (auto simp: claim_candidate_def filter_empty_conv split: list.splits)
qed

lemma claim_candidate_Some:
  assumes "claim_candidate a now ws = Some i"
  obtains w where "w \<in> set ws" and "wi_id w = i" and "claim_condition a now ws w"
    and "\<forall>v\<in>set ws. claim_condition a now ws v \<longrightarrow> (wi_created_at w, wi_id w) \<le> (wi_created_at v, wi_id v)"
proof -
  from assms obtain w ys where
    "sort_key (\<lambda>w. (wi_created_at w, wi_id w)) (filter (claim_condition a now ws) ws) = w # ys" and i: "wi_id w = i"
    by (auto simp: claim_candidate_def split: list.splits)
  then have "w \<in> set (filter (claim_condition a now ws) ws) \<and>
      (\<forall>v\<in>set (filter (claim_condition a now ws) ws). (wi_created_at w, wi_id w) \<le> (wi_created_at v, wi_id v))"
    by (intro sort_key_hd)
  with i show ?thesis by (intro that) auto
qed

lemma filter_key: "distinct (map k t) \<Longrightarrow> w \<in> set t \<Longrightarrow> filter (\<lambda>r. k r = k w) t = [w]"
proof (induction t)
  case Nil
  then show ?case by simp
next
  case (Cons x t)
  show ?case
  proof (cases "x = w")
    case True
    with Cons.prems have "k r \<noteq> k w" if "r \<in> set t" for r using that by (auto simp: rev_image_eqI)
    then have "filter (\<lambda>r. k r = k w) t = []" by (auto simp: filter_empty_conv)
    with True show ?thesis by simp
  next
    case False
    with Cons show ?thesis by force
  qed
qed

lemma claim_next_cases:
  assumes dist: "distinct (map wi_id (rq_work (cur s)))"
  obtains (none) "claim_next a now lt s = (commit s, None)" and "\<forall>w\<in>set (rq_work (cur s)). \<not> claim_condition a now (rq_work (cur s)) w"
  | (claimed) w where "w \<in> set (rq_work (cur s))" and "claim_condition a now (rq_work (cur s)) w"
      and "\<forall>v\<in>set (rq_work (cur s)). claim_condition a now (rq_work (cur s)) v \<longrightarrow>
             (wi_created_at w, wi_id w) \<le> (wi_created_at v, wi_id v)"
      and "claim_next a now lt s =
        (commit (execute (\<lambda>d. d\<lparr>rq_work := sql_update (\<lambda>v. wi_id v = wi_id w)
             (grant_claim (ca_worker_id a) (ca_lease_seconds a) now lt) (rq_work d)\<rparr>) s),
         Some (grant_claim (ca_worker_id a) (ca_lease_seconds a) now lt w))"
proof (cases "claim_candidate a now (rq_work (cur s))")
  case None
  have "claim_next a now lt s = (commit s, None)"
    by (simp add: claim_next_def None update_work_def execute_def sql_update_def)
  then show ?thesis using None by (intro none) (simp_all only: claim_candidate_None)
next
  case (Some i)
  then obtain w where w: "w \<in> set (rq_work (cur s))" "wi_id w = i" "claim_condition a now (rq_work (cur s)) w"
      "\<forall>v\<in>set (rq_work (cur s)). claim_condition a now (rq_work (cur s)) v \<longrightarrow>
             (wi_created_at w, wi_id w) \<le> (wi_created_at v, wi_id v)"
    by (rule claim_candidate_Some)
  have eq: "(Some (wi_id v) = Some i \<and> wi_status v = W_READY_FOR_LLM) = (wi_id v = wi_id w)"
    if v: "v \<in> set (rq_work (cur s))" for v
  proof
    assume "wi_id v = wi_id w"
    then have "v = w" by (rule distinct_key_eq [OF dist v w(1)])
    then show "Some (wi_id v) = Some i \<and> wi_status v = W_READY_FOR_LLM"
      using w(2) claim_condition_ready [OF w(3)] by simp
  qed (use w(2) in simp)
  have "filter (\<lambda>v. Some (wi_id v) = Some i \<and> wi_status v = W_READY_FOR_LLM) (rq_work (cur s)) =
      filter (\<lambda>v. wi_id v = wi_id w) (rq_work (cur s))"
    by (rule filter_cong [OF refl eq])
  also have "\<dots> = [w]" by (rule filter_key [OF dist w(1)])
  finally have "filter (\<lambda>v. Some (wi_id v) = Some i \<and> wi_status v = W_READY_FOR_LLM) (rq_work (cur s)) = [w]" .
  moreover have "sql_update (\<lambda>v. Some (wi_id v) = Some i \<and> wi_status v = W_READY_FOR_LLM) f (rq_work (cur s)) =
      sql_update (\<lambda>v. wi_id v = wi_id w) f (rq_work (cur s))" for f
    using eq by (rule sql_update_cong) auto
  ultimately have "claim_next a now lt s =
        (commit (execute (\<lambda>d. d\<lparr>rq_work := sql_update (\<lambda>v. wi_id v = wi_id w)
             (grant_claim (ca_worker_id a) (ca_lease_seconds a) now lt) (rq_work d)\<rparr>) s),
         Some (grant_claim (ca_worker_id a) (ca_lease_seconds a) now lt w))"
    by (simp add: claim_next_def Some update_work_def execute_def Let_def)
  with w show ?thesis by (intro claimed)
qed

text \<open>C16: Claiming takes the oldest eligible item. When no item is eligible nothing changes and nothing
  is returned; otherwise the returned item is the eligible one least in creation time and identifier,
  it becomes \<open>RUNNING\<close> for the worker until \<open>now + lease_seconds\<close> with one more attempt, every other row
  is left alone, and the claim is committed.\<close>

theorem claim_next_oldest_eligible:
  assumes "distinct (map wi_id (rq_work (cur s)))"
  shows "case claim_next a now lt s of
     (s', None) \<Rightarrow> s' = commit s \<and> (\<forall>w\<in>set (rq_work (cur s)). \<not> claim_condition a now (rq_work (cur s)) w)
   | (s', Some w') \<Rightarrow> saved s' = cur s' \<and> (\<exists>w\<in>set (rq_work (cur s)).
       claim_condition a now (rq_work (cur s)) w \<and>
       (\<forall>v\<in>set (rq_work (cur s)). claim_condition a now (rq_work (cur s)) v \<longrightarrow>
          (wi_created_at w, wi_id w) \<le> (wi_created_at v, wi_id v)) \<and>
       w' = w\<lparr>wi_status := W_RUNNING, wi_locked_by := Some (ca_worker_id a),
              wi_lock_until := Some (now + ca_lease_seconds a), wi_attempt_count := wi_attempt_count w + 1,
              wi_updated_at := lt\<rparr> \<and>
       rq_work (cur s') = map (\<lambda>v. if v = w then w' else v) (rq_work (cur s)))"
proof (cases rule: claim_next_cases [OF assms, of a now lt, case_names none claimed])
  case none
  then show ?thesis by simp
next
  case (claimed w)
  have "sql_update (\<lambda>v. wi_id v = wi_id w) f (rq_work (cur s)) = map (\<lambda>v. if v = w then f w else v) (rq_work (cur s))" for f
    using distinct_key_eq [OF assms _ claimed(1)] by (auto simp: sql_update_def)
  with claimed show ?thesis by (auto simp: grant_claim_def)
qed


definition sample_claim :: claim_args where
  "sample_claim = \<lparr>ca_worker_id = ''w1'', ca_lease_seconds = 60, ca_scheduled_limits = [], ca_independent_only = None,
     ca_max_concurrency = 4, ca_subagent_limits = [], ca_exclude = []\<rparr>"

lemma sample_claim_fields [simp]: "ca_worker_id sample_claim = ''w1''" "ca_lease_seconds sample_claim = 60"
  by (simp_all add: sample_claim_def)

lemma claim_next_sample:
  "claim_next sample_claim 10 11 (open_session (sample_reply_db [sample_work 3 1, sample_work 4 2])) =
     (let d = sample_reply_db [grant_claim ''w1'' 60 10 11 (sample_work 3 1), sample_work 4 2]
      in (open_session d, Some (grant_claim ''w1'' 60 10 11 (sample_work 3 1))))"
  by code_simp

theorem claim_next_oldest_eligible_witness:
  "\<exists>w\<in>set [sample_work 3 1, sample_work 4 2].
     claim_condition sample_claim 10 [sample_work 3 1, sample_work 4 2] w \<and>
     grant_claim ''w1'' 60 10 11 (sample_work 3 1) =
       w\<lparr>wi_status := W_RUNNING, wi_locked_by := Some ''w1'', wi_lock_until := Some 70,
         wi_attempt_count := wi_attempt_count w + 1, wi_updated_at := 11\<rparr>"
  using claim_next_oldest_eligible [of "open_session (sample_reply_db [sample_work 3 1, sample_work 4 2])" sample_claim 10 11]
  by (auto simp: claim_next_sample Let_def)

subsection \<open>Exclusion and capacity\<close>

definition foreground_running :: "int \<Rightarrow> work_item list \<Rightarrow> string \<Rightarrow> nat" where
  "foreground_running now ws sid = rowcount (\<lambda>w. wi_session_id w = sid \<and> is_foreground w \<and> running_now now w) ws"

lemma grant_rowcount:
  assumes "distinct (map wi_id ws)" and "w \<in> set ws" and "claim_condition a now ws w"
    and "q = (\<lambda>v. r v \<and> running_now now v)"
    and "r (grant_claim x secs now lt w) = r w"
  shows "rowcount q (sql_update (\<lambda>v. wi_id v = wi_id w) (grant_claim x secs now lt) ws) \<le>
    rowcount q ws + (if r w then 1 else 0)"
  using rowcount_update_key [OF assms(1,2), of q "grant_claim x secs now lt"] claim_condition_ready [OF assms(3)] assms(4,5)
  by (auto simp: running_now_def split: if_splits)

text \<open>C1: Claiming respects mutual exclusion and the capacity limits. If no session has two running
  foreground items, none has afterwards; the number of running independent items does not grow beyond
  \<open>agent_work_max_concurrency\<close>; and for every profile the running scheduled and subagent items do not
  grow beyond the profile's limit.\<close>

theorem claim_next_respects_limits:
  assumes "distinct (map wi_id (rq_work (cur s)))"
    and "\<forall>sid. foreground_running now (rq_work (cur s)) sid \<le> 1"
    and "ws' = rq_work (cur (fst (claim_next a now lt s)))"
  shows "(\<forall>sid. foreground_running now ws' sid \<le> 1) \<and>
    int (independent_running_count now ws') \<le> max (int (independent_running_count now (rq_work (cur s)))) (ca_max_concurrency a) \<and>
    (\<forall>p. int (profile_running_count C_SCHEDULED_TASK p now ws') \<le>
       max (int (profile_running_count C_SCHEDULED_TASK p now (rq_work (cur s)))) (profile_limit (ca_scheduled_limits a) p)) \<and>
    (\<forall>p. int (profile_running_count C_SUBAGENT p now ws') \<le>
       max (int (profile_running_count C_SUBAGENT p now (rq_work (cur s)))) (profile_limit (ca_subagent_limits a) p))"
proof (cases rule: claim_next_cases [OF assms(1), of a now lt, case_names none claimed])
  case none
  with assms show ?thesis by simp
next
  case (claimed w)
  let ?ws = "rq_work (cur s)"
  have ws': "ws' = sql_update (\<lambda>v. wi_id v = wi_id w) (grant_claim (ca_worker_id a) (ca_lease_seconds a) now lt) ?ws"
    using claimed(4) assms(3) by (simp add: execute_def)
  note grow = grant_rowcount [OF assms(1) claimed(1,2), of _ _ "ca_worker_id a" "ca_lease_seconds a" lt, folded ws']
  have "foreground_running now ws' sid \<le> 1" for sid
  proof (cases "wi_session_id w = sid \<and> is_foreground w")
    case True
    with claimed(2) have "foreground_running now ?ws sid = 0"
      by (auto simp: foreground_running_def claim_condition_def rowcount_0_iff)
    with grow [of _ "\<lambda>v. wi_session_id v = sid \<and> is_foreground v", OF refl] show ?thesis
      by (simp add: foreground_running_def conj_assoc split: if_splits)
  next
    case False
    with grow [of _ "\<lambda>v. wi_session_id v = sid \<and> is_foreground v", OF refl] assms(2) [rule_format, of sid] show ?thesis
      by (simp add: foreground_running_def conj_assoc split: if_splits)
  qed
  moreover have "int (independent_running_count now ws') \<le> max (int (independent_running_count now ?ws)) (ca_max_concurrency a)"
    using grow [of _ "\<lambda>v. \<not> is_foreground v", OF refl] claimed(2)
    by (auto simp: independent_running_count_def claim_condition_def split: if_splits)
  moreover have "int (profile_running_count C_SCHEDULED_TASK p now ws') \<le>
       max (int (profile_running_count C_SCHEDULED_TASK p now ?ws)) (profile_limit (ca_scheduled_limits a) p)" for p
    using grow [of _ "\<lambda>v. wi_profile_id v = p \<and> work_category_expression v = category_value C_SCHEDULED_TASK", OF refl] claimed(2)
    by (auto simp: profile_running_count_def claim_condition_def conj_assoc split: if_splits)
  moreover have "int (profile_running_count C_SUBAGENT p now ws') \<le>
       max (int (profile_running_count C_SUBAGENT p now ?ws)) (profile_limit (ca_subagent_limits a) p)" for p
    using grow [of _ "\<lambda>v. wi_profile_id v = p \<and> work_category_expression v = category_value C_SUBAGENT", OF refl] claimed(2)
    by (auto simp: profile_running_count_def claim_condition_def conj_assoc split: if_splits)
  ultimately show ?thesis by blast
qed

theorem claim_next_respects_limits_witness:
  "\<forall>sid. foreground_running 10 (rq_work (cur (fst (claim_next sample_claim 10 11
     (open_session (sample_reply_db [sample_work 3 1, sample_work 4 2])))))) sid \<le> 1"
  using claim_next_respects_limits [of "open_session (sample_reply_db [sample_work 3 1, sample_work 4 2])" 10 _ sample_claim 11, OF _ _ refl]
  by (simp add: sample_defs open_session_def foreground_running_def running_now_def rowcount_def)

section \<open>Interleavings\<close>

text \<open>
  One committed operation of the queue; the set names the workers on whose behalf it runs, \<open>now\<close> is
  the clock it reads. Workers, request handlers, the startup cleanup and the recovery loop interleave
  such steps in any order.
\<close>

inductive queue_step ::
  "(json \<Rightarrow> string) \<Rightarrow> string set \<Rightarrow> int \<Rightarrow> 'a reply_db_scheme dbsession \<Rightarrow> 'a reply_db_scheme dbsession \<Rightarrow> bool"
  for hash where
  enqueue_step: "enqueue a True now lt s = (s', Inr r) \<Longrightarrow> queue_step hash {} now s s'"
| claim_step: "claim_next a now lt s = (s', r) \<Longrightarrow> queue_step hash {ca_worker_id a} now s s'"
| renew_step: "work_renew_lease lt now secs i x s = (s', r) \<Longrightarrow> queue_step hash {x} now s s'"
| renew_all_step: "renew_active_claims claims secs now lt s = (s', r) \<Longrightarrow> queue_step hash (snd ` set claims) now s s'"
| retry_step: "release_for_retry lt e delay now i x s = (s', r) \<Longrightarrow> queue_step hash {x} now s s'"
| update_step: "\<forall>w. wi_id (values w) = wi_id w \<Longrightarrow> update_claimed hash i x values cp True lt s = (s', Inr r) \<Longrightarrow>
    queue_step hash {x} now s s'"
| mark_step: "mark_terminal hash i x st rid e ev True lt s = (s', Inr r) \<Longrightarrow> queue_step hash {x} now s s'"
| merge_step: "merge_ready_foreground ids m lt s = (s', r) \<Longrightarrow> queue_step hash {} now s (commit s')"
| recover_step: "recover_expired now lt s = (s', r) \<Longrightarrow> queue_step hash {} now s s'"
| cancel_step: "cancel_session sid uid adm True io lt s = (s', r) \<Longrightarrow> queue_step hash {} now s s'"
| cancel_profile_step: "cancel_agent_work_by_profile uid pid True lt s = (s', r) \<Longrightarrow> queue_step hash {} now s s'"
| cancel_background_step: "cancel_background_tool_summaries e before True lt s = (s', r) \<Longrightarrow> queue_step hash {} now s s'"

text \<open>A row an operation on behalf of \<open>A\<close> at time \<open>now\<close> may not touch: a terminal one, and one that
  somebody else holds.\<close>

definition settled :: "string set \<Rightarrow> int \<Rightarrow> work_item \<Rightarrow> bool" where
  "settled A now w \<longleftrightarrow> wi_status w \<in> SESSION_REPLY_TERMINAL_STATUSES \<or>
     wi_status w = W_RUNNING \<and> (\<exists>x u. wi_locked_by w = Some x \<and> wi_lock_until w = Some u \<and> x \<notin> A \<and> now < u)"

definition cancelled_in :: "work_item \<Rightarrow> work_item list \<Rightarrow> bool" where
  "cancelled_in w t \<longleftrightarrow> (\<exists>v\<in>set t. wi_id v = wi_id w \<and> wi_status v = W_CANCELLED \<and> wi_locked_by v = None)"

definition survives :: "work_item \<Rightarrow> work_item list \<Rightarrow> bool" where
  "survives w t \<longleftrightarrow> w \<in> set t \<or> wi_status w \<notin> SESSION_REPLY_TERMINAL_STATUSES \<and> cancelled_in w t"

lemma survives_refl: "w \<in> set t \<Longrightarrow> survives w t"
  by (simp add: survives_def)

lemma survives_update: "w \<in> set t \<Longrightarrow> \<not> p w \<Longrightarrow> survives w (sql_update p f t)"
  by (auto simp: survives_def set_sql_update)

lemma survives_cancel:
  assumes "w \<in> set t" and "p w \<Longrightarrow> wi_status w \<notin> SESSION_REPLY_TERMINAL_STATUSES"
    and "wi_id (f w) = wi_id w" and "wi_status (f w) = W_CANCELLED" and "wi_locked_by (f w) = None"
  shows "survives w (sql_update p f t)"
  using assms by (auto simp: survives_def cancelled_in_def set_sql_update)

lemma status_disjoint: "st \<in> SESSION_REPLY_ACTIVE_STATUSES \<Longrightarrow> st \<notin> SESSION_REPLY_TERMINAL_STATUSES"
  by (simp add: work_status_partition)

lemma settled_not_claimed:
  "settled A now w \<Longrightarrow> x \<in> A \<Longrightarrow> \<not> claimed_by i x w"
  "settled A now w \<Longrightarrow> wi_status w \<noteq> W_READY_FOR_LLM"
  "settled A now w \<Longrightarrow> \<not> work_expired now w"
  by (auto simp: settled_def claimed_by_def work_expired_def)

lemma save_checkpoint_payload_work: "rq_work (save_checkpoint_payload i cp d) = rq_work d"
  by (simp add: save_checkpoint_payload_def split: option.splits)

lemma save_groups_work: "save_groups hash i k gs d = (d', r) \<Longrightarrow> rq_work d' = rq_work d"
  by (auto simp: save_groups_def Let_def split: option.splits)

lemma save_checkpoint_work: "save_checkpoint hash i cp d = (d', r) \<Longrightarrow> rq_work d' = rq_work d"
  by (auto simp: save_checkpoint_def save_checkpoint_payload_work dest!: save_groups_work
      split: option.splits sum.splits prod.splits)

lemma update_claimed_work:
  assumes "update_claimed hash i x values cp c lt s = (s', r)"
  shows "rq_work (cur s') = sql_update (claimed_by i x) (\<lambda>w. (values w)\<lparr>wi_updated_at := lt\<rparr>) (rq_work (cur s))"
  using assms by (auto simp: update_claimed_def Let_def commit_if_def dest!: save_checkpoint_work update_work_eqD
    split: option.splits prod.splits sum.splits if_splits)

lemma recover_each_survives:
  assumes "w \<in> set (rq_work (cur s))" and "\<not> work_expired now w"
  shows "w \<in> set (rq_work (cur (fst (recover_each d0 now lt ws s n cl))))"
  using assms
proof (induction ws arbitrary: s n cl)
  case Nil
  then show ?case by simp
next
  case (Cons v ws)
  then show ?case by (simp add: case_prod_beta Let_def set_sql_update split: option.splits)
qed


lemma get_active_claims_worker: "(i, x) \<in> get_active_claims claims d \<Longrightarrow> x \<in> snd ` set claims"
  by (force simp: get_active_claims_def split: option.splits if_splits)

lemma queue_step_survives:
  assumes "queue_step hash A now s s'" and "w \<in> set (rq_work (cur s))" and "settled A now w"
  shows "survives w (rq_work (cur s'))"
  using assms
proof (cases rule: queue_step.cases)
  case (enqueue_step a lt r)
  with assms(2) have "w \<in> set (rq_work (cur s'))"
    by (auto simp: enqueue_def allocate_sequence_no_def Let_def commit_if_def split: option.splits if_splits sum.splits)
  then show ?thesis by (simp add: survives_def)
next
  case (claim_step a lt r)
  have "rq_work (cur s') = sql_update (\<lambda>v. Some (wi_id v) = claim_candidate a now (rq_work (cur s)) \<and> wi_status v = W_READY_FOR_LLM)
      (grant_claim (ca_worker_id a) (ca_lease_seconds a) now lt) (rq_work (cur s))"
    using claim_step by (auto simp: claim_next_def Let_def)
  then show ?thesis using assms by (auto intro!: survives_update dest: settled_not_claimed(2))
next
  case (renew_step lt secs i x r)
  with assms settled_not_claimed(1) [OF assms(3), of x i] show ?thesis
    by (auto simp: work_renew_lease_def case_prod_beta intro!: survives_update)
next
  case (renew_all_step claims secs lt r)
  have "\<not> ((case wi_locked_by w of None \<Rightarrow> False | Some x \<Rightarrow> (wi_id w, x) \<in> get_active_claims claims (cur s)) \<and> wi_status w = W_RUNNING)"
    using assms(3) renew_all_step(1) by (auto simp: settled_def dest: get_active_claims_worker split: option.splits)
  with assms renew_all_step(2) show ?thesis
    by (auto simp: renew_active_claims_def Let_def survives_def set_sql_update split: if_splits)
next
  case (retry_step lt e delay i x r)
  with assms settled_not_claimed(1) [OF assms(3), of x i] show ?thesis
    by (auto simp: release_for_retry_def case_prod_beta intro!: survives_update)
next
  case (update_step vals i x cp lt r)
  with assms settled_not_claimed(1) [OF assms(3), of x i] show ?thesis
    by (auto dest!: update_claimed_work intro!: survives_update)
next
  case (mark_step i x st rid e ev lt r)
  with assms settled_not_claimed(1) [OF assms(3), of x i] show ?thesis
    by (auto simp: mark_terminal_def dest!: update_claimed_work intro!: survives_update)
next
  case (merge_step ids m lt s1 r)
  with assms settled_not_claimed(2) [OF assms(3)] show ?thesis
    by (auto simp: merge_ready_foreground_def Let_def survives_def set_sql_update split: if_splits)
next
  case (recover_step lt r)
  with assms recover_each_survives [OF assms(2) settled_not_claimed(3) [OF assms(3)], of "cur s" lt _ 0 "[]"] show ?thesis
    by (auto simp: recover_expired_def case_prod_beta Let_def survives_def)
next
  case (cancel_step sid uid adm io lt r)
  then show ?thesis using assms(2)
    by (auto simp: cancel_session_def case_prod_beta commit_if_def cancel_values_def intro!: survives_cancel)
next
  case (cancel_profile_step uid pid lt r)
  then show ?thesis using assms(2)
    by (auto simp: cancel_agent_work_by_profile_def case_prod_beta commit_if_def cancel_values_def
        status_disjoint intro!: survives_cancel)
next
  case (cancel_background_step e before lt r)
  then show ?thesis using assms(2)
    by (auto simp: cancel_background_tool_summaries_def case_prod_beta Let_def commit_if_def cancel_values_def
        intro!: survives_cancel intro: survives_refl split: if_splits)
qed


definition queue_run ::
  "(json \<Rightarrow> string) \<Rightarrow> (string set \<Rightarrow> int \<Rightarrow> bool) \<Rightarrow> 'a reply_db_scheme dbsession \<Rightarrow> 'a reply_db_scheme dbsession \<Rightarrow> bool"
  where "queue_run hash ok = (\<lambda>s s'. \<exists>A now. ok A now \<and> queue_step hash A now s s')\<^sup>*\<^sup>*"

lemma queue_run_survives:
  assumes "queue_run hash ok s s'" and "w \<in> set (rq_work (cur s))" and "\<And>A now. ok A now \<Longrightarrow> settled A now w"
  shows "survives w (rq_work (cur s'))"
  using assms(1) unfolding queue_run_def
proof (induction rule: rtranclp_induct)
  case base
  then show ?case using assms(2) by (simp add: survives_def)
next
  case (step t t')
  then obtain A now where st: "ok A now" "queue_step hash A now t t'" by blast
  show ?case
  proof (cases "w \<in> set (rq_work (cur t))")
    case True
    then show ?thesis using queue_step_survives [OF st(2)] assms(3) [OF st(1)] by blast
  next
    case False
    with step.IH obtain v where v: "v \<in> set (rq_work (cur t))" "wi_id v = wi_id w" "wi_status v = W_CANCELLED"
        "wi_locked_by v = None" "wi_status w \<notin> SESSION_REPLY_TERMINAL_STATUSES"
      by (auto simp: survives_def cancelled_in_def)
    have "survives v (rq_work (cur t'))"
      by (rule queue_step_survives [OF st(2) v(1)]) (simp add: settled_def v(3))
    with v show ?thesis by (auto simp: survives_def cancelled_in_def)
  qed
qed

text \<open>A terminal status is final. Once a work item is merged, succeeded, failed or cancelled, no
  sequence of operations of the queue, by whatever worker and at whatever time, changes any of its
  columns.\<close>

theorem terminal_work_final:
  assumes "queue_run hash (\<lambda>A now. True) s s'" and "w \<in> set (rq_work (cur s))"
    and "wi_status w \<in> SESSION_REPLY_TERMINAL_STATUSES"
  shows "w \<in> set (rq_work (cur s'))"
  using queue_run_survives [OF assms(1,2)] assms(3) by (simp add: settled_def survives_def)

definition sample_done :: work_item where
  "sample_done = (sample_work 2 0)\<lparr>wi_status := W_SUCCEEDED, wi_result_message_id := Some 9\<rparr>"

theorem terminal_work_final_witness:
  "sample_done \<in> set (rq_work (cur (fst (cancel_session ''s'' None True True False 50
     (open_session (sample_reply_db [sample_done, sample_work 3 1]))))))"
proof -
  let ?s = "open_session (sample_reply_db [sample_done, sample_work 3 1])"
  have "queue_step (\<lambda>_. ''h'') {} 50 ?s (fst (cancel_session ''s'' None True True False 50 ?s))"
    by (rule cancel_step [OF surjective_pairing])
  then have "queue_run (\<lambda>_. ''h'') (\<lambda>A now. True) ?s (fst (cancel_session ''s'' None True True False 50 ?s))"
    unfolding queue_run_def by blast
  then show ?thesis by (rule terminal_work_final) (simp_all add: sample_done_def)
qed



section \<open>The lease contract\<close>

definition work_lease :: "work_item \<Rightarrow> (string \<times> int) option" where
  "work_lease w = (if wi_status w = W_RUNNING
     then (case (wi_locked_by w, wi_lock_until w) of (Some x, Some u) \<Rightarrow> Some (x, u) | _ \<Rightarrow> None) else None)"

definition work_holder :: "'a reply_db_scheme dbsession \<Rightarrow> int \<Rightarrow> (string \<times> int) option" where
  "work_holder s = key_view wi_id work_lease (rq_work (cur s))"

definition work_store_wf :: "'a reply_db_scheme dbsession \<Rightarrow> bool" where
  "work_store_wf s \<longleftrightarrow> distinct (map wi_id (rq_work (cur s))) \<and>
     (\<forall>w\<in>set (rq_work (cur s)). wi_status w = W_RUNNING \<longrightarrow> work_lease w \<noteq> None)"

text \<open>The claim of item \<open>k\<close> by \<open>x\<close>: the calls of \<open>claim_next\<close> that return it.\<close>

definition claim_item ::
  "claim_args \<Rightarrow> int \<Rightarrow> int \<Rightarrow> int \<Rightarrow> int \<Rightarrow> string \<Rightarrow> 'a reply_db_scheme dbsession \<Rightarrow> 'a reply_db_scheme dbsession \<times> bool" where
  "claim_item a lt now secs k x s =
     (let (s', r) = claim_next (a\<lparr>ca_worker_id := x, ca_lease_seconds := secs\<rparr>) now lt s
      in if map_option wi_id r = Some k then (s', True) else (s, False))"

definition finish_item ::
  "(json \<Rightarrow> string) \<Rightarrow> bool \<Rightarrow> int option \<Rightarrow> string option \<Rightarrow> bool option \<Rightarrow> int \<Rightarrow> int \<Rightarrow> string
    \<Rightarrow> 'a reply_db_scheme dbsession \<Rightarrow> 'a reply_db_scheme dbsession \<times> bool" where
  "finish_item hash failed rid e ev lt k x s =
     (let (s', r) = mark_terminal hash k x (if failed then W_FAILED else W_SUCCEEDED) rid e ev True lt s
      in (s', r = Inr True))"

lemma work_store_wf_update:
  assumes "work_store_wf s" and "\<And>w. p w \<Longrightarrow> wi_id (f w) = wi_id w"
    and "\<And>w. p w \<Longrightarrow> wi_status (f w) = W_RUNNING \<Longrightarrow> work_lease (f w) \<noteq> None"
    and "rq_work (cur s') = sql_update p f (rq_work (cur s))"
  shows "work_store_wf s'"
  using assms by (auto simp: work_store_wf_def map_sql_update set_sql_update)

lemma work_holder_update:
  assumes "work_store_wf s" and "\<And>w. p w \<Longrightarrow> wi_id w = k" and "\<And>w. p w \<Longrightarrow> wi_id (f w) = k"
    and "\<And>w. p w \<Longrightarrow> work_lease (f w) = y" and "rq_work (cur s') = sql_update p f (rq_work (cur s))"
  shows "work_holder s' = (if rowcount p (rq_work (cur s)) = 1 then (work_holder s)(k := y) else work_holder s)"
  unfolding work_holder_def assms(5)
  by (rule key_view_update) (use assms in \<open>auto simp: work_store_wf_def\<close>)

lemma claimed_by_holder:
  assumes "work_store_wf s" and "rowcount (claimed_by k x) (rq_work (cur s)) = 1"
  shows "\<exists>u. work_holder s k = Some (x, u)"
proof -
  from rowcount_1_obtain [OF assms(2)] obtain w where w: "w \<in> set (rq_work (cur s))" "claimed_by k x w" by blast
  then have "work_holder s k = work_lease w"
    using key_view_row [of wi_id "rq_work (cur s)" w work_lease] assms(1)
    by (simp add: work_holder_def work_store_wf_def claimed_by_def)
  with w assms(1) show ?thesis
    by (auto simp: work_store_wf_def claimed_by_def work_lease_def split: option.splits if_splits)
qed

lemma work_renew_lease_eq:
  "work_renew_lease lt now secs k x s =
    (commit (fst (update_work (claimed_by k x) (\<lambda>w. w\<lparr>wi_lock_until := Some (now + secs), wi_updated_at := lt\<rparr>) s)),
     rowcount (claimed_by k x) (rq_work (cur s)) = 1)"
  by (simp add: work_renew_lease_def case_prod_beta)

lemma finish_item_eq:
  "rq_work (cur (fst (finish_item hash failed rid e ev lt k x s))) = sql_update (claimed_by k x)
     (\<lambda>w. (terminal_values (if failed then W_FAILED else W_SUCCEEDED) rid e ev w)\<lparr>wi_updated_at := lt\<rparr>) (rq_work (cur s))"
  "snd (finish_item hash failed rid e ev lt k x s) = (rowcount (claimed_by k x) (rq_work (cur s)) = 1)"
  by (auto simp: finish_item_def mark_terminal_def update_claimed_def Let_def case_prod_beta)

lemma terminal_values_fields [simp]:
  "wi_id (terminal_values st rid e ev w) = wi_id w" "wi_status (terminal_values st rid e ev w) = st"
  by (simp_all add: terminal_values_def Let_def split: option.splits)

lemma claim_item_cases:
  assumes "work_store_wf s"
  obtains (no) "claim_item a lt now secs k x s = (s, False)"
  | (yes) w s' where "w \<in> set (rq_work (cur s))" and "wi_id w = k" and "wi_status w = W_READY_FOR_LLM"
      and "claim_item a lt now secs k x s = (s', True)"
      and "rq_work (cur s') = sql_update (\<lambda>v. wi_id v = k) (grant_claim x secs now lt) (rq_work (cur s))"
proof (cases rule: claim_next_cases [of s "a\<lparr>ca_worker_id := x, ca_lease_seconds := secs\<rparr>" now lt, case_names dist none claimed])
  case dist
  then show ?case using assms by (simp add: work_store_wf_def)
next
  case none
  then show ?thesis by (intro no) (simp add: claim_item_def)
next
  case (claimed w)
  then show ?thesis
    by (cases "wi_id w = k") (auto simp: claim_item_def execute_def dest: claim_condition_ready intro: no yes)
qed

lemma work_renew_laws:
  assumes wf: "work_store_wf s"
  shows "work_store_wf (fst (work_renew_lease lt now secs k x s))"
    and "work_holder (fst (work_renew_lease lt now secs k x s)) =
      (if snd (work_renew_lease lt now secs k x s) then (work_holder s)(k \<mapsto> (x, now + secs)) else work_holder s)"
    and "snd (work_renew_lease lt now secs k x s) \<Longrightarrow> \<exists>u. work_holder s k = Some (x, u)"
proof -
  let ?f = "\<lambda>w. w\<lparr>wi_lock_until := Some (now + secs), wi_updated_at := lt\<rparr>"
  show "work_store_wf (fst (work_renew_lease lt now secs k x s))"
    by (rule work_store_wf_update [OF wf, of "claimed_by k x" ?f])
       (auto simp: work_renew_lease_eq work_lease_def claimed_by_def)
  show "work_holder (fst (work_renew_lease lt now secs k x s)) =
      (if snd (work_renew_lease lt now secs k x s) then (work_holder s)(k \<mapsto> (x, now + secs)) else work_holder s)"
    using work_holder_update [OF wf, of "claimed_by k x" k ?f "Some (x, now + secs)" "fst (work_renew_lease lt now secs k x s)"]
    by (auto simp: work_renew_lease_eq work_lease_def claimed_by_def)
  show "snd (work_renew_lease lt now secs k x s) \<Longrightarrow> \<exists>u. work_holder s k = Some (x, u)"
    using claimed_by_holder [OF wf, of k x] by (simp add: work_renew_lease_eq)
qed

lemma finish_item_laws:
  assumes wf: "work_store_wf s"
  shows "work_store_wf (fst (finish_item hash failed rid e ev now k x s))"
    and "work_holder (fst (finish_item hash failed rid e ev now k x s)) =
      (if snd (finish_item hash failed rid e ev now k x s) then (work_holder s)(k := None) else work_holder s)"
    and "snd (finish_item hash failed rid e ev now k x s) \<Longrightarrow> \<exists>u. work_holder s k = Some (x, u)"
proof -
  let ?g = "\<lambda>w. (terminal_values (if failed then W_FAILED else W_SUCCEEDED) rid e ev w)\<lparr>wi_updated_at := now\<rparr>"
  show "work_store_wf (fst (finish_item hash failed rid e ev now k x s))"
    by (rule work_store_wf_update [OF wf, of "claimed_by k x" ?g]) (auto simp: finish_item_eq split: if_splits)
  show "work_holder (fst (finish_item hash failed rid e ev now k x s)) =
      (if snd (finish_item hash failed rid e ev now k x s) then (work_holder s)(k := None) else work_holder s)"
    using work_holder_update [OF wf, of "claimed_by k x" k ?g None "fst (finish_item hash failed rid e ev now k x s)"]
    by (auto simp: finish_item_eq work_lease_def claimed_by_def)
  show "snd (finish_item hash failed rid e ev now k x s) \<Longrightarrow> \<exists>u. work_holder s k = Some (x, u)"
    using claimed_by_holder [OF wf, of k x] by (simp add: finish_item_eq)
qed

lemma claim_item_laws:
  assumes wf: "work_store_wf s"
  shows "work_store_wf (fst (claim_item a lt now secs k x s)) \<and>
    work_holder (fst (claim_item a lt now secs k x s)) =
      (if snd (claim_item a lt now secs k x s) then (work_holder s)(k \<mapsto> (x, now + secs)) else work_holder s) \<and>
    (snd (claim_item a lt now secs k x s) \<longrightarrow> work_holder s k = None)"
proof (cases rule: claim_item_cases [OF wf, of a lt now secs k x, case_names no yes])
  case no
  with wf show ?thesis by simp
next
  case (yes w s')
  have lease: "work_lease (grant_claim x secs now lt v) = Some (x, now + secs)" for v
    by (simp add: work_lease_def)
  have "work_store_wf s'"
    by (rule work_store_wf_update [OF wf _ _ yes(5)]) (simp_all add: lease)
  moreover have "rowcount (\<lambda>v. wi_id v = k) (rq_work (cur s)) = 1"
    using rowcount_key_eq_1 [of wi_id "rq_work (cur s)" "\<lambda>v. wi_id v = k" k] wf yes(1,2)
    by (auto simp: work_store_wf_def)
  moreover have "work_holder s k = None"
    using key_view_row [of wi_id "rq_work (cur s)" w work_lease] wf yes(1-3)
    by (simp add: work_holder_def work_store_wf_def work_lease_def)
  ultimately show ?thesis
    using work_holder_update [OF wf, of "\<lambda>v. wi_id v = k" k "grant_claim x secs now lt" "Some (x, now + secs)" s'] yes(4,5)
    by (simp add: lease)
qed

interpretation wq: lease_protocol work_holder work_store_wf "work_renew_lease lt"
  "finish_item hash failed rid e ev" "claim_item a lt" for lt hash failed rid e ev a
  by unfold_locales (simp_all add: work_renew_laws finish_item_laws claim_item_laws)

lemma mark_terminal_result:
  "snd (mark_terminal hash k x st rid e ev c lt s) = Inr (rowcount (claimed_by k x) (rq_work (cur s)) = 1)"
  by (simp add: mark_terminal_def update_claimed_def Let_def case_prod_beta)



section \<open>Recovery after a worker died\<close>

definition recoverable :: "'a reply_db_scheme \<Rightarrow> int \<Rightarrow> work_item \<Rightarrow> bool" where
  "recoverable d now w \<longleftrightarrow> work_expired now w \<and> wi_locked_by w \<noteq> None \<and> recovery_error d w = None"

definition recovery_claim :: "'a reply_db_scheme \<Rightarrow> work_item \<Rightarrow> (int \<times> string \<times> string) list" where
  "recovery_claim d w = (case (wi_locked_by w, recovery_error d w) of (Some x, Some e) \<Rightarrow> [(wi_id w, x, e)] | _ \<Rightarrow> [])"

lemma recovery_error_None: "recovery_error d w = None \<longleftrightarrow>
    json_get (wi_execution_state w) SESSION_REPLY_ACTIVE_AUDIT_EXECUTION_KEY = None \<and>
    wi_work_type w \<noteq> CONFIRMED_TOOL_EXECUTION \<and> \<not> stream_started d (wi_id w) \<and> wi_attempt_count w < wi_max_attempts w"
  by (auto simp: recovery_error_def)

lemma recover_values_fields [simp]:
  "wi_id (recover_values now lt w) = wi_id w" "wi_status (recover_values now lt w) = W_READY_FOR_LLM"
  "\<not> work_expired now (recover_values now lt w)"
  by (simp_all add: recover_values_def work_expired_def)

lemma recover_one:
  assumes "distinct (map wi_id t)" and "w \<in> set t" and "recoverable d0 now w" and "wi_locked_by w = Some x"
  shows "sql_update (\<lambda>v. claimed_by (wi_id w) x v \<and> work_expired now v \<and> wi_attempt_count v < wi_max_attempts v) f t =
      sql_update (\<lambda>v. wi_id v = wi_id w) f t"
    and "rowcount (\<lambda>v. claimed_by (wi_id w) x v \<and> work_expired now v \<and> wi_attempt_count v < wi_max_attempts v) t = 1"
proof -
  have eq: "(claimed_by (wi_id w) x v \<and> work_expired now v \<and> wi_attempt_count v < wi_max_attempts v) = (wi_id v = wi_id w)"
    if v: "v \<in> set t" for v
  proof
    assume "wi_id v = wi_id w"
    then have "v = w" by (rule distinct_key_eq [OF assms(1) v assms(2)])
    then show "claimed_by (wi_id w) x v \<and> work_expired now v \<and> wi_attempt_count v < wi_max_attempts v"
      using assms(3,4) by (simp add: recoverable_def recovery_error_None claimed_by_def work_expired_def)
  qed (simp add: claimed_by_def)
  then show "sql_update (\<lambda>v. claimed_by (wi_id w) x v \<and> work_expired now v \<and> wi_attempt_count v < wi_max_attempts v) f t =
      sql_update (\<lambda>v. wi_id v = wi_id w) f t"
    by (rule sql_update_cong) simp_all
  have "filter (\<lambda>v. claimed_by (wi_id w) x v \<and> work_expired now v \<and> wi_attempt_count v < wi_max_attempts v) t =
      filter (\<lambda>v. wi_id v = wi_id w) t"
    by (rule filter_cong [OF refl eq])
  then show "rowcount (\<lambda>v. claimed_by (wi_id w) x v \<and> work_expired now v \<and> wi_attempt_count v < wi_max_attempts v) t = 1"
    using filter_key [OF assms(1,2)] by (simp add: rowcount_def)
qed

lemma recover_each_correct:
  assumes "distinct (map wi_id (rq_work (cur s)))" and "distinct (map wi_id ws)"
    and "\<forall>w\<in>set ws. w \<in> set (rq_work (cur s)) \<and> work_expired now w \<and> wi_locked_by w \<noteq> None"
    and "recover_each d0 now lt ws s n cl = (s', n', cl')"
  shows "rq_work (cur s') = sql_update (\<lambda>v. wi_id v \<in> wi_id ` set (filter (recoverable d0 now) ws)) (recover_values now lt) (rq_work (cur s))
    \<and> cl' = cl @ concat (map (recovery_claim d0) ws) \<and> n' = n + rowcount (recoverable d0 now) ws"
  using assms
proof (induction ws arbitrary: s n cl)
  case Nil
  then show ?case by (simp add: sql_update_def rowcount_def)
next
  case (Cons w ws)
  then obtain x where x: "wi_locked_by w = Some x" by auto
  show ?case
  proof (cases "recovery_error d0 w")
    case (Some e)
    then have "\<not> recoverable d0 now w" "recovery_claim d0 w = [(wi_id w, x, e)]"
      using x by (simp_all add: recoverable_def recovery_claim_def)
    then show ?thesis
      using Cons.IH [of s n "cl @ [(wi_id w, x, e)]"] Cons.prems x Some by (simp add: rowcount_def)
  next
    case None
    with Cons.prems(3) x have rec: "recoverable d0 now w" by (simp add: recoverable_def)
    have w: "w \<in> set (rq_work (cur s))" using Cons.prems(3) by simp
    let ?p = "\<lambda>v. claimed_by (wi_id w) x v \<and> work_expired now v \<and> wi_attempt_count v < wi_max_attempts v"
    let ?s = "fst (update_work ?p (recover_values now lt) s)"
    note one = recover_one [OF Cons.prems(1) w rec x]
    have work: "rq_work (cur ?s) = sql_update (\<lambda>v. wi_id v = wi_id w) (recover_values now lt) (rq_work (cur s))"
      by (simp add: one)
    have "distinct (map wi_id (rq_work (cur ?s)))" unfolding work using Cons.prems(1) by (simp add: map_sql_update)
    moreover have "\<forall>v\<in>set ws. v \<in> set (rq_work (cur ?s)) \<and> work_expired now v \<and> wi_locked_by v \<noteq> None"
    proof -
      have "\<forall>v\<in>set ws. wi_id v \<noteq> wi_id w" using Cons.prems(2) by (auto simp: image_iff)
      with Cons.prems(3) show ?thesis unfolding work by (simp add: set_sql_update)
    qed
    moreover have "recover_each d0 now lt ws ?s (n + 1) cl = (s', n', cl')"
      using Cons.prems(4) x None one(2) by (simp add: case_prod_beta Let_def)
    moreover have "recovery_claim d0 w = []" using x None by (simp add: recovery_claim_def)
    ultimately show ?thesis
      using Cons.IH [of ?s "n + 1" cl] Cons.prems(2) rec unfolding work
      by (auto simp: sql_update_def rowcount_def)
  qed
qed


text \<open>C2: Recovery never repeats a side effect. An expired claim is put back into the queue exactly when
  its item is not in an audited execution, is not a confirmed tool execution, has streamed nothing but
  suspensions and has attempts left; every other expired claim is reported, with its owner and the
  reason, and its row stays as it is, as do the rows that have not expired. The result counts the
  expired claims, and the outcome is committed.\<close>

theorem recover_expired_correct:
  assumes "distinct (map wi_id (rq_work (cur s)))" and "recover_expired now lt s = (s', n, claims)"
  shows "rq_work (cur s') = map (\<lambda>w. if work_expired now w \<and> wi_locked_by w \<noteq> None \<and>
        json_get (wi_execution_state w) SESSION_REPLY_ACTIVE_AUDIT_EXECUTION_KEY = None \<and>
        wi_work_type w \<noteq> CONFIRMED_TOOL_EXECUTION \<and> \<not> stream_started (cur s) (wi_id w) \<and>
        wi_attempt_count w < wi_max_attempts w
      then w\<lparr>wi_status := W_READY_FOR_LLM, wi_locked_by := None, wi_lock_until := None, wi_available_at := now,
             wi_updated_at := lt\<rparr>
      else w) (rq_work (cur s)) \<and>
    (\<forall>i x e. (i, x, e) \<in> set claims \<longleftrightarrow> (\<exists>w\<in>set (rq_work (cur s)). wi_id w = i \<and> work_expired now w \<and>
        wi_locked_by w = Some x \<and> recovery_error (cur s) w = Some e)) \<and>
    n = rowcount (\<lambda>w. work_expired now w \<and> wi_locked_by w \<noteq> None) (rq_work (cur s)) \<and> saved s' = cur s'"
proof -
  let ?ws = "filter (\<lambda>w. work_expired now w \<and> wi_locked_by w \<noteq> None) (rq_work (cur s))"
  obtain s1 k where each: "recover_each (cur s) now lt ?ws s 0 [] = (s1, k, claims)" and s': "s' = commit s1"
      and n: "n = k + length claims"
    using assms(2) by (auto simp: recover_expired_def case_prod_beta Let_def prod_eq_iff)
  have dist: "distinct (map wi_id ?ws)" using assms(1) by (rule distinct_map_filter)
  have exp: "\<forall>w\<in>set ?ws. w \<in> set (rq_work (cur s)) \<and> work_expired now w \<and> wi_locked_by w \<noteq> None" by simp
  note each_eq = recover_each_correct [OF assms(1) dist exp each]
  note work = each_eq [THEN conjunct1]
  have cl: "claims = concat (map (recovery_claim (cur s)) ?ws)" by (subst each_eq [THEN conjunct2, THEN conjunct1]) simp
  have k: "k = rowcount (recoverable (cur s) now) ?ws" by (subst each_eq [THEN conjunct2, THEN conjunct2]) simp
  have eq: "(wi_id v \<in> wi_id ` set (filter (recoverable (cur s) now) ?ws)) = recoverable (cur s) now v"
    if v: "v \<in> set (rq_work (cur s))" for v
  proof -
    have "set (filter (recoverable (cur s) now) ?ws) = {w \<in> set (rq_work (cur s)). recoverable (cur s) now w}"
      by (auto simp: recoverable_def)
    then show ?thesis using key_in_image [OF assms(1) v, of "{w \<in> set (rq_work (cur s)). recoverable (cur s) now w}"] v
      by simp
  qed
  have "rq_work (cur s') = sql_update (recoverable (cur s) now) (recover_values now lt) (rq_work (cur s))"
    unfolding s' commit_fields work by (rule sql_update_cong [OF eq refl])
  moreover have "length (concat (map (recovery_claim (cur s)) ws)) + rowcount (recoverable (cur s) now) ws = length ws"
    if "\<forall>w\<in>set ws. work_expired now w \<and> wi_locked_by w \<noteq> None" for ws
    using that by (induction ws) (auto simp: rowcount_def recovery_claim_def recoverable_def)
  from this [of ?ws] have "n = length ?ws" using n k cl by auto
  ultimately show ?thesis
    using s' by (auto simp: sql_update_def recoverable_def recovery_error_None recover_values_def rowcount_def cl recovery_claim_def
        split: option.splits)
qed

theorem recover_expired_correct_witness:
  "let w = grant_claim ''w1'' 60 10 11 (sample_work 3 1);
       (s', n, claims) = recover_expired 71 71 (open_session (sample_reply_db [w, sample_work 4 2]))
   in n = 1 \<and> saved s' = cur s'"
proof -
  let ?s = "open_session (sample_reply_db [grant_claim ''w1'' 60 10 11 (sample_work 3 1), sample_work 4 2])"
  obtain s' n claims where r: "recover_expired 71 71 ?s = (s', n, claims)" by (cases "recover_expired 71 71 ?s")
  have "distinct (map wi_id (rq_work (cur ?s)))" by simp
  from recover_expired_correct [OF this r] have "n = rowcount (\<lambda>w. work_expired 71 w \<and> wi_locked_by w \<noteq> None) (rq_work (cur ?s)) \<and> saved s' = cur s'"
    by blast
  then show ?thesis unfolding Let_def r by (simp add: rowcount_def work_expired_def)
qed

section \<open>Following merges\<close>

definition merge_link :: "'a reply_db_scheme \<Rightarrow> (int \<times> int) set" where
  "merge_link d = {(i, j). \<exists>w. work_get i d = Some w \<and> wi_status w = W_MERGED \<and> wi_merged_into_id w = Some j \<and> j \<noteq> 0}"

lemma follow_merged_correct:
  assumes "(i, j) \<in> (merge_link d)\<^sup>*" and "\<forall>v\<in>visited. (v, j) \<in> (merge_link d)\<^sup>+"
  shows "case follow_merged d visited (work_get j d) of
     Some w \<Rightarrow> (i, wi_id w) \<in> (merge_link d)\<^sup>* \<and> work_get (wi_id w) d = Some w \<and> wi_id w \<notin> Domain (merge_link d)
   | None \<Rightarrow> (\<exists>j. (i, j) \<in> (merge_link d)\<^sup>* \<and> (work_get j d = None \<or> (j, j) \<in> (merge_link d)\<^sup>+))"
  using assms
proof (induction d visited "work_get j d" arbitrary: j rule: follow_merged.induct)
  case (1 d visited)
  show ?case
  proof (cases "work_get j d")
    case None
    with 1(2) show ?thesis by (auto simp: follow_merged.simps)
  next
    case (Some w)
    then have w: "w \<in> set (rq_work d)" "wi_id w = j" using work_get_Some by blast+
    show ?thesis
    proof (cases "\<exists>t. wi_status w = W_MERGED \<and> wi_merged_into_id w = Some t \<and> t \<noteq> 0")
      case False
      then have "follow_merged d visited (Some w) = Some w"
        by (auto simp: follow_merged.simps split: work_status.splits option.splits)
      moreover have "j \<notin> Domain (merge_link d)" using False Some by (auto simp: merge_link_def)
      ultimately show ?thesis using 1(2) Some w by simp
    next
      case True
      then obtain t where t: "wi_status w = W_MERGED" "wi_merged_into_id w = Some t" "t \<noteq> 0" by blast
      with Some have link: "(j, t) \<in> merge_link d" by (auto simp: merge_link_def)
      show ?thesis
      proof (cases "j \<in> visited")
        case True
        with 1(2,3) Some w t show ?thesis by (auto simp: follow_merged.simps)
      next
        case False
        have step: "follow_merged d visited (Some w) = follow_merged d (insert j visited) (work_get t d)"
          using t w False by (simp add: follow_merged.simps [of d visited "Some w"])
        have "\<forall>v\<in>insert j visited. (v, t) \<in> (merge_link d)\<^sup>+"
          using 1(3) link by (auto intro: trancl.trancl_into_trancl)
        moreover have "(i, t) \<in> (merge_link d)\<^sup>*" using 1(2) link by (rule rtrancl_into_rtrancl)
        ultimately show ?thesis
          unfolding Some step using 1(1) [of w W_MERGED "Some t" t t] Some t w False by simp
      qed
    qed
  qed
qed

text \<open>C17: Resolving a merged work item ends, with the right answer. Following \<open>merged_into_id\<close> always
  returns: the item at the end of the chain, which is not itself merged into another, or nothing, and
  then the chain leads to a missing row or into a cycle.\<close>

theorem resolve_merged_target_correct:
  "case resolve_merged_target i d of
     Some w \<Rightarrow> (i, wi_id w) \<in> (merge_link d)\<^sup>* \<and> work_get (wi_id w) d = Some w \<and> wi_id w \<notin> Domain (merge_link d)
   | None \<Rightarrow> (\<exists>j. (i, j) \<in> (merge_link d)\<^sup>* \<and> (work_get j d = None \<or> (j, j) \<in> (merge_link d)\<^sup>+))"
  unfolding resolve_merged_target_def by (rule follow_merged_correct) simp_all

section \<open>Retention\<close>

lemma limited_keys_props:
  assumes "distinct (map k t)"
  shows "rowcount (\<lambda>r. k r \<in> set (limited_keys k p n t)) t = length (limited_keys k p n t)"
    and "length (limited_keys k p n t) \<le> nat n"
    and "\<And>r. r \<in> set t \<Longrightarrow> k r \<in> set (limited_keys k p n t) \<Longrightarrow> p r"
    and "\<And>r. int (length (limited_keys k p n t)) < n \<Longrightarrow> r \<in> set t \<Longrightarrow> p r \<Longrightarrow> k r \<in> set (limited_keys k p n t)"
proof -
  let ?all = "map k (sort_key k (filter p t))"
  have set_all: "set ?all = k ` {r \<in> set t. p r}" by simp
  have "distinct (map k (filter p t))" using assms by (rule distinct_map_filter)
  then have dist: "distinct ?all" by (simp add: distinct_map)
  have sub: "set (limited_keys k p n t) \<subseteq> set ?all"
    unfolding limited_keys_def by (rule sql_limit_subset)
  show "rowcount (\<lambda>r. k r \<in> set (limited_keys k p n t)) t = length (limited_keys k p n t)"
    by (rule rowcount_ids_eq [OF assms]) (use dist sub set_all in \<open>auto simp: limited_keys_def sql_limit_def\<close>)
  show "length (limited_keys k p n t) \<le> nat n" by (simp add: limited_keys_def sql_limit_def)
  show "p r" if "r \<in> set t" "k r \<in> set (limited_keys k p n t)" for r
    using key_in_image [OF assms that(1), of "{r \<in> set t. p r}"] that(2) sub set_all by auto
  show "k r \<in> set (limited_keys k p n t)" if "int (length (limited_keys k p n t)) < n" "r \<in> set t" "p r" for r
  proof -
    have "limited_keys k p n t = ?all" using that(1) by (auto simp: limited_keys_def sql_limit_def min_def split: if_splits)
    with that(2,3) show ?thesis by simp
  qed
qed

lemma delete_events_props:
  assumes "distinct (map se_id (rq_events (cur s)))" and "delete_events p r s = (s', n)"
  shows "cur s' = (cur s)\<lparr>rq_events := rq_events (cur s')\<rparr> \<and> saved s' = cur s' \<and> n \<le> nat r \<and>
    set (rq_events (cur s')) \<subseteq> set (rq_events (cur s)) \<and>
    (\<forall>e\<in>set (rq_events (cur s)). \<not> p e \<longrightarrow> e \<in> set (rq_events (cur s'))) \<and>
    (int n < r \<longrightarrow> (\<forall>e\<in>set (rq_events (cur s')). \<not> p e)) \<and> distinct (map se_id (rq_events (cur s')))"
proof -
  note keys = limited_keys_props [OF assms(1), where p = p and n = r]
  have s': "s' = commit (execute (\<lambda>d. d\<lparr>rq_events := sql_delete (\<lambda>e. se_id e \<in> set (limited_keys se_id p r (rq_events (cur s)))) (rq_events d)\<rparr>) s)"
    and n: "n = length (limited_keys se_id p r (rq_events (cur s)))"
    using assms(2) keys(1) by (auto simp: delete_events_def Let_def)
  show ?thesis
    using keys(2-4) n assms(1) by (auto simp: s' execute_def distinct_map_filter sql_delete_def)
qed

lemma cleanup_expired_work_props:
  assumes "distinct (map wi_id (rq_work (cur s)))" and "cleanup_expired_work c r s = (s', n)"
  shows "saved s' = cur s' \<and> n \<le> nat r \<and> rq_sequences (cur s') = rq_sequences (cur s) \<and> rq_messages (cur s') = rq_messages (cur s) \<and>
    set (rq_work (cur s')) \<subseteq> set (rq_work (cur s)) \<and>
    (\<forall>w\<in>set (rq_work (cur s)). \<not> expired_work c (cur s) w \<longrightarrow> w \<in> set (rq_work (cur s'))) \<and>
    rq_events (cur s') = rq_events (cur s) \<and>
    (int n < r \<longrightarrow> (\<forall>w\<in>set (rq_work (cur s')). expired_work c (cur s) w \<longrightarrow> (\<exists>e\<in>set (rq_events (cur s)). se_work_id e = wi_id w)))"
proof -
  let ?p = "\<lambda>w. expired_work c (cur s) w \<and> \<not> (\<exists>e\<in>set (rq_events (cur s)). se_work_id e = wi_id w)"
  define ids where "ids = limited_keys wi_id ?p r (rq_work (cur s))"
  note keys = limited_keys_props [OF assms(1), where p = ?p and n = r, folded ids_def]
  have s': "s' = commit (execute (delete_work (\<lambda>w. wi_id w \<in> set ids)) s)" and n: "n = length ids"
    using assms(2) keys(1) by (auto simp: cleanup_expired_work_def Let_def ids_def)
  have noev: "\<not> (\<exists>w\<in>set (rq_work (cur s)). wi_id w \<in> set ids \<and> se_work_id e = wi_id w)" if "e \<in> set (rq_events (cur s))" for e
    using that keys(3) by blast
  then have ev: "rq_events (cur s') = rq_events (cur s)"
    by (auto simp: s' execute_def delete_work_def Let_def sql_delete_def filter_id_conv)
  have work: "rq_work (cur s') = sql_delete (\<lambda>w. wi_id w \<in> set ids) (rq_work (cur s))"
    and same: "rq_sequences (cur s') = rq_sequences (cur s)" "rq_messages (cur s') = rq_messages (cur s)" "saved s' = cur s'"
    by (simp_all add: s' execute_def delete_work_def Let_def)
  have kept: "\<forall>w\<in>set (rq_work (cur s)). \<not> expired_work c (cur s) w \<longrightarrow> w \<in> set (rq_work (cur s'))"
    using keys(3) unfolding work set_sql_delete by blast
  have all: "\<exists>e\<in>set (rq_events (cur s)). se_work_id e = wi_id w"
    if "int n < r" "w \<in> set (rq_work (cur s'))" "expired_work c (cur s) w" for w
    using keys(4) [of w] that n unfolding work set_sql_delete by blast
  have "n \<le> nat r" using keys(2) n by simp
  with kept all ev same show ?thesis by (auto simp: work)
qed

lemma cleanup_sequences_props:
  assumes "distinct (map sq_session_id (rq_sequences (cur s)))" and "cleanup_orphan_sequences r s = (s', n)"
  shows "cur s' = (cur s)\<lparr>rq_sequences := rq_sequences (cur s')\<rparr> \<and> saved s' = cur s' \<and> n \<le> nat r"
  using limited_keys_props(1,2) [OF assms(1), of "\<lambda>q. \<not> (\<exists>c\<in>set (rq_chat_sessions (cur s)). fst c = sq_session_id q) \<and>
            \<not> (\<exists>w\<in>set (rq_work (cur s)). wi_session_id w = sq_session_id q)" r] assms(2)
  by (auto simp: cleanup_orphan_sequences_def Let_def execute_def)

lemma cleanup_messages_props:
  assumes "distinct (map cm_id (rq_messages (cur s)))" and "cleanup_messages r s = (s', n)" and "0 < r"
  shows "rq_work (cur s') = rq_work (cur s) \<and> rq_events (cur s') = rq_events (cur s) \<and> saved s' = cur s' \<and> int n \<le> r"
  using cleanup_unreferenced_bound [OF assms(1), of r] assms(2,3)
  by (auto simp: cleanup_messages_def Let_def case_prod_beta cleanup_unreferenced_def split: if_splits)

definition retention_wf :: "'a reply_db_scheme \<Rightarrow> bool" where
  "retention_wf d \<longleftrightarrow> distinct (map wi_id (rq_work d)) \<and> distinct (map se_id (rq_events d)) \<and>
     distinct (map sq_session_id (rq_sequences d)) \<and> distinct (map cm_id (rq_messages d))"

lemma stage_cases:
  assumes "stage f r s = (s', n)"
  obtains "0 < r" and "f r s = (s', n)" | "r \<le> 0" and "s' = s" and "n = 0"
  using assms by (auto simp: stage_def split: if_splits)

lemma expired_work_events [simp]: "expired_work c (d\<lparr>rq_events := es\<rparr>) = expired_work c d"
  by (simp add: expired_work_def fun_eq_iff)

lemma cleanup_expired_events_props:
  assumes "retention_wf (cur s)" and "cleanup_expired_events c r s = (s', n)"
  shows "cur s' = (cur s)\<lparr>rq_events := rq_events (cur s')\<rparr> \<and> saved s' = cur s' \<and> n \<le> nat r \<and>
    (\<forall>e\<in>set (rq_events (cur s)). (\<exists>w\<in>set (rq_work (cur s)). wi_id w = se_work_id e \<and> \<not> expired_work c (cur s) w) \<longrightarrow>
       e \<in> set (rq_events (cur s'))) \<and>
    (int n < r \<longrightarrow> (\<forall>e\<in>set (rq_events (cur s')). \<forall>w\<in>set (rq_work (cur s)). expired_work c (cur s) w \<longrightarrow> se_work_id e \<noteq> wi_id w)) \<and>
    distinct (map se_id (rq_events (cur s')))"
proof -
  let ?exp = "set (filter (expired_work c (cur s)) (rq_work (cur s)))"
  have wf: "distinct (map se_id (rq_events (cur s)))" "distinct (map wi_id (rq_work (cur s)))"
    using assms(1) by (simp_all add: retention_wf_def)
  note props = delete_events_props [OF wf(1) assms(2) [unfolded cleanup_expired_events_def]]
  have "wi_id w \<notin> wi_id ` ?exp" if "w \<in> set (rq_work (cur s))" "\<not> expired_work c (cur s) w" for w
    using key_in_image [OF wf(2) that(1), of ?exp] that(2) by auto
  then have keep: "se_work_id e \<notin> wi_id ` ?exp"
    if "w \<in> set (rq_work (cur s))" "wi_id w = se_work_id e" "\<not> expired_work c (cur s) w" for w e
    using that by metis
  have "int n < r \<longrightarrow> (\<forall>e\<in>set (rq_events (cur s')). \<forall>w\<in>set (rq_work (cur s)). expired_work c (cur s) w \<longrightarrow> se_work_id e \<noteq> wi_id w)"
    using props by force
  then show ?thesis using props keep by blast
qed

text \<open>Retention is bounded, safe and, within its budget, complete. One run deletes at most
  \<open>max 1 batch_size\<close> rows in all; it keeps every work item that is not terminal, too recent, a
  subagent's or a subagent's parent, and every stream event of such an item; and when it stops before
  its budget is used up no expired work item is left. Every stage is committed.\<close>

theorem cleanup_terminal_items_correct:
  assumes "retention_wf (cur s)" and "cleanup_terminal_items hours batch_size lt s = (s', r)"
    and "c = lt - hours * 3600"
  shows "int (cleanup_total r) \<le> max 1 batch_size \<and>
    (\<forall>w\<in>set (rq_work (cur s)). \<not> expired_work c (cur s) w \<longrightarrow> w \<in> set (rq_work (cur s'))) \<and>
    (\<forall>e\<in>set (rq_events (cur s)). (\<exists>w\<in>set (rq_work (cur s)). wi_id w = se_work_id e \<and> \<not> expired_work c (cur s) w) \<longrightarrow>
       e \<in> set (rq_events (cur s'))) \<and>
    (int (cleanup_total r) < max 1 batch_size \<longrightarrow> (\<forall>w\<in>set (rq_work (cur s')). \<not> expired_work c (cur s) w)) \<and>
    saved s' = cur s'"
proof -
  let ?r0 = "max 1 batch_size"
  obtain s1 n1 where e1: "cleanup_expired_events c ?r0 s = (s1, n1)" by (meson surj_pair)
  obtain s2 n2 where e2: "stage (cleanup_expired_work c) (?r0 - int n1) s1 = (s2, n2)" by (meson surj_pair)
  obtain s3 n3 where e3: "stage cleanup_orphan_events (?r0 - int n1 - int n2) s2 = (s3, n3)" by (meson surj_pair)
  obtain s4 n4 where e4: "stage cleanup_orphan_sequences (?r0 - int n1 - int n2 - int n3) s3 = (s4, n4)" by (meson surj_pair)
  obtain s5 n5 where e5: "stage cleanup_messages (?r0 - int n1 - int n2 - int n3 - int n4) s4 = (s5, n5)" by (meson surj_pair)
  have res: "s' = s5" "cleanup_total r = n1 + n2 + n3 + n4 + n5"
    using assms(2) by (auto simp: cleanup_terminal_items_def Let_def assms(3) [symmetric] e1 e2 e3 e4 e5 cleanup_total_def)
  have wf: "distinct (map wi_id (rq_work (cur s)))" "distinct (map sq_session_id (rq_sequences (cur s)))"
    "distinct (map cm_id (rq_messages (cur s)))" using assms(1) by (simp_all add: retention_wf_def)
  note p1 = cleanup_expired_events_props [OF assms(1) e1]
  obtain ev1 where c1: "cur s1 = (cur s)\<lparr>rq_events := ev1\<rparr>" using p1 by blast
  have p2: "saved s2 = cur s2 \<and> n2 \<le> nat (?r0 - int n1) \<and> rq_sequences (cur s2) = rq_sequences (cur s) \<and>
      rq_messages (cur s2) = rq_messages (cur s) \<and> rq_events (cur s2) = ev1 \<and> set (rq_work (cur s2)) \<subseteq> set (rq_work (cur s)) \<and>
      (\<forall>w\<in>set (rq_work (cur s)). \<not> expired_work c (cur s) w \<longrightarrow> w \<in> set (rq_work (cur s2))) \<and>
      (int n2 < ?r0 - int n1 \<longrightarrow> (\<forall>w\<in>set (rq_work (cur s2)). expired_work c (cur s) w \<longrightarrow> (\<exists>e\<in>set ev1. se_work_id e = wi_id w)))"
    using e2 cleanup_expired_work_props [of s1 c "?r0 - int n1" s2 n2] wf p1 by (cases rule: stage_cases) (auto simp: c1)
  have p3: "cur s3 = (cur s2)\<lparr>rq_events := rq_events (cur s3)\<rparr> \<and> saved s3 = cur s3 \<and> n3 \<le> nat (?r0 - int n1 - int n2) \<and>
      (\<forall>e\<in>set ev1. (\<exists>w\<in>set (rq_work (cur s2)). wi_id w = se_work_id e) \<longrightarrow> e \<in> set (rq_events (cur s3)))"
    using e3 delete_events_props [of s2 _ "?r0 - int n1 - int n2" s3 n3] p1 p2
    by (cases rule: stage_cases) (auto simp: c1 cleanup_orphan_events_def)
  obtain ev3 where c3: "cur s3 = (cur s2)\<lparr>rq_events := ev3\<rparr>" using p3 by blast
  have p4: "cur s4 = (cur s3)\<lparr>rq_sequences := rq_sequences (cur s4)\<rparr> \<and> saved s4 = cur s4 \<and> n4 \<le> nat (?r0 - int n1 - int n2 - int n3)"
    using e4 cleanup_sequences_props [of s3 "?r0 - int n1 - int n2 - int n3" s4 n4] wf p2 p3
    by (cases rule: stage_cases) (auto simp: c3)
  obtain sq4 where c4: "cur s4 = (cur s3)\<lparr>rq_sequences := sq4\<rparr>" using p4 by blast
  have p5: "rq_work (cur s5) = rq_work (cur s4) \<and> rq_events (cur s5) = rq_events (cur s4) \<and> saved s5 = cur s5 \<and>
      n5 \<le> nat (?r0 - int n1 - int n2 - int n3 - int n4)"
    using e5 cleanup_messages_props [of s4 "?r0 - int n1 - int n2 - int n3 - int n4" s5 n5] wf p2 p4
    by (cases rule: stage_cases) (auto simp: c3 c4)
  have budget: "int n \<le> r' \<and> 0 \<le> r' - int n" if "n \<le> nat r'" "0 \<le> r'" for n r' using that by linarith
  have "n1 \<le> nat ?r0" "n2 \<le> nat (?r0 - int n1)" "n3 \<le> nat (?r0 - int n1 - int n2)"
    "n4 \<le> nat (?r0 - int n1 - int n2 - int n3)" "n5 \<le> nat (?r0 - int n1 - int n2 - int n3 - int n4)"
    using p1 p2 p3 p4 p5 by blast+
  then have "int n5 \<le> ?r0 - int n1 - int n2 - int n3 - int n4" by (intro budget [THEN conjunct1] budget [THEN conjunct2]) (simp_all add: le_max_iff_disj)
  then have total: "int (n1 + n2 + n3 + n4 + n5) \<le> ?r0" by simp
  have work: "rq_work (cur s5) = rq_work (cur s2)" and events: "rq_events (cur s5) = rq_events (cur s3)"
    using p5 by (simp_all add: c3 c4)
  have none_left: "\<not> expired_work c (cur s) w" if few: "int (n1 + n2 + n3 + n4 + n5) < ?r0" and w: "w \<in> set (rq_work (cur s2))" for w
  proof
    assume exp: "expired_work c (cur s) w"
    have "int n2 < ?r0 - int n1" "int n1 < ?r0" using few by linarith+
    then obtain e where e: "e \<in> set ev1" "se_work_id e = wi_id w" using p2 exp w by blast
    have "w \<in> set (rq_work (cur s))" using p2 w by blast
    with p1 \<open>int n1 < ?r0\<close> e exp show False by (simp add: c1)
  qed
  have kept: "e \<in> set (rq_events (cur s3))"
    if "e \<in> set (rq_events (cur s))" "w \<in> set (rq_work (cur s))" "wi_id w = se_work_id e" "\<not> expired_work c (cur s) w" for e w
  proof -
    have "e \<in> set ev1" using p1 that by (simp add: c1) blast
    moreover have "w \<in> set (rq_work (cur s2))" using p2 that by blast
    ultimately show ?thesis using p3 that(3) by blast
  qed
  show ?thesis unfolding res work events
    using total none_left kept p2 p5 by blast
qed

theorem cleanup_terminal_items_witness:
  "let (s', r) = cleanup_terminal_items 24 2 1000000 (open_session (sample_reply_db [sample_done, sample_work 3 1]))
   in int (cleanup_total r) \<le> 2 \<and> sample_work 3 1 \<in> set (rq_work (cur s'))"
proof -
  let ?s = "open_session (sample_reply_db [sample_done, sample_work 3 1])"
  obtain s' r where r: "cleanup_terminal_items 24 2 1000000 ?s = (s', r)" by (meson surj_pair)
  have wf: "retention_wf (cur ?s)"
    by (simp add: retention_wf_def sample_done_def) (simp add: sample_reply_db_def)
  have "\<not> expired_work (1000000 - 24 * 3600) (cur ?s) (sample_work 3 1)" by (simp add: expired_work_def)
  with cleanup_terminal_items_correct [OF wf r refl] show ?thesis unfolding Let_def r by simp
qed

end
