(* ===== verification/Audit_Tables.thy ===== *)
theory Audit_Tables
  imports Reply_Tables
begin

text \<open>
  The tables of the tool-call audit (\<open>app/models/audit.py\<close>): audit records, the audited tool calls
  of a record, the confirmation claims and the execution attempts. The audit operations run in the
  sessions of the reply queue, so the database extends \<open>reply_db\<close>. Columns are record fields with
  the table's prefix (\<open>ar_\<close>, \<open>at_\<close>, \<open>ac_\<close>, \<open>ae_\<close>, \<open>av_\<close>).
\<close>

datatype audit_status = A_PREPARING | A_PASSED | A_BLOCKED | A_AUDIT_FAILED | A_PENDING | A_REJECTED
  | A_EXPIRED | A_CANCELLED | A_EXECUTING | A_SUCCEEDED | A_FAILED | A_EXECUTION_UNKNOWN

datatype audit_failure_type = AUDIT_SERVICE_FAILED | AUDIT_PERSISTENCE_FAILED | SOURCE_MESSAGE_INVALID

datatype audit_decision = APPROVE | REJECT

datatype tool_conclusion = T_PASSED | T_BLOCKED | T_AUDIT_FAILED | T_PENDING

datatype execution_status = X_RUNNING | X_SUCCEEDED | X_FAILED | X_CANCELLED | X_EXECUTION_UNKNOWN

definition AUDIT_TERMINAL_STATUSES :: "audit_status set" where
  "AUDIT_TERMINAL_STATUSES = {A_BLOCKED, A_AUDIT_FAILED, A_REJECTED, A_EXPIRED, A_CANCELLED, A_SUCCEEDED,
     A_FAILED, A_EXECUTION_UNKNOWN}"

lemma audit_terminal_iff:
  "st \<in> AUDIT_TERMINAL_STATUSES \<longleftrightarrow> st \<notin> {A_PREPARING, A_PASSED, A_PENDING, A_EXECUTING}"
  by (cases st) (simp_all add: AUDIT_TERMINAL_STATUSES_def)

fun conclusion_value :: "tool_conclusion \<Rightarrow> string" where
  "conclusion_value T_PASSED = ''passed''"
| "conclusion_value T_BLOCKED = ''blocked''"
| "conclusion_value T_AUDIT_FAILED = ''audit_failed''"
| "conclusion_value T_PENDING = ''pending''"

definition parse_conclusion :: "string \<Rightarrow> tool_conclusion option" where
  "parse_conclusion v = find (\<lambda>c. conclusion_value c = v) [T_PASSED, T_BLOCKED, T_AUDIT_FAILED, T_PENDING]"

record audit_record =
  ar_id :: int
  ar_uid :: string
  ar_operator_username :: string
  ar_session_id :: string
  ar_source :: string
  ar_language :: string
  ar_execution_scope :: string
  ar_source_work_id :: "int option"
  ar_status :: audit_status
  ar_failure_type :: "audit_failure_type option"
  ar_error_reason :: "string option"
  ar_source_assistant_message_id :: int
  ar_working_directory :: string
  ar_round_arguments_hash :: string
  ar_tool_count :: int
  ar_intent_summary :: "string option"
  ar_context_file_path :: "string option"
  ar_decision :: "audit_decision option"
  ar_decision_message_id :: "int option"
  ar_decision_raw_message :: "string option"
  ar_decided_by :: "string option"
  ar_execution_claim_token :: "string option"
  ar_created_at :: int
  ar_updated_at :: int
  ar_audited_at :: "int option"
  ar_pending_at :: "int option"
  ar_expires_at :: "int option"
  ar_decided_at :: "int option"
  ar_execution_started_at :: "int option"
  ar_completed_at :: "int option"

record audit_tool_detail =
  at_id :: int
  at_audit_record_id :: int
  at_original_tool_call_id :: string
  at_turn_index :: int
  at_tool_name :: string
  at_conclusion :: tool_conclusion
  at_score :: "int option"
  at_reason :: string
  at_arguments_hash :: string
  at_arguments_summary :: string
  at_file_snapshots :: "json list"
  at_created_at :: int

record confirmation_claim =
  ac_id :: int
  ac_uid :: string
  ac_session_id :: string
  ac_audit_record_id :: int
  ac_created_at :: int

record audit_execution =
  ae_id :: int
  ae_audit_record_id :: int
  ae_audit_tool_detail_id :: int
  ae_attempt_no :: int
  ae_status :: execution_status
  ae_claim_token :: string
  ae_execution_node :: string
  ae_new_tool_call_id :: string
  ae_result_summary :: "string option"
  ae_error :: "string option"
  ae_started_at :: int
  ae_finished_at :: "int option"

record tool_result_version =
  av_id :: int
  av_uid :: string
  av_session_id :: string
  av_audit_record_id :: int
  av_source_assistant_message_id :: int
  av_original_tool_call_id :: string
  av_message_id :: int
  av_version_no :: int
  av_content :: string
  av_created_at :: int

record audit_db = reply_db +
  ad_records :: "audit_record list"
  ad_details :: "audit_tool_detail list"
  ad_claims :: "confirmation_claim list"
  ad_executions :: "audit_execution list"
  ad_versions :: "tool_result_version list"

text \<open>Statements on the audit tables: the new session and the row count.\<close>

definition update_records ::
  "(audit_record \<Rightarrow> bool) \<Rightarrow> (audit_record \<Rightarrow> audit_record) \<Rightarrow> 'a audit_db_scheme dbsession
    \<Rightarrow> 'a audit_db_scheme dbsession \<times> nat" where
  "update_records p f s =
     (execute (\<lambda>d. d\<lparr>ad_records := sql_update p f (ad_records d)\<rparr>) s, rowcount p (ad_records (cur s)))"

definition update_executions ::
  "(audit_execution \<Rightarrow> bool) \<Rightarrow> (audit_execution \<Rightarrow> audit_execution) \<Rightarrow> 'a audit_db_scheme dbsession
    \<Rightarrow> 'a audit_db_scheme dbsession \<times> nat" where
  "update_executions p f s =
     (execute (\<lambda>d. d\<lparr>ad_executions := sql_update p f (ad_executions d)\<rparr>) s, rowcount p (ad_executions (cur s)))"

definition delete_claims ::
  "(confirmation_claim \<Rightarrow> bool) \<Rightarrow> 'a audit_db_scheme dbsession \<Rightarrow> 'a audit_db_scheme dbsession" where
  "delete_claims p s = execute (\<lambda>d. d\<lparr>ad_claims := sql_delete p (ad_claims d)\<rparr>) s"

text \<open>
  Deleting audit records. The foreign keys of tool details, claims and executions are declared
  \<open>ON DELETE CASCADE\<close>.
\<close>

definition delete_audit_records :: "(audit_record \<Rightarrow> bool) \<Rightarrow> 'a audit_db_scheme \<Rightarrow> 'a audit_db_scheme" where
  "delete_audit_records p d =
     (let gone = map ar_id (filter p (ad_records d))
      in d\<lparr>ad_records := sql_delete p (ad_records d),
           ad_details := sql_delete (\<lambda>t. at_audit_record_id t \<in> set gone) (ad_details d),
           ad_claims := sql_delete (\<lambda>c. ac_audit_record_id c \<in> set gone) (ad_claims d),
           ad_executions := sql_delete (\<lambda>x. ae_audit_record_id x \<in> set gone) (ad_executions d)\<rparr>)"

lemma update_records_fields [simp, session_simps]:
  "ad_records (cur (fst (update_records p f s))) = sql_update p f (ad_records (cur s))"
  "ad_executions (cur (fst (update_records p f s))) = ad_executions (cur s)"
  "ad_claims (cur (fst (update_records p f s))) = ad_claims (cur s)"
  "ad_details (cur (fst (update_records p f s))) = ad_details (cur s)"
  "snd (update_records p f s) = rowcount p (ad_records (cur s))"
  "saved (fst (update_records p f s)) = saved s"
  "work_claim (fst (update_records p f s)) = work_claim s"
  by (simp_all add: update_records_def)

lemma update_executions_fields [simp, session_simps]:
  "ad_executions (cur (fst (update_executions p f s))) = sql_update p f (ad_executions (cur s))"
  "ad_records (cur (fst (update_executions p f s))) = ad_records (cur s)"
  "ad_claims (cur (fst (update_executions p f s))) = ad_claims (cur s)"
  "ad_details (cur (fst (update_executions p f s))) = ad_details (cur s)"
  "snd (update_executions p f s) = rowcount p (ad_executions (cur s))"
  "saved (fst (update_executions p f s)) = saved s"
  "work_claim (fst (update_executions p f s)) = work_claim s"
  by (simp_all add: update_executions_def)

lemma delete_claims_fields [simp, session_simps]:
  "ad_claims (cur (delete_claims p s)) = sql_delete p (ad_claims (cur s))"
  "ad_records (cur (delete_claims p s)) = ad_records (cur s)"
  "ad_executions (cur (delete_claims p s)) = ad_executions (cur s)"
  "ad_details (cur (delete_claims p s)) = ad_details (cur s)"
  "saved (delete_claims p s) = saved s" "work_claim (delete_claims p s) = work_claim s"
  by (simp_all add: delete_claims_def)

end
