(* ===== verification/Audit_Store.thy ===== *)
theory Audit_Store
  imports Audit_Tables Reply_Queue
begin

text \<open>
  The audit operations (\<open>app/core/crud/audit/\<close>): preparing a record and aggregating the conclusions
  on its tool calls, the human confirmation and the claims for execution, the execution attempts and
  the end of the round, cancellation, expiry and recovery. \<open>lt\<close> is the reading of
  \<open>get_local_time()\<close>, \<open>token\<close> the value of \<open>uuid4().hex\<close>, \<open>resolve\<close> is \<open>Path.resolve\<close>, which
  depends on the file system. A failed flush rolls the transaction back.
\<close>

definition AUDIT_HIGH_RISK_SCORE :: int where "AUDIT_HIGH_RISK_SCORE = 8"

definition preparation_statuses :: "audit_status set" where
  "preparation_statuses = {A_PASSED, A_BLOCKED, A_AUDIT_FAILED, A_PENDING}"

definition final_execution_statuses :: "audit_status set" where
  "final_execution_statuses = {A_SUCCEEDED, A_FAILED, A_EXECUTION_UNKNOWN}"

text \<open>The claim check of the reply queue, for the operations that start with it.\<close>

definition with_work_claim ::
  "int \<Rightarrow> ('a reply_db_scheme dbsession \<Rightarrow> 'a reply_db_scheme dbsession \<times> (py_error + 'r))
    \<Rightarrow> 'a reply_db_scheme dbsession \<Rightarrow> 'a reply_db_scheme dbsession \<times> (py_error + 'r)" where
  "with_work_claim lt f s =
     (case ensure_session_reply_work_claim False lt s of
        (s1, Inl e) \<Rightarrow> (s1, Inl e)
      | (s1, Inr _) \<Rightarrow> f s1)"

section \<open>common.py\<close>

fun validate_snapshot_items :: "json list \<Rightarrow> py_error + json list" where
  "validate_snapshot_items [] = Inr []"
| "validate_snapshot_items (j # js) =
     (if \<not> json_is_dict j then Inl (ValueError ''ERR_AUDIT_FILE_SNAPSHOT_INVALID'')
      else case validate_snapshot_items js of Inl e \<Rightarrow> Inl e | Inr vs \<Rightarrow> Inr (j # vs))"

definition validate_file_snapshots :: "json \<Rightarrow> py_error + json list" where
  "validate_file_snapshots j =
     (case j of JList js \<Rightarrow> validate_snapshot_items js
      | _ \<Rightarrow> Inl (ValueError ''ERR_AUDIT_FILE_SNAPSHOTS_INVALID''))"

definition build_audit_status_update ::
  "int \<Rightarrow> audit_status \<Rightarrow> (audit_record \<Rightarrow> audit_record) \<Rightarrow> 'a audit_db_scheme dbsession
    \<Rightarrow> 'a audit_db_scheme dbsession \<times> nat" where
  "build_audit_status_update audit_record_id expected_status vals =
     update_records (\<lambda>r. ar_id r = audit_record_id \<and> ar_status r = expected_status) vals"

definition build_pending_execution_claim_update ::
  "int \<Rightarrow> string \<Rightarrow> string \<Rightarrow> int \<Rightarrow> string \<Rightarrow> int \<Rightarrow> string \<Rightarrow> string \<Rightarrow> 'a audit_db_scheme dbsession
    \<Rightarrow> 'a audit_db_scheme dbsession \<times> nat" where
  "build_pending_execution_claim_update audit_record_id uid sid now token decision_mid raw by s =
     (let claim_exists = (\<exists>c\<in>set (ad_claims (cur s)). ac_audit_record_id c = audit_record_id \<and>
            ac_uid c = uid \<and> ac_session_id c = sid)
      in update_records
           (\<lambda>r. ar_id r = audit_record_id \<and> ar_uid r = uid \<and> ar_session_id r = sid \<and> ar_status r = A_PENDING \<and>
                ar_expires_at r \<noteq> None \<and> null_gt (ar_expires_at r) now \<and> claim_exists)
           (\<lambda>r. r\<lparr>ar_status := A_EXECUTING, ar_decision := Some APPROVE, ar_decision_message_id := Some decision_mid,
                  ar_decision_raw_message := Some raw, ar_decided_by := Some by, ar_decided_at := Some now,
                  ar_execution_claim_token := Some token, ar_execution_started_at := Some now,
                  ar_updated_at := now\<rparr>) s)"

definition build_passed_execution_claim_update ::
  "int \<Rightarrow> int \<Rightarrow> string \<Rightarrow> 'a audit_db_scheme dbsession \<Rightarrow> 'a audit_db_scheme dbsession \<times> nat" where
  "build_passed_execution_claim_update audit_record_id now token =
     build_audit_status_update audit_record_id A_PASSED
       (\<lambda>r. r\<lparr>ar_status := A_EXECUTING, ar_execution_claim_token := Some token,
              ar_execution_started_at := Some now, ar_updated_at := now\<rparr>)"

section \<open>preparation.py: queries\<close>

definition get_record :: "int \<Rightarrow> 'a audit_db_scheme \<Rightarrow> audit_record option" where
  "get_record audit_record_id d = find (\<lambda>r. ar_id r = audit_record_id) (ad_records d)"

definition get_approved_record_by_decision_message ::
  "string \<Rightarrow> string \<Rightarrow> int \<Rightarrow> 'a audit_db_scheme \<Rightarrow> py_error + audit_record option" where
  "get_approved_record_by_decision_message uid sid decision_mid d =
     (case filter (\<lambda>r. ar_uid r = uid \<and> ar_session_id r = sid \<and> ar_decision_message_id r = Some decision_mid \<and>
         ar_decision r = Some APPROVE) (ad_records d) of
        [] \<Rightarrow> Inr None
      | [r] \<Rightarrow> Inr (Some r)
      | _ \<Rightarrow> Inl MultipleResultsFound)"

definition list_tool_details :: "int \<Rightarrow> 'a audit_db_scheme \<Rightarrow> audit_tool_detail list" where
  "list_tool_details audit_record_id d =
     sort_key (\<lambda>t. (at_turn_index t, at_id t)) (filter (\<lambda>t. at_audit_record_id t = audit_record_id) (ad_details d))"

definition requires_high_risk_override :: "int \<Rightarrow> 'a audit_db_scheme \<Rightarrow> bool" where
  "requires_high_risk_override audit_record_id d \<longleftrightarrow>
     (\<exists>t\<in>set (ad_details d). at_audit_record_id t = audit_record_id \<and> null_ge (at_score t) AUDIT_HIGH_RISK_SCORE)"

definition list_records_by_status :: "audit_status \<Rightarrow> 'a audit_db_scheme \<Rightarrow> audit_record list" where
  "list_records_by_status st d = sort_key ar_id (filter (\<lambda>r. ar_status r = st) (ad_records d))"

definition list_expired_pending_confirmations :: "int \<Rightarrow> 'a audit_db_scheme \<Rightarrow> audit_record list" where
  "list_expired_pending_confirmations lt d =
     sort_key ar_id (filter (\<lambda>r. ar_status r = A_PENDING \<and> ar_expires_at r \<noteq> None \<and> null_le (ar_expires_at r) lt)
       (ad_records d))"

definition get_execution_record :: "int \<Rightarrow> 'a audit_db_scheme \<Rightarrow> audit_execution option" where
  "get_execution_record execution_id d = find (\<lambda>x. ae_id x = execution_id) (ad_executions d)"

definition get_execution_binding_for_tool_call ::
  "string \<Rightarrow> 'a audit_db_scheme \<Rightarrow> (audit_record \<times> audit_execution) option" where
  "get_execution_binding_for_tool_call call_id d =
     find (\<lambda>(r, x). ae_audit_record_id x = ar_id r \<and> ae_new_tool_call_id x = call_id)
       (List.product (ad_records d) (ad_executions d))"

definition get_running_execution_binding ::
  "string \<Rightarrow> 'a audit_db_scheme \<Rightarrow> (audit_record \<times> audit_execution) option" where
  "get_running_execution_binding call_id d =
     (case get_execution_binding_for_tool_call call_id d of
        None \<Rightarrow> None
      | Some (r, x) \<Rightarrow>
          if ae_status x \<noteq> X_RUNNING \<or> ar_status r \<noteq> A_EXECUTING \<or>
             ar_execution_claim_token r \<noteq> Some (ae_claim_token x)
          then None else Some (r, x))"

section \<open>preparation.py: preparing a record\<close>

record preparing_args =
  pr_uid :: string
  pr_operator_username :: string
  pr_session_id :: string
  pr_source :: string
  pr_language :: string
  pr_execution_scope :: string
  pr_source_assistant_message_id :: int
  pr_working_directory :: string
  pr_round_arguments_hash :: string
  pr_tool_count :: int
  pr_source_work_id :: "int option"

definition new_audit_record :: "(string \<Rightarrow> string) \<Rightarrow> preparing_args \<Rightarrow> int \<Rightarrow> int \<Rightarrow> audit_record" where
  "new_audit_record resolve a i lt =
     \<lparr>ar_id = i, ar_uid = pr_uid a, ar_operator_username = pr_operator_username a, ar_session_id = pr_session_id a,
      ar_source = pr_source a, ar_language = pr_language a, ar_execution_scope = pr_execution_scope a,
      ar_source_work_id = pr_source_work_id a, ar_status = A_PREPARING, ar_failure_type = None, ar_error_reason = None,
      ar_source_assistant_message_id = pr_source_assistant_message_id a,
      ar_working_directory = resolve (pr_working_directory a), ar_round_arguments_hash = pr_round_arguments_hash a,
      ar_tool_count = pr_tool_count a, ar_intent_summary = None, ar_context_file_path = None, ar_decision = None,
      ar_decision_message_id = None, ar_decision_raw_message = None, ar_decided_by = None,
      ar_execution_claim_token = None, ar_created_at = lt, ar_updated_at = lt, ar_audited_at = None,
      ar_pending_at = None, ar_expires_at = None, ar_decided_at = None, ar_execution_started_at = None,
      ar_completed_at = None\<rparr>"

definition create_preparing ::
  "(string \<Rightarrow> string) \<Rightarrow> preparing_args \<Rightarrow> int \<Rightarrow> 'a audit_db_scheme dbsession
    \<Rightarrow> 'a audit_db_scheme dbsession \<times> (py_error + audit_record)" where
  "create_preparing resolve a lt =
     with_work_claim lt (\<lambda>s.
       let r = new_audit_record resolve a (fresh_id ar_id (ad_records (cur s))) lt
       in (commit (execute (\<lambda>d. d\<lparr>ad_records := ad_records d @ [r]\<rparr>) s), Inr r))"

definition path_is_absolute :: "string \<Rightarrow> bool" where
  "path_is_absolute p \<longleftrightarrow> take 1 p = ''/''"

definition associate_context_path ::
  "(string \<Rightarrow> string) \<Rightarrow> int \<Rightarrow> string \<Rightarrow> bool \<Rightarrow> int \<Rightarrow> 'a audit_db_scheme dbsession
    \<Rightarrow> 'a audit_db_scheme dbsession \<times> (py_error + bool)" where
  "associate_context_path resolve audit_record_id path do_commit lt s =
     (if \<not> path_is_absolute path then (s, Inl (ValueError ''ERR_AUDIT_FILE_PATH_NOT_ABSOLUTE''))
      else let (s1, n) = update_records (\<lambda>r. ar_id r = audit_record_id \<and> ar_status r = A_PREPARING)
                 (\<lambda>r. r\<lparr>ar_context_file_path := Some (resolve path), ar_updated_at := lt\<rparr>) s
           in (commit_if do_commit s1, Inr (n = 1)))"

text \<open>The dictionaries of \<open>tool_details\<close>; the entries whose type the code tests are kept as JSON.\<close>

record tool_detail_in =
  td_original_tool_call_id :: "json option"
  td_turn_index :: "json option"
  td_tool_name :: string
  td_conclusion :: string
  td_score :: "int option"
  td_reason :: "string option"
  td_arguments_hash :: string
  td_arguments_summary :: "string option"
  td_file_snapshots :: "json option"

definition or_empty :: "string option \<Rightarrow> string" where
  "or_empty x = (case x of None \<Rightarrow> [] | Some v \<Rightarrow> v)"

definition detail_model :: "int \<Rightarrow> int \<Rightarrow> string \<Rightarrow> int \<Rightarrow> tool_detail_in \<Rightarrow> py_error + audit_tool_detail" where
  "detail_model audit_record_id lt call_id turn_index t =
     (case parse_conclusion (td_conclusion t) of
        None \<Rightarrow> Inl (ValueError ''AuditToolConclusion'')
      | Some c \<Rightarrow>
          (case validate_file_snapshots (case td_file_snapshots t of None \<Rightarrow> JList []
                | Some j \<Rightarrow> if json_truthy j then j else JList []) of
             Inl e \<Rightarrow> Inl e
           | Inr snaps \<Rightarrow> Inr
               \<lparr>at_id = 0, at_audit_record_id = audit_record_id, at_original_tool_call_id = call_id,
                at_turn_index = turn_index, at_tool_name = td_tool_name t, at_conclusion = c, at_score = td_score t,
                at_reason = or_empty (td_reason t), at_arguments_hash = td_arguments_hash t,
                at_arguments_summary = take 1000 (or_empty (td_arguments_summary t)),
                at_file_snapshots = snaps, at_created_at = lt\<rparr>))"

fun check_details ::
  "int \<Rightarrow> int \<Rightarrow> string list \<Rightarrow> int list \<Rightarrow> tool_detail_in list \<Rightarrow> py_error + audit_tool_detail list" where
  "check_details audit_record_id lt seen_ids seen_turns [] = Inr []"
| "check_details audit_record_id lt seen_ids seen_turns (t # ts) =
     (case json_as_string (td_original_tool_call_id t) of
        None \<Rightarrow> Inl (ValueError ''ERR_AUDIT_TOOL_CALL_ID_INVALID'')
      | Some call_id \<Rightarrow>
          if call_id = [] \<or> call_id \<in> set seen_ids then Inl (ValueError ''ERR_AUDIT_TOOL_CALL_ID_INVALID'')
          else case json_py_int (td_turn_index t) of
                 None \<Rightarrow> Inl (ValueError ''ERR_AUDIT_TOOL_ORDER_INVALID'')
               | Some turn \<Rightarrow>
                   if turn < 0 \<or> turn \<in> set seen_turns then Inl (ValueError ''ERR_AUDIT_TOOL_ORDER_INVALID'')
                   else case detail_model audit_record_id lt call_id turn t of
                          Inl e \<Rightarrow> Inl e
                        | Inr m \<Rightarrow>
                            (case check_details audit_record_id lt (call_id # seen_ids) (turn # seen_turns) ts of
                               Inl e \<Rightarrow> Inl e
                             | Inr ms \<Rightarrow> Inr (m # ms)))"

definition aggregated_status :: "tool_conclusion set \<Rightarrow> audit_status" where
  "aggregated_status cs =
     (if T_BLOCKED \<in> cs then A_BLOCKED
      else if T_AUDIT_FAILED \<in> cs then A_AUDIT_FAILED
      else if T_PENDING \<in> cs then A_PENDING
      else A_PASSED)"

record preparation_args =
  cp_audit_record_id :: int
  cp_status :: audit_status
  cp_tool_details :: "tool_detail_in list"
  cp_context_file_path :: string
  cp_intent_summary :: "string option"
  cp_failure_type :: "audit_failure_type option"
  cp_error_reason :: "string option"
  cp_expires_at :: "int option"
  cp_create_confirmation_claim :: bool

definition preparation_values :: "(string \<Rightarrow> string) \<Rightarrow> preparation_args \<Rightarrow> int \<Rightarrow> audit_record \<Rightarrow> audit_record" where
  "preparation_values resolve a now r =
     (let r1 = r\<lparr>ar_status := cp_status a, ar_failure_type := cp_failure_type a, ar_error_reason := cp_error_reason a,
                 ar_intent_summary := cp_intent_summary a,
                 ar_context_file_path := Some (resolve (cp_context_file_path a)),
                 ar_audited_at := Some now, ar_updated_at := now\<rparr>
      in if cp_status a = A_PENDING then r1\<lparr>ar_pending_at := Some now, ar_expires_at := cp_expires_at a\<rparr>
         else if cp_status a \<in> {A_BLOCKED, A_AUDIT_FAILED} then r1\<lparr>ar_completed_at := Some now\<rparr>
         else r1)"

text \<open>The checks of the arguments, before anything is read or written.\<close>

definition preparation_error :: "preparation_args \<Rightarrow> py_error option" where
  "preparation_error a =
     (if cp_status a \<notin> preparation_statuses then Some (ValueError ''ERR_AUDIT_PREPARATION_STATUS_INVALID'')
      else if cp_status a = A_AUDIT_FAILED \<and> cp_failure_type a = None
      then Some (ValueError ''ERR_AUDIT_FAILURE_TYPE_REQUIRED'')
      else if cp_status a \<noteq> A_AUDIT_FAILED \<and> cp_failure_type a \<noteq> None
      then Some (ValueError ''ERR_AUDIT_FAILURE_TYPE_UNEXPECTED'')
      else if \<not> path_is_absolute (cp_context_file_path a)
      then Some (ValueError ''ERR_AUDIT_FILE_PATH_NOT_ABSOLUTE'')
      else None)"

text \<open>The checks of the tool details against the record, and their rows.\<close>

definition preparation_details :: "preparation_args \<Rightarrow> audit_record \<Rightarrow> int \<Rightarrow> py_error + audit_tool_detail list" where
  "preparation_details a r lt =
     (if int (length (cp_tool_details a)) \<noteq> ar_tool_count r
      then Inl (ValueError ''ERR_AUDIT_TOOL_DETAIL_COUNT_MISMATCH'')
      else case check_details (cp_audit_record_id a) lt [] [] (cp_tool_details a) of
             Inl e \<Rightarrow> Inl e
           | Inr models \<Rightarrow>
               if set (map at_turn_index models) \<noteq> set [0..ar_tool_count r - 1]
               then Inl (ValueError ''ERR_AUDIT_TOOL_ORDER_INVALID'')
               else if aggregated_status (set (map at_conclusion models)) \<noteq> cp_status a
               then Inl (ValueError ''ERR_AUDIT_ROUND_RESULT_MISMATCH'')
               else if cp_status a = A_PENDING \<and> cp_expires_at a = None
               then Inl (ValueError ''ERR_AUDIT_PENDING_EXPIRY_REQUIRED'')
               else Inr models)"

definition add_detail :: "audit_tool_detail \<Rightarrow> audit_tool_detail list \<Rightarrow> audit_tool_detail list" where
  "add_detail m ds = ds @ [m\<lparr>at_id := fresh_id at_id ds\<rparr>]"

definition detail_clash :: "audit_tool_detail list \<Rightarrow> audit_tool_detail \<Rightarrow> bool" where
  "detail_clash ds m \<longleftrightarrow> (\<exists>t\<in>set ds. at_audit_record_id t = at_audit_record_id m \<and>
     (at_original_tool_call_id t = at_original_tool_call_id m \<or> at_turn_index t = at_turn_index m))"

definition claim_clash :: "confirmation_claim list \<Rightarrow> string \<Rightarrow> string \<Rightarrow> int \<Rightarrow> bool" where
  "claim_clash cs uid sid i \<longleftrightarrow> (\<exists>c\<in>set cs. ac_uid c = uid \<and> ac_session_id c = sid \<or> ac_audit_record_id c = i)"

definition add_claim :: "string \<Rightarrow> string \<Rightarrow> int \<Rightarrow> int \<Rightarrow> confirmation_claim list \<Rightarrow> confirmation_claim list" where
  "add_claim uid sid i lt cs =
     cs @ [\<lparr>ac_id = fresh_id ac_id cs, ac_uid = uid, ac_session_id = sid, ac_audit_record_id = i, ac_created_at = lt\<rparr>]"

definition finish_preparation ::
  "(string \<Rightarrow> string) \<Rightarrow> preparation_args \<Rightarrow> audit_record \<Rightarrow> audit_tool_detail list \<Rightarrow> int \<Rightarrow> 'a audit_db_scheme dbsession
    \<Rightarrow> 'a audit_db_scheme dbsession \<times> (py_error + bool)" where
  "finish_preparation resolve a r models lt s =
     (let s1 = fst (build_audit_status_update (cp_audit_record_id a) A_PREPARING (preparation_values resolve a lt) s);
          claimed = get_record (cp_audit_record_id a) (cur s1);
          needs_claim = (cp_status a = A_PENDING \<and> cp_create_confirmation_claim a)
      in if (case claimed of None \<Rightarrow> True
             | Some c \<Rightarrow> ar_status c \<noteq> cp_status a \<or> ar_context_file_path c \<noteq> Some (resolve (cp_context_file_path a)))
         then (rollback s1, Inr False)
         else if (\<exists>m\<in>set models. detail_clash (ad_details (cur s1)) m) \<or>
                 needs_claim \<and> claim_clash (ad_claims (cur s1)) (ar_uid r) (ar_session_id r) (cp_audit_record_id a)
         then (rollback s1, Inl IntegrityError)
         else (commit (execute (\<lambda>d. d\<lparr>ad_details := fold add_detail models (ad_details d),
                 ad_claims := (if needs_claim then add_claim (ar_uid r) (ar_session_id r) (cp_audit_record_id a) lt (ad_claims d)
                               else ad_claims d)\<rparr>) s1), Inr True))"

definition complete_preparation ::
  "(string \<Rightarrow> string) \<Rightarrow> preparation_args \<Rightarrow> int \<Rightarrow> 'a audit_db_scheme dbsession
    \<Rightarrow> 'a audit_db_scheme dbsession \<times> (py_error + bool)" where
  "complete_preparation resolve a lt s =
     (case preparation_error a of
        Some e \<Rightarrow> (s, Inl e)
      | None \<Rightarrow> with_work_claim lt (\<lambda>s.
          case get_record (cp_audit_record_id a) (cur s) of
            None \<Rightarrow> (s, Inr False)
          | Some r \<Rightarrow>
              if ar_status r \<noteq> A_PREPARING then (s, Inr False)
              else case preparation_details a r lt of
                     Inl e \<Rightarrow> (s, Inl e)
                   | Inr models \<Rightarrow> finish_preparation resolve a r models lt s) s)"

section \<open>claims.py\<close>

definition activate_confirmation_claim ::
  "int \<Rightarrow> string \<Rightarrow> string \<Rightarrow> bool \<Rightarrow> int \<Rightarrow> 'a audit_db_scheme dbsession
    \<Rightarrow> 'a audit_db_scheme dbsession \<times> (py_error + bool)" where
  "activate_confirmation_claim audit_record_id uid sid do_commit lt s =
     (if \<not> (\<exists>r\<in>set (ad_records (cur s)). ar_id r = audit_record_id \<and> ar_uid r = uid \<and> ar_session_id r = sid \<and>
              ar_status r = A_PENDING)
      then (s, Inr False)
      else if \<exists>c\<in>set (ad_claims (cur s)). ac_audit_record_id c = audit_record_id \<and> ac_uid c = uid \<and> ac_session_id c = sid
      then (s, Inr True)
      else if claim_clash (ad_claims (cur s)) uid sid audit_record_id then (rollback s, Inl IntegrityError)
      else (commit_if do_commit (execute (\<lambda>d. d\<lparr>ad_claims := add_claim uid sid audit_record_id lt (ad_claims d)\<rparr>) s),
            Inr True))"

definition fail_persistence ::
  "audit_status \<Rightarrow> int \<Rightarrow> string \<Rightarrow> int \<Rightarrow> 'a audit_db_scheme dbsession \<Rightarrow> 'a audit_db_scheme dbsession \<times> bool" where
  "fail_persistence expected audit_record_id reason lt s =
     (let (s1, n) = update_records (\<lambda>r. ar_id r = audit_record_id \<and> ar_status r = expected)
            (\<lambda>r. r\<lparr>ar_status := A_AUDIT_FAILED, ar_failure_type := Some AUDIT_PERSISTENCE_FAILED,
                   ar_error_reason := Some reason, ar_updated_at := lt, ar_completed_at := Some lt\<rparr>) (rollback s)
      in (commit s1, n = 1))"

definition mark_persistence_failed ::
  "int \<Rightarrow> string \<Rightarrow> int \<Rightarrow> 'a audit_db_scheme dbsession \<Rightarrow> 'a audit_db_scheme dbsession \<times> bool" where
  "mark_persistence_failed = fail_persistence A_PREPARING"

definition mark_pending_persistence_failed ::
  "int \<Rightarrow> string \<Rightarrow> int \<Rightarrow> 'a audit_db_scheme dbsession \<Rightarrow> 'a audit_db_scheme dbsession \<times> bool" where
  "mark_pending_persistence_failed = fail_persistence A_PENDING"

definition claimed_records :: "string \<Rightarrow> string \<Rightarrow> 'a audit_db_scheme \<Rightarrow> audit_record list" where
  "claimed_records uid sid d =
     filter (\<lambda>r. \<exists>c\<in>set (ad_claims d). ac_audit_record_id c = ar_id r \<and> ac_uid c = uid \<and> ac_session_id c = sid)
       (ad_records d)"

definition get_current_confirmation :: "string \<Rightarrow> string \<Rightarrow> int \<Rightarrow> 'a audit_db_scheme \<Rightarrow> audit_record option" where
  "get_current_confirmation uid sid lt d =
     find (\<lambda>r. ar_status r = A_PENDING \<and> ar_expires_at r \<noteq> None \<and> null_gt (ar_expires_at r) lt) (claimed_records uid sid d)"

definition get_confirmation_claim :: "string \<Rightarrow> string \<Rightarrow> 'a audit_db_scheme \<Rightarrow> audit_record option" where
  "get_confirmation_claim uid sid d =
     (case rev (sort_key ar_id (claimed_records uid sid d)) of [] \<Rightarrow> None | r # _ \<Rightarrow> Some r)"

text \<open>\<open>SELECT execution_claim_token WHERE id = \<dots> AND status = EXECUTING\<close>\<close>

definition executing_token :: "int \<Rightarrow> 'a audit_db_scheme \<Rightarrow> string option" where
  "executing_token audit_record_id d =
     Option.bind (find (\<lambda>r. ar_id r = audit_record_id \<and> ar_status r = A_EXECUTING) (ad_records d)) ar_execution_claim_token"

definition claim_pending_for_execution ::
  "int \<Rightarrow> string \<Rightarrow> string \<Rightarrow> int \<Rightarrow> string \<Rightarrow> string \<Rightarrow> bool \<Rightarrow> string \<Rightarrow> int \<Rightarrow> 'a audit_db_scheme dbsession
    \<Rightarrow> 'a audit_db_scheme dbsession \<times> (audit_record option \<times> string option)" where
  "claim_pending_for_execution audit_record_id uid sid decision_mid raw by do_commit token lt s =
     (let s1 = fst (build_pending_execution_claim_update audit_record_id uid sid lt token decision_mid raw by s)
      in if executing_token audit_record_id (cur s1) \<noteq> Some token then (rollback s1, (None, None))
         else let s2 = commit_if do_commit (delete_claims (\<lambda>c. ac_audit_record_id c = audit_record_id) s1)
              in (s2, (get_record audit_record_id (cur s2), Some token)))"

definition claim_passed_for_execution ::
  "int \<Rightarrow> string \<Rightarrow> int \<Rightarrow> 'a audit_db_scheme dbsession
    \<Rightarrow> 'a audit_db_scheme dbsession \<times> (py_error + audit_record option \<times> string option)" where
  "claim_passed_for_execution audit_record_id token lt =
     with_work_claim lt (\<lambda>s.
       let s1 = fst (build_passed_execution_claim_update audit_record_id lt token s)
       in if executing_token audit_record_id (cur s1) \<noteq> Some token then (rollback s1, Inr (None, None))
          else (commit s1, Inr (get_record audit_record_id (cur s1), Some token)))"

definition close_values ::
  "audit_status \<Rightarrow> int option \<Rightarrow> string option \<Rightarrow> string option \<Rightarrow> string option \<Rightarrow> int \<Rightarrow> audit_record \<Rightarrow> audit_record" where
  "close_values status decision_mid raw by reason lt r =
     (let r1 = r\<lparr>ar_status := status, ar_error_reason := reason, ar_updated_at := lt, ar_completed_at := Some lt\<rparr>
      in if status = A_REJECTED
         then r1\<lparr>ar_decision := Some REJECT, ar_decision_message_id := decision_mid, ar_decision_raw_message := raw,
                 ar_decided_by := by, ar_decided_at := Some lt\<rparr>
         else r1)"

definition close_pending ::
  "int \<Rightarrow> string \<Rightarrow> string \<Rightarrow> audit_status \<Rightarrow> int option \<Rightarrow> string option \<Rightarrow> string option \<Rightarrow> string option \<Rightarrow> bool \<Rightarrow> int
    \<Rightarrow> 'a audit_db_scheme dbsession \<Rightarrow> 'a audit_db_scheme dbsession \<times> (py_error + bool)" where
  "close_pending audit_record_id uid sid status decision_mid raw by reason do_commit lt s =
     (if status \<notin> {A_REJECTED, A_CANCELLED, A_EXPIRED}
      then (s, Inl (ValueError ''ERR_AUDIT_PENDING_CLOSE_STATUS_INVALID''))
      else let (s1, n) = update_records
                 (\<lambda>r. ar_id r = audit_record_id \<and> ar_uid r = uid \<and> ar_session_id r = sid \<and> ar_status r = A_PENDING \<and>
                      (status = A_EXPIRED \<longrightarrow> ar_expires_at r \<noteq> None \<and> null_le (ar_expires_at r) lt))
                 (close_values status decision_mid raw by reason lt) s
           in if n \<noteq> 1 then (if do_commit then rollback s1 else s1, Inr False)
              else (commit_if do_commit (delete_claims (\<lambda>c. ac_audit_record_id c = audit_record_id) s1), Inr True))"

definition cancel_record :: "string \<Rightarrow> int \<Rightarrow> audit_record \<Rightarrow> audit_record" where
  "cancel_record reason lt r =
     r\<lparr>ar_status := A_CANCELLED, ar_error_reason := Some reason, ar_completed_at := Some lt, ar_updated_at := lt\<rparr>"

definition cancel_confirmation_by_session ::
  "string \<Rightarrow> string \<Rightarrow> string \<Rightarrow> bool \<Rightarrow> int \<Rightarrow> 'a audit_db_scheme dbsession \<Rightarrow> 'a audit_db_scheme dbsession \<times> nat" where
  "cancel_confirmation_by_session uid sid reason do_commit lt s =
     (let mine = (\<lambda>c. ac_uid c = uid \<and> ac_session_id c = sid);
          ids = map ac_audit_record_id (filter mine (ad_claims (cur s)));
          (s1, n) = update_records (\<lambda>r. ar_id r \<in> set ids \<and> ar_status r = A_PENDING) (cancel_record reason lt) s
      in (commit_if do_commit (delete_claims mine s1), n))"

definition executing_with :: "int \<Rightarrow> string \<Rightarrow> audit_record \<Rightarrow> bool" where
  "executing_with audit_record_id token r \<longleftrightarrow>
     ar_id r = audit_record_id \<and> ar_status r = A_EXECUTING \<and> ar_execution_claim_token r = Some token"

definition mark_source_message_invalid ::
  "int \<Rightarrow> string \<Rightarrow> string \<Rightarrow> int \<Rightarrow> 'a audit_db_scheme dbsession \<Rightarrow> 'a audit_db_scheme dbsession \<times> bool" where
  "mark_source_message_invalid audit_record_id token reason lt s =
     (let (s1, n) = update_records (executing_with audit_record_id token)
            (\<lambda>r. r\<lparr>ar_status := A_FAILED, ar_failure_type := Some SOURCE_MESSAGE_INVALID, ar_error_reason := Some reason,
                   ar_execution_claim_token := None, ar_completed_at := Some lt, ar_updated_at := lt\<rparr>) s
      in (commit s1, n = 1))"

definition cancel_execution_for_file_reaudit ::
  "int \<Rightarrow> string \<Rightarrow> string \<Rightarrow> int \<Rightarrow> 'a audit_db_scheme dbsession \<Rightarrow> 'a audit_db_scheme dbsession \<times> bool" where
  "cancel_execution_for_file_reaudit audit_record_id token reason lt s =
     (let (s1, n) = update_records (executing_with audit_record_id token)
            (\<lambda>r. (cancel_record reason lt r)\<lparr>ar_execution_claim_token := None\<rparr>) s
      in (commit s1, n = 1))"

section \<open>execution.py\<close>

definition new_execution :: "int \<Rightarrow> int \<Rightarrow> int \<Rightarrow> string \<Rightarrow> string \<Rightarrow> string \<Rightarrow> int \<Rightarrow> int \<Rightarrow> audit_execution" where
  "new_execution audit_record_id detail_id attempt_no token node call_id lt i =
     \<lparr>ae_id = i, ae_audit_record_id = audit_record_id, ae_audit_tool_detail_id = detail_id, ae_attempt_no = attempt_no,
      ae_status = X_RUNNING, ae_claim_token = token, ae_execution_node = node, ae_new_tool_call_id = call_id,
      ae_result_summary = None, ae_error = None, ae_started_at = lt, ae_finished_at = None\<rparr>"

definition create_execution_attempt ::
  "int \<Rightarrow> int \<Rightarrow> string \<Rightarrow> string \<Rightarrow> string \<Rightarrow> int \<Rightarrow> 'a audit_db_scheme dbsession
    \<Rightarrow> 'a audit_db_scheme dbsession \<times> (py_error + audit_execution option)" where
  "create_execution_attempt audit_record_id detail_id token node call_id lt =
     with_work_claim lt (\<lambda>s.
       let d = cur s;
           attempt_no = int (rowcount (\<lambda>x. ae_audit_tool_detail_id x = detail_id) (ad_executions d)) + 1;
           x = new_execution audit_record_id detail_id attempt_no token node call_id lt (fresh_id ae_id (ad_executions d))
       in if \<not> (\<exists>r\<in>set (ad_records d). executing_with audit_record_id token r) \<or>
             \<not> (\<exists>t\<in>set (ad_details d). at_id t = detail_id \<and> at_audit_record_id t = audit_record_id)
          then (s, Inr None)
          else if \<exists>y\<in>set (ad_executions d). ae_new_tool_call_id y = call_id \<or>
                    ae_audit_tool_detail_id y = detail_id \<and> ae_attempt_no y = attempt_no
          then (rollback s, Inl IntegrityError)
          else (commit (execute (\<lambda>d. d\<lparr>ad_executions := ad_executions d @ [x]\<rparr>) s), Inr (Some x)))"

text \<open>The claim of the attempt's record is still the one the attempt was created under.\<close>

definition attempt_bound :: "'a audit_db_scheme \<Rightarrow> audit_execution \<Rightarrow> bool" where
  "attempt_bound d x \<longleftrightarrow> (\<exists>r\<in>set (ad_records d). executing_with (ae_audit_record_id x) (ae_claim_token x) r)"

definition finish_execution_attempt ::
  "int \<Rightarrow> execution_status \<Rightarrow> string option \<Rightarrow> string option \<Rightarrow> bool \<Rightarrow> int \<Rightarrow> 'a audit_db_scheme dbsession
    \<Rightarrow> 'a audit_db_scheme dbsession \<times> (py_error + bool)" where
  "finish_execution_attempt execution_id status summary error do_commit lt s =
     (if status = X_RUNNING then (s, Inl (ValueError ''ERR_AUDIT_EXECUTION_END_STATUS_INVALID''))
      else let (s1, n) = update_executions
                 (\<lambda>x. ae_id x = execution_id \<and> ae_status x = X_RUNNING \<and> attempt_bound (cur s) x)
                 (\<lambda>x. x\<lparr>ae_status := status, ae_result_summary := summary, ae_error := error, ae_finished_at := Some lt\<rparr>) s
           in (commit_if do_commit s1, Inr (n = 1)))"

definition cancel_execution_attempt ::
  "int \<Rightarrow> int \<Rightarrow> string \<Rightarrow> string \<Rightarrow> bool \<Rightarrow> int \<Rightarrow> 'a audit_db_scheme dbsession
    \<Rightarrow> 'a audit_db_scheme dbsession \<times> bool" where
  "cancel_execution_attempt audit_record_id execution_id token reason do_commit lt s =
     (let record_exists = (\<exists>r\<in>set (ad_records (cur s)). executing_with audit_record_id token r);
          (s1, n) = update_executions
            (\<lambda>x. ae_id x = execution_id \<and> ae_audit_record_id x = audit_record_id \<and> ae_claim_token x = token \<and>
                 ae_status x = X_RUNNING \<and> record_exists)
            (\<lambda>x. x\<lparr>ae_status := X_CANCELLED, ae_error := Some reason, ae_finished_at := Some lt\<rparr>) s
      in (commit_if do_commit s1, n = 1))"

definition mark_execution_started ::
  "int \<Rightarrow> string \<Rightarrow> int \<Rightarrow> 'a audit_db_scheme dbsession \<Rightarrow> 'a audit_db_scheme dbsession \<times> bool" where
  "mark_execution_started execution_id token lt s =
     (let (s1, n) = update_executions
            (\<lambda>x. ae_id x = execution_id \<and> ae_claim_token x = token \<and> ae_status x = X_RUNNING)
            (\<lambda>x. x\<lparr>ae_started_at := lt\<rparr>) s
      in (commit s1, n = 1))"

definition execution_scope :: "int \<Rightarrow> string \<Rightarrow> audit_execution list \<Rightarrow> audit_execution list" where
  "execution_scope audit_record_id token xs =
     filter (\<lambda>x. ae_audit_record_id x = audit_record_id \<and> ae_claim_token x = token) xs"

definition has_status :: "execution_status \<Rightarrow> audit_execution list \<Rightarrow> bool" where
  "has_status st xs \<longleftrightarrow> (\<exists>x\<in>set xs. ae_status x = st)"

definition first_error :: "execution_status \<Rightarrow> audit_execution list \<Rightarrow> string option" where
  "first_error st xs =
     (case sort_key ae_id (filter (\<lambda>x. ae_status x = st) xs) of [] \<Rightarrow> None | x # _ \<Rightarrow> ae_error x)"

definition round_outcome :: "audit_execution list \<Rightarrow> audit_status \<times> string option" where
  "round_outcome xs =
     (if has_status X_EXECUTION_UNKNOWN xs then (A_EXECUTION_UNKNOWN, first_error X_EXECUTION_UNKNOWN xs)
      else if has_status X_CANCELLED xs then (A_CANCELLED, first_error X_CANCELLED xs)
      else if has_status X_FAILED xs then (A_FAILED, first_error X_FAILED xs)
      else (A_SUCCEEDED, None))"

definition end_round :: "audit_status \<Rightarrow> string option \<Rightarrow> int \<Rightarrow> audit_record \<Rightarrow> audit_record" where
  "end_round status reason lt r =
     r\<lparr>ar_status := status, ar_error_reason := reason, ar_execution_claim_token := None, ar_completed_at := Some lt,
       ar_updated_at := lt\<rparr>"

definition finish_execution_round_if_complete ::
  "int \<Rightarrow> string \<Rightarrow> bool \<Rightarrow> int \<Rightarrow> 'a audit_db_scheme dbsession \<Rightarrow> 'a audit_db_scheme dbsession \<times> audit_status option" where
  "finish_execution_round_if_complete audit_record_id token do_commit lt s =
     (let xs = execution_scope audit_record_id token (ad_executions (cur s));
          (status, error) = round_outcome xs;
          (s1, n) = update_records
            (\<lambda>r. executing_with audit_record_id token r \<and> \<not> has_status X_RUNNING xs \<and> int (length xs) = ar_tool_count r)
            (end_round status error lt) s
      in if n \<noteq> 1 then (s1, None)
         else (commit_if do_commit s1, map_option ar_status (get_record audit_record_id (cur s1))))"

definition finish_execution_round ::
  "int \<Rightarrow> string \<Rightarrow> audit_status \<Rightarrow> string option \<Rightarrow> bool \<Rightarrow> int \<Rightarrow> 'a audit_db_scheme dbsession
    \<Rightarrow> 'a audit_db_scheme dbsession \<times> (py_error + bool)" where
  "finish_execution_round audit_record_id token status reason do_commit lt s =
     (let xs = execution_scope audit_record_id token (ad_executions (cur s));
          tool_count = map_option ar_tool_count (get_record audit_record_id (cur s))
      in if status \<notin> final_execution_statuses then (s, Inl (ValueError ''ERR_AUDIT_ROUND_EXECUTION_STATUS_INVALID''))
         else if has_status X_RUNNING xs then (s, Inl (ValueError ''ERR_AUDIT_EXECUTIONS_RUNNING''))
         else if status = A_SUCCEEDED \<and>
                 (tool_count \<noteq> Some (int (length xs)) \<or> (\<exists>x\<in>set xs. ae_status x \<noteq> X_SUCCEEDED))
         then (s, Inl (ValueError ''ERR_AUDIT_EXECUTION_RESULT_MISMATCH''))
         else let (s1, n) = update_records (executing_with audit_record_id token) (end_round status reason lt) s
              in (commit_if do_commit s1, Inr (n = 1)))"

definition lose_execution :: "string \<Rightarrow> int \<Rightarrow> audit_execution \<Rightarrow> audit_execution" where
  "lose_execution reason lt x = x\<lparr>ae_status := X_EXECUTION_UNKNOWN, ae_error := Some reason, ae_finished_at := Some lt\<rparr>"

definition running_in :: "int \<Rightarrow> string \<Rightarrow> audit_execution \<Rightarrow> bool" where
  "running_in audit_record_id token x \<longleftrightarrow>
     ae_audit_record_id x = audit_record_id \<and> ae_claim_token x = token \<and> ae_status x = X_RUNNING"

definition mark_execution_unknown ::
  "int \<Rightarrow> string \<Rightarrow> string \<Rightarrow> int option \<Rightarrow> bool \<Rightarrow> int \<Rightarrow> 'a audit_db_scheme dbsession
    \<Rightarrow> 'a audit_db_scheme dbsession \<times> bool" where
  "mark_execution_unknown audit_record_id token reason execution_id do_commit lt s =
     (let (s1, n) = update_executions
            (\<lambda>x. running_in audit_record_id token x \<and> (case execution_id of None \<Rightarrow> True | Some i \<Rightarrow> ae_id x = i))
            (lose_execution reason lt) s
      in if n \<noteq> 1 \<and> execution_id \<noteq> None \<or> n = 0 then (if do_commit then rollback s1 else s1, False)
         else let s2 = (case execution_id of
                    None \<Rightarrow> s1
                  | Some i \<Rightarrow> fst (update_executions (\<lambda>x. running_in audit_record_id token x \<and> ae_id x \<noteq> i)
                                (lose_execution reason lt) s1));
                  (s3, k) = update_records (executing_with audit_record_id token)
                    (end_round A_EXECUTION_UNKNOWN (Some reason) lt) s2
              in (commit_if do_commit s3, k = 1))"

section \<open>recovery.py\<close>

definition unexecuted :: "'a audit_db_scheme \<Rightarrow> audit_record \<Rightarrow> bool" where
  "unexecuted d r \<longleftrightarrow> ar_status r \<in> {A_PREPARING, A_PASSED, A_PENDING} \<or>
     ar_status r = A_EXECUTING \<and> \<not> (\<exists>x\<in>set (ad_executions d). ae_audit_record_id x = ar_id r)"

definition cancel_unexecuted ::
  "int \<Rightarrow> string \<Rightarrow> string \<Rightarrow> string \<Rightarrow> bool \<Rightarrow> int \<Rightarrow> 'a audit_db_scheme dbsession \<Rightarrow> 'a audit_db_scheme dbsession \<times> bool" where
  "cancel_unexecuted audit_record_id uid sid reason do_commit lt s =
     (let (s1, n) = update_records
            (\<lambda>r. ar_id r = audit_record_id \<and> ar_uid r = uid \<and> ar_session_id r = sid \<and> unexecuted (cur s) r)
            (\<lambda>r. (cancel_record reason lt r)\<lparr>ar_execution_claim_token := None\<rparr>) s
      in if n = 0 then (s1, False)
         else (commit_if do_commit (delete_claims (\<lambda>c. ac_audit_record_id c = audit_record_id) s1), True))"

fun cancel_each ::
  "string \<Rightarrow> string \<Rightarrow> string \<Rightarrow> int \<Rightarrow> int list \<Rightarrow> 'a audit_db_scheme dbsession \<Rightarrow> 'a audit_db_scheme dbsession \<times> int list" where
  "cancel_each uid sid reason lt [] s = (s, [])"
| "cancel_each uid sid reason lt (i # is) s =
     (let (s1, b) = cancel_unexecuted i uid sid reason False lt s;
          (s2, rest) = cancel_each uid sid reason lt is s1
      in (s2, if b then i # rest else rest))"

definition cancel_unexecuted_by_session ::
  "string \<Rightarrow> string \<Rightarrow> string \<Rightarrow> bool \<Rightarrow> int \<Rightarrow> 'a audit_db_scheme dbsession \<Rightarrow> 'a audit_db_scheme dbsession \<times> int list" where
  "cancel_unexecuted_by_session uid sid reason do_commit lt s =
     (let ids = map ar_id (sort_key ar_id (filter (\<lambda>r. ar_uid r = uid \<and> ar_session_id r = sid \<and>
            ar_status r \<in> {A_PREPARING, A_PASSED, A_PENDING, A_EXECUTING}) (ad_records (cur s))));
          (s1, cancelled) = cancel_each uid sid reason lt ids s
      in (commit_if do_commit s1, cancelled))"

definition mark_running_executions_unknown_except ::
  "int \<Rightarrow> string \<Rightarrow> int list \<Rightarrow> string \<Rightarrow> int \<Rightarrow> 'a audit_db_scheme dbsession \<Rightarrow> 'a audit_db_scheme dbsession \<times> nat" where
  "mark_running_executions_unknown_except audit_record_id token excluded reason lt s =
     (let (s1, n) = update_executions (\<lambda>x. running_in audit_record_id token x \<and> ae_id x \<notin> set excluded)
            (lose_execution reason lt) s
      in (commit s1, n))"

text \<open>The reasons the recovery operations write are fixed (Chinese) texts of the source; here they
  have ASCII names.\<close>

definition expire_record :: "int \<Rightarrow> audit_record \<Rightarrow> audit_record" where
  "expire_record lt r =
     r\<lparr>ar_status := A_EXPIRED, ar_error_reason := Some ''confirmation expired'', ar_completed_at := Some lt, ar_updated_at := lt\<rparr>"

definition pending_expired :: "int \<Rightarrow> audit_record \<Rightarrow> bool" where
  "pending_expired lt r \<longleftrightarrow> ar_status r = A_PENDING \<and> ar_expires_at r \<noteq> None \<and> null_le (ar_expires_at r) lt"

definition expire_pending_confirmations ::
  "int \<Rightarrow> 'a audit_db_scheme dbsession \<Rightarrow> 'a audit_db_scheme dbsession \<times> nat" where
  "expire_pending_confirmations lt s =
     (let (s1, n) = update_records (pending_expired lt) (expire_record lt) s;
          expired = map ar_id (filter (\<lambda>r. ar_status r = A_EXPIRED) (ad_records (cur s1)))
      in (commit (delete_claims (\<lambda>c. ac_audit_record_id c \<in> set expired) s1), n))"

definition expire_confirmation_by_session ::
  "string \<Rightarrow> string \<Rightarrow> int \<Rightarrow> 'a audit_db_scheme dbsession \<Rightarrow> 'a audit_db_scheme dbsession \<times> nat" where
  "expire_confirmation_by_session uid sid lt s =
     (let ids = map ac_audit_record_id (filter (\<lambda>c. ac_uid c = uid \<and> ac_session_id c = sid) (ad_claims (cur s)))
      in if ids = [] then (s, 0)
         else let (s1, n) = update_records (\<lambda>r. ar_id r \<in> set ids \<and> pending_expired lt r) (expire_record lt) s;
                  expired = map ar_id (filter (\<lambda>r. ar_id r \<in> set ids \<and> ar_status r = A_EXPIRED) (ad_records (cur s1)));
                  s2 = (if expired = [] then s1 else delete_claims (\<lambda>c. ac_audit_record_id c \<in> set expired) s1)
              in (commit s2, n))"

definition recover_interrupted ::
  "int \<Rightarrow> 'a audit_db_scheme dbsession \<Rightarrow> 'a audit_db_scheme dbsession \<times> (nat \<times> nat)" where
  "recover_interrupted lt s =
     (let (s1, n) = update_executions (\<lambda>x. ae_status x = X_RUNNING) (lose_execution ''interrupted, result unknown'' lt) s;
          (s2, k) = update_records (\<lambda>r. ar_status r = A_EXECUTING)
            (end_round A_EXECUTION_UNKNOWN (Some ''interrupted, automatic retry forbidden'') lt) s1
      in (commit s2, (k, n)))"

definition recover_preparing :: "int \<Rightarrow> 'a audit_db_scheme dbsession \<Rightarrow> 'a audit_db_scheme dbsession \<times> nat" where
  "recover_preparing lt s =
     (let (s1, n) = update_records (\<lambda>r. ar_status r = A_PREPARING)
            (\<lambda>r. r\<lparr>ar_status := A_AUDIT_FAILED, ar_failure_type := Some AUDIT_PERSISTENCE_FAILED,
                   ar_error_reason := Some ''unfinished audit record found at startup'',
                   ar_completed_at := Some lt, ar_updated_at := lt\<rparr>) s
      in (commit s1, n))"

definition list_context_file_paths :: "'a audit_db_scheme \<Rightarrow> (int \<times> string) list" where
  "list_context_file_paths d =
     concat (map (\<lambda>r. case ar_context_file_path r of None \<Rightarrow> [] | Some p \<Rightarrow> if p = [] then [] else [(ar_id r, p)])
       (ad_records d))"

definition list_records_without_context_before :: "int \<Rightarrow> int \<Rightarrow> 'a audit_db_scheme \<Rightarrow> int list" where
  "list_records_without_context_before retention_days lt d =
     map ar_id (filter (\<lambda>r. ar_context_file_path r = None \<and> ar_completed_at r \<noteq> None \<and>
       null_lt (ar_completed_at r) (lt - retention_days * 86400)) (ad_records d))"

definition audit_delete_by_uid :: "string \<Rightarrow> 'a audit_db_scheme dbsession \<Rightarrow> 'a audit_db_scheme dbsession \<times> nat" where
  "audit_delete_by_uid uid s =
     (execute (\<lambda>d. delete_audit_records (\<lambda>r. ar_uid r = uid) (d\<lparr>ad_versions := sql_delete (\<lambda>v. av_uid v = uid) (ad_versions d)\<rparr>)) s,
      rowcount (\<lambda>r. ar_uid r = uid) (ad_records (cur s)))"

definition delete_records :: "int list \<Rightarrow> 'a audit_db_scheme dbsession \<Rightarrow> 'a audit_db_scheme dbsession \<times> nat" where
  "delete_records ids s =
     (if ids = [] then (s, 0)
      else (commit (execute (\<lambda>d. delete_audit_records (\<lambda>r. ar_id r \<in> set ids)
              (d\<lparr>ad_claims := sql_delete (\<lambda>c. ac_audit_record_id c \<in> set ids) (ad_claims d),
                 ad_executions := sql_delete (\<lambda>x. ae_audit_record_id x \<in> set ids) (ad_executions d),
                 ad_details := sql_delete (\<lambda>t. at_audit_record_id t \<in> set ids) (ad_details d)\<rparr>)) s),
            rowcount (\<lambda>r. ar_id r \<in> set ids) (ad_records (cur s))))"

end
