(* ===== verification/Audit_Laws.thy ===== *)
theory Audit_Laws
  imports Audit_Store
begin

text \<open>
  What the audit guarantees: a tool call is executed only with authority (the user's approval or a
  clean audit of every call of the round), the claim token marks exactly the records under
  execution, success is recorded only when every attempt succeeded, and ended records and attempts
  never change. The invariant is preserved by every operation of \<open>CRUDAudit\<close>, whether or not it
  commits and also when it raises.
\<close>

section \<open>The invariant\<close>

definition unstarted :: "audit_status set" where
  "unstarted = {A_PREPARING, A_PASSED, A_PENDING}"

definition no_bad :: "audit_tool_detail list \<Rightarrow> int \<Rightarrow> bool" where
  "no_bad ds i \<longleftrightarrow> (\<forall>t\<in>set ds. at_audit_record_id t = i \<longrightarrow> at_conclusion t \<in> {T_PASSED, T_PENDING})"

definition all_passed :: "audit_tool_detail list \<Rightarrow> int \<Rightarrow> bool" where
  "all_passed ds i \<longleftrightarrow> (\<forall>t\<in>set ds. at_audit_record_id t = i \<longrightarrow> at_conclusion t = T_PASSED)"

definition authorised :: "audit_tool_detail list \<Rightarrow> audit_record \<Rightarrow> bool" where
  "authorised ds r \<longleftrightarrow> no_bad ds (ar_id r) \<and> (ar_decision r = Some APPROVE \<or> all_passed ds (ar_id r))"

definition all_succeeded :: "audit_execution list \<Rightarrow> audit_record \<Rightarrow> bool" where
  "all_succeeded xs r \<longleftrightarrow> (\<exists>token. int (length (execution_scope (ar_id r) token xs)) = ar_tool_count r \<and>
     (\<forall>x\<in>set (execution_scope (ar_id r) token xs). ae_status x = X_SUCCEEDED))"

definition record_ok :: "audit_tool_detail list \<Rightarrow> audit_execution list \<Rightarrow> audit_record \<Rightarrow> bool" where
  "record_ok ds xs r \<longleftrightarrow>
     (ar_execution_claim_token r \<noteq> None \<longleftrightarrow> ar_status r = A_EXECUTING) \<and>
     (ar_status r \<in> unstarted \<longrightarrow> ar_decision r = None) \<and>
     (ar_status r = A_PREPARING \<longrightarrow> (\<forall>t\<in>set ds. at_audit_record_id t \<noteq> ar_id r)) \<and>
     (ar_status r \<in> {A_PENDING, A_PASSED} \<longrightarrow> no_bad ds (ar_id r)) \<and>
     (ar_status r = A_PASSED \<longrightarrow> all_passed ds (ar_id r)) \<and>
     (ar_status r = A_EXECUTING \<longrightarrow> authorised ds r) \<and>
     (ar_status r = A_SUCCEEDED \<longrightarrow> all_succeeded xs r)"

definition execution_ok :: "audit_record list \<Rightarrow> audit_tool_detail list \<Rightarrow> audit_execution \<Rightarrow> bool" where
  "execution_ok rs ds x \<longleftrightarrow> (\<exists>r\<in>set rs. ar_id r = ae_audit_record_id x \<and> authorised ds r \<and> ar_status r \<notin> unstarted)"

definition inv3 :: "audit_record list \<Rightarrow> audit_tool_detail list \<Rightarrow> audit_execution list \<Rightarrow> bool" where
  "inv3 rs ds xs \<longleftrightarrow> distinct (map ar_id rs) \<and> (\<forall>r\<in>set rs. record_ok ds xs r) \<and>
     (\<forall>t\<in>set ds. at_audit_record_id t \<in> ar_id ` set rs) \<and> (\<forall>x\<in>set xs. execution_ok rs ds x)"

definition audit_inv :: "'a audit_db_scheme \<Rightarrow> bool" where
  "audit_inv d = inv3 (ad_records d) (ad_details d) (ad_executions d)"

definition audit_safe :: "'a audit_db_scheme dbsession \<Rightarrow> bool" where
  "audit_safe s \<longleftrightarrow> audit_inv (cur s) \<and> audit_inv (saved s)"

lemma audit_safe_transaction [simp, intro!]:
  "audit_safe s \<Longrightarrow> audit_safe (commit s)" "audit_safe s \<Longrightarrow> audit_safe (rollback s)"
  "audit_safe s \<Longrightarrow> audit_safe (commit_if b s)"
  by (simp_all add: audit_safe_def commit_if_def)

text \<open>An update of the records, the attempts, and a deletion, against the invariant.\<close>

lemma inv3_update_records:
  assumes inv: "inv3 rs ds xs" and ids: "\<And>r. p r \<Longrightarrow> ar_id (f r) = ar_id r"
    and ok: "\<And>r. r \<in> set rs \<Longrightarrow> p r \<Longrightarrow> record_ok ds xs r \<Longrightarrow> record_ok ds xs (f r)"
    and auth: "\<And>r. p r \<Longrightarrow> ar_status r \<notin> unstarted \<Longrightarrow> ar_decision (f r) = ar_decision r \<and> ar_status (f r) \<notin> unstarted"
  shows "inv3 (sql_update p f rs) ds xs"
proof -
  have keys: "ar_id ` set (sql_update p f rs) = ar_id ` set rs"
    using map_sql_update [of p ar_id f rs] ids by (metis list.set_map)
  have "execution_ok (sql_update p f rs) ds x" if "x \<in> set xs" for x
  proof -
    from that inv obtain r where r: "r \<in> set rs" "ar_id r = ae_audit_record_id x" "authorised ds r" "ar_status r \<notin> unstarted"
      by (auto simp: inv3_def execution_ok_def)
    let ?r = "if p r then f r else r"
    have "?r \<in> set (sql_update p f rs)" using r(1) by (auto simp: sql_update_def)
    moreover have "ar_id ?r = ae_audit_record_id x" "authorised ds ?r" "ar_status ?r \<notin> unstarted"
      using r ids [of r] auth [of r] by (auto simp: authorised_def)
    ultimately show ?thesis unfolding execution_ok_def by blast
  qed
  with inv ids ok keys show ?thesis by (auto simp: inv3_def map_sql_update set_sql_update)
qed

lemma scope_update:
  assumes "\<And>x. p x \<Longrightarrow> ae_audit_record_id (f x) = ae_audit_record_id x \<and> ae_claim_token (f x) = ae_claim_token x"
  shows "execution_scope i token (sql_update p f xs) = sql_update p f (execution_scope i token xs)"
  unfolding execution_scope_def by (rule filter_sql_update) (use assms in auto)

lemma inv3_update_executions:
  assumes inv: "inv3 rs ds xs"
    and keys: "\<And>x. p x \<Longrightarrow> ae_audit_record_id (f x) = ae_audit_record_id x \<and> ae_claim_token (f x) = ae_claim_token x"
    and running: "\<And>x. p x \<Longrightarrow> ae_status x = X_RUNNING"
  shows "inv3 rs ds (sql_update p f xs)"
proof -
  have "all_succeeded (sql_update p f xs) r" if succ: "all_succeeded xs r" for r
  proof -
    from succ obtain token where t: "int (length (execution_scope (ar_id r) token xs)) = ar_tool_count r"
        "\<forall>x\<in>set (execution_scope (ar_id r) token xs). ae_status x = X_SUCCEEDED" by (auto simp: all_succeeded_def)
    have "\<not> p x" if "x \<in> set (execution_scope (ar_id r) token xs)" for x using t(2) that running by force
    then have "rowcount p (execution_scope (ar_id r) token xs) = 0" unfolding rowcount_0_iff by blast
    then have "execution_scope (ar_id r) token (sql_update p f xs) = execution_scope (ar_id r) token xs"
      by (simp add: scope_update [OF keys] sql_update_none)
    with t show ?thesis unfolding all_succeeded_def by (intro exI [of _ token]) simp
  qed
  with inv keys show ?thesis by (auto simp: inv3_def record_ok_def set_sql_update execution_ok_def)
qed

lemma inv3_delete:
  assumes inv: "inv3 rs ds xs" and kept: "\<And>r. r \<in> set rs \<Longrightarrow> p r \<longleftrightarrow> ar_id r \<in> G"
  shows "inv3 (sql_delete p rs) (sql_delete (\<lambda>t. at_audit_record_id t \<in> G) ds) (sql_delete (\<lambda>x. ae_audit_record_id x \<in> G) xs)"
proof -
  let ?ds = "sql_delete (\<lambda>t. at_audit_record_id t \<in> G) ds"
  let ?xs = "sql_delete (\<lambda>x. ae_audit_record_id x \<in> G) xs"
  have scope: "execution_scope i token ?xs = execution_scope i token xs" if "i \<notin> G" for i token
    using that by (auto simp: execution_scope_def sql_delete_def intro: filter_cong)
  have "record_ok ?ds ?xs r" if "r \<in> set rs" "ar_id r \<notin> G" for r
    using inv that scope [OF that(2)] by (auto simp: inv3_def record_ok_def no_bad_def all_passed_def authorised_def all_succeeded_def)
  moreover have "execution_ok (sql_delete p rs) ?ds x" if x: "x \<in> set xs" "ae_audit_record_id x \<notin> G" for x
  proof -
    from x inv obtain r where r: "r \<in> set rs" "ar_id r = ae_audit_record_id x" "authorised ds r" "ar_status r \<notin> unstarted"
      by (auto simp: inv3_def execution_ok_def)
    then have "r \<in> set (sql_delete p rs)" using kept x(2) by auto
    moreover have "authorised ?ds r" using r(3) by (auto simp: authorised_def no_bad_def all_passed_def)
    ultimately show ?thesis using r unfolding execution_ok_def by blast
  qed
  moreover have "distinct (map ar_id (sql_delete p rs))" using inv by (simp add: inv3_def sql_delete_def distinct_map_filter)
  moreover have "at_audit_record_id t \<in> ar_id ` set (sql_delete p rs)" if "t \<in> set ds" "at_audit_record_id t \<notin> G" for t
    using that inv kept by (fastforce simp: inv3_def)
  ultimately show ?thesis using kept by (auto simp: inv3_def)
qed

section \<open>Every operation preserves it\<close>

lemma audit_safe_update_records:
  assumes "audit_safe s" and "\<And>r. p r \<Longrightarrow> ar_id (f r) = ar_id r"
    and "\<And>r. r \<in> set (ad_records (cur s)) \<Longrightarrow> p r \<Longrightarrow> record_ok (ad_details (cur s)) (ad_executions (cur s)) r \<Longrightarrow>
      record_ok (ad_details (cur s)) (ad_executions (cur s)) (f r)"
    and "\<And>r. p r \<Longrightarrow> ar_status r \<notin> unstarted \<Longrightarrow> ar_decision (f r) = ar_decision r \<and> ar_status (f r) \<notin> unstarted"
  shows "audit_safe (fst (update_records p f s))"
  using assms by (auto simp: audit_safe_def audit_inv_def intro!: inv3_update_records)

lemma audit_safe_update_executions:
  assumes "audit_safe s"
    and "\<And>x. p x \<Longrightarrow> ae_audit_record_id (f x) = ae_audit_record_id x \<and> ae_claim_token (f x) = ae_claim_token x"
    and "\<And>x. p x \<Longrightarrow> ae_status x = X_RUNNING"
  shows "audit_safe (fst (update_executions p f s))"
  using assms by (auto simp: audit_safe_def audit_inv_def intro!: inv3_update_executions)

lemma audit_safe_delete_claims [simp]: "audit_safe (delete_claims p s) = audit_safe s"
  by (simp add: audit_safe_def audit_inv_def)

lemmas audit_record_rules = record_ok_def unstarted_def authorised_def

lemma audit_safe_work_claim: "audit_safe s \<Longrightarrow> audit_safe (fst (ensure_session_reply_work_claim b lt s))"
  by (auto simp: ensure_session_reply_work_claim_def update_work_def execute_def audit_safe_def audit_inv_def
      commit_if_def Let_def split: option.splits)

lemma with_work_claim_safe:
  assumes "audit_safe s" and "\<And>s. audit_safe s \<Longrightarrow> audit_safe (fst (f s))"
  shows "audit_safe (fst (with_work_claim lt f s))"
proof -
  obtain s1 r where e: "ensure_session_reply_work_claim False lt s = (s1, r)" by (meson surj_pair)
  then have "audit_safe s1" using audit_safe_work_claim [OF assms(1), of False lt] by simp
  then show ?thesis using e assms(2) [of s1] by (cases r) (simp_all add: with_work_claim_def)
qed

lemma no_details_of_fresh:
  assumes "inv3 rs ds xs" shows "\<forall>t\<in>set ds. at_audit_record_id t \<noteq> fresh_id ar_id rs"
  using assms fresh_id_not_in [of ar_id rs] unfolding inv3_def by metis

lemma create_preparing_safe: "audit_safe s \<Longrightarrow> audit_safe (fst (create_preparing resolve a lt s))"
  unfolding create_preparing_def
proof (erule with_work_claim_safe)
  fix s :: "'a audit_db_scheme dbsession"
  assume safe: "audit_safe s"
  let ?d = "cur s" and ?r = "new_audit_record resolve a (fresh_id ar_id (ad_records (cur s))) lt"
  have inv: "inv3 (ad_records ?d) (ad_details ?d) (ad_executions ?d)" using safe by (simp add: audit_safe_def audit_inv_def)
  have "record_ok (ad_details ?d) (ad_executions ?d) ?r"
    using no_details_of_fresh [OF inv] by (simp add: new_audit_record_def record_ok_def)
  then have "inv3 (ad_records ?d @ [?r]) (ad_details ?d) (ad_executions ?d)"
    using inv fresh_id_not_in [of ar_id "ad_records ?d"]
    by (auto simp: inv3_def execution_ok_def new_audit_record_def)
  then show "audit_safe (fst (let r = ?r in (commit (execute (\<lambda>d. d\<lparr>ad_records := ad_records d @ [r]\<rparr>) s), Inr r)))"
    by (simp add: audit_safe_def audit_inv_def execute_def Let_def)
qed

lemma associate_context_path_safe: "audit_safe s \<Longrightarrow> audit_safe (fst (associate_context_path resolve i path b lt s))"
  by (auto simp: associate_context_path_def case_prod_beta audit_record_rules intro!: audit_safe_update_records)

lemma activate_confirmation_claim_safe: "audit_safe s \<Longrightarrow> audit_safe (fst (activate_confirmation_claim i uid sid b lt s))"
  by (auto simp: activate_confirmation_claim_def commit_if_def execute_def audit_safe_def audit_inv_def)

lemma fail_persistence_safe:
  "st \<in> unstarted \<Longrightarrow> audit_safe s \<Longrightarrow> audit_safe (fst (fail_persistence st i reason lt s))"
  by (auto simp: fail_persistence_def case_prod_beta audit_record_rules intro!: audit_safe_update_records)

lemma claim_pending_safe:
  "audit_safe s \<Longrightarrow> audit_safe (fst (claim_pending_for_execution i uid sid mid raw by b token lt s))"
  by (auto simp: claim_pending_for_execution_def build_pending_execution_claim_update_def Let_def audit_record_rules
      intro!: audit_safe_update_records)

lemma claim_passed_safe: "audit_safe s \<Longrightarrow> audit_safe (fst (claim_passed_for_execution i token lt s))"
  unfolding claim_passed_for_execution_def
  by (erule with_work_claim_safe)
    (auto simp: build_passed_execution_claim_update_def build_audit_status_update_def Let_def audit_record_rules
      intro!: audit_safe_update_records)

lemma close_pending_safe: "audit_safe s \<Longrightarrow> audit_safe (fst (close_pending i uid sid st mid raw by reason b lt s))"
  by (auto simp: close_pending_def case_prod_beta close_values_def Let_def audit_record_rules
      intro!: audit_safe_update_records)

lemma cancel_confirmation_safe:
  "audit_safe s \<Longrightarrow> audit_safe (fst (cancel_confirmation_by_session uid sid reason b lt s))"
  by (auto simp: cancel_confirmation_by_session_def case_prod_beta Let_def cancel_record_def audit_record_rules
      intro!: audit_safe_update_records)

lemma mark_source_message_invalid_safe:
  "audit_safe s \<Longrightarrow> audit_safe (fst (mark_source_message_invalid i token reason lt s))"
  by (auto simp: mark_source_message_invalid_def case_prod_beta executing_with_def audit_record_rules
      intro!: audit_safe_update_records)

lemma cancel_execution_for_file_reaudit_safe:
  "audit_safe s \<Longrightarrow> audit_safe (fst (cancel_execution_for_file_reaudit i token reason lt s))"
  by (auto simp: cancel_execution_for_file_reaudit_def case_prod_beta executing_with_def cancel_record_def audit_record_rules
      intro!: audit_safe_update_records)

subsection \<open>Completing the preparation\<close>

lemma detail_model_fields:
  "detail_model i lt c n t = Inr m \<Longrightarrow> at_audit_record_id m = i \<and> at_original_tool_call_id m = c \<and> at_turn_index m = n"
  by (auto simp: detail_model_def split: option.splits sum.splits)

lemma check_details_correct:
  assumes "check_details i lt ids turns ts = Inr ms"
  shows "length ms = length ts \<and> (\<forall>m\<in>set ms. at_audit_record_id m = i) \<and> distinct (map at_turn_index ms) \<and>
    distinct (map at_original_tool_call_id ms) \<and> (\<forall>m\<in>set ms. 0 \<le> at_turn_index m) \<and>
    set (map at_turn_index ms) \<inter> set turns = {} \<and> set (map at_original_tool_call_id ms) \<inter> set ids = {}"
  using assms
proof (induction i lt ids turns ts arbitrary: ms rule: check_details.induct)
  case (1 i lt ids turns)
  then show ?case by simp
next
  case (2 i lt ids turns t ts)
  from "2.prems" obtain c n m rest where t: "json_as_string (td_original_tool_call_id t) = Some c" "c \<notin> set ids" "c \<noteq> []"
      "json_py_int (td_turn_index t) = Some n" "0 \<le> n" "n \<notin> set turns" "detail_model i lt c n t = Inr m"
      "check_details i lt (c # ids) (n # turns) ts = Inr rest" "ms = m # rest"
    by (auto split: option.splits sum.splits if_splits)
  have "length rest = length ts \<and> (\<forall>m\<in>set rest. at_audit_record_id m = i) \<and> distinct (map at_turn_index rest) \<and>
    distinct (map at_original_tool_call_id rest) \<and> (\<forall>m\<in>set rest. 0 \<le> at_turn_index m) \<and>
    set (map at_turn_index rest) \<inter> set (n # turns) = {} \<and> set (map at_original_tool_call_id rest) \<inter> set (c # ids) = {}"
    using "2.IH" [of c n m rest] t by simp
  then show ?case using t(2,3,5,6,9) detail_model_fields [OF t(7)] by auto
qed

lemma add_details_set:
  "t \<in> set (fold add_detail ms ds) \<Longrightarrow> t \<in> set ds \<or>
     (\<exists>m\<in>set ms. at_audit_record_id t = at_audit_record_id m \<and> at_conclusion t = at_conclusion m)"
proof (induction ms arbitrary: ds)
  case Nil
  then show ?case by simp
next
  case (Cons m ms)
  then have "t \<in> set (fold add_detail ms (add_detail m ds))" by simp
  from Cons.IH [OF this] show ?case by (auto simp: add_detail_def)
qed

lemma fold_add_detail_mono: "set ds \<subseteq> set (fold add_detail ms ds)"
proof (induction ms arbitrary: ds)
  case Nil
  then show ?case by simp
next
  case (Cons m ms)
  from Cons.IH [of "add_detail m ds"] show ?case by (auto simp: add_detail_def)
qed

text \<open>The record leaves \<open>PREPARING\<close> with a status its tool calls justify.\<close>

lemma aggregated_status_cases:
  "aggregated_status cs = A_PASSED \<Longrightarrow> c \<in> cs \<Longrightarrow> c = T_PASSED"
  "aggregated_status cs = A_PENDING \<Longrightarrow> c \<in> cs \<Longrightarrow> c \<in> {T_PASSED, T_PENDING}"
  "aggregated_status cs \<in> preparation_statuses"
  by (cases c; auto simp: aggregated_status_def preparation_statuses_def split: if_splits)+

lemma preparation_values_fields [simp]:
  "ar_id (preparation_values resolve a lt r) = ar_id r" "ar_status (preparation_values resolve a lt r) = cp_status a"
  "ar_decision (preparation_values resolve a lt r) = ar_decision r" "ar_uid (preparation_values resolve a lt r) = ar_uid r"
  "ar_session_id (preparation_values resolve a lt r) = ar_session_id r"
  "ar_execution_claim_token (preparation_values resolve a lt r) = ar_execution_claim_token r"
  "ar_context_file_path (preparation_values resolve a lt r) = Some (resolve (cp_context_file_path a))"
  by (simp_all add: preparation_values_def Let_def)

lemma inv3_prepare:
  assumes inv: "inv3 rs ds xs" and r: "r \<in> set rs" "ar_id r = i" "ar_status r = A_PREPARING"
    and st: "cp_status a \<in> preparation_statuses" and agg: "aggregated_status (set (map at_conclusion ms)) = cp_status a"
    and ms: "\<forall>m\<in>set ms. at_audit_record_id m = i"
  shows "inv3 (sql_update (\<lambda>r. ar_id r = i \<and> ar_status r = A_PREPARING) (preparation_values resolve a lt) rs) (fold add_detail ms ds) xs"
proof -
  let ?p = "\<lambda>r. ar_id r = i \<and> ar_status r = A_PREPARING" and ?f = "preparation_values resolve a lt"
  let ?rs = "sql_update ?p ?f rs" and ?ds = "fold add_detail ms ds"
  have only: "r' = r" if "r' \<in> set rs" "ar_id r' = i" for r'
    using inv distinct_key_eq [of ar_id rs r' r] that r by (simp add: inv3_def)
  have rows: "t \<in> set ?ds \<and> at_audit_record_id t = j \<longleftrightarrow> t \<in> set ds \<and> at_audit_record_id t = j" if "j \<noteq> i" for t j
    using that ms fold_add_detail_mono [of ds ms] add_details_set [of t ms ds] by auto
  have other: "no_bad ?ds j = no_bad ds j" "all_passed ?ds j = all_passed ds j"
    "(\<forall>t\<in>set ?ds. at_audit_record_id t \<noteq> j) = (\<forall>t\<in>set ds. at_audit_record_id t \<noteq> j)" if "j \<noteq> i" for j
    unfolding no_bad_def all_passed_def using rows [OF that] by blast+
  have ok_r: "record_ok ds xs r" using inv r by (simp add: inv3_def)
  have concl: "at_conclusion t \<in> at_conclusion ` set ms" if "t \<in> set ?ds" "at_audit_record_id t = i" for t
    using add_details_set [OF that(1)] that(2) ok_r r by (auto simp: record_ok_def)
  have pass: "all_passed ?ds i" if "cp_status a = A_PASSED"
    using aggregated_status_cases(1) [of "set (map at_conclusion ms)"] agg that concl by (auto simp: all_passed_def)
  have clean: "no_bad ?ds i" if "cp_status a \<in> {A_PASSED, A_PENDING}"
    using aggregated_status_cases(1,2) [of "set (map at_conclusion ms)"] agg that concl by (fastforce simp: no_bad_def)
  have mine: "record_ok ?ds xs (?f r)"
    using ok_r r st pass clean by (auto simp: record_ok_def preparation_statuses_def unstarted_def)
  have theirs: "record_ok ?ds xs q" if "q \<in> set rs" "ar_id q \<noteq> i" for q
    using inv that other [OF that(2)] by (simp add: inv3_def record_ok_def authorised_def)
  have recs: "\<forall>r'\<in>set ?rs. record_ok ?ds xs r'"
  proof
    fix r' assume "r' \<in> set ?rs"
    then obtain q where q: "q \<in> set rs" "r' = (if ?p q then ?f q else q)" by (auto simp: sql_update_def)
    show "record_ok ?ds xs r'"
    proof (cases "ar_id q = i")
      case True
      then have "q = r" using only q(1) by blast
      then show ?thesis using q(2) r(2,3) mine by simp
    next
      case False
      then show ?thesis using q theirs by simp
    qed
  qed
  have keys: "ar_id ` set ?rs = ar_id ` set rs" by (metis map_sql_update list.set_map preparation_values_fields(1))
  have dets: "\<forall>t\<in>set ?ds. at_audit_record_id t \<in> ar_id ` set ?rs"
    using add_details_set [of _ ms ds] inv ms r unfolding keys inv3_def by (metis imageI)
  have execs: "\<forall>x\<in>set xs. execution_ok ?rs ?ds x"
  proof
    fix x assume "x \<in> set xs"
    with inv obtain q where q: "q \<in> set rs" "ar_id q = ae_audit_record_id x" "authorised ds q" "ar_status q \<notin> unstarted"
      by (auto simp: inv3_def execution_ok_def)
    then have "ar_id q \<noteq> i" using only [of q] r by (auto simp: unstarted_def)
    then have "q \<in> set ?rs" "authorised ?ds q" using q other [of "ar_id q"] by (auto simp: set_sql_update authorised_def)
    with q show "execution_ok ?rs ?ds x" unfolding execution_ok_def by blast
  qed
  show ?thesis using recs dets execs inv by (simp add: inv3_def map_sql_update)
qed

lemma preparation_details_ok:
  assumes "preparation_details a r lt = Inr ms"
  shows "aggregated_status (set (map at_conclusion ms)) = cp_status a \<and> (\<forall>m\<in>set ms. at_audit_record_id m = cp_audit_record_id a) \<and>
    distinct (map at_turn_index ms) \<and> distinct (map at_original_tool_call_id ms) \<and> int (length ms) = ar_tool_count r \<and>
    set (map at_turn_index ms) = {0..ar_tool_count r - 1} \<and> (cp_status a = A_PENDING \<longrightarrow> cp_expires_at a \<noteq> None)"
  using assms check_details_correct [of "cp_audit_record_id a" lt "[]" "[]" "cp_tool_details a" ms]
  by (auto simp: preparation_details_def split: if_splits sum.splits)

lemma preparation_error_None: "preparation_error a = None \<Longrightarrow> cp_status a \<in> preparation_statuses"
  by (auto simp: preparation_error_def split: if_splits)

lemma finish_preparation_safe:
  assumes safe: "audit_safe s" and r: "get_record (cp_audit_record_id a) (cur s) = Some r" "ar_status r = A_PREPARING"
    and ok: "preparation_error a = None" "preparation_details a r lt = Inr ms"
  shows "audit_safe (fst (finish_preparation resolve a r ms lt s))"
proof -
  let ?p = "\<lambda>r. ar_id r = cp_audit_record_id a \<and> ar_status r = A_PREPARING" and ?f = "preparation_values resolve a lt"
  have inv: "inv3 (ad_records (cur s)) (ad_details (cur s)) (ad_executions (cur s))" using safe by (simp add: audit_safe_def audit_inv_def)
  have "r \<in> set (ad_records (cur s))" "ar_id r = cp_audit_record_id a"
    using find_Some_iff_in [OF r(1) [unfolded get_record_def]] by auto
  from inv3_prepare [OF inv this r(2) preparation_error_None [OF ok(1)]] preparation_details_ok [OF ok(2)]
  have "inv3 (sql_update ?p ?f (ad_records (cur s))) (fold add_detail ms (ad_details (cur s))) (ad_executions (cur s))" by blast
  with safe show ?thesis
    by (auto simp: finish_preparation_def build_audit_status_update_def audit_safe_def audit_inv_def Let_def execute_def)
qed

lemma complete_preparation_safe: "audit_safe s \<Longrightarrow> audit_safe (fst (complete_preparation resolve a lt s))"
  unfolding complete_preparation_def
  by (auto intro!: with_work_claim_safe finish_preparation_safe split: option.splits sum.splits)

subsection \<open>Attempts and the end of the round\<close>

lemma executing_unique:
  assumes "inv3 rs ds xs" and "r \<in> set rs" and "q \<in> set rs" and "ar_id q = ar_id r"
  shows "q = r"
  using assms distinct_key_eq [of ar_id rs q r] by (simp add: inv3_def)

lemma inv3_add_execution:
  assumes inv: "inv3 rs ds xs" and r: "r \<in> set rs" "executing_with (ae_audit_record_id x) (ae_claim_token x) r"
  shows "inv3 rs ds (xs @ [x])"
proof -
  have rid: "ar_id r = ae_audit_record_id x" "ar_status r = A_EXECUTING" using r(2) by (simp_all add: executing_with_def)
  have "execution_ok rs ds x"
    using inv r(1) rid unfolding execution_ok_def by (auto simp: inv3_def record_ok_def unstarted_def)
  moreover have "record_ok ds (xs @ [x]) q" if q: "q \<in> set rs" for q
  proof -
    have "ar_status q = A_SUCCEEDED \<Longrightarrow> ar_id q \<noteq> ae_audit_record_id x"
      using executing_unique [OF inv r(1) q] rid by force
    then show ?thesis using inv q by (auto simp: inv3_def record_ok_def all_succeeded_def execution_scope_def)
  qed
  ultimately show ?thesis using inv by (auto simp: inv3_def)
qed

lemma create_execution_attempt_safe:
  "audit_safe s \<Longrightarrow> audit_safe (fst (create_execution_attempt i det token node call lt s))"
  unfolding create_execution_attempt_def
proof (erule with_work_claim_safe)
  fix s :: "'a audit_db_scheme dbsession"
  assume "audit_safe s"
  then show "audit_safe (fst (let d = cur s;
           attempt_no = int (rowcount (\<lambda>x. ae_audit_tool_detail_id x = det) (ad_executions d)) + 1;
           x = new_execution i det attempt_no token node call lt (fresh_id ae_id (ad_executions d))
       in if \<not> (\<exists>r\<in>set (ad_records d). executing_with i token r) \<or>
             \<not> (\<exists>t\<in>set (ad_details d). at_id t = det \<and> at_audit_record_id t = i)
          then (s, Inr None)
          else if \<exists>y\<in>set (ad_executions d). ae_new_tool_call_id y = call \<or>
                    ae_audit_tool_detail_id y = det \<and> ae_attempt_no y = attempt_no
          then (rollback s, Inl IntegrityError)
          else (commit (execute (\<lambda>d. d\<lparr>ad_executions := ad_executions d @ [x]\<rparr>) s), Inr (Some x))))"
    by (auto simp: audit_safe_def audit_inv_def Let_def execute_def new_execution_def intro: inv3_add_execution)
qed

lemma finish_execution_attempt_safe: "audit_safe s \<Longrightarrow> audit_safe (fst (finish_execution_attempt i st su er b lt s))"
  by (auto simp: finish_execution_attempt_def case_prod_beta intro!: audit_safe_update_executions)

lemma cancel_execution_attempt_safe: "audit_safe s \<Longrightarrow> audit_safe (fst (cancel_execution_attempt i k token reason b lt s))"
  by (auto simp: cancel_execution_attempt_def case_prod_beta Let_def intro!: audit_safe_update_executions)

lemma mark_execution_started_safe: "audit_safe s \<Longrightarrow> audit_safe (fst (mark_execution_started k token lt s))"
  by (auto simp: mark_execution_started_def case_prod_beta intro!: audit_safe_update_executions)

lemma round_outcome_succeeded:
  assumes "round_outcome xs = (A_SUCCEEDED, e)" and "\<not> has_status X_RUNNING xs"
  shows "\<forall>x\<in>set xs. ae_status x = X_SUCCEEDED"
proof
  fix x assume "x \<in> set xs"
  with assms show "ae_status x = X_SUCCEEDED"
    by (cases "ae_status x") (auto simp: round_outcome_def has_status_def split: if_splits)
qed

lemma round_outcome_final: "fst (round_outcome xs) \<in> {A_EXECUTION_UNKNOWN, A_CANCELLED, A_FAILED, A_SUCCEEDED}"
  by (simp add: round_outcome_def)

lemma end_round_safe:
  assumes safe: "audit_safe s" and st: "st \<in> {A_EXECUTION_UNKNOWN, A_CANCELLED, A_FAILED, A_SUCCEEDED}"
    and exec: "\<And>r. p r \<Longrightarrow> ar_status r = A_EXECUTING"
    and succ: "\<And>r. r \<in> set (ad_records (cur s)) \<Longrightarrow> p r \<Longrightarrow> st = A_SUCCEEDED \<Longrightarrow> all_succeeded (ad_executions (cur s)) r"
  shows "audit_safe (fst (update_records p (end_round st reason lt) s))"
  using st exec succ
  by (intro audit_safe_update_records [OF safe]) (auto simp: end_round_def record_ok_def unstarted_def all_succeeded_def)

lemma finish_round_if_complete_safe:
  assumes "audit_safe s"
  shows "audit_safe (fst (finish_execution_round_if_complete i token b lt s))"
proof -
  let ?xs = "execution_scope i token (ad_executions (cur s))"
  let ?p = "\<lambda>r. executing_with i token r \<and> \<not> has_status X_RUNNING ?xs \<and> int (length ?xs) = ar_tool_count r"
  obtain st e where o: "round_outcome ?xs = (st, e)" by (meson surj_pair)
  have "audit_safe (fst (update_records ?p (end_round st e lt) s))"
  proof (rule end_round_safe [OF assms])
    show "st \<in> {A_EXECUTION_UNKNOWN, A_CANCELLED, A_FAILED, A_SUCCEEDED}" using round_outcome_final [of ?xs] o by simp
    show "all_succeeded (ad_executions (cur s)) r" if "?p r" "st = A_SUCCEEDED" for r
      using round_outcome_succeeded [of ?xs e] o that unfolding all_succeeded_def
      by (intro exI [of _ token]) (simp add: executing_with_def)
  qed (simp add: executing_with_def)
  then show ?thesis by (auto simp: finish_execution_round_if_complete_def Let_def o case_prod_beta)
qed

lemma finish_execution_round_safe:
  assumes safe: "audit_safe s"
  shows "audit_safe (fst (finish_execution_round i token st reason b lt s))"
proof -
  let ?xs = "execution_scope i token (ad_executions (cur s))"
  have "audit_safe (fst (update_records (executing_with i token) (end_round st reason lt) s))"
    if st: "st \<in> final_execution_statuses"
      and ok: "st = A_SUCCEEDED \<Longrightarrow> map_option ar_tool_count (get_record i (cur s)) = Some (int (length ?xs)) \<and>
             (\<forall>x\<in>set ?xs. ae_status x = X_SUCCEEDED)"
  proof (rule end_round_safe [OF safe])
    show "st \<in> {A_EXECUTION_UNKNOWN, A_CANCELLED, A_FAILED, A_SUCCEEDED}" using st by (auto simp: final_execution_statuses_def)
    show "all_succeeded (ad_executions (cur s)) r"
      if r: "r \<in> set (ad_records (cur s))" "executing_with i token r" "st = A_SUCCEEDED" for r
    proof -
      have id: "ar_id r = i" using r(2) by (simp add: executing_with_def)
      have "distinct (map ar_id (ad_records (cur s)))" using safe by (simp add: audit_safe_def audit_inv_def inv3_def)
      from distinct_key_find [OF this r(1)] have "get_record i (cur s) = Some r" by (simp add: get_record_def id)
      with ok [OF r(3)] id show ?thesis unfolding all_succeeded_def by (intro exI [of _ token]) simp
    qed
  qed (simp add: executing_with_def)
  then show ?thesis using safe by (auto simp: finish_execution_round_def Let_def case_prod_beta)
qed

lemma lose_execution_fields [simp]:
  "ae_audit_record_id (lose_execution reason lt x) = ae_audit_record_id x"
  "ae_claim_token (lose_execution reason lt x) = ae_claim_token x"
  "ae_status (lose_execution reason lt x) = X_EXECUTION_UNKNOWN" "ae_id (lose_execution reason lt x) = ae_id x"
  by (simp_all add: lose_execution_def)

lemma lose_executions_safe:
  "audit_safe s \<Longrightarrow> (\<And>x. p x \<Longrightarrow> ae_status x = X_RUNNING) \<Longrightarrow>
    audit_safe (fst (update_executions p (lose_execution reason lt) s))"
  by (rule audit_safe_update_executions) simp_all

lemma unknown_round_safe:
  "audit_safe s \<Longrightarrow> (\<And>r. p r \<Longrightarrow> ar_status r = A_EXECUTING) \<Longrightarrow>
    audit_safe (fst (update_records p (end_round A_EXECUTION_UNKNOWN reason lt) s))"
  by (rule end_round_safe) simp_all

lemma mark_execution_unknown_safe: "audit_safe s \<Longrightarrow> audit_safe (fst (mark_execution_unknown i token reason k b lt s))"
  by (auto simp: mark_execution_unknown_def case_prod_beta Let_def running_in_def executing_with_def
      intro!: lose_executions_safe unknown_round_safe split: option.splits)

subsection \<open>Cancellation, recovery, deletion\<close>

lemma cancel_unexecuted_safe: "audit_safe s \<Longrightarrow> audit_safe (fst (cancel_unexecuted i uid sid reason b lt s))"
proof -
  assume safe: "audit_safe s"
  have "audit_safe (fst (update_records (\<lambda>r. ar_id r = i \<and> ar_uid r = uid \<and> ar_session_id r = sid \<and> unexecuted (cur s) r)
      (\<lambda>r. (cancel_record reason lt r)\<lparr>ar_execution_claim_token := None\<rparr>) s))"
    by (rule audit_safe_update_records [OF safe]) (auto simp: cancel_record_def record_ok_def unstarted_def)
  then show ?thesis by (auto simp: cancel_unexecuted_def case_prod_beta)
qed

lemma cancel_each_safe: "audit_safe s \<Longrightarrow> audit_safe (fst (cancel_each uid sid reason lt is s))"
proof (induction "is" arbitrary: s)
  case Nil
  then show ?case by simp
next
  case (Cons i "is")
  from Cons.IH [OF cancel_unexecuted_safe [OF Cons.prems, of i uid sid reason False lt]]
  show ?case by (simp add: case_prod_beta)
qed

lemma cancel_unexecuted_by_session_safe:
  "audit_safe s \<Longrightarrow> audit_safe (fst (cancel_unexecuted_by_session uid sid reason b lt s))"
  by (auto simp: cancel_unexecuted_by_session_def case_prod_beta Let_def intro: cancel_each_safe)

lemma mark_running_executions_unknown_except_safe:
  "audit_safe s \<Longrightarrow> audit_safe (fst (mark_running_executions_unknown_except i token ex reason lt s))"
  by (auto simp: mark_running_executions_unknown_except_def case_prod_beta running_in_def intro!: lose_executions_safe)

lemma expire_records_safe:
  "audit_safe s \<Longrightarrow> (\<And>r. p r \<Longrightarrow> ar_status r = A_PENDING) \<Longrightarrow> audit_safe (fst (update_records p (expire_record lt) s))"
  by (rule audit_safe_update_records) (auto simp: expire_record_def record_ok_def unstarted_def)

lemma expire_pending_confirmations_safe: "audit_safe s \<Longrightarrow> audit_safe (fst (expire_pending_confirmations lt s))"
  by (auto simp: expire_pending_confirmations_def case_prod_beta Let_def pending_expired_def intro!: expire_records_safe)

lemma expire_confirmation_by_session_safe:
  "audit_safe s \<Longrightarrow> audit_safe (fst (expire_confirmation_by_session uid sid lt s))"
  by (auto simp: expire_confirmation_by_session_def case_prod_beta Let_def pending_expired_def intro!: expire_records_safe)

lemma recover_interrupted_safe: "audit_safe s \<Longrightarrow> audit_safe (fst (recover_interrupted lt s))"
  by (auto simp: recover_interrupted_def case_prod_beta Let_def intro!: lose_executions_safe unknown_round_safe)

lemma recover_preparing_safe: "audit_safe s \<Longrightarrow> audit_safe (fst (recover_preparing lt s))"
  by (auto simp: recover_preparing_def case_prod_beta audit_record_rules intro!: audit_safe_update_records)

lemma audit_inv_delete:
  assumes "audit_inv d"
  shows "audit_inv (delete_audit_records p d)"
proof -
  let ?G = "ar_id ` {r \<in> set (ad_records d). p r}"
  have "p r \<longleftrightarrow> ar_id r \<in> ?G" if "r \<in> set (ad_records d)" for r
    using key_in_image [of ar_id "ad_records d" r "{r \<in> set (ad_records d). p r}"] that assms
    by (auto simp: audit_inv_def inv3_def)
  from inv3_delete [OF assms [unfolded audit_inv_def], of p ?G] this show ?thesis
    by (simp add: audit_inv_def delete_audit_records_def Let_def)
qed

lemma audit_delete_by_uid_safe: "audit_safe s \<Longrightarrow> audit_safe (fst (audit_delete_by_uid uid s))"
  by (auto simp: audit_delete_by_uid_def audit_safe_def execute_def intro!: audit_inv_delete) (simp add: audit_inv_def)

lemma delete_records_safe: "audit_safe s \<Longrightarrow> audit_safe (fst (delete_records ids s))"
proof -
  assume safe: "audit_safe s"
  let ?d = "(cur s)\<lparr>ad_claims := sql_delete (\<lambda>c. ac_audit_record_id c \<in> set ids) (ad_claims (cur s)),
                 ad_executions := sql_delete (\<lambda>x. ae_audit_record_id x \<in> set ids) (ad_executions (cur s)),
                 ad_details := sql_delete (\<lambda>t. at_audit_record_id t \<in> set ids) (ad_details (cur s))\<rparr>"
  let ?e = "delete_audit_records (\<lambda>r. ar_id r \<in> set ids) ?d"
  have same: "ad_details ?e = ad_details ?d" "ad_executions ?e = ad_executions ?d"
    by (auto simp: delete_audit_records_def Let_def sql_delete_def intro!: filter_cong)
  have "inv3 (sql_delete (\<lambda>r. ar_id r \<in> set ids) (ad_records (cur s))) (ad_details ?d) (ad_executions ?d)"
    using inv3_delete [of _ _ _ "\<lambda>r. ar_id r \<in> set ids" "set ids"] safe by (simp add: audit_safe_def audit_inv_def)
  then have "audit_inv ?e" unfolding audit_inv_def same by (simp add: delete_audit_records_def Let_def)
  then show ?thesis using safe by (simp add: delete_records_def audit_safe_def execute_def)
qed

section \<open>Every run of the audit\<close>

text \<open>Any operation of \<open>CRUDAudit\<close> that writes, in a session of the reply queue. A step may commit or
  leave the transaction open; a request that fails rolls it back.\<close>

inductive audit_op :: "'a audit_db_scheme dbsession \<Rightarrow> 'a audit_db_scheme dbsession \<Rightarrow> bool" where
  "audit_op s (fst (create_preparing resolve a lt s))"
| "audit_op s (fst (associate_context_path resolve i path b lt s))"
| "audit_op s (fst (complete_preparation resolve pa lt s))"
| "audit_op s (fst (activate_confirmation_claim i uid sid b lt s))"
| "audit_op s (fst (mark_persistence_failed i reason lt s))"
| "audit_op s (fst (mark_pending_persistence_failed i reason lt s))"
| "audit_op s (fst (claim_pending_for_execution i uid sid mid raw by b token lt s))"
| "audit_op s (fst (claim_passed_for_execution i token lt s))"
| "audit_op s (fst (close_pending i uid sid st dm dr db er b lt s))"
| "audit_op s (fst (cancel_confirmation_by_session uid sid reason b lt s))"
| "audit_op s (fst (mark_source_message_invalid i token reason lt s))"
| "audit_op s (fst (cancel_execution_for_file_reaudit i token reason lt s))"
| "audit_op s (fst (create_execution_attempt i det token node call lt s))"
| "audit_op s (fst (finish_execution_attempt k xst su er b lt s))"
| "audit_op s (fst (cancel_execution_attempt i k token reason b lt s))"
| "audit_op s (fst (mark_execution_started k token lt s))"
| "audit_op s (fst (finish_execution_round_if_complete i token b lt s))"
| "audit_op s (fst (finish_execution_round i token st er b lt s))"
| "audit_op s (fst (mark_execution_unknown i token reason ko b lt s))"
| "audit_op s (fst (cancel_unexecuted i uid sid reason b lt s))"
| "audit_op s (fst (cancel_unexecuted_by_session uid sid reason b lt s))"
| "audit_op s (fst (mark_running_executions_unknown_except i token ex reason lt s))"
| "audit_op s (fst (expire_pending_confirmations lt s))"
| "audit_op s (fst (expire_confirmation_by_session uid sid lt s))"
| "audit_op s (fst (recover_interrupted lt s))"
| "audit_op s (fst (recover_preparing lt s))"
| "audit_op s (commit s)"
| "audit_op s (rollback s)"

inductive audit_step :: "'a audit_db_scheme dbsession \<Rightarrow> 'a audit_db_scheme dbsession \<Rightarrow> bool" where
  audit_op: "audit_op s s' \<Longrightarrow> audit_step s s'"
| audit_delete_uid: "audit_step s (fst (audit_delete_by_uid uid s))"
| audit_delete_ids: "audit_step s (fst (delete_records ids s))"

lemmas audit_operations_safe = create_preparing_safe associate_context_path_safe complete_preparation_safe
  activate_confirmation_claim_safe fail_persistence_safe claim_pending_safe claim_passed_safe close_pending_safe
  cancel_confirmation_safe mark_source_message_invalid_safe cancel_execution_for_file_reaudit_safe
  create_execution_attempt_safe finish_execution_attempt_safe cancel_execution_attempt_safe mark_execution_started_safe
  finish_round_if_complete_safe finish_execution_round_safe mark_execution_unknown_safe cancel_unexecuted_safe
  cancel_unexecuted_by_session_safe mark_running_executions_unknown_except_safe expire_pending_confirmations_safe
  expire_confirmation_by_session_safe recover_interrupted_safe recover_preparing_safe audit_delete_by_uid_safe
  delete_records_safe

lemma audit_op_safe: "audit_op s s' \<Longrightarrow> audit_safe s \<Longrightarrow> audit_safe s'"
  by (induction rule: audit_op.induct)
    (simp_all add: audit_operations_safe mark_persistence_failed_def mark_pending_persistence_failed_def unstarted_def)

lemma audit_step_safe: "audit_step s s' \<Longrightarrow> audit_safe s \<Longrightarrow> audit_safe s'"
  by (induction rule: audit_step.induct) (simp_all add: audit_operations_safe audit_op_safe)

lemma audit_run_safe: "audit_step\<^sup>*\<^sup>* s s' \<Longrightarrow> audit_safe s \<Longrightarrow> audit_safe s'"
  by (induction rule: rtranclp_induct) (auto intro: audit_step_safe)

definition audit_empty :: "'a audit_db_scheme \<Rightarrow> bool" where
  "audit_empty d \<longleftrightarrow> ad_records d = [] \<and> ad_details d = [] \<and> ad_claims d = [] \<and> ad_executions d = []"

lemma audit_empty_safe: "audit_empty (cur s) \<Longrightarrow> audit_empty (saved s) \<Longrightarrow> audit_safe s"
  by (simp add: audit_safe_def audit_inv_def inv3_def audit_empty_def)

text \<open>C3: No tool call is executed without authority. In every state the audit can reach from empty
  tables, each execution attempt belongs to a record whose audit found no blocked and no failed tool
  call, and which the user approved or in which every tool call passed the audit.\<close>

theorem executed_only_if_authorised:
  assumes "audit_empty (cur s0)" and "audit_empty (saved s0)" and "audit_step\<^sup>*\<^sup>* s0 s"
    and "x \<in> set (ad_executions (cur s))"
  shows "\<exists>r\<in>set (ad_records (cur s)). ar_id r = ae_audit_record_id x \<and>
    (\<forall>t\<in>set (ad_details (cur s)). at_audit_record_id t = ar_id r \<longrightarrow> at_conclusion t \<in> {T_PASSED, T_PENDING}) \<and>
    (ar_decision r = Some APPROVE \<or>
     (\<forall>t\<in>set (ad_details (cur s)). at_audit_record_id t = ar_id r \<longrightarrow> at_conclusion t = T_PASSED))"
proof -
  have "audit_safe s" by (rule audit_run_safe [OF assms(3) audit_empty_safe [OF assms(1,2)]])
  with assms(4) have "execution_ok (ad_records (cur s)) (ad_details (cur s)) x"
    by (simp add: audit_safe_def audit_inv_def inv3_def)
  then show ?thesis unfolding execution_ok_def authorised_def no_bad_def all_passed_def by blast
qed

text \<open>C11: Success means that everything succeeded. In every reachable state a record is marked
  \<open>SUCCEEDED\<close> only if, under one claim token, it has exactly as many attempts as the round has tool
  calls and all of them succeeded; and a record has a claim token exactly while it is executing.\<close>

theorem succeeded_means_all_succeeded:
  assumes "audit_empty (cur s0)" and "audit_empty (saved s0)" and "audit_step\<^sup>*\<^sup>* s0 s"
    and "r \<in> set (ad_records (cur s))"
  shows "(ar_execution_claim_token r \<noteq> None \<longleftrightarrow> ar_status r = A_EXECUTING) \<and>
    (ar_status r = A_SUCCEEDED \<longrightarrow> (\<exists>token.
       int (rowcount (\<lambda>x. ae_audit_record_id x = ar_id r \<and> ae_claim_token x = token) (ad_executions (cur s))) = ar_tool_count r \<and>
       (\<forall>x\<in>set (ad_executions (cur s)). ae_audit_record_id x = ar_id r \<and> ae_claim_token x = token \<longrightarrow>
          ae_status x = X_SUCCEEDED)))"
proof -
  have "audit_safe s" by (rule audit_run_safe [OF assms(3) audit_empty_safe [OF assms(1,2)]])
  with assms(4) have "record_ok (ad_details (cur s)) (ad_executions (cur s)) r"
    by (simp add: audit_safe_def audit_inv_def inv3_def)
  then show ?thesis by (auto simp: record_ok_def all_succeeded_def execution_scope_def rowcount_def)
qed

subsection \<open>A concrete round\<close>

definition sample_audit_db :: audit_db where
  "sample_audit_db = \<lparr>rq_work = [], rq_sequences = [], rq_events = [], rq_checkpoints = [], rq_messages = [],
     rq_references = [], rq_chat_sessions = [(''s'', ''u'')], rq_subagent_parents = [],
     ad_records = [], ad_details = [], ad_claims = [], ad_executions = [], ad_versions = []\<rparr>"

definition sample_preparing :: preparing_args where
  "sample_preparing = \<lparr>pr_uid = ''u'', pr_operator_username = ''n'', pr_session_id = ''s'', pr_source = ''http'',
     pr_language = ''en'', pr_execution_scope = ''foreground'', pr_source_assistant_message_id = 4,
     pr_working_directory = ''/w'', pr_round_arguments_hash = ''h'', pr_tool_count = 1, pr_source_work_id = None\<rparr>"

definition sample_preparation :: preparation_args where
  "sample_preparation = \<lparr>cp_audit_record_id = 1, cp_status = A_PASSED, cp_tool_details =
      [\<lparr>td_original_tool_call_id = Some (JStr ''c''), td_turn_index = Some (JInt 0), td_tool_name = ''ls'',
        td_conclusion = ''passed'', td_score = Some 1, td_reason = None, td_arguments_hash = ''a'',
        td_arguments_summary = None, td_file_snapshots = None\<rparr>],
     cp_context_file_path = ''/c'', cp_intent_summary = None, cp_failure_type = None, cp_error_reason = None,
     cp_expires_at = None, cp_create_confirmation_claim = True\<rparr>"

definition sample_round1 :: "audit_db dbsession" where
  "sample_round1 = fst (create_execution_attempt 1 1 ''t'' ''n'' ''new'' 4 (fst (claim_passed_for_execution 1 ''t'' 3
     (fst (complete_preparation id sample_preparation 2 (fst (create_preparing id sample_preparing 1
       (open_session sample_audit_db))))))))"

definition sample_round2 :: "audit_db dbsession" where
  "sample_round2 = fst (finish_execution_round_if_complete 1 ''t'' True 6
     (fst (finish_execution_attempt 1 X_SUCCEEDED None None True 5 sample_round1)))"

lemma sample_round1_run: "audit_step\<^sup>*\<^sup>* (open_session sample_audit_db) sample_round1"
  unfolding sample_round1_def
  by (rule rtranclp.rtrancl_into_rtrancl [OF rtranclp.rtrancl_into_rtrancl [OF rtranclp.rtrancl_into_rtrancl [OF
        rtranclp.rtrancl_into_rtrancl [OF rtranclp.rtrancl_refl]]]])
    (rule audit_op, rule audit_op.intros)+

lemma sample_round2_run: "audit_step\<^sup>*\<^sup>* (open_session sample_audit_db) sample_round2"
  unfolding sample_round2_def
  by (rule rtranclp.rtrancl_into_rtrancl [OF rtranclp.rtrancl_into_rtrancl [OF sample_round1_run]])
    (rule audit_op, rule audit_op.intros)+

lemma sample_round1_executions: "map ae_id (ad_executions (cur sample_round1)) = [1]"
  by code_simp

lemma sample_round2_records: "map ar_status (ad_records (cur sample_round2)) = [A_SUCCEEDED]"
  by code_simp

lemma sample_audit_db_empty: "audit_empty sample_audit_db"
  by (simp add: audit_empty_def sample_audit_db_def)

theorem executed_only_if_authorised_witness:
  "\<exists>x r. x \<in> set (ad_executions (cur sample_round1)) \<and> r \<in> set (ad_records (cur sample_round1)) \<and>
     ar_id r = ae_audit_record_id x \<and> (ar_decision r = Some APPROVE \<or>
     (\<forall>t\<in>set (ad_details (cur sample_round1)). at_audit_record_id t = ar_id r \<longrightarrow> at_conclusion t = T_PASSED))"
proof -
  obtain x where x: "x \<in> set (ad_executions (cur sample_round1))"
    using sample_round1_executions by (cases "ad_executions (cur sample_round1)") auto
  with executed_only_if_authorised [OF _ _ sample_round1_run this] show ?thesis
    using sample_audit_db_empty by auto
qed

theorem succeeded_means_all_succeeded_witness:
  "\<exists>r token. r \<in> set (ad_records (cur sample_round2)) \<and> ar_status r = A_SUCCEEDED \<and>
     int (rowcount (\<lambda>x. ae_audit_record_id x = ar_id r \<and> ae_claim_token x = token) (ad_executions (cur sample_round2))) = ar_tool_count r"
proof -
  obtain r where r: "r \<in> set (ad_records (cur sample_round2))" "ar_status r = A_SUCCEEDED"
    using sample_round2_records by (cases "ad_records (cur sample_round2)") auto
  with succeeded_means_all_succeeded [OF _ _ sample_round2_run r(1)] show ?thesis
    using sample_audit_db_empty by auto
qed

end
