(* ===== verification/Audit_Outcomes.thy ===== *)
theory Audit_Outcomes
  imports Audit_Laws
begin

text \<open>
  The outcomes of the audit: ended records and attempts are final, a record is claimed for execution
  once and only under its conditions, the preparation stores exactly what was audited, and a round
  ends with the worst outcome of its attempts.
\<close>

section \<open>Finality\<close>

definition ended :: "audit_record set \<Rightarrow> audit_execution set \<Rightarrow> bool" where
  "ended R X \<longleftrightarrow> (\<forall>r\<in>R. ar_status r \<in> AUDIT_TERMINAL_STATUSES) \<and> (\<forall>x\<in>X. ae_status x \<noteq> X_RUNNING)"

definition kept :: "audit_record set \<Rightarrow> audit_execution set \<Rightarrow> 'a audit_db_scheme dbsession \<Rightarrow> bool" where
  "kept R X s \<longleftrightarrow> R \<subseteq> set (ad_records (cur s)) \<and> R \<subseteq> set (ad_records (saved s)) \<and>
     X \<subseteq> set (ad_executions (cur s)) \<and> X \<subseteq> set (ad_executions (saved s))"

lemma kept_transaction [simp, intro!]:
  "kept R X s \<Longrightarrow> kept R X (commit s)" "kept R X s \<Longrightarrow> kept R X (rollback s)" "kept R X s \<Longrightarrow> kept R X (commit_if b s)"
  by (simp_all add: kept_def commit_if_def)

lemma kept_delete_claims [simp]: "kept R X (delete_claims p s) = kept R X s"
  by (simp add: kept_def)

lemma kept_update_records:
  assumes "kept R X s" and "ended R X" and "\<And>r. p r \<Longrightarrow> ar_status r \<in> {A_PREPARING, A_PASSED, A_PENDING, A_EXECUTING}"
  shows "kept R X (fst (update_records p f s))"
proof -
  have "\<not> p r" if "r \<in> R" for r
    using that assms(2) assms(3) [of r] by (auto simp: ended_def audit_terminal_iff)
  then show ?thesis using assms(1) by (auto simp: kept_def set_sql_update)
qed

lemma kept_update_executions:
  assumes "kept R X s" and "ended R X" and "\<And>x. p x \<Longrightarrow> ae_status x = X_RUNNING"
  shows "kept R X (fst (update_executions p f s))"
  using assms by (fastforce simp: kept_def set_sql_update ended_def)

lemma kept_work_claim: "kept R X s \<Longrightarrow> kept R X (fst (ensure_session_reply_work_claim b lt s))"
  by (auto simp: ensure_session_reply_work_claim_def update_work_def execute_def kept_def commit_if_def Let_def split: option.splits)

lemma kept_with_work_claim:
  assumes "kept R X s" and "\<And>s. kept R X s \<Longrightarrow> kept R X (fst (f s))"
  shows "kept R X (fst (with_work_claim lt f s))"
proof -
  obtain s1 r where e: "ensure_session_reply_work_claim False lt s = (s1, r)" by (meson surj_pair)
  then have "kept R X s1" using kept_work_claim [OF assms(1), of False lt] by simp
  then show ?thesis using e assms(2) [of s1] by (cases r) (simp_all add: with_work_claim_def)
qed

lemma kept_append:
  "kept R X s \<Longrightarrow> kept R X (execute (\<lambda>d. d\<lparr>ad_records := ad_records d @ rs\<rparr>) s)"
  "kept R X s \<Longrightarrow> kept R X (execute (\<lambda>d. d\<lparr>ad_executions := ad_executions d @ xs\<rparr>) s)"
  "kept R X s \<Longrightarrow> kept R X (execute (\<lambda>d. d\<lparr>ad_claims := f d\<rparr>) s)"
  "kept R X s \<Longrightarrow> kept R X (execute (\<lambda>d. d\<lparr>ad_details := g d, ad_claims := f d\<rparr>) s)"
  by (auto simp: kept_def execute_def)

lemmas kept_rules = kept_with_work_claim kept_update_records kept_update_executions kept_append

lemmas audit_guards = executing_with_def running_in_def pending_expired_def unexecuted_def

lemma kept_preparation:
  assumes "ended R X" and "kept R X s"
  shows "kept R X (fst (create_preparing resolve a lt s))" "kept R X (fst (associate_context_path resolve i path b lt s))"
    "kept R X (fst (complete_preparation resolve pa lt s))" "kept R X (fst (activate_confirmation_claim i uid sid b lt s))"
    "st \<in> {A_PREPARING, A_PENDING} \<Longrightarrow> kept R X (fst (fail_persistence st i reason lt s))"
proof -
  show "kept R X (fst (complete_preparation resolve pa lt s))" using assms
    by (auto simp: complete_preparation_def finish_preparation_def build_audit_status_update_def Let_def
        intro!: kept_rules split: option.splits sum.splits)
qed (use assms in \<open>auto simp: create_preparing_def associate_context_path_def activate_confirmation_claim_def
      fail_persistence_def case_prod_beta Let_def intro!: kept_rules\<close>)

lemma kept_claims:
  assumes "ended R X" and "kept R X s"
  shows "kept R X (fst (claim_pending_for_execution i uid sid mid raw by b token lt s))"
    "kept R X (fst (claim_passed_for_execution i token lt s))" "kept R X (fst (close_pending i uid sid st dm dr db er b lt s))"
    "kept R X (fst (cancel_confirmation_by_session uid sid reason b lt s))"
    "kept R X (fst (mark_source_message_invalid i token reason lt s))"
    "kept R X (fst (cancel_execution_for_file_reaudit i token reason lt s))"
  using assms
  by (auto simp: claim_pending_for_execution_def build_pending_execution_claim_update_def claim_passed_for_execution_def
      build_passed_execution_claim_update_def build_audit_status_update_def close_pending_def cancel_confirmation_by_session_def
      mark_source_message_invalid_def cancel_execution_for_file_reaudit_def case_prod_beta Let_def audit_guards intro!: kept_rules)

lemma kept_execution:
  assumes "ended R X" and "kept R X s"
  shows "kept R X (fst (create_execution_attempt i det token node call lt s))"
    "kept R X (fst (finish_execution_attempt k xst su er b lt s))"
    "kept R X (fst (cancel_execution_attempt i k token reason b lt s))" "kept R X (fst (mark_execution_started k token lt s))"
    "kept R X (fst (finish_execution_round_if_complete i token b lt s))"
    "kept R X (fst (finish_execution_round i token st er b lt s))"
    "kept R X (fst (mark_execution_unknown i token reason ko b lt s))"
  using assms
  by (auto simp: create_execution_attempt_def finish_execution_attempt_def cancel_execution_attempt_def
      mark_execution_started_def finish_execution_round_if_complete_def finish_execution_round_def mark_execution_unknown_def
      case_prod_beta Let_def audit_guards intro!: kept_rules split: option.splits)

lemma kept_cancel_unexecuted:
  "ended R X \<Longrightarrow> kept R X s \<Longrightarrow> kept R X (fst (cancel_unexecuted i uid sid reason b lt s))"
  by (auto simp: cancel_unexecuted_def case_prod_beta audit_guards intro!: kept_rules)

lemma kept_cancel_each: "ended R X \<Longrightarrow> kept R X s \<Longrightarrow> kept R X (fst (cancel_each uid sid reason lt is s))"
  by (induction "is" arbitrary: s) (simp_all add: case_prod_beta kept_cancel_unexecuted)

lemma kept_recovery:
  assumes "ended R X" and "kept R X s"
  shows "kept R X (fst (cancel_unexecuted i uid sid reason b lt s))"
    "kept R X (fst (cancel_unexecuted_by_session uid sid reason b lt s))"
    "kept R X (fst (mark_running_executions_unknown_except i token ex reason lt s))"
    "kept R X (fst (expire_pending_confirmations lt s))" "kept R X (fst (expire_confirmation_by_session uid sid lt s))"
    "kept R X (fst (recover_interrupted lt s))" "kept R X (fst (recover_preparing lt s))"
  using assms
  by (auto simp: kept_cancel_unexecuted cancel_unexecuted_by_session_def mark_running_executions_unknown_except_def
      expire_pending_confirmations_def expire_confirmation_by_session_def recover_interrupted_def recover_preparing_def
      case_prod_beta Let_def audit_guards intro!: kept_rules kept_cancel_each)

lemma kept_op: "audit_op s s' \<Longrightarrow> ended R X \<Longrightarrow> kept R X s \<Longrightarrow> kept R X s'"
  by (induction rule: audit_op.induct)
    (simp_all add: kept_preparation kept_claims kept_execution kept_recovery mark_persistence_failed_def
      mark_pending_persistence_failed_def)


lemma sample_round2_committed: "cur sample_round2 = saved sample_round2"
  by code_simp

lemma sample_round2_attempts: "map ae_status (ad_executions (cur sample_round2)) = [X_SUCCEEDED]"
  by code_simp


section \<open>Claiming a record for execution\<close>

text \<open>The conditions under which the user's approval takes effect.\<close>

definition confirmable :: "int \<Rightarrow> string \<Rightarrow> string \<Rightarrow> int \<Rightarrow> 'a audit_db_scheme \<Rightarrow> audit_record \<Rightarrow> bool" where
  "confirmable i uid sid now d r \<longleftrightarrow> ar_id r = i \<and> ar_uid r = uid \<and> ar_session_id r = sid \<and> ar_status r = A_PENDING \<and>
     null_gt (ar_expires_at r) now \<and>
     (\<exists>c\<in>set (ad_claims d). ac_audit_record_id c = i \<and> ac_uid c = uid \<and> ac_session_id c = sid)"

lemma executing_token_iff:
  assumes "distinct (map ar_id (ad_records d))"
  shows "executing_token i d = Some token \<longleftrightarrow> (\<exists>r\<in>set (ad_records d). executing_with i token r)"
proof
  assume "executing_token i d = Some token"
  then show "\<exists>r\<in>set (ad_records d). executing_with i token r"
    by (auto simp: executing_token_def executing_with_def bind_eq_Some_conv dest!: find_Some_iff_in)
next
  assume "\<exists>r\<in>set (ad_records d). executing_with i token r"
  then obtain r where r: "r \<in> set (ad_records d)" "executing_with i token r" by blast
  then obtain r' where f: "find (\<lambda>r. ar_id r = i \<and> ar_status r = A_EXECUTING) (ad_records d) = Some r'"
    using find_ex [of r "ad_records d" "\<lambda>r. ar_id r = i \<and> ar_status r = A_EXECUTING"] by (auto simp: executing_with_def)
  then have "r' = r" using find_Some_iff_in [OF f] r distinct_key_eq [OF assms, of r' r] by (auto simp: executing_with_def)
  then show "executing_token i d = Some token" using f r by (simp add: executing_token_def executing_with_def)
qed

definition approve :: "int \<Rightarrow> string \<Rightarrow> int \<Rightarrow> string \<Rightarrow> string \<Rightarrow> audit_record \<Rightarrow> audit_record" where
  "approve now token mid raw by r =
     r\<lparr>ar_status := A_EXECUTING, ar_decision := Some APPROVE, ar_decision_message_id := Some mid,
       ar_decision_raw_message := Some raw, ar_decided_by := Some by, ar_decided_at := Some now,
       ar_execution_claim_token := Some token, ar_execution_started_at := Some now, ar_updated_at := now\<rparr>"

lemma pending_update_eq:
  "build_pending_execution_claim_update i uid sid now token mid raw by s =
     update_records (confirmable i uid sid now (cur s)) (approve now token mid raw by) s"
  unfolding build_pending_execution_claim_update_def Let_def
  by (rule arg_cong2 [where f = "\<lambda>p f. update_records p f s"]) (auto simp: fun_eq_iff confirmable_def approve_def null_gt_iff)

lemma update_records_none: "rowcount p (ad_records (cur s)) = 0 \<Longrightarrow> fst (update_records p f s) = s"
  by (simp add: update_records_def sql_update_none execute_def)

lemma claim_pending_refused:
  assumes "executing_token i (cur (fst (build_pending_execution_claim_update i uid sid lt token mid raw by s))) \<noteq> Some token"
  shows "claim_pending_for_execution i uid sid mid raw by b token lt s =
    (rollback (fst (build_pending_execution_claim_update i uid sid lt token mid raw by s)), (None, None))"
  using assms by (simp add: claim_pending_for_execution_def Let_def)

lemma claim_pending_success:
  assumes dist: "distinct (map ar_id (ad_records (cur s)))" and r: "r \<in> set (ad_records (cur s))" "confirmable i uid sid lt (cur s) r"
    and eq: "claim_pending_for_execution i uid sid mid raw by b token lt s = (s', res)"
  shows "res = (Some (approve lt token mid raw by r), Some token) \<and>
    ad_records (cur s') = map (\<lambda>q. if q = r then approve lt token mid raw by r else q) (ad_records (cur s)) \<and>
    (\<forall>c\<in>set (ad_claims (cur s')). ac_audit_record_id c \<noteq> i) \<and> distinct (map ar_id (ad_records (cur s')))"
proof -
  let ?f = "approve lt token mid raw by" and ?s1 = "fst (update_records (confirmable i uid sid lt (cur s)) (approve lt token mid raw by) s)"
  have recs: "ad_records (cur ?s1) = map (\<lambda>q. if q = r then ?f r else q) (ad_records (cur s))"
    using sql_update_one [of ar_id "ad_records (cur s)" r "confirmable i uid sid lt (cur s)" ?f] dist r
    by (simp add: confirmable_def)
  have dist1: "distinct (map ar_id (ad_records (cur ?s1)))"
    using dist by (simp add: map_sql_update approve_def)
  have mem: "?f r \<in> set (ad_records (cur ?s1))" using r(1) unfolding recs by auto
  have id: "ar_id r = i" using r(2) by (simp add: confirmable_def)
  have "executing_with i token (?f r)" using id by (simp add: executing_with_def approve_def)
  with mem have tok: "executing_token i (cur ?s1) = Some token" using executing_token_iff [OF dist1] by blast
  have get: "get_record i d = Some (?f r)" if "ad_records d = ad_records (cur ?s1)" for d :: "'a audit_db_scheme"
    using distinct_key_find [OF dist1 mem] that id by (simp add: get_record_def approve_def)
  show ?thesis using eq tok recs dist1 get
    by (auto simp: claim_pending_for_execution_def pending_update_eq Let_def)
qed

text \<open>An approval is effective once, and only under its conditions. With a token nobody holds, the
  claim succeeds exactly when the record is the caller's, pending, not expired and holds the session's
  confirmation claim. It then is executing under the token with the approval recorded, no other record
  changed, its claim row is gone, and every further claim with another token is refused; otherwise
  nothing is claimed and the transaction is rolled back.\<close>

theorem claim_pending_exclusive:
  assumes "distinct (map ar_id (ad_records (cur s)))"
    and "\<forall>r\<in>set (ad_records (cur s)). ar_execution_claim_token r \<noteq> Some token"
    and "claim_pending_for_execution i uid sid mid raw by b token lt s = (s', res)" and "token' \<noteq> token"
  shows "if \<exists>r\<in>set (ad_records (cur s)). confirmable i uid sid lt (cur s) r
    then (\<exists>r\<in>set (ad_records (cur s)). confirmable i uid sid lt (cur s) r \<and>
        res = (Some (approve lt token mid raw by r), Some token) \<and>
        ad_records (cur s') = map (\<lambda>q. if q = r then approve lt token mid raw by r else q) (ad_records (cur s))) \<and>
      (\<forall>c\<in>set (ad_claims (cur s')). ac_audit_record_id c \<noteq> i) \<and>
      snd (claim_pending_for_execution i uid' sid' mid' raw' by' b' token' lt' s') = (None, None)
    else res = (None, None) \<and> s' = s\<lparr>cur := saved s\<rparr>"
proof (cases "\<exists>r\<in>set (ad_records (cur s)). confirmable i uid sid lt (cur s) r")
  case True
  then obtain r where r: "r \<in> set (ad_records (cur s))" "confirmable i uid sid lt (cur s) r" by blast
  note ok = claim_pending_success [OF assms(1) r assms(3)]
  let ?g = "approve lt' token' mid' raw' by'"
  have mem: "approve lt token mid raw by r \<in> set (ad_records (cur s'))" using r(1) ok by auto
  have id: "ar_id r = i" using r(2) by (simp add: confirmable_def)
  have only: "q = approve lt token mid raw by r" if "q \<in> set (ad_records (cur s'))" "ar_id q = i" for q
    by (rule distinct_key_eq [of ar_id "ad_records (cur s')"]) (use ok mem that id in \<open>auto simp: approve_def\<close>)
  have "\<not> confirmable i uid' sid' lt' (cur s') q" if "q \<in> set (ad_records (cur s'))" for q
  proof
    assume c: "confirmable i uid' sid' lt' (cur s') q"
    then have "q = approve lt token mid raw by r" using only [OF that] by (simp add: confirmable_def)
    with c show False by (simp add: confirmable_def approve_def)
  qed
  then have none: "rowcount (confirmable i uid' sid' lt' (cur s')) (ad_records (cur s')) = 0" by (simp only: rowcount_0_iff) blast
  have "\<not> executing_with i token' q" if "q \<in> set (ad_records (cur s'))" for q
  proof
    assume c: "executing_with i token' q"
    then have "q = approve lt token mid raw by r" using only [OF that] by (simp add: executing_with_def)
    with c assms(4) show False by (simp add: executing_with_def approve_def)
  qed
  then have "\<not> (\<exists>q\<in>set (ad_records (cur s')). executing_with i token' q)" by blast
  then have "executing_token i (cur s') \<noteq> Some token'" using executing_token_iff [of "cur s'"] ok by blast
  then have "executing_token i (cur (fst (build_pending_execution_claim_update i uid' sid' lt' token' mid' raw' by' s'))) \<noteq> Some token'"
    by (simp only: pending_update_eq update_records_none [OF none] not_False_eq_True)
  from claim_pending_refused [OF this] have "snd (claim_pending_for_execution i uid' sid' mid' raw' by' b' token' lt' s') = (None, None)"
    by simp
  with True r ok show ?thesis by auto
next
  case False
  then have none: "rowcount (confirmable i uid sid lt (cur s)) (ad_records (cur s)) = 0" by (simp only: rowcount_0_iff) blast
  note update_records_none [OF none]
  moreover have "\<not> (\<exists>r\<in>set (ad_records (cur s)). executing_with i token r)" using assms(2) by (auto simp: executing_with_def)
  ultimately have "claim_pending_for_execution i uid sid mid raw by b token lt s = (rollback s, (None, None))"
    using claim_pending_refused [of i uid sid lt token mid raw "by" s b] executing_token_iff [OF assms(1)]
    by (simp add: pending_update_eq)
  with assms(3) False show ?thesis by (simp add: rollback_def)
qed

definition sample_pending :: preparation_args where
  "sample_pending = sample_preparation\<lparr>cp_status := A_PENDING, cp_expires_at := Some 100,
     cp_tool_details := map (\<lambda>t. t\<lparr>td_conclusion := ''pending''\<rparr>) (cp_tool_details sample_preparation)\<rparr>"

definition sample_pending_session :: "audit_db dbsession" where
  "sample_pending_session = fst (complete_preparation id sample_pending 2
     (fst (create_preparing id sample_preparing 1 (open_session sample_audit_db))))"

theorem claim_pending_exclusive_witness:
  "snd (claim_pending_for_execution 1 ''u'' ''s'' 8 ''yes'' ''u'' True ''t2'' 6
     (fst (claim_pending_for_execution 1 ''u'' ''s'' 7 ''ok'' ''u'' True ''t1'' 5 sample_pending_session))) = (None, None)"
proof -
  have d: "distinct (map ar_id (ad_records (cur sample_pending_session)))" by code_simp
  have t: "\<forall>r\<in>set (ad_records (cur sample_pending_session)). ar_execution_claim_token r \<noteq> Some ''t1''" by code_simp
  have c: "\<exists>r\<in>set (ad_records (cur sample_pending_session)). confirmable 1 ''u'' ''s'' 5 (cur sample_pending_session) r" by code_simp
  have n: "''t2'' \<noteq> ''t1''" by simp
  show ?thesis
    using claim_pending_exclusive [OF d t surjective_pairing n, where i = 1 and uid = "''u''" and sid = "''s''" and lt = 5] c
    by (simp only: if_True)
qed

section \<open>Completing the preparation\<close>

definition tables :: "'a audit_db_scheme \<Rightarrow> audit_record list \<times> audit_tool_detail list \<times> confirmation_claim list \<times> audit_execution list" where
  "tables d = (ad_records d, ad_details d, ad_claims d, ad_executions d)"

lemma ensure_work_claim_tables:
  assumes "ensure_session_reply_work_claim b lt s = (s1, r)"
  shows "case r of Inl e \<Rightarrow> tables (cur s1) = tables (saved s) | Inr _ \<Rightarrow> tables (cur s1) = tables (cur s)"
    and "\<not> b \<Longrightarrow> saved s1 = saved s"
  using assms
  by (auto simp: ensure_session_reply_work_claim_def update_work_def execute_def tables_def Let_def split: option.splits if_splits)

lemma add_details_rows:
  "\<exists>ms'. fold add_detail ms ds = ds @ ms' \<and> map at_audit_record_id ms' = map at_audit_record_id ms \<and>
     map at_turn_index ms' = map at_turn_index ms \<and> map at_original_tool_call_id ms' = map at_original_tool_call_id ms \<and>
     map at_conclusion ms' = map at_conclusion ms"
proof (induction ms arbitrary: ds)
  case Nil
  then show ?case by simp
next
  case (Cons m ms)
  from Cons.IH [of "add_detail m ds"] obtain ms' where "fold add_detail ms (add_detail m ds) = add_detail m ds @ ms'"
    "map at_audit_record_id ms' = map at_audit_record_id ms" "map at_turn_index ms' = map at_turn_index ms"
    "map at_original_tool_call_id ms' = map at_original_tool_call_id ms" "map at_conclusion ms' = map at_conclusion ms" by blast
  then show ?case by (intro exI [of _ "m\<lparr>at_id := fresh_id at_id ds\<rparr> # ms'"]) (simp add: add_detail_def [of m ds])
qed

text \<open>The verdict of a round, stated by what each status means for the conclusions.\<close>

definition verdict_on :: "tool_conclusion set \<Rightarrow> audit_status \<Rightarrow> bool" where
  "verdict_on cs st \<longleftrightarrow>
     (st = A_BLOCKED \<longleftrightarrow> T_BLOCKED \<in> cs) \<and>
     (st = A_AUDIT_FAILED \<longleftrightarrow> T_BLOCKED \<notin> cs \<and> T_AUDIT_FAILED \<in> cs) \<and>
     (st = A_PENDING \<longleftrightarrow> T_PENDING \<in> cs \<and> cs \<subseteq> {T_PENDING, T_PASSED}) \<and>
     (st = A_PASSED \<longleftrightarrow> cs \<subseteq> {T_PASSED})"

lemma verdict_on_aggregated: "verdict_on cs (aggregated_status cs)"
proof -
  have range: "cs \<subseteq> {T_PASSED} \<longleftrightarrow> T_BLOCKED \<notin> cs \<and> T_AUDIT_FAILED \<notin> cs \<and> T_PENDING \<notin> cs"
    "cs \<subseteq> {T_PENDING, T_PASSED} \<longleftrightarrow> T_BLOCKED \<notin> cs \<and> T_AUDIT_FAILED \<notin> cs"
    by (auto intro: tool_conclusion.exhaust)
  show ?thesis unfolding verdict_on_def aggregated_status_def range by simp
qed

definition stored_round :: "preparation_args \<Rightarrow> audit_record \<Rightarrow> 'a audit_db_scheme \<Rightarrow> bool" where
  "stored_round a r d \<longleftrightarrow>
     (let ds = filter (\<lambda>t. at_audit_record_id t = ar_id r) (ad_details d)
      in int (length ds) = ar_tool_count r \<and> set (map at_turn_index ds) = {0..ar_tool_count r - 1} \<and>
         distinct (map at_original_tool_call_id ds) \<and> verdict_on (set (map at_conclusion ds)) (cp_status a))"

lemma stored_round_added:
  assumes "preparation_details a r lt = Inr ms" and "\<forall>t\<in>set (ad_details d). at_audit_record_id t \<noteq> ar_id r"
    and "ar_id r = cp_audit_record_id a" and "ad_details d' = fold add_detail ms (ad_details d)"
  shows "stored_round a r d'"
proof -
  obtain ms' where ms': "fold add_detail ms (ad_details d) = ad_details d @ ms'"
    "map at_audit_record_id ms' = map at_audit_record_id ms" "map at_turn_index ms' = map at_turn_index ms"
    "map at_original_tool_call_id ms' = map at_original_tool_call_id ms" "map at_conclusion ms' = map at_conclusion ms"
    using add_details_rows [of ms "ad_details d"] by blast
  note ok = preparation_details_ok [OF assms(1)]
  have "set (map at_audit_record_id ms') = set (map at_audit_record_id ms)" by (simp only: ms'(2))
  then have "\<forall>m\<in>set ms'. at_audit_record_id m = ar_id r" using ok assms(3) by auto
  then have "filter (\<lambda>t. at_audit_record_id t = ar_id r) (ad_details d') = ms'"
    using assms(2) by (simp add: assms(4) ms'(1) filter_empty_conv filter_id_conv)
  moreover have "length ms' = length ms" using ms'(2) by (metis length_map)
  ultimately show ?thesis using ok ms' verdict_on_aggregated [of "set (map at_conclusion ms)"]
    unfolding stored_round_def Let_def by simp
qed

lemma finish_preparation_correct:
  assumes safe: "audit_safe s" and r: "r \<in> set (ad_records (cur s))" "ar_id r = cp_audit_record_id a" "ar_status r = A_PREPARING"
    and ms: "preparation_details a r lt = Inr ms" and eq: "finish_preparation resolve a r ms lt s = (s', res)"
  shows "(res = Inr True \<and> saved s' = cur s' \<and> stored_round a r (cur s') \<and>
      ad_records (cur s') = map (\<lambda>q. if q = r then preparation_values resolve a lt q else q) (ad_records (cur s)) \<and>
      ad_executions (cur s') = ad_executions (cur s) \<and>
      (cp_status a = A_PENDING \<and> cp_create_confirmation_claim a \<longleftrightarrow> ad_claims (cur s') \<noteq> ad_claims (cur s))) \<or>
    (res = Inr False \<or> res = Inl IntegrityError) \<and> cur s' = saved s"
proof -
  let ?p = "\<lambda>r. ar_id r = cp_audit_record_id a \<and> ar_status r = A_PREPARING" and ?f = "preparation_values resolve a lt"
  have ok: "distinct (map ar_id (ad_records (cur s)))" "record_ok (ad_details (cur s)) (ad_executions (cur s)) r"
    using safe r by (auto simp: audit_safe_def audit_inv_def inv3_def)
  have recs: "sql_update ?p ?f (ad_records (cur s)) = map (\<lambda>q. if q = r then ?f r else q) (ad_records (cur s))"
    using sql_update_one [of ar_id "ad_records (cur s)" r ?p ?f] ok(1) r by simp
  have clean: "\<forall>t\<in>set (ad_details (cur s)). at_audit_record_id t \<noteq> ar_id r" using ok(2) r(3) by (simp add: record_ok_def)
  define s1 where "s1 = fst (build_audit_status_update (cp_audit_record_id a) A_PREPARING ?f s)"
  let ?needs = "cp_status a = A_PENDING \<and> cp_create_confirmation_claim a"
  let ?F = "\<lambda>d. d\<lparr>ad_details := fold add_detail ms (ad_details d),
      ad_claims := (if ?needs then add_claim (ar_uid r) (ar_session_id r) (cp_audit_record_id a) lt (ad_claims d) else ad_claims d)\<rparr>"
  have s1: "saved s1 = saved s" "ad_records (cur s1) = map (\<lambda>q. if q = r then ?f q else q) (ad_records (cur s))"
    "ad_details (cur s1) = ad_details (cur s)" "ad_claims (cur s1) = ad_claims (cur s)" "ad_executions (cur s1) = ad_executions (cur s)"
    using recs by (auto simp: s1_def build_audit_status_update_def)
  have "s' = rollback s1 \<and> (res = Inr False \<or> res = Inl IntegrityError) \<or> s' = commit (execute ?F s1) \<and> res = Inr True"
    using eq unfolding finish_preparation_def Let_def s1_def [symmetric] by (auto split: if_splits)
  then show ?thesis
  proof
    assume "s' = rollback s1 \<and> (res = Inr False \<or> res = Inl IntegrityError)"
    then show ?thesis using s1(1) by simp
  next
    assume fin: "s' = commit (execute ?F s1) \<and> res = Inr True"
    then have "ad_details (cur s') = fold add_detail ms (ad_details (cur s))" using s1 by (simp add: execute_def)
    from stored_round_added [OF ms clean r(2) this] fin s1 show ?thesis by (simp add: execute_def add_claim_def)
  qed
qed

lemma stored_round_cong: "ad_details d = ad_details d' \<Longrightarrow> stored_round a r d = stored_round a r d'"
  by (simp add: stored_round_def)

text \<open>C13: Completing a preparation is all or nothing and tells the truth. When it reports success, the
  record was being prepared, its status is the aggregate of the conclusions now stored for it (blocked
  over failed over pending over passed), the stored tool calls number the round's calls and cover the
  positions \<open>0 \<dots> n - 1\<close>, a confirmation claim was added exactly for a pending round that asks for one,
  and everything is committed. In every other case, error or refusal, the audit tables are those from
  before the call or the last committed ones.\<close>

theorem complete_preparation_correct:
  assumes "audit_safe s" and "complete_preparation resolve a lt s = (s', res)"
  shows "(res = Inr True \<and> saved s' = cur s' \<and> (\<exists>r\<in>set (ad_records (cur s)). ar_id r = cp_audit_record_id a \<and>
      ar_status r = A_PREPARING \<and> stored_round a r (cur s') \<and>
      ad_records (cur s') = map (\<lambda>q. if q = r then preparation_values resolve a lt q else q) (ad_records (cur s))) \<and>
      (cp_status a = A_PENDING \<and> cp_create_confirmation_claim a \<longleftrightarrow> ad_claims (cur s') \<noteq> ad_claims (cur s))) \<or>
    (res \<noteq> Inr True \<and> (tables (cur s') = tables (cur s) \<or> tables (cur s') = tables (saved s)))"
proof (cases "preparation_error a")
  case (Some e)
  with assms(2) show ?thesis by (auto simp: complete_preparation_def)
next
  case None
  obtain s1 r1 where e: "ensure_session_reply_work_claim False lt s = (s1, r1)" by (meson surj_pair)
  note tab = ensure_work_claim_tables [OF e, simplified]
  have safe1: "audit_safe s1" using audit_safe_work_claim [OF assms(1), of False lt] e by simp
  show ?thesis
  proof (cases r1)
    case (Inl x)
    with assms(2) None e tab show ?thesis by (auto simp: complete_preparation_def with_work_claim_def)
  next
    case (Inr u)
    with tab have same: "tables (cur s1) = tables (cur s)" "saved s1 = saved s" by simp_all
    then have recs: "ad_records (cur s1) = ad_records (cur s)" "ad_claims (cur s1) = ad_claims (cur s)" by (simp_all add: tables_def)
    from assms(2) None e Inr consider
        (stay) "s' = s1" "res \<noteq> Inr True"
      | (go) r ms where "get_record (cp_audit_record_id a) (cur s1) = Some r" "ar_status r = A_PREPARING"
          "preparation_details a r lt = Inr ms" "finish_preparation resolve a r ms lt s1 = (s', res)"
      by (auto simp: complete_preparation_def with_work_claim_def split: option.splits if_splits sum.splits)
    then show ?thesis
    proof cases
      case stay
      with same show ?thesis by simp
    next
      case (go r ms)
      then have r: "r \<in> set (ad_records (cur s1))" "ar_id r = cp_audit_record_id a"
        by (auto simp: get_record_def dest!: find_Some_iff_in)
      from finish_preparation_correct [OF safe1 r go(2-4)] r go(2) recs same show ?thesis by auto
    qed
  qed
qed

lemma sample_audit_safe: "audit_safe (fst (create_preparing id sample_preparing 1 (open_session sample_audit_db)))"
  by (rule create_preparing_safe [OF audit_empty_safe]) (simp_all add: sample_audit_db_empty)

lemma sample_pending_result:
  "snd (complete_preparation id sample_pending 2 (fst (create_preparing id sample_preparing 1 (open_session sample_audit_db)))) = Inr True"
  by code_simp

theorem complete_preparation_correct_witness:
  "saved sample_pending_session = cur sample_pending_session"
  using complete_preparation_correct [OF sample_audit_safe prod.collapse [symmetric], of id sample_pending 2] sample_pending_result
  by (auto simp: sample_pending_session_def)

section \<open>The end of a round\<close>

text \<open>Attempts are ordered by how bad their state is for the round; a running one is worst, because
  the round cannot end.\<close>

fun severity :: "execution_status \<Rightarrow> nat" where
  "severity X_SUCCEEDED = 0"
| "severity X_FAILED = 1"
| "severity X_CANCELLED = 2"
| "severity X_EXECUTION_UNKNOWN = 3"
| "severity X_RUNNING = 4"

lemma severity_inject: "severity a = severity b \<longleftrightarrow> a = b"
  by (cases a; cases b) simp_all

instantiation execution_status :: linorder
begin

definition less_eq_execution_status :: "execution_status \<Rightarrow> execution_status \<Rightarrow> bool" where
  "less_eq_execution_status a b \<longleftrightarrow> severity a \<le> severity b"

definition less_execution_status :: "execution_status \<Rightarrow> execution_status \<Rightarrow> bool" where
  "less_execution_status a b \<longleftrightarrow> severity a < severity b"

instance
  by intro_classes (auto simp: less_eq_execution_status_def less_execution_status_def severity_inject)

end

definition worst :: "audit_execution list \<Rightarrow> execution_status" where
  "worst xs = Max (set (map ae_status xs))"

fun outcome_of :: "execution_status \<Rightarrow> audit_status" where
  "outcome_of X_SUCCEEDED = A_SUCCEEDED"
| "outcome_of X_FAILED = A_FAILED"
| "outcome_of X_CANCELLED = A_CANCELLED"
| "outcome_of X_EXECUTION_UNKNOWN = A_EXECUTION_UNKNOWN"
| "outcome_of X_RUNNING = A_EXECUTING"

lemma worst_props:
  assumes "xs \<noteq> []"
  shows "has_status (worst xs) xs" and "has_status st xs \<Longrightarrow> severity st \<le> severity (worst xs)"
proof -
  let ?S = "set (map ae_status xs)"
  have "finite ?S" "?S \<noteq> {}" using assms by simp_all
  then have "Max ?S \<in> ?S" by (rule Max_in)
  then show "has_status (worst xs) xs" by (auto simp: has_status_def worst_def)
  assume "has_status st xs"
  then have "st \<in> ?S" by (auto simp: has_status_def)
  with \<open>finite ?S\<close> have "st \<le> Max ?S" by (rule Max_ge)
  then show "severity st \<le> severity (worst xs)" by (simp add: worst_def less_eq_execution_status_def)
qed

lemma round_outcome_worst:
  assumes "xs \<noteq> []"
  shows "has_status X_RUNNING xs \<longleftrightarrow> worst xs = X_RUNNING"
    and "worst xs \<noteq> X_RUNNING \<Longrightarrow> fst (round_outcome xs) = outcome_of (worst xs)"
  using worst_props(1) [OF assms] worst_props(2) [OF assms, of X_RUNNING] worst_props(2) [OF assms, of X_EXECUTION_UNKNOWN]
    worst_props(2) [OF assms, of X_CANCELLED] worst_props(2) [OF assms, of X_FAILED]
  by (cases "worst xs"; auto simp: round_outcome_def)+


definition sample_finished :: "audit_db dbsession" where
  "sample_finished = fst (finish_execution_attempt 1 X_FAILED None (Some ''e'') True 5 sample_round1)"

lemma sample_finished_facts:
  "\<exists>r\<in>set (ad_records (cur sample_finished)). executing_with 1 ''t'' r \<and> ar_tool_count r = 1"
  "distinct (map ar_id (ad_records (cur sample_finished)))"
  "map ae_status (filter (\<lambda>x. ae_audit_record_id x = 1 \<and> ae_claim_token x = ''t'') (ad_executions (cur sample_finished))) = [X_FAILED]"
  by code_simp+


section \<open>Stopping a session\<close>

definition stop_record :: "string \<Rightarrow> int \<Rightarrow> audit_record \<Rightarrow> audit_record" where
  "stop_record reason lt r = (cancel_record reason lt r)\<lparr>ar_execution_claim_token := None\<rparr>"

definition stoppable :: "string \<Rightarrow> string \<Rightarrow> audit_execution list \<Rightarrow> audit_record \<Rightarrow> bool" where
  "stoppable uid sid xs r \<longleftrightarrow> ar_uid r = uid \<and> ar_session_id r = sid \<and> (ar_status r \<in> {A_PREPARING, A_PASSED, A_PENDING} \<or>
     ar_status r = A_EXECUTING \<and> \<not> (\<exists>x\<in>set xs. ae_audit_record_id x = ar_id r))"

lemma cancel_unexecuted_records:
  "ad_records (cur (fst (cancel_unexecuted i uid sid reason b lt s))) =
     sql_update (\<lambda>r. ar_id r = i \<and> stoppable uid sid (ad_executions (cur s)) r) (stop_record reason lt) (ad_records (cur s))"
  "ad_executions (cur (fst (cancel_unexecuted i uid sid reason b lt s))) = ad_executions (cur s)"
  "snd (cancel_unexecuted i uid sid reason b lt s) \<longleftrightarrow>
     (\<exists>r\<in>set (ad_records (cur s)). ar_id r = i \<and> stoppable uid sid (ad_executions (cur s)) r)"
proof -
  have p: "(\<lambda>r. ar_id r = i \<and> ar_uid r = uid \<and> ar_session_id r = sid \<and> unexecuted (cur s) r) =
      (\<lambda>r. ar_id r = i \<and> stoppable uid sid (ad_executions (cur s)) r)"
    by (auto simp: stoppable_def unexecuted_def fun_eq_iff)
  have f: "(\<lambda>r. (cancel_record reason lt r)\<lparr>ar_execution_claim_token := None\<rparr>) = stop_record reason lt"
    by (simp add: fun_eq_iff stop_record_def)
  show "ad_records (cur (fst (cancel_unexecuted i uid sid reason b lt s))) =
     sql_update (\<lambda>r. ar_id r = i \<and> stoppable uid sid (ad_executions (cur s)) r) (stop_record reason lt) (ad_records (cur s))"
    "ad_executions (cur (fst (cancel_unexecuted i uid sid reason b lt s))) = ad_executions (cur s)"
    unfolding cancel_unexecuted_def p f by (auto simp: case_prod_beta)
  show "snd (cancel_unexecuted i uid sid reason b lt s) \<longleftrightarrow>
     (\<exists>r\<in>set (ad_records (cur s)). ar_id r = i \<and> stoppable uid sid (ad_executions (cur s)) r)"
    unfolding cancel_unexecuted_def p f using rowcount_pos_iff [of "\<lambda>r. ar_id r = i \<and> stoppable uid sid (ad_executions (cur s)) r" "ad_records (cur s)"]
    by (auto simp: case_prod_beta)
qed

lemma stop_record_fields [simp]:
  "ar_id (stop_record reason lt r) = ar_id r" "\<not> stoppable uid sid xs (stop_record reason lt r)"
  by (simp_all add: stop_record_def cancel_record_def stoppable_def)

lemma cancel_each_correct:
  assumes "distinct is" and "cancel_each uid sid reason lt is s = (s', ids)"
  shows "ad_records (cur s') = sql_update (\<lambda>r. ar_id r \<in> set is \<and> stoppable uid sid (ad_executions (cur s)) r) (stop_record reason lt) (ad_records (cur s)) \<and>
    ad_executions (cur s') = ad_executions (cur s) \<and>
    ids = filter (\<lambda>i. \<exists>r\<in>set (ad_records (cur s)). ar_id r = i \<and> stoppable uid sid (ad_executions (cur s)) r) is"
  using assms
proof (induction "is" arbitrary: s ids)
  case Nil
  then show ?case by (simp add: sql_update_def)
next
  case (Cons i "is")
  let ?s = "fst (cancel_unexecuted i uid sid reason False lt s)" and ?st = "stoppable uid sid (ad_executions (cur s))"
  note one = cancel_unexecuted_records [of i uid sid reason False lt s]
  obtain s'' rest where rest0: "cancel_each uid sid reason lt is ?s = (s'', rest)" by (meson surj_pair)
  then have rest: "cancel_each uid sid reason lt is ?s = (s', rest)"
    and ids: "ids = (if snd (cancel_unexecuted i uid sid reason False lt s) then i # rest else rest)"
    using Cons.prems(2) by (auto simp: case_prod_beta)
  have i: "i \<notin> set is" using Cons.prems(1) by simp
  have "distinct is" using Cons.prems(1) by simp
  note ih = Cons.IH [OF this rest]
  have still: "(\<exists>r\<in>set (ad_records (cur ?s)). ar_id r = j \<and> ?st r) = (\<exists>r\<in>set (ad_records (cur s)). ar_id r = j \<and> ?st r)"
    if "j \<noteq> i" for j using that by (auto simp: one set_sql_update)
  have "rest = filter (\<lambda>j. \<exists>r\<in>set (ad_records (cur ?s)). ar_id r = j \<and> ?st r) is"
    using ih [THEN conjunct2, THEN conjunct2] unfolding one(2) .
  also have "\<dots> = filter (\<lambda>j. \<exists>r\<in>set (ad_records (cur s)). ar_id r = j \<and> ?st r) is"
  proof (rule filter_cong [OF refl])
    fix j assume "j \<in> set is"
    with i have "j \<noteq> i" by blast
    then show "(\<exists>r\<in>set (ad_records (cur ?s)). ar_id r = j \<and> ?st r) = (\<exists>r\<in>set (ad_records (cur s)). ar_id r = j \<and> ?st r)"
      by (rule still)
  qed
  finally have "rest = filter (\<lambda>j. \<exists>r\<in>set (ad_records (cur s)). ar_id r = j \<and> ?st r) is" .
  moreover have "ad_records (cur s') = sql_update (\<lambda>r. ar_id r \<in> set (i # is) \<and> ?st r) (stop_record reason lt) (ad_records (cur s))"
    using ih unfolding one by (auto simp: sql_update_def)
  ultimately show ?case using ih ids one by simp
qed

text \<open>Stopping a session cancels exactly what has not begun. The records of the user's session that are
  being prepared, passed, pending, or claimed without any attempt become cancelled and lose their token;
  every other record, in particular one whose tools may already have run, stays as it is, and the
  operation returns the identifiers of the cancelled records in ascending order.\<close>

theorem cancel_unexecuted_by_session_correct:
  assumes "distinct (map ar_id (ad_records (cur s)))" and "cancel_unexecuted_by_session uid sid reason b lt s = (s', ids)"
  shows "ad_records (cur s') = map (\<lambda>r. if stoppable uid sid (ad_executions (cur s)) r
        then r\<lparr>ar_status := A_CANCELLED, ar_error_reason := Some reason, ar_completed_at := Some lt, ar_updated_at := lt,
               ar_execution_claim_token := None\<rparr> else r) (ad_records (cur s)) \<and>
    ad_executions (cur s') = ad_executions (cur s) \<and>
    set ids = ar_id ` {r \<in> set (ad_records (cur s)). stoppable uid sid (ad_executions (cur s)) r} \<and> sorted ids"
proof -
  let ?mine = "\<lambda>r. ar_uid r = uid \<and> ar_session_id r = sid \<and> ar_status r \<in> {A_PREPARING, A_PASSED, A_PENDING, A_EXECUTING}"
  let ?is = "map ar_id (sort_key ar_id (filter ?mine (ad_records (cur s))))"
  let ?st = "stoppable uid sid (ad_executions (cur s))"
  obtain s1 where each: "cancel_each uid sid reason lt ?is s = (s1, ids)" and s': "s' = commit_if b s1"
    using assms(2) by (auto simp: cancel_unexecuted_by_session_def Let_def case_prod_beta prod_eq_iff)
  have "distinct (map ar_id (filter ?mine (ad_records (cur s))))" using assms(1) by (rule distinct_map_filter)
  then have "distinct ?is" by (simp add: distinct_map)
  note ok = cancel_each_correct [OF this each]
  have mine: "?st r \<Longrightarrow> ?mine r" for r by (auto simp: stoppable_def)
  have "ad_records (cur s') = sql_update ?st (stop_record reason lt) (ad_records (cur s))"
    unfolding s' commit_if_fields ok [THEN conjunct1] by (rule sql_update_cong) (use mine in auto)
  moreover have "set ids = ar_id ` {r \<in> set (ad_records (cur s)). ?st r}"
  proof -
    have "set ids = {i \<in> ar_id ` {r \<in> set (ad_records (cur s)). ?mine r}. \<exists>r\<in>set (ad_records (cur s)). ar_id r = i \<and> ?st r}"
      unfolding ok [THEN conjunct2, THEN conjunct2] by (simp only: set_filter set_map set_sort)
    also have "\<dots> = {i. \<exists>r\<in>set (ad_records (cur s)). ar_id r = i \<and> ?st r}" (is "?A = ?B")
    proof
      show "?B \<subseteq> ?A"
      proof
        fix i assume "i \<in> ?B"
        then obtain r where "r \<in> set (ad_records (cur s))" "ar_id r = i" "?st r" by blast
        then show "i \<in> ?A" using mine [of r] by blast
      qed
    qed blast
    also have "\<dots> = ar_id ` {r \<in> set (ad_records (cur s)). ?st r}" by (simp only: image_def) blast
    finally show ?thesis .
  qed
  moreover have "sorted ids"
    unfolding ok [THEN conjunct2, THEN conjunct2] by (rule sorted_filter [where f = id, simplified]) simp
  ultimately show ?thesis
    using ok s' by (simp add: sql_update_def stop_record_def cancel_record_def)
qed

theorem cancel_unexecuted_by_session_correct_witness:
  "snd (cancel_unexecuted_by_session ''u'' ''s'' ''stop'' True 7 sample_round1) = [] \<and>
    ad_records (cur (fst (cancel_unexecuted_by_session ''u'' ''s'' ''stop'' True 7 sample_round1))) = ad_records (cur sample_round1)"
proof -
  have d: "distinct (map ar_id (ad_records (cur sample_round1)))" by code_simp
  have none: "filter (stoppable ''u'' ''s'' (ad_executions (cur sample_round1))) (ad_records (cur sample_round1)) = []" by code_simp
  then have none': "\<forall>r\<in>set (ad_records (cur sample_round1)). \<not> stoppable ''u'' ''s'' (ad_executions (cur sample_round1)) r"
    by (simp add: filter_empty_conv)
  have empty: "{r \<in> set (ad_records (cur sample_round1)). stoppable ''u'' ''s'' (ad_executions (cur sample_round1)) r} = {}"
    using none' by blast
  from cancel_unexecuted_by_session_correct [OF d prod.collapse [symmetric], of "''u''" "''s''" "''stop''" True 7] none'
  show ?thesis unfolding empty by (auto simp: map_idI)
qed

end
