(* ===== verification/Task_Tables.thy ===== *)
theory Task_Tables
  imports Audit_Tables
begin

text \<open>
  The background tasks (\<open>app/models/background_task.py\<close>): the row of a task with its two leases, the
  one of the execution (\<open>bt_locked_by\<close>, \<open>bt_lock_until\<close>) and the one of the reply to its result
  (\<open>bt_reply_locked_by\<close>, \<open>bt_reply_lock_until\<close>). A task may be bound to an audited execution attempt,
  so the task database extends the audit's. Of the terminals the statements only touch the key columns
  and the output offset. A JSON column that is \<open>NULL\<close> holds \<open>JNull\<close>.
\<close>

datatype task_status = B_PENDING | B_RUNNING | B_SUCCEEDED | B_FAILED | B_CANCELLED

datatype task_reply_status = R_NONE | R_PENDING | R_RUNNING | R_SUCCEEDED | R_FAILED

record background_task =
  bt_id :: int
  bt_uid :: string
  bt_session_id :: string
  bt_profile_id :: int
  bt_tool_call_id :: string
  bt_tool_name :: string
  bt_status :: task_status
  bt_arguments :: json
  bt_result :: json
  bt_error :: "string option"
  bt_auto_reply :: bool
  bt_reply_status :: task_reply_status
  bt_locked_by :: "string option"
  bt_lock_until :: "int option"
  bt_reply_locked_by :: "string option"
  bt_reply_lock_until :: "int option"
  bt_attempt_count :: int
  bt_extra :: json
  bt_audit_record_id :: "int option"
  bt_audit_execution_record_id :: "int option"
  bt_created_at :: int
  bt_started_at :: "int option"
  bt_finished_at :: "int option"

record terminal_row =
  tm_terminal_session_id :: string
  tm_uid :: string
  tm_session_id :: string
  tm_profile_id :: int
  tm_next_output_offset :: int

record task_db = audit_db +
  bt_tasks :: "background_task list"
  bt_terminals :: "terminal_row list"

definition update_tasks ::
  "(background_task \<Rightarrow> bool) \<Rightarrow> (background_task \<Rightarrow> background_task) \<Rightarrow> 'a task_db_scheme dbsession
    \<Rightarrow> 'a task_db_scheme dbsession \<times> nat" where
  "update_tasks p f s =
     (execute (\<lambda>d. d\<lparr>bt_tasks := sql_update p f (bt_tasks d)\<rparr>) s, rowcount p (bt_tasks (cur s)))"

lemma update_tasks_fields [simp, session_simps]:
  "bt_tasks (cur (fst (update_tasks p f s))) = sql_update p f (bt_tasks (cur s))"
  "ad_records (cur (fst (update_tasks p f s))) = ad_records (cur s)"
  "ad_executions (cur (fst (update_tasks p f s))) = ad_executions (cur s)"
  "ad_claims (cur (fst (update_tasks p f s))) = ad_claims (cur s)"
  "ad_details (cur (fst (update_tasks p f s))) = ad_details (cur s)"
  "rq_work (cur (fst (update_tasks p f s))) = rq_work (cur s)"
  "snd (update_tasks p f s) = rowcount p (bt_tasks (cur s))"
  "saved (fst (update_tasks p f s)) = saved s"
  "work_claim (fst (update_tasks p f s)) = work_claim s"
  by (simp_all add: update_tasks_def)

lemma task_rows_kept [simp, session_simps]:
  "bt_tasks (cur (fst (update_records pr fr s))) = bt_tasks (cur s)"
  "bt_tasks (cur (fst (update_executions px fx s))) = bt_tasks (cur s)"
  by (simp_all add: update_records_def update_executions_def)

section \<open>Values\<close>

text \<open>Python's \<open>str\<close> of an integer, and SQL's cast of one to a string.\<close>

fun str_nat :: "nat \<Rightarrow> string" where
  "str_nat n = (if n < 10 then [char_of (48 + n)] else str_nat (n div 10) @ [char_of (48 + n mod 10)])"

declare str_nat.simps [simp del]

definition str_int :: "int \<Rightarrow> string" where
  "str_int i = (if i < 0 then ''-'' @ str_nat (nat (- i)) else str_nat (nat i))"

text \<open>A JSON path reads as SQL \<open>NULL\<close>.\<close>

definition json_sql_null :: "json option \<Rightarrow> bool" where
  "json_sql_null j \<longleftrightarrow> j = None \<or> j = Some JNull"

definition json_path :: "json \<Rightarrow> string list \<Rightarrow> json option" where
  "json_path j ks = fold (\<lambda>k r. Option.bind r (\<lambda>x. json_get x k)) ks (Some j)"

definition build_background_task_success_result :: "string \<Rightarrow> json \<Rightarrow> json" where
  "build_background_task_success_result tool_name content =
     JObj [(''status'', JStr ''succeeded''), (''tool_name'', JStr tool_name),
           (''summary'', JStr ''MSG_BACKGROUND_TASK_EXECUTION_SUCCEEDED''), (''content'', content),
           (''artifacts'', JList []), (''extra'', JObj []), (''error'', JNull)]"

definition build_background_task_failure_result :: "string \<Rightarrow> string \<Rightarrow> json" where
  "build_background_task_failure_result tool_name error =
     JObj [(''status'', JStr ''failed''), (''tool_name'', JStr tool_name),
           (''summary'', JStr ''ERR_BACKGROUND_TASK_EXECUTION_FAILED''), (''content'', JNull),
           (''artifacts'', JList []), (''extra'', JObj []), (''error'', JStr error)]"

end
