(* ===== verification/Task_Store.thy ===== *)
theory Task_Store
  imports Task_Tables Audit_Store
begin

text \<open>
  The operations of \<open>CRUDBackgroundTask\<close> (\<open>app/core/crud/task/background.py\<close>), in the order of the
  file. Clock readings are arguments: \<open>now\<close> is the database's time stamp in seconds, \<open>dt\<close> its
  date-time, \<open>lt\<close> the local time. A statement that compares a nullable column with a nullable value is
  translated by SQLAlchemy to \<open>IS NULL\<close> when the value is \<open>None\<close>, so it is equality of options here.
  Reading an attribute of a row after the session was rolled back raises \<open>MissingGreenlet\<close>: the
  session then has expired the row and cannot reload it implicitly.
\<close>

section \<open>Conditions\<close>

definition TERMINAL_WATCH_TOOL_NAME :: string where
  "TERMINAL_WATCH_TOOL_NAME = ''terminal_watch''"

definition has_origin_work :: "background_task \<Rightarrow> bool" where
  "has_origin_work t =
     (case json_get (bt_extra t) ''origin_work_id'' of Some (JInt i) \<Rightarrow> 0 < i | _ \<Rightarrow> False)"

definition not_unknown_audit_condition :: "'a task_db_scheme \<Rightarrow> background_task \<Rightarrow> bool" where
  "not_unknown_audit_condition d t \<longleftrightarrow>
     \<not> (\<exists>r\<in>set (ad_records d). Some (ar_id r) = bt_audit_record_id t \<and> ar_status r = A_EXECUTION_UNKNOWN)"

definition task_active :: "background_task \<Rightarrow> bool" where
  "task_active t \<longleftrightarrow> bt_status t \<in> {B_PENDING, B_RUNNING}"

text \<open>The result is in and its reply is still due.\<close>

definition reply_open :: "background_task \<Rightarrow> bool" where
  "reply_open t \<longleftrightarrow> bt_status t \<in> {B_SUCCEEDED, B_FAILED} \<and> bt_auto_reply t \<and>
     bt_reply_status t \<in> {R_PENDING, R_RUNNING}"

definition reply_after :: "bool \<Rightarrow> task_reply_status" where
  "reply_after auto_reply = (if auto_reply then R_PENDING else R_NONE)"

definition extra_flag :: "string \<Rightarrow> background_task \<Rightarrow> bool" where
  "extra_flag k t \<longleftrightarrow> json_as_bool (json_get (bt_extra t) k) = Some True"

definition watches_terminal :: "string \<Rightarrow> background_task \<Rightarrow> bool" where
  "watches_terminal terminal t \<longleftrightarrow> json_as_string (json_get (bt_arguments t) ''terminal_session_id'') = Some terminal"

definition task_get :: "int \<Rightarrow> 'a task_db_scheme \<Rightarrow> background_task option" where
  "task_get task_id d = find (\<lambda>t. bt_id t = task_id) (bt_tasks d)"

definition get_by_audit_execution_record_id :: "int \<Rightarrow> 'a task_db_scheme \<Rightarrow> background_task option" where
  "get_by_audit_execution_record_id x d = find (\<lambda>t. bt_audit_execution_record_id t = Some x) (bt_tasks d)"

section \<open>Creation\<close>

record create_task_args =
  ct_uid :: string
  ct_session_id :: string
  ct_profile_id :: int
  ct_tool_call_id :: string
  ct_tool_name :: string
  ct_arguments :: json
  ct_auto_reply :: bool
  ct_extra :: "json option"
  ct_audit_record_id :: "int option"
  ct_audit_execution_record_id :: "int option"

definition new_task :: "create_task_args \<Rightarrow> int \<Rightarrow> int \<Rightarrow> background_task" where
  "new_task a i lt =
     \<lparr>bt_id = i, bt_uid = ct_uid a, bt_session_id = ct_session_id a, bt_profile_id = ct_profile_id a,
      bt_tool_call_id = ct_tool_call_id a, bt_tool_name = ct_tool_name a, bt_status = B_PENDING,
      bt_arguments = ct_arguments a, bt_result = JNull, bt_error = None, bt_auto_reply = ct_auto_reply a,
      bt_reply_status = reply_after (ct_auto_reply a), bt_locked_by = None, bt_lock_until = None,
      bt_reply_locked_by = None, bt_reply_lock_until = None, bt_attempt_count = 0,
      bt_extra = (case ct_extra a of None \<Rightarrow> JObj [] | Some j \<Rightarrow> if json_truthy j then j else JObj []),
      bt_audit_record_id = ct_audit_record_id a, bt_audit_execution_record_id = ct_audit_execution_record_id a,
      bt_created_at = lt, bt_started_at = None, bt_finished_at = None\<rparr>"

definition create_task ::
  "create_task_args \<Rightarrow> bool \<Rightarrow> int \<Rightarrow> 'a task_db_scheme dbsession
    \<Rightarrow> 'a task_db_scheme dbsession \<times> (py_error + background_task)" where
  "create_task a do_commit lt s =
     (case ct_audit_execution_record_id a of
        Some x \<Rightarrow>
          if get_by_audit_execution_record_id x (cur s) \<noteq> None
          then (case get_by_audit_execution_record_id x (cur (rollback s)) of
                  None \<Rightarrow> (rollback s, Inl IntegrityError)
                | Some t \<Rightarrow> (rollback s, Inr t))
          else (let t = new_task a (fresh_id bt_id (bt_tasks (cur s))) lt
                in (commit_if do_commit (execute (\<lambda>d. d\<lparr>bt_tasks := bt_tasks d @ [t]\<rparr>) s), Inr t))
      | None \<Rightarrow> (let t = new_task a (fresh_id bt_id (bt_tasks (cur s))) lt
                 in (commit_if do_commit (execute (\<lambda>d. d\<lparr>bt_tasks := bt_tasks d @ [t]\<rparr>) s), Inr t)))"

section \<open>Terminal watches\<close>

text \<open>A watch of the session, newest first; an automatic one names its terminal in \<open>extra\<close>.\<close>

definition auto_watch_of :: "string \<Rightarrow> background_task \<Rightarrow> bool" where
  "auto_watch_of terminal t \<longleftrightarrow> json_get (bt_extra t) ''auto_terminal_watch'' = Some (JBool True) \<and>
     json_get (bt_extra t) ''terminal_session_id'' = Some (JStr terminal)"

definition get_active_terminal_watch ::
  "string \<Rightarrow> string \<Rightarrow> string \<Rightarrow> bool \<Rightarrow> bool \<Rightarrow> 'a task_db_scheme \<Rightarrow> background_task option" where
  "get_active_terminal_watch uid sid terminal automatic_only manual_only d =
     (if automatic_only \<and> manual_only then None
      else find (\<lambda>t.
             if automatic_only then auto_watch_of terminal t
             else if manual_only
             then json_get (bt_extra t) ''auto_terminal_watch'' \<noteq> Some (JBool True) \<and>
                  json_get (bt_arguments t) ''terminal_session_id'' = Some (JStr terminal)
             else auto_watch_of terminal t \<or> json_get (bt_arguments t) ''terminal_session_id'' = Some (JStr terminal))
        (sort_key (\<lambda>t. (- bt_created_at t, - bt_id t))
           (filter (\<lambda>t. bt_tool_name t = TERMINAL_WATCH_TOOL_NAME \<and> task_active t \<and> bt_uid t = uid \<and>
              bt_session_id t = sid) (bt_tasks d))))"

definition list_terminal_watches :: "string \<Rightarrow> string \<Rightarrow> string \<Rightarrow> 'a task_db_scheme \<Rightarrow> background_task list" where
  "list_terminal_watches uid sid terminal d =
     sort_key bt_id (filter (\<lambda>t. bt_uid t = uid \<and> bt_session_id t = sid \<and>
       bt_tool_name t = TERMINAL_WATCH_TOOL_NAME \<and> watches_terminal terminal t) (bt_tasks d))"

text \<open>The first stored, non-empty result of the command, newest watch first.\<close>

definition command_result :: "int \<Rightarrow> background_task \<Rightarrow> json option" where
  "command_result command_id t =
     (case json_get (bt_extra t) ''terminal_command_results'' of
        Some (JObj kvs) \<Rightarrow>
          (case map_of kvs (str_int command_id) of
             Some (JObj (kv # r)) \<Rightarrow> Some (JObj (kv # r)) | _ \<Rightarrow> None)
      | _ \<Rightarrow> None)"

definition get_terminal_command_result :: "string \<Rightarrow> int \<Rightarrow> 'a task_db_scheme \<Rightarrow> json option" where
  "get_terminal_command_result terminal command_id d =
     (case find (\<lambda>t. command_result command_id t \<noteq> None)
             (sort_key (\<lambda>t. - bt_id t) (filter (\<lambda>t. bt_tool_name t = TERMINAL_WATCH_TOOL_NAME \<and>
                bt_status t = B_SUCCEEDED \<and> extra_flag ''auto_terminal_watch'' t \<and> watches_terminal terminal t)
                (bt_tasks d))) of
        None \<Rightarrow> None | Some t \<Rightarrow> command_result command_id t)"

definition close_reply :: "background_task \<Rightarrow> background_task" where
  "close_reply t = t\<lparr>bt_auto_reply := False, bt_reply_status := R_NONE, bt_reply_locked_by := None,
     bt_reply_lock_until := None\<rparr>"

definition cancelled :: "int \<Rightarrow> background_task \<Rightarrow> background_task" where
  "cancelled lt t = (close_reply t)\<lparr>bt_status := B_CANCELLED, bt_finished_at := Some lt, bt_locked_by := None,
     bt_lock_until := None\<rparr>"

definition cancel_terminal_watches ::
  "string \<Rightarrow> string \<Rightarrow> string \<Rightarrow> int \<Rightarrow> 'a task_db_scheme dbsession \<Rightarrow> 'a task_db_scheme dbsession" where
  "cancel_terminal_watches uid sid terminal lt s =
     (let p = (\<lambda>t. bt_uid t = uid \<and> bt_session_id t = sid \<and> bt_tool_name t = TERMINAL_WATCH_TOOL_NAME \<and>
              watches_terminal terminal t);
          s1 = fst (update_tasks (\<lambda>t. p t \<and> task_active t) (cancelled lt) s)
      in fst (update_tasks (\<lambda>t. p t \<and> reply_open t) close_reply s1))"

definition terminal_of :: "string \<Rightarrow> string \<Rightarrow> int \<Rightarrow> string \<Rightarrow> terminal_row \<Rightarrow> bool" where
  "terminal_of uid sid profile_id terminal r \<longleftrightarrow> tm_terminal_session_id r = terminal \<and> tm_uid r = uid \<and>
     tm_session_id r = sid \<and> tm_profile_id r = profile_id"

text \<open>Writing the offset back takes the row lock.\<close>

definition lock_terminal_watch ::
  "string \<Rightarrow> string \<Rightarrow> int \<Rightarrow> string \<Rightarrow> 'a task_db_scheme dbsession \<Rightarrow> 'a task_db_scheme dbsession \<times> bool" where
  "lock_terminal_watch uid sid profile_id terminal s =
     (let p = terminal_of uid sid profile_id terminal
      in (execute (\<lambda>d. d\<lparr>bt_terminals := sql_update p (\<lambda>r. r\<lparr>tm_next_output_offset := tm_next_output_offset r\<rparr>)
            (bt_terminals d)\<rparr>) s, rowcount p (bt_terminals (cur s)) = 1))"

definition get_terminal_watch_session ::
  "string \<Rightarrow> string \<Rightarrow> int \<Rightarrow> string \<Rightarrow> 'a task_db_scheme \<Rightarrow> terminal_row option" where
  "get_terminal_watch_session uid sid profile_id terminal d =
     find (terminal_of uid sid profile_id terminal) (bt_terminals d)"

definition watch_of_profile :: "string \<Rightarrow> string \<Rightarrow> int \<Rightarrow> background_task \<Rightarrow> bool" where
  "watch_of_profile uid sid profile_id t \<longleftrightarrow> bt_uid t = uid \<and> bt_session_id t = sid \<and>
     bt_profile_id t = profile_id \<and> bt_tool_name t = TERMINAL_WATCH_TOOL_NAME"

definition first_of :: "'r list \<Rightarrow> 'r option" where
  "first_of rs = (case rs of [] \<Rightarrow> None | r # _ \<Rightarrow> Some r)"

definition get_terminal_watch_by_call_id ::
  "string \<Rightarrow> string \<Rightarrow> int \<Rightarrow> string \<Rightarrow> 'a task_db_scheme \<Rightarrow> background_task option" where
  "get_terminal_watch_by_call_id uid sid profile_id call_id d =
     first_of (sort_key bt_id (filter (\<lambda>t. watch_of_profile uid sid profile_id t \<and> bt_tool_call_id t = call_id)
       (bt_tasks d)))"

definition get_latest_terminal_watch_final_result ::
  "string \<Rightarrow> string \<Rightarrow> int \<Rightarrow> string \<Rightarrow> 'a task_db_scheme \<Rightarrow> background_task option" where
  "get_latest_terminal_watch_final_result uid sid profile_id terminal d =
     first_of (sort_key (\<lambda>t. - bt_id t) (filter (\<lambda>t. watch_of_profile uid sid profile_id t \<and>
       extra_flag ''auto_terminal_watch'' t \<and> watches_terminal terminal t \<and> bt_status t = B_SUCCEEDED \<and>
       (case json_as_string (json_path (bt_result t) [''content'', ''event'']) of None \<Rightarrow> False
        | Some e \<Rightarrow> e \<in> {''process_exit'', ''terminal_error''}) \<and>
       json_as_bool (json_path (bt_result t) [''content'', ''eof'']) = Some True) (bt_tasks d)))"

text \<open>\<open>terminal_watch_pending_delivery_condition\<close> of \<open>crud/session/terminal_watch.py\<close>.\<close>

definition terminal_watch_pending_delivery_condition :: "int \<Rightarrow> string \<Rightarrow> background_task \<Rightarrow> bool" where
  "terminal_watch_pending_delivery_condition work_id identity t \<longleftrightarrow>
     (let delivery = (\<lambda>k. json_path (bt_extra t) [''terminal_watch_deliveries'', str_int work_id, k])
      in json_as_string (delivery ''identity'') = Some identity \<and> json_as_bool (delivery ''consumed'') = Some False) \<or>
     json_sql_null (json_get (bt_extra t) ''terminal_watch_deliveries'') \<and>
     json_as_int (json_get (bt_extra t) ''origin_work_id'') = Some work_id \<and>
     json_as_string (json_get (bt_extra t) ''origin_work_identity'') = Some identity"

definition list_pending_terminal_watch_results ::
  "string \<Rightarrow> string \<Rightarrow> int \<Rightarrow> int \<Rightarrow> string \<Rightarrow> 'a task_db_scheme \<Rightarrow> background_task list" where
  "list_pending_terminal_watch_results uid sid profile_id work_id identity d =
     sort_key bt_id (filter (\<lambda>t. watch_of_profile uid sid profile_id t \<and> extra_flag ''auto_terminal_watch'' t \<and>
       reply_open t \<and> terminal_watch_pending_delivery_condition work_id identity t) (bt_tasks d))"

definition list_terminal_watch_subscriptions ::
  "string \<Rightarrow> string \<Rightarrow> int \<Rightarrow> string \<Rightarrow> 'a task_db_scheme \<Rightarrow> background_task list" where
  "list_terminal_watch_subscriptions uid sid profile_id terminal d =
     sort_key bt_id (filter (\<lambda>t. watch_of_profile uid sid profile_id t \<and> task_active t \<and>
       extra_flag ''terminal_watch_subscription'' t \<and> watches_terminal terminal t) (bt_tasks d))"

definition finish_terminal_watch_subscription ::
  "int \<Rightarrow> json \<Rightarrow> int \<Rightarrow> 'a task_db_scheme dbsession \<Rightarrow> 'a task_db_scheme dbsession \<times> background_task option" where
  "finish_terminal_watch_subscription task_id res dt s =
     (let (s1, n) = update_tasks
            (\<lambda>t. bt_id t = task_id \<and> task_active t \<and> extra_flag ''terminal_watch_subscription'' t)
            (\<lambda>t. (close_reply t)\<lparr>bt_status := B_SUCCEEDED, bt_result := res, bt_error := None,
                   bt_finished_at := Some dt, bt_locked_by := None, bt_lock_until := None\<rparr>) s
      in (s1, if n \<noteq> 1 then None else task_get task_id (cur s1)))"

section \<open>Queries\<close>

definition list_by_audit_record :: "int \<Rightarrow> 'a task_db_scheme \<Rightarrow> background_task list" where
  "list_by_audit_record i d = sort_key bt_id (filter (\<lambda>t. bt_audit_record_id t = Some i) (bt_tasks d))"

definition list_pending :: "int option \<Rightarrow> int \<Rightarrow> bool option \<Rightarrow> 'a task_db_scheme \<Rightarrow> background_task list" where
  "list_pending profile_id limit observer d =
     sql_limit limit (sort_key bt_created_at (filter (\<lambda>t. bt_status t = B_PENDING \<and>
       not_unknown_audit_condition d t \<and>
       (case profile_id of None \<Rightarrow> True | Some i \<Rightarrow> bt_profile_id t = i) \<and>
       (case observer of None \<Rightarrow> True
        | Some True \<Rightarrow> bt_tool_name t = TERMINAL_WATCH_TOOL_NAME \<and>
            (bt_extra t = JNull \<or> \<not> extra_flag ''terminal_watch_subscription'' t)
        | Some False \<Rightarrow> bt_tool_name t \<noteq> TERMINAL_WATCH_TOOL_NAME)) (bt_tasks d)))"

definition page :: "int \<Rightarrow> int \<Rightarrow> 'r list \<Rightarrow> 'r list" where
  "page skip limit rs = sql_limit limit (drop (nat skip) rs)"

definition in_session :: "string option \<Rightarrow> background_task \<Rightarrow> bool" where
  "in_session sid t \<longleftrightarrow> (case sid of None \<Rightarrow> True | Some x \<Rightarrow> x = [] \<or> bt_session_id t = x)"

definition list_user_tasks ::
  "string \<Rightarrow> bool \<Rightarrow> string option \<Rightarrow> int \<Rightarrow> int \<Rightarrow> 'a task_db_scheme \<Rightarrow> background_task list" where
  "list_user_tasks uid is_admin sid skip limit d =
     page skip limit (sort_key (\<lambda>t. - bt_created_at t)
       (filter (\<lambda>t. (is_admin \<or> bt_uid t = uid) \<and> in_session sid t) (bt_tasks d)))"

definition has_pending_user_activity :: "string \<Rightarrow> string \<Rightarrow> 'a task_db_scheme \<Rightarrow> bool" where
  "has_pending_user_activity uid sid d \<longleftrightarrow> (\<exists>t\<in>set (bt_tasks d). bt_uid t = uid \<and> bt_session_id t = sid \<and>
     (task_active t \<or> bt_auto_reply t \<and> bt_reply_status t \<in> {R_PENDING, R_RUNNING}))"

text \<open>An unfinished row sorts first, as \<open>NULL\<close> does in SQLite.\<close>

definition list_pending_replies :: "int \<Rightarrow> 'a task_db_scheme \<Rightarrow> background_task list" where
  "list_pending_replies limit d =
     sql_limit limit (sort_key (\<lambda>t. (case bt_finished_at t of None \<Rightarrow> (0::int, 0) | Some x \<Rightarrow> (1, x), bt_id t))
       (filter (\<lambda>t. bt_status t \<in> {B_SUCCEEDED, B_FAILED} \<and> bt_auto_reply t \<and> bt_reply_status t = R_PENDING \<and>
          \<not> (extra_flag ''auto_terminal_watch'' t \<and> extra_flag ''terminal_auto_watch_routed'' t)) (bt_tasks d)))"

definition list_startup_audit_record_ids :: "int option \<Rightarrow> 'a task_db_scheme \<Rightarrow> int set" where
  "list_startup_audit_record_ids before d =
     set (List.map_filter bt_audit_record_id (filter (\<lambda>t. (task_active t \<or> reply_open t) \<and>
        (case before of None \<Rightarrow> True | Some b \<Rightarrow> bt_created_at t \<le> b)) (bt_tasks d)))"

definition list_active_user_tasks ::
  "string \<Rightarrow> string option \<Rightarrow> int \<Rightarrow> int \<Rightarrow> 'a task_db_scheme \<Rightarrow> background_task list" where
  "list_active_user_tasks uid sid skip limit d =
     page skip limit (sort_key (\<lambda>t. - bt_created_at t)
       (filter (\<lambda>t. bt_uid t = uid \<and> task_active t \<and> in_session sid t) (bt_tasks d)))"

definition list_running_by_session :: "string \<Rightarrow> 'a task_db_scheme \<Rightarrow> background_task list" where
  "list_running_by_session sid d =
     sort_key bt_created_at (filter (\<lambda>t. bt_session_id t = sid \<and> bt_status t = B_RUNNING) (bt_tasks d))"

definition get_user_task :: "int \<Rightarrow> string \<Rightarrow> 'a task_db_scheme \<Rightarrow> background_task option" where
  "get_user_task task_id uid d = find (\<lambda>t. bt_id t = task_id \<and> bt_uid t = uid) (bt_tasks d)"

section \<open>The reply to a result\<close>

definition try_claim_reply ::
  "int \<Rightarrow> string \<Rightarrow> int \<Rightarrow> int \<Rightarrow> 'a task_db_scheme dbsession \<Rightarrow> 'a task_db_scheme dbsession \<times> background_task option" where
  "try_claim_reply task_id worker_id lease_seconds now s =
     (let (s1, n) = update_tasks
            (\<lambda>t. bt_id t = task_id \<and> bt_status t \<in> {B_SUCCEEDED, B_FAILED} \<and> bt_auto_reply t \<and>
                 bt_reply_status t = R_PENDING)
            (\<lambda>t. t\<lparr>bt_reply_status := R_RUNNING, bt_reply_locked_by := Some worker_id,
                   bt_reply_lock_until := Some (now + lease_seconds)\<rparr>) s
      in (commit s1, if n \<noteq> 1 then None else task_get task_id (cur s1)))"

definition reply_held :: "int \<Rightarrow> string \<Rightarrow> background_task \<Rightarrow> bool" where
  "reply_held task_id worker_id t \<longleftrightarrow> bt_id t = task_id \<and> bt_reply_status t = R_RUNNING \<and>
     bt_reply_locked_by t = Some worker_id"

definition renew_reply_lease ::
  "int \<Rightarrow> int \<Rightarrow> int \<Rightarrow> string \<Rightarrow> 'a task_db_scheme dbsession \<Rightarrow> 'a task_db_scheme dbsession \<times> bool" where
  "renew_reply_lease now lease_seconds task_id worker_id s =
     (let (s1, n) = update_tasks (\<lambda>t. reply_held task_id worker_id t \<and> null_ge (bt_reply_lock_until t) now)
            (\<lambda>t. t\<lparr>bt_reply_lock_until := Some (now + lease_seconds)\<rparr>) s
      in (commit s1, n = 1))"

definition reopen_reply :: "background_task \<Rightarrow> background_task" where
  "reopen_reply t = t\<lparr>bt_reply_status := R_PENDING, bt_reply_locked_by := None, bt_reply_lock_until := None\<rparr>"

definition release_reply_claim ::
  "int \<Rightarrow> string \<Rightarrow> 'a task_db_scheme dbsession \<Rightarrow> 'a task_db_scheme dbsession \<times> bool" where
  "release_reply_claim task_id worker_id s =
     (let (s1, n) = update_tasks (reply_held task_id worker_id) reopen_reply s in (commit s1, n = 1))"

definition complete_reply_claim ::
  "task_reply_status \<Rightarrow> string option \<Rightarrow> int \<Rightarrow> int \<Rightarrow> string \<Rightarrow> 'a task_db_scheme dbsession
    \<Rightarrow> 'a task_db_scheme dbsession \<times> bool" where
  "complete_reply_claim status error now task_id worker_id s =
     (let (s1, n) = update_tasks (\<lambda>t. reply_held task_id worker_id t \<and> null_ge (bt_reply_lock_until t) now)
            (\<lambda>t. t\<lparr>bt_reply_status := status, bt_reply_locked_by := None, bt_reply_lock_until := None,
                   bt_error := (if error \<noteq> None then error else bt_error t)\<rparr>) s
      in (commit s1, n = 1))"

definition recover_expired_replies :: "int \<Rightarrow> 'a task_db_scheme dbsession \<Rightarrow> 'a task_db_scheme dbsession \<times> nat" where
  "recover_expired_replies now s =
     (let (s1, n) = update_tasks
            (\<lambda>t. bt_status t \<in> {B_SUCCEEDED, B_FAILED} \<and> bt_auto_reply t \<and> bt_reply_status t = R_RUNNING \<and>
                 null_lt (bt_reply_lock_until t) now) reopen_reply s
      in (commit s1, n))"

section \<open>The lease of an execution\<close>

definition grant_task :: "string \<Rightarrow> int \<Rightarrow> int \<Rightarrow> int \<Rightarrow> background_task \<Rightarrow> background_task" where
  "grant_task worker_id lease_seconds now dt t =
     t\<lparr>bt_status := B_RUNNING, bt_locked_by := Some worker_id, bt_lock_until := Some (now + lease_seconds),
       bt_attempt_count := bt_attempt_count t + 1, bt_started_at := Some dt\<rparr>"

definition try_claim ::
  "int \<Rightarrow> string \<Rightarrow> int \<Rightarrow> int \<Rightarrow> int \<Rightarrow> 'a task_db_scheme dbsession
    \<Rightarrow> 'a task_db_scheme dbsession \<times> background_task option" where
  "try_claim task_id worker_id lease_seconds now dt s =
     (let (s1, n) = update_tasks
            (\<lambda>t. bt_id t = task_id \<and> bt_status t = B_PENDING \<and> not_unknown_audit_condition (cur s) t)
            (grant_task worker_id lease_seconds now dt) s
      in (commit s1, if n \<noteq> 1 then None else task_get task_id (cur s1)))"

definition task_held :: "int \<Rightarrow> string option \<Rightarrow> background_task \<Rightarrow> bool" where
  "task_held task_id worker_id t \<longleftrightarrow> bt_id t = task_id \<and> bt_status t = B_RUNNING \<and> bt_locked_by t = worker_id"

definition task_renew_lease ::
  "int \<Rightarrow> int \<Rightarrow> int \<Rightarrow> string \<Rightarrow> 'a task_db_scheme dbsession \<Rightarrow> 'a task_db_scheme dbsession \<times> bool" where
  "task_renew_lease now lease_seconds task_id worker_id s =
     (let (s1, n) = update_tasks (\<lambda>t. task_held task_id (Some worker_id) t \<and> null_ge (bt_lock_until t) now)
            (\<lambda>t. t\<lparr>bt_lock_until := Some (now + lease_seconds)\<rparr>) s
      in (commit s1, n = 1))"

definition task_mark_execution_started ::
  "int \<Rightarrow> string \<Rightarrow> json \<Rightarrow> int \<Rightarrow> 'a task_db_scheme dbsession \<Rightarrow> 'a task_db_scheme dbsession \<times> bool" where
  "task_mark_execution_started task_id worker_id extra now s =
     (let (s1, n) = update_tasks (\<lambda>t. task_held task_id (Some worker_id) t \<and> null_ge (bt_lock_until t) now)
            (\<lambda>t. t\<lparr>bt_extra := extra\<rparr>) s
      in (commit s1, n = 1))"

text \<open>The execution is over: the result is stored, both leases are given up, the reply is due.\<close>

definition finish_task ::
  "task_status \<Rightarrow> json \<Rightarrow> string option \<Rightarrow> bool \<Rightarrow> int \<Rightarrow> background_task \<Rightarrow> background_task" where
  "finish_task status res error auto_reply dt t =
     t\<lparr>bt_status := status, bt_result := res, bt_error := error, bt_finished_at := Some dt, bt_lock_until := None,
       bt_locked_by := None, bt_reply_status := reply_after auto_reply, bt_reply_locked_by := None,
       bt_reply_lock_until := None\<rparr>"

definition mark_succeeded ::
  "json \<Rightarrow> bool \<Rightarrow> bool \<Rightarrow> int \<Rightarrow> int \<Rightarrow> int \<Rightarrow> string \<Rightarrow> 'a task_db_scheme dbsession
    \<Rightarrow> 'a task_db_scheme dbsession \<times> bool" where
  "mark_succeeded res auto_reply do_commit dt now task_id worker_id s =
     (let (s1, n) = update_tasks (\<lambda>t. task_held task_id (Some worker_id) t \<and> null_ge (bt_lock_until t) now)
            (finish_task B_SUCCEEDED res None auto_reply dt) s
      in (commit_if do_commit s1, n = 1))"

record failure_args =
  mf_error :: string
  mf_result :: json
  mf_auto_reply :: bool
  mf_extra :: "json option"
  mf_commit :: bool
  mf_require_unexpired_lease :: bool
  mf_expected_lock_until :: "int option"

definition mark_failed ::
  "failure_args \<Rightarrow> int \<Rightarrow> int \<Rightarrow> int \<Rightarrow> string option \<Rightarrow> 'a task_db_scheme dbsession
    \<Rightarrow> 'a task_db_scheme dbsession \<times> bool" where
  "mark_failed a dt now task_id worker_id s =
     (let (s1, n) = update_tasks
            (\<lambda>t. task_held task_id worker_id t \<and>
                 (mf_expected_lock_until a \<noteq> None \<longrightarrow> bt_lock_until t = mf_expected_lock_until a) \<and>
                 (mf_require_unexpired_lease a \<longrightarrow> null_ge (bt_lock_until t) now))
            (\<lambda>t. (finish_task B_FAILED (mf_result a) (Some (mf_error a)) (mf_auto_reply a) dt t)
                   \<lparr>bt_extra := (case mf_extra a of None \<Rightarrow> bt_extra t | Some x \<Rightarrow> x)\<rparr>) s
      in (commit_if (mf_commit a) s1, n = 1))"

section \<open>Tasks bound to an audited execution\<close>

definition mark_audit_unknown ::
  "background_task \<Rightarrow> string \<Rightarrow> int \<Rightarrow> 'a task_db_scheme dbsession \<Rightarrow> 'a task_db_scheme dbsession \<times> bool" where
  "mark_audit_unknown t reason lt s =
     (case (bt_audit_record_id t, bt_audit_execution_record_id t) of
        (Some i, Some k) \<Rightarrow>
          (case get_execution_record k (cur s) of
             None \<Rightarrow> (s, False)
           | Some x \<Rightarrow> mark_execution_unknown i (ae_claim_token x) reason (Some k) False lt s)
      | _ \<Rightarrow> (s, False))"

definition mark_audit_cancelled ::
  "background_task \<Rightarrow> string \<Rightarrow> int \<Rightarrow> 'a task_db_scheme dbsession \<Rightarrow> 'a task_db_scheme dbsession \<times> bool" where
  "mark_audit_cancelled t reason lt s =
     (case (bt_audit_record_id t, bt_audit_execution_record_id t) of
        (Some i, Some k) \<Rightarrow>
          (case get_execution_record k (cur s) of
             None \<Rightarrow> (s, False)
           | Some x \<Rightarrow>
               (case cancel_execution_attempt i k (ae_claim_token x) reason False lt s of
                  (s1, False) \<Rightarrow> (s1, False)
                | (s1, True) \<Rightarrow> (fst (finish_execution_round_if_complete i (ae_claim_token x) False lt s1), True)))
      | _ \<Rightarrow> (s, False))"

definition unknown_extra :: "background_task \<Rightarrow> json" where
  "unknown_extra t =
     (let e0 = JObj (json_items (bt_extra t));
          e1 = (if bt_audit_execution_record_id t = None \<or> has_origin_work t
                then json_put ''execution_unknown'' (JBool True) e0 else e0)
      in if bt_audit_execution_record_id t \<noteq> None then json_put ''audit_execution_unknown'' (JBool True) e1 else e1)"

text \<open>The audit already knows that the outcome is unknown.\<close>

definition audit_is_unknown :: "background_task \<Rightarrow> 'a task_db_scheme \<Rightarrow> bool" where
  "audit_is_unknown t d \<longleftrightarrow>
     (case (bt_audit_execution_record_id t, bt_audit_record_id t) of
        (Some k, Some i) \<Rightarrow>
          (case (get_execution_record k d, get_record i d) of
             (Some x, Some r) \<Rightarrow> ae_status x = X_EXECUTION_UNKNOWN \<and> ar_status r = A_EXECUTION_UNKNOWN
           | _ \<Rightarrow> False)
      | _ \<Rightarrow> False)"

definition task_mark_execution_unknown ::
  "string \<Rightarrow> json \<Rightarrow> bool \<Rightarrow> bool \<Rightarrow> int option \<Rightarrow> int \<Rightarrow> int \<Rightarrow> int \<Rightarrow> int \<Rightarrow> string option \<Rightarrow> 'a task_db_scheme dbsession
    \<Rightarrow> 'a task_db_scheme dbsession \<times> bool" where
  "task_mark_execution_unknown error res auto_reply require_unexpired expected lt dt now task_id worker_id s =
     (case task_get task_id (cur s) of
        None \<Rightarrow> (s, False)
      | Some t \<Rightarrow>
          (case mark_failed \<lparr>mf_error = error, mf_result = res, mf_auto_reply = auto_reply,
                    mf_extra = Some (unknown_extra t), mf_commit = False,
                    mf_require_unexpired_lease = require_unexpired, mf_expected_lock_until = expected\<rparr>
                  dt now task_id worker_id s of
             (s1, False) \<Rightarrow> (rollback s1, False)
           | (s1, True) \<Rightarrow>
               if bt_audit_execution_record_id t = None then (commit s1, True)
               else (case mark_audit_unknown t error lt s1 of
                       (s2, marked) \<Rightarrow>
                         if marked \<or> audit_is_unknown t (cur s2) then (commit s2, True)
                         else (rollback s2, False))))"

definition unknown_result :: "background_task \<Rightarrow> json" where
  "unknown_result t =
     (if has_origin_work t
      then JObj [(''status'', JStr ''execution_unknown''), (''tool_name'', JStr (bt_tool_name t)),
                 (''error'', JStr ''ERR_BACKGROUND_TASK_EXECUTION_UNKNOWN'')]
      else build_background_task_failure_result (bt_tool_name t) ''ERR_BACKGROUND_TASK_EXECUTION_UNKNOWN'')"

definition release_claim ::
  "int \<Rightarrow> string \<Rightarrow> int option \<Rightarrow> int \<Rightarrow> int \<Rightarrow> int \<Rightarrow> 'a task_db_scheme dbsession
    \<Rightarrow> 'a task_db_scheme dbsession \<times> bool" where
  "release_claim task_id worker_id expected lt dt now s =
     (case task_get task_id (cur s) of
        None \<Rightarrow> (s, False)
      | Some t \<Rightarrow>
          if bt_audit_execution_record_id t \<noteq> None \<or> has_origin_work t
          then if bt_status t \<noteq> B_RUNNING \<or> bt_locked_by t \<noteq> Some worker_id \<or> bt_lock_until t = None \<or>
                  expected \<noteq> None \<and> bt_lock_until t \<noteq> expected
               then (s, False)
               else task_mark_execution_unknown ''ERR_BACKGROUND_TASK_EXECUTION_UNKNOWN'' (unknown_result t)
                      (bt_auto_reply t) False (if expected \<noteq> None then expected else bt_lock_until t)
                      lt dt now task_id (Some worker_id) s
          else let (s1, n) = update_tasks
                     (\<lambda>r. task_held task_id (Some worker_id) r \<and>
                          bt_lock_until r = (if expected \<noteq> None then expected else bt_lock_until t))
                     (\<lambda>r. r\<lparr>bt_status := B_PENDING, bt_locked_by := None, bt_lock_until := None\<rparr>) s
               in (commit s1, n = 1))"

section \<open>Cancellation\<close>

definition deleted_session_id :: "int \<Rightarrow> string" where
  "deleted_session_id i = ''deleted-session:'' @ str_int i"

text \<open>The row is cancelled only if it still is as it was read.\<close>

definition cancel_task_conditionally ::
  "background_task \<Rightarrow> bool \<Rightarrow> bool \<Rightarrow> int \<Rightarrow> int \<Rightarrow> 'a task_db_scheme dbsession \<Rightarrow> 'a task_db_scheme dbsession \<times> bool" where
  "cancel_task_conditionally t deleted_session require_unexpired lt now s =
     (let (s1, n) = update_tasks
            (\<lambda>r. bt_id r = bt_id t \<and> bt_status r = bt_status t \<and>
                 (bt_status t = B_RUNNING \<longrightarrow> bt_locked_by r = bt_locked_by t \<and> bt_lock_until r = bt_lock_until t \<and>
                    (require_unexpired \<longrightarrow> null_ge (bt_lock_until r) now)))
            (\<lambda>r. (cancelled lt r)\<lparr>bt_session_id := (if bt_status t = B_RUNNING \<and> deleted_session
                    then deleted_session_id (bt_id t) else bt_session_id r)\<rparr>) s
      in (s1, n = 1))"

definition task_final :: "task_status \<Rightarrow> bool" where
  "task_final st \<longleftrightarrow> st \<in> {B_SUCCEEDED, B_FAILED, B_CANCELLED}"

definition cancel_user_task ::
  "int \<Rightarrow> string \<Rightarrow> int \<Rightarrow> int \<Rightarrow> 'a task_db_scheme dbsession \<Rightarrow> 'a task_db_scheme dbsession \<times> background_task option" where
  "cancel_user_task task_id uid lt now s =
     (case get_user_task task_id uid (cur s) of
        None \<Rightarrow> (s, None)
      | Some t \<Rightarrow>
          if task_final (bt_status t) then (s, Some t)
          else (case cancel_task_conditionally t False True lt now s of
                  (s1, False) \<Rightarrow> (rollback s1, get_user_task task_id uid (cur (rollback s1)))
                | (s1, True) \<Rightarrow>
                    (case (if bt_audit_execution_record_id t = None then (s1, True)
                           else if bt_status t = B_RUNNING
                           then mark_audit_unknown t ''ERR_BACKGROUND_TASK_EXECUTION_UNKNOWN'' lt s1
                           else mark_audit_cancelled t ''ERR_BACKGROUND_TASK_CANCELLED_BEFORE_EXECUTION'' lt s1) of
                       (s2, False) \<Rightarrow> (rollback s2, get_user_task task_id uid (cur (rollback s2)))
                     | (s2, True) \<Rightarrow> (commit s2, task_get (bt_id t) (cur s2)))))"

text \<open>The loops over the tasks of a session. \<open>cancel_pending\<close> returns the audit records it marked.\<close>

fun cleanup_pending ::
  "int \<Rightarrow> int \<Rightarrow> background_task list \<Rightarrow> 'a task_db_scheme dbsession \<Rightarrow> 'a task_db_scheme dbsession" where
  "cleanup_pending lt now [] s = s"
| "cleanup_pending lt now (t # ts) s =
     (case cancel_task_conditionally t True False lt now s of
        (s1, False) \<Rightarrow> cleanup_pending lt now ts s1
      | (s1, True) \<Rightarrow>
          (case mark_audit_cancelled t ''ERR_BACKGROUND_TASK_CANCELLED_BEFORE_EXECUTION'' lt s1 of
             (s2, False) \<Rightarrow> cleanup_pending lt now ts s2
           | (s2, True) \<Rightarrow> cleanup_pending lt now ts
               (execute (\<lambda>d. d\<lparr>bt_tasks := sql_delete (\<lambda>r. bt_id r = bt_id t) (bt_tasks d)\<rparr>) s2)))"

fun cleanup_running ::
  "int \<Rightarrow> int \<Rightarrow> int list \<Rightarrow> background_task list \<Rightarrow> 'a task_db_scheme dbsession \<Rightarrow> 'a task_db_scheme dbsession" where
  "cleanup_running lt now unknown [] s = s"
| "cleanup_running lt now unknown (t # ts) s =
     (case cancel_task_conditionally t True False lt now s of
        (s1, False) \<Rightarrow> cleanup_running lt now unknown ts s1
      | (s1, True) \<Rightarrow>
          if bt_audit_record_id t \<in> Some ` set unknown then cleanup_running lt now unknown ts s1
          else (case mark_audit_unknown t ''ERR_BACKGROUND_TASK_EXECUTION_UNKNOWN'' lt s1 of
                  (s2, False) \<Rightarrow> cleanup_running lt now unknown ts s2
                | (s2, True) \<Rightarrow> cleanup_running lt now
                    (case bt_audit_record_id t of None \<Rightarrow> unknown | Some i \<Rightarrow> i # unknown) ts s2))"

definition cleanup_unbound ::
  "(background_task \<Rightarrow> bool) \<Rightarrow> int \<Rightarrow> background_task \<Rightarrow> background_task" where
  "cleanup_unbound p lt t =
     (if p t \<and> task_active t
      then (cancelled lt t)\<lparr>bt_session_id := (if bt_status t = B_RUNNING then deleted_session_id (bt_id t)
              else bt_session_id t)\<rparr>
      else t)"

definition cleanup_by_session ::
  "string \<Rightarrow> string option \<Rightarrow> bool \<Rightarrow> bool \<Rightarrow> int \<Rightarrow> int \<Rightarrow> 'a task_db_scheme dbsession
    \<Rightarrow> 'a task_db_scheme dbsession \<times> nat" where
  "cleanup_by_session sid uid is_admin do_commit lt now s =
     (let p = (\<lambda>t. bt_session_id t = sid \<and> (is_admin \<or> Some (bt_uid t) = uid));
          bound = filter (\<lambda>t. p t \<and> task_active t \<and> bt_audit_record_id t \<noteq> None \<and>
                    bt_audit_execution_record_id t \<noteq> None) (bt_tasks (cur s));
          s1 = cleanup_pending lt now (filter (\<lambda>t. bt_status t = B_PENDING) bound) s;
          s2 = cleanup_running lt now [] (filter (\<lambda>t. bt_status t = B_RUNNING) bound) s1;
          q = (\<lambda>t. p t \<and> bt_audit_record_id t = None \<and> bt_audit_execution_record_id t = None);
          cancelled_rows = filter (\<lambda>t. q t \<and> task_active t) (bt_tasks (cur s2));
          retained = length (filter (\<lambda>t. bt_session_id (cleanup_unbound q lt t) \<noteq> sid) cancelled_rows);
          s3 = execute (\<lambda>d. d\<lparr>bt_tasks := map (cleanup_unbound q lt) (bt_tasks d)\<rparr>) s2;
          deleted = rowcount q (bt_tasks (cur s3));
          s4 = execute (\<lambda>d. d\<lparr>bt_tasks := sql_delete q (bt_tasks d)\<rparr>) s3
      in (commit_if do_commit s4, retained + deleted))"

fun cancel_pending ::
  "int \<Rightarrow> int \<Rightarrow> background_task list \<Rightarrow> int list \<Rightarrow> 'a task_db_scheme dbsession \<Rightarrow> 'a task_db_scheme dbsession \<times> int list" where
  "cancel_pending lt now [] audits s = (s, audits)"
| "cancel_pending lt now (t # ts) audits s =
     (case cancel_task_conditionally t False False lt now s of
        (s1, False) \<Rightarrow> cancel_pending lt now ts audits s1
      | (s1, True) \<Rightarrow>
          (case mark_audit_cancelled t ''ERR_BACKGROUND_TASK_CANCELLED_BEFORE_EXECUTION'' lt s1 of
             (s2, marked) \<Rightarrow> cancel_pending lt now ts
               (case bt_audit_record_id t of
                  Some i \<Rightarrow> if marked \<and> i \<notin> set audits then audits @ [i] else audits
                | None \<Rightarrow> audits) s2))"

fun cancel_running ::
  "int \<Rightarrow> int \<Rightarrow> background_task list \<Rightarrow> int list \<Rightarrow> int list \<Rightarrow> 'a task_db_scheme dbsession
    \<Rightarrow> 'a task_db_scheme dbsession \<times> int list" where
  "cancel_running lt now [] marked audits s = (s, audits)"
| "cancel_running lt now (t # ts) marked audits s =
     (case cancel_task_conditionally t False False lt now s of
        (s1, False) \<Rightarrow> cancel_running lt now ts marked audits s1
      | (s1, True) \<Rightarrow>
          (case bt_audit_record_id t of
             None \<Rightarrow> cancel_running lt now ts marked audits s1
           | Some i \<Rightarrow>
               if i \<in> set marked then cancel_running lt now ts marked audits s1
               else (case mark_audit_unknown t ''ERR_BACKGROUND_TASK_EXECUTION_UNKNOWN'' lt s1 of
                       (s2, False) \<Rightarrow> cancel_running lt now ts marked audits s2
                     | (s2, True) \<Rightarrow> cancel_running lt now ts (i # marked)
                         (if i \<in> set audits then audits else audits @ [i]) s2)))"

definition cancel_by_session ::
  "string \<Rightarrow> string \<Rightarrow> bool \<Rightarrow> int \<Rightarrow> int \<Rightarrow> 'a task_db_scheme dbsession \<Rightarrow> 'a task_db_scheme dbsession \<times> int list" where
  "cancel_by_session sid uid do_commit lt now s =
     (let tasks = sort_key bt_id (filter (\<lambda>t. bt_uid t = uid \<and> bt_session_id t = sid \<and> task_active t)
                    (bt_tasks (cur s)));
          (s1, audits) = cancel_pending lt now (filter (\<lambda>t. bt_status t = B_PENDING) tasks) [] s;
          (s2, audits) = cancel_running lt now (filter (\<lambda>t. bt_status t = B_RUNNING) tasks) [] audits s1;
          s3 = fst (update_tasks (\<lambda>t. bt_uid t = uid \<and> bt_session_id t = sid \<and> reply_open t) close_reply s2)
      in (commit_if do_commit s3, audits))"

fun clear_pending ::
  "int \<Rightarrow> int \<Rightarrow> background_task list \<Rightarrow> nat \<Rightarrow> 'a task_db_scheme dbsession \<Rightarrow> 'a task_db_scheme dbsession \<times> nat" where
  "clear_pending lt now [] n s = (s, n)"
| "clear_pending lt now (t # ts) n s =
     (case cancel_task_conditionally t False False lt now s of
        (s1, False) \<Rightarrow> clear_pending lt now ts n s1
      | (s1, True) \<Rightarrow> clear_pending lt now ts (n + 1)
          (if bt_audit_execution_record_id t \<noteq> None
           then fst (mark_audit_cancelled t ''ERR_BACKGROUND_TASK_CANCELLED_BEFORE_EXECUTION'' lt s1) else s1))"

fun clear_running ::
  "int \<Rightarrow> int \<Rightarrow> background_task list \<Rightarrow> int list \<Rightarrow> nat \<Rightarrow> 'a task_db_scheme dbsession
    \<Rightarrow> 'a task_db_scheme dbsession \<times> nat" where
  "clear_running lt now [] marked n s = (s, n)"
| "clear_running lt now (t # ts) marked n s =
     (case cancel_task_conditionally t False False lt now s of
        (s1, False) \<Rightarrow> clear_running lt now ts marked n s1
      | (s1, True) \<Rightarrow>
          (case bt_audit_record_id t of
             None \<Rightarrow> clear_running lt now ts marked (n + 1) s1
           | Some i \<Rightarrow>
               if i \<in> set marked then clear_running lt now ts marked (n + 1) s1
               else (case mark_audit_unknown t ''ERR_BACKGROUND_TASK_EXECUTION_UNKNOWN'' lt s1 of
                       (s2, ok) \<Rightarrow> clear_running lt now ts (if ok then i # marked else marked) (n + 1) s2)))"

definition clear_all_for_startup ::
  "int option \<Rightarrow> bool \<Rightarrow> int \<Rightarrow> int \<Rightarrow> 'a task_db_scheme dbsession \<Rightarrow> 'a task_db_scheme dbsession \<times> nat" where
  "clear_all_for_startup before do_commit lt now s =
     (let tasks = sort_key bt_id (filter (\<lambda>t. (task_active t \<or> reply_open t) \<and>
                    (case before of None \<Rightarrow> True | Some b \<Rightarrow> bt_created_at t \<le> b)) (bt_tasks (cur s)));
          snapshot_ids = map bt_id (filter reply_open tasks);
          (s1, n1) = clear_pending lt now (filter (\<lambda>t. bt_status t = B_PENDING) tasks) 0 s;
          (s2, n2) = clear_running lt now (filter (\<lambda>t. bt_status t = B_RUNNING) tasks) [] n1 s1;
          (s3, n3) = (if snapshot_ids = [] then (s2, 0)
                      else update_tasks (\<lambda>t. bt_id t \<in> set snapshot_ids \<and> reply_open t) close_reply s2)
      in (commit_if do_commit s3, n2 + n3))"

section \<open>Recovery\<close>

fun fail_each :: "string \<Rightarrow> int \<Rightarrow> background_task list \<Rightarrow> nat \<Rightarrow> 'a task_db_scheme dbsession \<Rightarrow> 'a task_db_scheme dbsession \<times> nat" where
  "fail_each error lt [] n s = (s, n)"
| "fail_each error lt (t # ts) n s =
     (let (s1, k) = update_tasks
            (\<lambda>r. bt_id r = bt_id t \<and> bt_status r = bt_status t \<and>
                 (bt_status t = B_RUNNING \<longrightarrow> bt_locked_by r = bt_locked_by t \<and> bt_lock_until r = bt_lock_until t))
            (finish_task B_FAILED (build_background_task_failure_result (bt_tool_name t) error) (Some error)
               (bt_auto_reply t) lt) s
      in fail_each error lt ts (n + k) s1)"

definition fail_tasks_for_terminal_audits ::
  "string \<Rightarrow> int \<Rightarrow> 'a task_db_scheme dbsession \<Rightarrow> 'a task_db_scheme dbsession \<times> nat" where
  "fail_tasks_for_terminal_audits error lt s =
     (let ended = map ar_id (filter (\<lambda>r. ar_status r \<in> AUDIT_TERMINAL_STATUSES) (ad_records (cur s)));
          tasks = filter (\<lambda>t. bt_audit_record_id t \<in> Some ` set ended \<and> bt_audit_execution_record_id t \<noteq> None \<and>
                    task_active t) (bt_tasks (cur s));
          (s1, n) = fail_each error lt tasks 0 s
      in (commit s1, n))"

definition still_expired :: "background_task \<Rightarrow> int \<Rightarrow> background_task \<Rightarrow> bool" where
  "still_expired t now r \<longleftrightarrow> bt_id r = bt_id t \<and> bt_status r = B_RUNNING \<and> bt_locked_by r = bt_locked_by t \<and>
     bt_lock_until r = bt_lock_until t \<and> null_lt (bt_lock_until r) now"

text \<open>One expired task. A task that may have had an effect is failed as unknown, and a failing mark has
  rolled the session back: the remaining rows are then expired, so that the loop cannot go on.\<close>

fun requeue_each ::
  "string \<Rightarrow> int \<Rightarrow> int \<Rightarrow> int \<Rightarrow> int \<Rightarrow> background_task list \<Rightarrow> int list \<Rightarrow> 'a task_db_scheme dbsession
    \<Rightarrow> 'a task_db_scheme dbsession \<times> (py_error + int list)" where
  "requeue_each error max_attempts lt dt now [] ids s = (s, Inr ids)"
| "requeue_each error max_attempts lt dt now (t # ts) ids s =
     (if bt_audit_execution_record_id t \<noteq> None \<or> has_origin_work t
      then (case task_mark_execution_unknown ''ERR_BACKGROUND_TASK_EXECUTION_UNKNOWN'' (unknown_result t)
                   (bt_auto_reply t) False (bt_lock_until t) lt dt now (bt_id t) (bt_locked_by t) s of
              (s1, True) \<Rightarrow> requeue_each error max_attempts lt dt now ts
                              (if bt_auto_reply t then ids @ [bt_id t] else ids) s1
            | (s1, False) \<Rightarrow>
                if ts = [] \<or> task_get (bt_id t) (cur s) = None
                then requeue_each error max_attempts lt dt now ts ids s1
                else (s1, Inl MissingGreenlet))
      else if max_attempts \<le> bt_attempt_count t
      then let (s1, n) = update_tasks (still_expired t now)
                 (finish_task B_FAILED (build_background_task_failure_result (bt_tool_name t) error) (Some error)
                    (bt_auto_reply t) dt) s
           in requeue_each error max_attempts lt dt now ts
                (if n = 1 \<and> bt_auto_reply t then ids @ [bt_id t] else ids) s1
      else requeue_each error max_attempts lt dt now ts ids
             (fst (update_tasks (still_expired t now)
                (\<lambda>r. r\<lparr>bt_status := B_PENDING, bt_locked_by := None, bt_lock_until := None\<rparr>) s)))"

definition requeue_expired_running ::
  "int \<Rightarrow> string \<Rightarrow> int \<Rightarrow> int \<Rightarrow> int \<Rightarrow> int \<Rightarrow> 'a task_db_scheme dbsession
    \<Rightarrow> 'a task_db_scheme dbsession \<times> (py_error + int list)" where
  "requeue_expired_running profile_id error max_attempts lt dt now s =
     (let expired = filter (\<lambda>t. bt_profile_id t = profile_id \<and> bt_status t = B_RUNNING \<and>
                      null_lt (bt_lock_until t) now) (bt_tasks (cur s))
      in case requeue_each error max_attempts lt dt now expired [] s of
           (s1, Inl e) \<Rightarrow> (s1, Inl e)
         | (s1, Inr ids) \<Rightarrow> (if expired \<noteq> [] then commit s1 else s1, Inr ids))"

end
