(* ===== verification/Task_Life.thy ===== *)
theory Task_Life
  imports Task_Store
begin

text \<open>
  The life cycle of a background task, as an abstract state machine on one row, and the proof that every
  operation of \<open>CRUDBackgroundTask\<close> moves rows only along it. The interface \<open>task_table\<close> states what an
  invariant of the task table has to provide; that every operation keeps such an invariant is proved
  once inside it, and the invariants themselves are its interpretations.
\<close>

section \<open>The abstract life cycle\<close>

definition new_row :: "background_task \<Rightarrow> bool" where
  "new_row t \<longleftrightarrow> bt_status t = B_PENDING \<and> bt_locked_by t = None \<and> bt_lock_until t = None \<and>
     bt_reply_status t = reply_after (bt_auto_reply t) \<and> bt_reply_locked_by t = None \<and>
     bt_reply_lock_until t = None \<and> bt_attempt_count t = 0 \<and> bt_finished_at t = None"

inductive task_step :: "background_task \<Rightarrow> background_task \<Rightarrow> bool" where
  claim: "bt_status t = B_PENDING \<Longrightarrow> task_step t (grant_task w secs now dt t)"
| extend: "bt_status t = B_RUNNING \<Longrightarrow> bt_locked_by t \<noteq> None \<Longrightarrow> task_step t (t\<lparr>bt_lock_until := Some u\<rparr>)"
| started: "bt_status t = B_RUNNING \<Longrightarrow> task_step t (t\<lparr>bt_extra := e\<rparr>)"
| requeue: "bt_status t = B_RUNNING \<Longrightarrow> bt_audit_execution_record_id t = None \<Longrightarrow>
    task_step t (t\<lparr>bt_status := B_PENDING, bt_locked_by := None, bt_lock_until := None\<rparr>)"
| finish: "task_active t \<Longrightarrow> st \<in> {B_SUCCEEDED, B_FAILED} \<Longrightarrow>
    task_step t ((finish_task st res er auto dt t)\<lparr>bt_extra := e\<rparr>)"
| subscription: "task_active t \<Longrightarrow>
    task_step t ((close_reply t)\<lparr>bt_status := B_SUCCEEDED, bt_result := res, bt_error := None,
      bt_finished_at := Some dt, bt_locked_by := None, bt_lock_until := None\<rparr>)"
| cancel: "task_active t \<Longrightarrow> sid = bt_session_id t \<or> bt_status t = B_RUNNING \<and> sid = deleted_session_id (bt_id t) \<Longrightarrow>
    task_step t ((cancelled lt t)\<lparr>bt_session_id := sid\<rparr>)"
| drop_reply: "reply_open t \<Longrightarrow> task_step t (close_reply t)"
| claim_reply: "bt_status t \<in> {B_SUCCEEDED, B_FAILED} \<Longrightarrow> bt_auto_reply t \<Longrightarrow> bt_reply_status t = R_PENDING \<Longrightarrow>
    task_step t (t\<lparr>bt_reply_status := R_RUNNING, bt_reply_locked_by := Some w, bt_reply_lock_until := Some u\<rparr>)"
| extend_reply: "bt_reply_status t = R_RUNNING \<Longrightarrow> bt_reply_locked_by t \<noteq> None \<Longrightarrow>
    task_step t (t\<lparr>bt_reply_lock_until := Some u\<rparr>)"
| reopen_reply: "bt_reply_status t = R_RUNNING \<Longrightarrow> task_step t (reopen_reply t)"
| complete_reply: "bt_reply_status t = R_RUNNING \<Longrightarrow> rst \<noteq> R_RUNNING \<Longrightarrow>
    task_step t (t\<lparr>bt_reply_status := rst, bt_reply_locked_by := None, bt_reply_lock_until := None, bt_error := er\<rparr>)"

lemma task_finish: "task_active t \<Longrightarrow> st \<in> {B_SUCCEEDED, B_FAILED} \<Longrightarrow> task_step t (finish_task st res er auto dt t)"
  using task_step.finish [where t = t and st = st and res = res and er = er and auto = auto and dt = dt and e = "bt_extra t"]
  by (simp add: finish_task_def)

lemma task_cancel: "task_active t \<Longrightarrow> task_step t (cancelled lt t)"
  using task_step.cancel [of t "bt_session_id t" lt] by (simp add: cancelled_def close_reply_def)

lemmas task_life = task_step.intros task_finish task_cancel

lemma task_step_id: "task_step t t' \<Longrightarrow> bt_id t' = bt_id t \<and> bt_uid t' = bt_uid t \<and>
    bt_audit_record_id t' = bt_audit_record_id t \<and> bt_audit_execution_record_id t' = bt_audit_execution_record_id t"
  by (induction rule: task_step.induct)
    (simp_all add: grant_task_def finish_task_def close_reply_def cancelled_def reopen_reply_def)

lemma task_steps_id: "task_step\<^sup>*\<^sup>* t t' \<Longrightarrow> bt_id t' = bt_id t \<and> bt_uid t' = bt_uid t \<and>
    bt_audit_record_id t' = bt_audit_record_id t \<and> bt_audit_execution_record_id t' = bt_audit_execution_record_id t"
  by (induction rule: rtranclp_induct) (simp_all add: task_step_id)

section \<open>Invariants of the task table\<close>

lemma audit_marks_keep_tasks [simp]:
  "bt_tasks (cur (fst (mark_audit_unknown t reason lt s))) = bt_tasks (cur s)"
  "saved (fst (mark_audit_unknown t reason lt s)) = saved s"
  "bt_tasks (cur (fst (mark_audit_cancelled t reason lt s))) = bt_tasks (cur s)"
  "saved (fst (mark_audit_cancelled t reason lt s)) = saved s"
  by (auto simp: mark_audit_unknown_def mark_audit_cancelled_def mark_execution_unknown_def cancel_execution_attempt_def
      finish_execution_round_if_complete_def case_prod_beta Let_def split: option.splits bool.splits)

definition unknown_failure :: "string \<Rightarrow> json \<Rightarrow> bool \<Rightarrow> bool \<Rightarrow> int option \<Rightarrow> background_task \<Rightarrow> failure_args" where
  "unknown_failure er res auto req ex t =
     \<lparr>mf_error = er, mf_result = res, mf_auto_reply = auto, mf_extra = Some (unknown_extra t), mf_commit = False,
      mf_require_unexpired_lease = req, mf_expected_lock_until = ex\<rparr>"

lemma task_unknown_cases:
  assumes "task_mark_execution_unknown er res auto req ex lt dt now k w s = (s', m)"
  obtains (missing) "task_get k (cur s) = None" "s' = s" "\<not> m"
  | (lost) t where "task_get k (cur s) = Some t" "\<not> m" "cur s' = saved s" "saved s' = saved s"
  | (marked) t where "task_get k (cur s) = Some t" "m" "saved s' = cur s'"
      "snd (mark_failed (unknown_failure er res auto req ex t) dt now k w s)"
      "bt_tasks (cur s') = bt_tasks (cur (fst (mark_failed (unknown_failure er res auto req ex t) dt now k w s)))"
      "bt_audit_execution_record_id t = None \<or>
       (\<exists>s1. s1 = fst (mark_failed (unknown_failure er res auto req ex t) dt now k w s) \<and>
          cur s' = cur (fst (mark_audit_unknown t er lt s1)) \<and>
          (snd (mark_audit_unknown t er lt s1) \<or> audit_is_unknown t (cur s')))"
proof (cases "task_get k (cur s)")
  case None
  with assms show ?thesis by (intro missing) (simp_all add: task_mark_execution_unknown_def)
next
  case (Some t)
  obtain s1 b where b: "mark_failed (unknown_failure er res auto req ex t) dt now k w s = (s1, b)" by (meson surj_pair)
  obtain s2 c where c: "mark_audit_unknown t er lt s1 = (s2, c)" by (meson surj_pair)
  have sv: "saved s1 = saved s" using b by (auto simp: mark_failed_def unknown_failure_def case_prod_beta commit_if_def)
  have s2: "saved s2 = saved s1" "bt_tasks (cur s2) = bt_tasks (cur s1)"
    using audit_marks_keep_tasks(1,2) [of t er lt s1] c by simp_all
  show ?thesis
  proof (cases "b \<and> (bt_audit_execution_record_id t = None \<or> c \<or> audit_is_unknown t (cur s2))")
    case True
    with assms Some b c s2 show ?thesis
      by (intro marked [of t]) (auto simp: task_mark_execution_unknown_def unknown_failure_def split: if_splits)
  next
    case False
    with assms Some b c s2 sv show ?thesis
      by (intro lost [of t]) (auto simp: task_mark_execution_unknown_def unknown_failure_def split: if_splits bool.splits)
  qed
qed

text \<open>The rows of the table still are the executions that were read.\<close>

definition same_bindings :: "background_task list \<Rightarrow> background_task list \<Rightarrow> bool" where
  "same_bindings ts rs \<longleftrightarrow> (\<forall>t\<in>set ts. \<forall>r\<in>set rs. bt_id r = bt_id t \<longrightarrow>
     bt_audit_execution_record_id r = bt_audit_execution_record_id t)"

lemma same_bindings_update:
  assumes "same_bindings ts rs"
    and "\<And>r. p r \<Longrightarrow> bt_id (f r) = bt_id r \<and> bt_audit_execution_record_id (f r) = bt_audit_execution_record_id r"
  shows "same_bindings ts (sql_update p f rs)"
  using assms by (auto simp: same_bindings_def set_sql_update)

lemma same_bindings_failed:
  "same_bindings ts (bt_tasks (cur s)) \<Longrightarrow> same_bindings ts (bt_tasks (cur (fst (mark_failed a dt now k w s))))"
  by (auto simp: mark_failed_def case_prod_beta finish_task_def intro!: same_bindings_update)

locale task_table =
  fixes I :: "background_task list \<Rightarrow> bool"
  assumes distinct_ids: "I ts \<Longrightarrow> distinct (map bt_id ts)"
    and keep_update: "I ts \<Longrightarrow> (\<And>t. t \<in> set ts \<Longrightarrow> p t \<Longrightarrow> task_step t (f t)) \<Longrightarrow> I (sql_update p f ts)"
    and keep_append: "I ts \<Longrightarrow> new_row t \<Longrightarrow> bt_id t = fresh_id bt_id ts \<Longrightarrow>
      (\<And>t'. t' \<in> set ts \<Longrightarrow> bt_audit_execution_record_id t \<noteq> None \<Longrightarrow>
         bt_audit_execution_record_id t' \<noteq> bt_audit_execution_record_id t) \<Longrightarrow> I (ts @ [t])"
begin

definition holds :: "'a task_db_scheme dbsession \<Rightarrow> bool" where
  "holds s \<longleftrightarrow> I (bt_tasks (cur s)) \<and> I (bt_tasks (saved s))"

lemma holds_transaction [simp, intro!]:
  "holds s \<Longrightarrow> holds (commit s)" "holds s \<Longrightarrow> holds (rollback s)" "holds s \<Longrightarrow> holds (commit_if b s)"
  by (simp_all add: holds_def commit_if_def)

lemma holds_update:
  "holds s \<Longrightarrow> (\<And>t. p t \<Longrightarrow> task_step t (f t)) \<Longrightarrow> holds (fst (update_tasks p f s))"
  by (auto simp: holds_def intro!: keep_update)

lemma holds_audit:
  "holds s \<Longrightarrow> holds (fst (mark_audit_unknown t reason lt s))"
  "holds s \<Longrightarrow> holds (fst (mark_audit_cancelled t reason lt s))"
  by (simp_all add: holds_def)

lemma create_task_holds: "holds s \<Longrightarrow> holds (fst (create_task a b lt s))"
proof -
  assume h: "holds s"
  let ?t = "new_task a (fresh_id bt_id (bt_tasks (cur s))) lt"
  have row: "new_row ?t" "bt_id ?t = fresh_id bt_id (bt_tasks (cur s))"
    "bt_audit_execution_record_id ?t = ct_audit_execution_record_id a"
    by (simp_all add: new_row_def new_task_def)
  have app: "holds (execute (\<lambda>d. d\<lparr>bt_tasks := bt_tasks d @ [?t]\<rparr>) s)"
    if new: "\<forall>x. ct_audit_execution_record_id a = Some x \<longrightarrow> get_by_audit_execution_record_id x (cur s) = None"
  proof -
    have "bt_audit_execution_record_id t' \<noteq> bt_audit_execution_record_id ?t"
      if "t' \<in> set (bt_tasks (cur s))" "bt_audit_execution_record_id ?t \<noteq> None" for t'
      using new that row(3) by (auto simp: get_by_audit_execution_record_id_def find_None_all)
    with h keep_append [OF _ row(1,2)] show ?thesis by (simp add: holds_def)
  qed
  show ?thesis using h app by (auto simp: create_task_def Let_def split: option.splits)
qed

lemma terminal_watches_hold:
  "holds s \<Longrightarrow> holds (cancel_terminal_watches uid sid terminal lt s)"
  "holds s \<Longrightarrow> holds (fst (finish_terminal_watch_subscription k res dt s))"
  "holds s \<Longrightarrow> holds (fst (lock_terminal_watch uid sid profile_id terminal s))"
  by (auto simp: cancel_terminal_watches_def finish_terminal_watch_subscription_def lock_terminal_watch_def Let_def
      case_prod_beta intro!: holds_update task_life) (simp add: holds_def execute_def)

lemma replies_hold:
  assumes "holds s"
  shows "holds (fst (try_claim_reply k w secs now s))" "holds (fst (renew_reply_lease now secs k w s))"
    "holds (fst (release_reply_claim k w s))" "holds (fst (recover_expired_replies now s))"
    "rst \<noteq> R_RUNNING \<Longrightarrow> holds (fst (complete_reply_claim rst er now k w s))"
  using assms
  by (auto simp: try_claim_reply_def renew_reply_lease_def release_reply_claim_def recover_expired_replies_def
      complete_reply_claim_def reply_held_def case_prod_beta intro!: holds_update task_life)

lemma leases_hold:
  assumes "holds s"
  shows "holds (fst (try_claim k w secs now dt s))" "holds (fst (task_renew_lease now secs k w s))"
    "holds (fst (task_mark_execution_started k w e now s))" "holds (fst (mark_succeeded res auto b dt now k w s))"
  using assms
  by (auto simp: try_claim_def task_renew_lease_def task_mark_execution_started_def mark_succeeded_def task_held_def
      case_prod_beta task_active_def intro!: holds_update task_life)

lemma mark_failed_holds: "holds s \<Longrightarrow> holds (fst (mark_failed a dt now k w s))"
  by (auto simp: mark_failed_def task_held_def case_prod_beta task_active_def intro!: holds_update task_life)

lemma task_unknown_holds:
  assumes "holds s"
  shows "holds (fst (task_mark_execution_unknown er res auto req ex lt dt now k w s))"
proof (cases "task_get k (cur s)")
  case None
  with assms show ?thesis by (simp add: task_mark_execution_unknown_def)
next
  case (Some t)
  define a where "a = \<lparr>mf_error = er, mf_result = res, mf_auto_reply = auto, mf_extra = Some (unknown_extra t),
      mf_commit = False, mf_require_unexpired_lease = req, mf_expected_lock_until = ex\<rparr>"
  obtain s1 m where m: "mark_failed a dt now k w s = (s1, m)" by (meson surj_pair)
  obtain s2 m2 where m2: "mark_audit_unknown t er lt s1 = (s2, m2)" by (meson surj_pair)
  have "holds s1" "holds s2"
    using mark_failed_holds [OF assms, of a dt now k w] m holds_audit(1) [of s1 t er lt] m2 by simp_all
  then show ?thesis using m m2 Some
    by (cases m) (auto simp: task_mark_execution_unknown_def a_def [symmetric])
qed

lemma unique_get:
  assumes "I (bt_tasks d)" and "task_get k d = Some t" and "r \<in> set (bt_tasks d)" and "bt_id r = k"
  shows "r = t"
  using assms(2) by (intro distinct_key_eq [OF distinct_ids [OF assms(1)] assms(3)])
    (auto simp: task_get_def assms(4) dest!: find_Some_iff_in)

lemma release_claim_holds: "holds s \<Longrightarrow> holds (fst (release_claim k w ex lt dt now s))"
proof -
  assume h: "holds s"
  then have I: "I (bt_tasks (cur s))" by (simp add: holds_def)
  show ?thesis
  proof (cases "task_get k (cur s)")
    case None
    with h show ?thesis by (simp add: release_claim_def)
  next
    case (Some t)
    have "holds (fst (update_tasks (\<lambda>r. task_held k (Some w) r \<and> bt_lock_until r = u)
        (\<lambda>r. r\<lparr>bt_status := B_PENDING, bt_locked_by := None, bt_lock_until := None\<rparr>) s))"
      if free: "bt_audit_execution_record_id t = None" for u
    proof -
      have "task_step r (r\<lparr>bt_status := B_PENDING, bt_locked_by := None, bt_lock_until := None\<rparr>)"
        if "r \<in> set (bt_tasks (cur s))" "task_held k (Some w) r" for r
        using unique_get [OF I Some that(1)] that(2) free by (auto simp: task_held_def intro: task_step.requeue)
      then show ?thesis using h by (auto simp: holds_def intro!: keep_update)
    qed
    with h Some show ?thesis
      by (auto simp: release_claim_def case_prod_beta Let_def intro!: task_unknown_holds)
  qed
qed

subsection \<open>Cancellation\<close>

lemma cancel_conditionally_holds:
  assumes "holds s" and "task_active t"
  shows "holds (fst (cancel_task_conditionally t del req lt now s))"
  using assms
  by (auto simp: cancel_task_conditionally_def case_prod_beta task_active_def intro!: holds_update task_step.cancel)

lemma cancel_user_task_holds: "holds s \<Longrightarrow> holds (fst (cancel_user_task k uid lt now s))"
proof (cases "get_user_task k uid (cur s)")
  case (Some t)
  assume h: "holds s"
  show ?thesis
  proof (cases "task_final (bt_status t)")
    case True
    with h Some show ?thesis by (simp add: cancel_user_task_def)
  next
    case False
    then have act: "task_active t" by (cases "bt_status t") (simp_all add: task_final_def task_active_def)
    obtain s1 b where b: "cancel_task_conditionally t False True lt now s = (s1, b)" by (meson surj_pair)
    have "holds s1" using cancel_conditionally_holds [OF h act, of False True lt now] b by simp
    with Some False b holds_audit show ?thesis
      by (cases b) (auto simp: cancel_user_task_def case_prod_beta split: bool.splits)
  qed
qed (simp add: cancel_user_task_def)

lemma cancel_pending_holds:
  "holds s \<Longrightarrow> \<forall>t\<in>set ts. task_active t \<Longrightarrow> holds (fst (cancel_pending lt now ts audits s))"
proof (induction ts arbitrary: s audits)
  case (Cons t ts)
  obtain s1 b where b: "cancel_task_conditionally t False False lt now s = (s1, b)" by (meson surj_pair)
  obtain s2 m where m: "mark_audit_cancelled t ''ERR_BACKGROUND_TASK_CANCELLED_BEFORE_EXECUTION'' lt s1 = (s2, m)"
    by (meson surj_pair)
  have "holds s1" "holds s2"
    using cancel_conditionally_holds [of s t False False lt now] Cons.prems b m
      holds_audit(2) [of s1 t "''ERR_BACKGROUND_TASK_CANCELLED_BEFORE_EXECUTION''" lt] by simp_all
  with Cons b m show ?case by (cases b) simp_all
qed simp

lemma cancel_running_holds:
  "holds s \<Longrightarrow> \<forall>t\<in>set ts. task_active t \<Longrightarrow> holds (fst (cancel_running lt now ts marked audits s))"
proof (induction ts arbitrary: s marked audits)
  case (Cons t ts)
  obtain s1 b where b: "cancel_task_conditionally t False False lt now s = (s1, b)" by (meson surj_pair)
  obtain s2 m where m: "mark_audit_unknown t ''ERR_BACKGROUND_TASK_EXECUTION_UNKNOWN'' lt s1 = (s2, m)"
    by (meson surj_pair)
  have "holds s1" "holds s2"
    using cancel_conditionally_holds [of s t False False lt now] Cons.prems b m
      holds_audit(1) [of s1 t "''ERR_BACKGROUND_TASK_EXECUTION_UNKNOWN''" lt] by simp_all
  with Cons b m show ?case by (cases b; cases m) (simp_all split: option.split)
qed simp

lemma clear_pending_holds:
  "holds s \<Longrightarrow> \<forall>t\<in>set ts. task_active t \<Longrightarrow> holds (fst (clear_pending lt now ts n s))"
proof (induction ts arbitrary: s n)
  case (Cons t ts)
  obtain s1 b where b: "cancel_task_conditionally t False False lt now s = (s1, b)" by (meson surj_pair)
  have "holds s1" using cancel_conditionally_holds [of s t False False lt now] Cons.prems b by simp
  with Cons b holds_audit(2) [of s1 t "''ERR_BACKGROUND_TASK_CANCELLED_BEFORE_EXECUTION''" lt]
  show ?case by (cases b) simp_all
qed simp

lemma clear_running_holds:
  "holds s \<Longrightarrow> \<forall>t\<in>set ts. task_active t \<Longrightarrow> holds (fst (clear_running lt now ts marked n s))"
proof (induction ts arbitrary: s marked n)
  case (Cons t ts)
  obtain s1 b where b: "cancel_task_conditionally t False False lt now s = (s1, b)" by (meson surj_pair)
  obtain s2 m where m: "mark_audit_unknown t ''ERR_BACKGROUND_TASK_EXECUTION_UNKNOWN'' lt s1 = (s2, m)"
    by (meson surj_pair)
  have "holds s1" "holds s2"
    using cancel_conditionally_holds [of s t False False lt now] Cons.prems b m
      holds_audit(1) [of s1 t "''ERR_BACKGROUND_TASK_EXECUTION_UNKNOWN''" lt] by simp_all
  with Cons b m show ?case by (cases b) (simp_all split: option.split)
qed simp

lemma session_tasks_hold:
  assumes "holds s"
  shows "holds (fst (cancel_by_session sid uid b lt now s))" "holds (fst (clear_all_for_startup before b lt now s))"
  using assms
  by (auto simp: cancel_by_session_def clear_all_for_startup_def Let_def case_prod_beta task_active_def
      intro!: holds_update cancel_pending_holds cancel_running_holds clear_pending_holds clear_running_holds task_life)

subsection \<open>Recovery\<close>

lemma fail_each_holds:
  "holds s \<Longrightarrow> \<forall>t\<in>set ts. task_active t \<Longrightarrow> holds (fst (fail_each er lt ts n s))"
proof (induction ts arbitrary: s n)
  case (Cons t ts)
  then show ?case
    by (auto simp: case_prod_beta Let_def task_active_def intro!: Cons.IH holds_update task_finish)
qed simp

lemma fail_tasks_holds: "holds s \<Longrightarrow> holds (fst (fail_tasks_for_terminal_audits er lt s))"
  by (auto simp: fail_tasks_for_terminal_audits_def Let_def case_prod_beta intro!: fail_each_holds)

lemma requeue_each_holds:
  "holds s \<Longrightarrow> same_bindings ts (bt_tasks (cur s)) \<Longrightarrow>
    holds (fst (requeue_each er mx lt dt now ts ids s))"
proof (induction ts arbitrary: s ids)
  case Nil
  then show ?case by simp
next
  case (Cons t ts)
  from Cons.prems(2) have rest: "same_bindings ts (bt_tasks (cur s))" by (simp add: same_bindings_def)
  let ?q = "still_expired t now"
  show ?case
  proof (cases "bt_audit_execution_record_id t \<noteq> None \<or> has_origin_work t")
    case True
    obtain s1 m where m: "task_mark_execution_unknown ''ERR_BACKGROUND_TASK_EXECUTION_UNKNOWN'' (unknown_result t)
        (bt_auto_reply t) False (bt_lock_until t) lt dt now (bt_id t) (bt_locked_by t) s = (s1, m)" by (meson surj_pair)
    have h1: "holds s1" using task_unknown_holds [OF Cons.prems(1)] m by (metis fst_conv)
    have "m \<or> task_get (bt_id t) (cur s) = None \<Longrightarrow> same_bindings ts (bt_tasks (cur s1))"
      using rest same_bindings_failed by (cases rule: task_unknown_cases [OF m]) auto
    with h1 True m Cons.IH [OF h1] show ?thesis by (cases m) auto
  next
    case False
    then have free: "bt_audit_execution_record_id r = None" if "r \<in> set (bt_tasks (cur s))" "?q r" for r
      using that Cons.prems(2) by (simp add: same_bindings_def still_expired_def)
    have fin: "holds (fst (update_tasks ?q (finish_task B_FAILED res (Some e) auto dt) s))" for res e auto
      using Cons.prems(1) by (auto simp: still_expired_def task_active_def intro!: holds_update task_finish)
    have put: "holds (fst (update_tasks ?q (\<lambda>r. r\<lparr>bt_status := B_PENDING, bt_locked_by := None, bt_lock_until := None\<rparr>) s))"
      using Cons.prems(1) free by (auto simp: holds_def still_expired_def intro!: keep_update task_step.requeue)
    have same: "same_bindings ts (sql_update ?q (finish_task B_FAILED res (Some e) auto dt) (bt_tasks (cur s)))"
      "same_bindings ts (sql_update ?q (\<lambda>r. r\<lparr>bt_status := B_PENDING, bt_locked_by := None, bt_lock_until := None\<rparr>) (bt_tasks (cur s)))"
      for res e auto
      by (rule same_bindings_update [OF rest]; simp add: finish_task_def)+
    from False show ?thesis by (auto simp: Let_def case_prod_beta intro!: Cons.IH fin put same)
  qed
qed

lemma requeue_holds: "holds s \<Longrightarrow> holds (fst (requeue_expired_running pid er mx lt dt now s))"
proof -
  assume h: "holds s"
  let ?ts = "filter (\<lambda>t. bt_profile_id t = pid \<and> bt_status t = B_RUNNING \<and> null_lt (bt_lock_until t) now) (bt_tasks (cur s))"
  have "distinct (map bt_id (bt_tasks (cur s)))" using h distinct_ids by (auto simp: holds_def)
  then have "same_bindings ?ts (bt_tasks (cur s))"
    using distinct_key_eq unfolding same_bindings_def by fastforce
  from requeue_each_holds [OF h this, of er mx lt dt now "[]"] show ?thesis
    by (auto simp: requeue_expired_running_def Let_def case_prod_beta split: sum.splits)
qed

end

text \<open>An invariant that deletion keeps as well.\<close>

locale task_table_deletable = task_table +
  assumes keep_delete: "I ts \<Longrightarrow> I (sql_delete q ts)"
begin

lemma holds_delete: "holds s \<Longrightarrow> holds (execute (\<lambda>d. d\<lparr>bt_tasks := sql_delete q (bt_tasks d)\<rparr>) s)"
  by (simp add: holds_def keep_delete)

lemma cleanup_pending_holds:
  "holds s \<Longrightarrow> \<forall>t\<in>set ts. task_active t \<Longrightarrow> holds (cleanup_pending lt now ts s)"
proof (induction ts arbitrary: s)
  case (Cons t ts)
  obtain s1 b where b: "cancel_task_conditionally t True False lt now s = (s1, b)" by (meson surj_pair)
  obtain s2 m where m: "mark_audit_cancelled t ''ERR_BACKGROUND_TASK_CANCELLED_BEFORE_EXECUTION'' lt s1 = (s2, m)"
    by (meson surj_pair)
  have "holds s1" "holds s2"
    using cancel_conditionally_holds [of s t True False lt now] Cons.prems b m
      holds_audit(2) [of s1 t "''ERR_BACKGROUND_TASK_CANCELLED_BEFORE_EXECUTION''" lt] by simp_all
  with Cons b m show ?case by (cases b; cases m) (simp_all add: holds_delete)
qed simp

lemma cleanup_running_holds:
  "holds s \<Longrightarrow> \<forall>t\<in>set ts. task_active t \<Longrightarrow> holds (cleanup_running lt now unknown ts s)"
proof (induction ts arbitrary: s unknown)
  case (Cons t ts)
  obtain s1 b where b: "cancel_task_conditionally t True False lt now s = (s1, b)" by (meson surj_pair)
  obtain s2 m where m: "mark_audit_unknown t ''ERR_BACKGROUND_TASK_EXECUTION_UNKNOWN'' lt s1 = (s2, m)"
    by (meson surj_pair)
  have "holds s1" "holds s2"
    using cancel_conditionally_holds [of s t True False lt now] Cons.prems b m
      holds_audit(1) [of s1 t "''ERR_BACKGROUND_TASK_EXECUTION_UNKNOWN''" lt] by simp_all
  with Cons b m show ?case by (cases b; cases m) (simp_all split: option.split)
qed simp

lemma cleanup_unbound_update: "map (cleanup_unbound p lt) ts = sql_update (\<lambda>t. p t \<and> task_active t) (cleanup_unbound p lt) ts"
  by (simp add: sql_update_def cleanup_unbound_def)

lemma cleanup_by_session_holds: "holds s \<Longrightarrow> holds (fst (cleanup_by_session sid uid adm b lt now s))"
proof -
  assume h: "holds s"
  have unbound: "holds (execute (\<lambda>d. d\<lparr>bt_tasks := map (cleanup_unbound p lt) (bt_tasks d)\<rparr>) s)" if "holds s" for p and s :: "'b task_db_scheme dbsession"
    using that unfolding cleanup_unbound_update
    by (auto simp: holds_def cleanup_unbound_def intro!: keep_update task_step.cancel)
  show ?thesis using h
    by (auto simp: cleanup_by_session_def Let_def task_active_def
        intro!: holds_delete unbound cleanup_pending_holds cleanup_running_holds)
qed

end

end
