(* ===== verification/Task_Laws.thy ===== *)
theory Task_Laws
  imports Task_Life Lease_Interface
begin

text \<open>
  What the background tasks guarantee: every operation moves tasks along the life cycle only, a lease
  and its columns always agree with the status, an audited task is started at most once, a finished
  task keeps its result, executions and replies are leased exclusively, and a task and its audit are
  marked together or not at all.
\<close>

section \<open>Every run of the task operations\<close>

text \<open>Any operation that writes, except the deletion of a session's tasks; \<open>others\<close> stands for the
  operations of the other components, which do not write the table of the tasks.\<close>

inductive task_op :: "'a task_db_scheme dbsession \<Rightarrow> 'a task_db_scheme dbsession \<Rightarrow> bool" where
  "task_op s (fst (create_task a b lt s))"
| "task_op s (cancel_terminal_watches uid sid terminal lt s)"
| "task_op s (fst (finish_terminal_watch_subscription k res dt s))"
| "task_op s (fst (lock_terminal_watch uid sid profile_id terminal s))"
| "task_op s (fst (try_claim_reply k w secs now s))"
| "task_op s (fst (renew_reply_lease now secs k w s))"
| "task_op s (fst (release_reply_claim k w s))"
| "rst \<noteq> R_RUNNING \<Longrightarrow> task_op s (fst (complete_reply_claim rst er now k w s))"
| "task_op s (fst (recover_expired_replies now s))"
| "task_op s (fst (try_claim k w secs now dt s))"
| "task_op s (fst (task_renew_lease now secs k w s))"
| "task_op s (fst (task_mark_execution_started k w e now s))"
| "task_op s (fst (mark_succeeded res auto b dt now k w s))"
| "task_op s (fst (mark_failed fa dt now k wo s))"
| "task_op s (fst (task_mark_execution_unknown reason res auto req ex lt dt now k wo s))"
| "task_op s (fst (release_claim k w ex lt dt now s))"
| "task_op s (fst (cancel_user_task k uid lt now s))"
| "task_op s (fst (cancel_by_session sid uid b lt now s))"
| "task_op s (fst (clear_all_for_startup before b lt now s))"
| "task_op s (fst (fail_tasks_for_terminal_audits reason lt s))"
| "task_op s (fst (requeue_expired_running pid reason mx lt dt now s))"
| "task_op s (commit s)"
| "task_op s (rollback s)"
| others: "bt_tasks (cur s') = bt_tasks (cur s) \<Longrightarrow> bt_tasks (saved s') = bt_tasks (saved s) \<Longrightarrow> task_op s s'"

inductive task_change :: "'a task_db_scheme dbsession \<Rightarrow> 'a task_db_scheme dbsession \<Rightarrow> bool" where
  task_operation: "task_op s s' \<Longrightarrow> task_change s s'"
| task_cleanup: "task_change s (fst (cleanup_by_session sid uid adm b lt now s))"

context task_table
begin

lemmas operations_hold = create_task_holds terminal_watches_hold replies_hold leases_hold mark_failed_holds
  task_unknown_holds release_claim_holds cancel_user_task_holds session_tasks_hold fail_tasks_holds requeue_holds

lemma task_op_holds: "task_op s s' \<Longrightarrow> holds s \<Longrightarrow> holds s'"
  by (induction rule: task_op.induct) (simp_all add: operations_hold, simp add: holds_def)

lemma task_ops_hold: "task_op\<^sup>*\<^sup>* s s' \<Longrightarrow> holds s \<Longrightarrow> holds s'"
  by (induction rule: rtranclp_induct) (auto intro: task_op_holds)

end

context task_table_deletable
begin

lemma task_change_holds: "task_change s s' \<Longrightarrow> holds s \<Longrightarrow> holds s'"
  by (induction rule: task_change.induct) (simp_all add: task_op_holds cleanup_by_session_holds)

lemma task_changes_hold: "task_change\<^sup>*\<^sup>* s s' \<Longrightarrow> holds s \<Longrightarrow> holds s'"
  by (induction rule: rtranclp_induct) (auto intro: task_change_holds)

end

section \<open>The invariants\<close>

definition task_ok :: "background_task \<Rightarrow> bool" where
  "task_ok t \<longleftrightarrow>
     (bt_status t = B_RUNNING \<longleftrightarrow> bt_locked_by t \<noteq> None) \<and> (bt_locked_by t = None \<longleftrightarrow> bt_lock_until t = None) \<and>
     (bt_reply_status t = R_RUNNING \<longleftrightarrow> bt_reply_locked_by t \<noteq> None) \<and>
     (bt_reply_locked_by t = None \<longleftrightarrow> bt_reply_lock_until t = None) \<and>
     (bt_reply_status t = R_RUNNING \<longrightarrow> bt_status t \<in> {B_SUCCEEDED, B_FAILED} \<and> bt_auto_reply t) \<and>
     (bt_status t = B_CANCELLED \<longrightarrow> \<not> bt_auto_reply t \<and> bt_reply_status t = R_NONE) \<and>
     (bt_finished_at t \<noteq> None \<longleftrightarrow> task_final (bt_status t)) \<and> 0 \<le> bt_attempt_count t \<and>
     (bt_audit_execution_record_id t \<noteq> None \<longrightarrow>
        bt_attempt_count t \<le> 1 \<and> (bt_status t = B_PENDING \<longrightarrow> bt_attempt_count t = 0))"

definition task_wf :: "background_task list \<Rightarrow> bool" where
  "task_wf ts \<longleftrightarrow> distinct (map bt_id ts) \<and> distinct (List.map_filter bt_audit_execution_record_id ts) \<and>
     (\<forall>t\<in>set ts. task_ok t)"

lemmas task_value_defs = grant_task_def finish_task_def close_reply_def cancelled_def reopen_reply_def

lemmas task_ok_simps = task_ok_def task_value_defs task_final_def task_active_def reply_open_def reply_after_def

lemma task_step_ok: "task_step t t' \<Longrightarrow> task_ok t \<Longrightarrow> task_ok t'"
proof (induction rule: task_step.induct)
  case claim then show ?case by (auto simp: task_ok_simps)
next case extend then show ?case by (auto simp: task_ok_simps)
next case started then show ?case by (auto simp: task_ok_simps)
next case requeue then show ?case by (auto simp: task_ok_simps)
next case finish then show ?case by (auto simp: task_ok_simps split: if_splits)
next case subscription then show ?case by (auto simp: task_ok_simps)
next case cancel then show ?case by (auto simp: task_ok_simps)
next case drop_reply then show ?case by (auto simp: task_ok_simps)
next case claim_reply then show ?case by (auto simp: task_ok_simps)
next case extend_reply then show ?case by (auto simp: task_ok_simps)
next case reopen_reply then show ?case by (auto simp: task_ok_simps)
next case complete_reply then show ?case by (auto simp: task_ok_simps)
qed

lemma new_row_ok: "new_row t \<Longrightarrow> task_ok t"
  by (auto simp: new_row_def task_ok_def task_final_def reply_after_def)

lemma map_filter_update:
  assumes "\<forall>t\<in>set ts. p t \<longrightarrow> g (f t) = g t"
  shows "List.map_filter g (sql_update p f ts) = List.map_filter g ts"
  using assms by (induction ts) (auto simp: sql_update_def List.map_filter_simps split: option.split)

lemma map_id_update:
  assumes "\<And>t. t \<in> set ts \<Longrightarrow> p t \<Longrightarrow> task_step t (f t)"
  shows "map bt_id (sql_update p f ts) = map bt_id ts"
  using assms task_step_id by (auto simp: sql_update_def)

lemma distinct_map_filter_filter:
  "distinct (List.map_filter g ts) \<Longrightarrow> distinct (List.map_filter g (filter q ts))"
proof (induction ts)
  case (Cons t ts)
  then show ?case by (cases "g t") (auto simp: List.map_filter_simps, auto simp: List.map_filter_def image_iff)
qed simp

interpretation tw: task_table_deletable task_wf
proof unfold_locales
  fix ts p f assume wf: "task_wf ts" and st: "\<And>t. t \<in> set ts \<Longrightarrow> p t \<Longrightarrow> task_step t (f t)"
  have "task_ok t" if "t \<in> set (sql_update p f ts)" for t
    using that wf task_step_ok [OF st] by (auto simp: task_wf_def set_sql_update)
  moreover have "List.map_filter bt_audit_execution_record_id (sql_update p f ts) =
      List.map_filter bt_audit_execution_record_id ts"
    by (rule map_filter_update) (use st task_step_id in blast)
  ultimately show "task_wf (sql_update p f ts)" using wf map_id_update [OF st] by (simp add: task_wf_def)
next
  fix ts t assume "task_wf ts" "new_row t" "bt_id t = fresh_id bt_id ts"
    and "\<And>t'. t' \<in> set ts \<Longrightarrow> bt_audit_execution_record_id t \<noteq> None \<Longrightarrow>
      bt_audit_execution_record_id t' \<noteq> bt_audit_execution_record_id t"
  then show "task_wf (ts @ [t])" using fresh_id_not_in [of bt_id ts]
    by (cases "bt_audit_execution_record_id t")
      (auto simp: task_wf_def new_row_ok List.map_filter_def)
qed (auto simp: task_wf_def sql_delete_def distinct_map_filter distinct_map_filter_filter)

text \<open>The rows of a table come from the rows of an earlier one along the life cycle.\<close>

definition follows :: "background_task list \<Rightarrow> background_task list \<Rightarrow> bool" where
  "follows ts0 ts \<longleftrightarrow> distinct (map bt_id ts) \<and>
     (\<forall>t\<in>set ts. \<exists>t0. (t0 \<in> set ts0 \<or> new_row t0) \<and> task_step\<^sup>*\<^sup>* t0 t)"

interpretation tf: task_table_deletable "follows ts0" for ts0
proof unfold_locales
  fix ts p f assume f: "follows ts0 ts" and st: "\<And>t. t \<in> set ts \<Longrightarrow> p t \<Longrightarrow> task_step t (f t)"
  have "\<exists>t0. (t0 \<in> set ts0 \<or> new_row t0) \<and> task_step\<^sup>*\<^sup>* t0 t'" if "t' \<in> set (sql_update p f ts)" for t'
  proof -
    from that obtain t where t: "t \<in> set ts" "t' = (if p t then f t else t)" by (auto simp: sql_update_def)
    with f obtain t0 where "t0 \<in> set ts0 \<or> new_row t0" "task_step\<^sup>*\<^sup>* t0 t" by (auto simp: follows_def)
    moreover from this(2) have "task_step\<^sup>*\<^sup>* t0 t'" using t st by (auto intro: rtranclp.rtrancl_into_rtrancl)
    ultimately show ?thesis by blast
  qed
  with f map_id_update [OF st] show "follows ts0 (sql_update p f ts)" by (simp add: follows_def)
next
  fix ts t assume "follows ts0 ts" "new_row t" "bt_id t = fresh_id bt_id ts"
  then show "follows ts0 (ts @ [t])" using fresh_id_not_in [of bt_id ts] by (auto simp: follows_def)
qed (auto simp: follows_def sql_delete_def distinct_map_filter)

text \<open>Without deletion every row stays, further along its life cycle.\<close>

definition persists :: "background_task list \<Rightarrow> background_task list \<Rightarrow> bool" where
  "persists ts0 ts \<longleftrightarrow> distinct (map bt_id ts) \<and> (\<forall>t0\<in>set ts0. \<exists>t\<in>set ts. task_step\<^sup>*\<^sup>* t0 t)"

interpretation tp: task_table "persists ts0" for ts0
proof unfold_locales
  fix ts p f assume f: "persists ts0 ts" and st: "\<And>t. t \<in> set ts \<Longrightarrow> p t \<Longrightarrow> task_step t (f t)"
  have "\<exists>t'\<in>set (sql_update p f ts). task_step\<^sup>*\<^sup>* t0 t'" if t0: "t0 \<in> set ts0" for t0
  proof -
    from f t0 obtain t where t: "t \<in> set ts" "task_step\<^sup>*\<^sup>* t0 t" by (auto simp: persists_def)
    let ?t = "if p t then f t else t"
    have "?t \<in> set (sql_update p f ts)" using t(1) by (auto simp: sql_update_def)
    moreover have "task_step\<^sup>*\<^sup>* t0 ?t" using t st by (auto intro: rtranclp.rtrancl_into_rtrancl)
    ultimately show ?thesis by blast
  qed
  with f map_id_update [OF st] show "persists ts0 (sql_update p f ts)" by (simp add: persists_def)
next
  fix ts t assume "persists ts0 ts" "new_row t" "bt_id t = fresh_id bt_id ts"
  then show "persists ts0 (ts @ [t])" using fresh_id_not_in [of bt_id ts] by (auto simp: persists_def)
qed (auto simp: persists_def)

text \<open>What no step changes once a task has ended: everything but the reply and the error text.\<close>

definition outcome :: "background_task \<Rightarrow> background_task" where
  "outcome t = t\<lparr>bt_auto_reply := False, bt_reply_status := R_NONE, bt_reply_locked_by := None,
     bt_reply_lock_until := None, bt_error := None\<rparr>"

lemma task_step_outcome: "task_step t t' \<Longrightarrow> task_final (bt_status t) \<Longrightarrow> outcome t' = outcome t"
  by (induction rule: task_step.induct)
    (auto simp: outcome_def task_value_defs task_final_def task_active_def)

lemma outcome_status: "outcome t' = outcome t \<Longrightarrow> bt_status t' = bt_status t"
  by (drule arg_cong [where f = bt_status]) (simp add: outcome_def)

lemma task_steps_outcome:
  assumes "task_step\<^sup>*\<^sup>* t t'" and "task_final (bt_status t)"
  shows "outcome t' = outcome t"
  using assms
proof (induction rule: rtranclp_induct)
  case (step u v)
  then have "outcome u = outcome t" by simp
  with step outcome_status show ?case by (metis task_step_outcome)
qed simp

section \<open>A sample\<close>

definition sample_task :: "int \<Rightarrow> string \<Rightarrow> int option \<Rightarrow> create_task_args" where
  "sample_task n name x = \<lparr>ct_uid = ''u'', ct_session_id = ''s'', ct_profile_id = 1, ct_tool_call_id = str_int n,
     ct_tool_name = name, ct_arguments = JObj [], ct_auto_reply = True, ct_extra = None,
     ct_audit_record_id = map_option (\<lambda>_. 1) x, ct_audit_execution_record_id = x\<rparr>"

definition sample_task_db :: task_db where
  "sample_task_db = \<lparr>rq_work = [], rq_sequences = [], rq_events = [], rq_checkpoints = [], rq_messages = [],
     rq_references = [], rq_chat_sessions = [], rq_subagent_parents = [], ad_records = [], ad_details = [], ad_claims = [],
     ad_executions = [], ad_versions = [], bt_tasks = [], bt_terminals = []\<rparr>"

definition sample_tasks :: "task_db dbsession" where
  "sample_tasks = fst (try_claim 1 ''w1'' 60 100 100
     (fst (create_task (sample_task 1 ''shell'' (Some 7)) True 1 (open_session sample_task_db))))"

lemma sample_tasks_run: "task_op\<^sup>*\<^sup>* (open_session sample_task_db) sample_tasks"
proof -
  let ?s = "open_session sample_task_db"
  have "task_op ?s (fst (create_task (sample_task 1 ''shell'' (Some 7)) True 1 ?s))" by (rule task_op.intros)
  moreover have "task_op (fst (create_task (sample_task 1 ''shell'' (Some 7)) True 1 ?s)) sample_tasks"
    unfolding sample_tasks_def by (rule task_op.intros(10))
  ultimately show ?thesis by (meson rtranclp.rtrancl_into_rtrancl rtranclp.rtrancl_refl)
qed

lemma sample_tasks_rows: "map (\<lambda>t. (bt_id t, bt_status t, bt_locked_by t, bt_lock_until t)) (bt_tasks (cur sample_tasks)) =
    [(1, B_RUNNING, Some ''w1'', Some 160)]"
  by code_simp

definition sample_tasks_done :: "task_db dbsession" where
  "sample_tasks_done = fst (mark_succeeded (JObj []) True True 120 120 1 ''w1'' sample_tasks)"

lemma sample_tasks_done_rows:
  "map (\<lambda>t. (bt_id t, bt_status t, bt_reply_status t)) (bt_tasks (cur sample_tasks_done)) = [(1, B_SUCCEEDED, R_PENDING)]"
  "cur sample_tasks_done = saved sample_tasks_done"
  by code_simp+

section \<open>The life cycle\<close>


lemma task_ops_change: "task_op\<^sup>*\<^sup>* s s' \<Longrightarrow> task_change\<^sup>*\<^sup>* s s'"
  by (induction rule: rtranclp_induct) (auto intro: task_operation rtranclp.rtrancl_into_rtrancl)


text \<open>A task that ended keeps its outcome. Once a task has succeeded, failed or been cancelled, no
  sequence of operations other than the deletion of its session changes any column of it but the state of
  its reply and the error text that answering may set: the status, the result and the number of attempts stay.\<close>

theorem ended_task_final:
  assumes "task_op\<^sup>*\<^sup>* s s'" and "cur s = saved s" and "distinct (map bt_id (bt_tasks (cur s)))"
    and "t \<in> set (bt_tasks (cur s))" and "bt_status t \<in> {B_SUCCEEDED, B_FAILED, B_CANCELLED}"
  shows "(\<exists>t'\<in>set (bt_tasks (cur s')). outcome t' = outcome t) \<and> (\<exists>t'\<in>set (bt_tasks (saved s')). outcome t' = outcome t)"
proof -
  have "persists (bt_tasks (cur s)) (bt_tasks (cur s))" using assms(3) by (auto simp: persists_def)
  then have "tp.holds (bt_tasks (cur s)) s" using assms(2) by (simp add: tp.holds_def)
  then have "tp.holds (bt_tasks (cur s)) s'" by (rule tp.task_ops_hold [OF assms(1)])
  with assms(4) have "(\<exists>t'\<in>set (bt_tasks (cur s')). task_step\<^sup>*\<^sup>* t t') \<and> (\<exists>t'\<in>set (bt_tasks (saved s')). task_step\<^sup>*\<^sup>* t t')"
    by (auto simp: tp.holds_def persists_def)
  moreover have "outcome t' = outcome t" if "task_step\<^sup>*\<^sup>* t t'" for t'
    using task_steps_outcome [OF that] assms(5) by (simp add: task_final_def)
  ultimately show ?thesis by blast
qed

theorem ended_task_final_witness:
  "\<exists>t'\<in>set (bt_tasks (saved (fst (clear_all_for_startup None True 500 500 sample_tasks_done)))). bt_status t' = B_SUCCEEDED"
proof -
  obtain t where t: "t \<in> set (bt_tasks (cur sample_tasks_done))" "bt_status t = B_SUCCEEDED"
    "distinct (map bt_id (bt_tasks (cur sample_tasks_done)))"
    using sample_tasks_done_rows(1) by (cases "bt_tasks (cur sample_tasks_done)") auto
  have "task_op\<^sup>*\<^sup>* sample_tasks_done (fst (clear_all_for_startup None True 500 500 sample_tasks_done))"
    by (intro r_into_rtranclp task_op.intros)
  from ended_task_final [OF this sample_tasks_done_rows(2) t(3,1)] t(2)
  obtain t' where "t' \<in> set (bt_tasks (saved (fst (clear_all_for_startup None True 500 500 sample_tasks_done))))"
    "outcome t' = outcome t" by blast
  with outcome_status [of t' t] t(2) show ?thesis by (intro bexI [of _ t']) simp_all
qed

lemma task_ok_columns:
  assumes "task_ok t"
  shows "(bt_audit_execution_record_id t = None \<or> bt_attempt_count t \<le> 1 \<and> (bt_status t \<noteq> B_PENDING \<or> bt_attempt_count t = 0)) \<and>
    (bt_status t = B_RUNNING \<longleftrightarrow> bt_locked_by t \<noteq> None \<and> bt_lock_until t \<noteq> None) \<and>
    (bt_reply_status t = R_RUNNING \<longleftrightarrow> bt_reply_locked_by t \<noteq> None \<and> bt_reply_lock_until t \<noteq> None) \<and>
    (bt_reply_status t \<noteq> R_RUNNING \<or> bt_status t \<in> {B_SUCCEEDED, B_FAILED} \<and> bt_auto_reply t)"
  using assms unfolding task_ok_def by (intro conjI) argo+


lemma sample_tasks_audited: "map (\<lambda>t. (bt_id t, bt_audit_execution_record_id t)) (bt_tasks (cur sample_tasks)) = [(1, Some 7)]"
  by code_simp


end
