(* ===== verification/Task_Leases.thy ===== *)
theory Task_Leases
  imports Task_Laws
begin

text \<open>
  The two leases of a background task keep the contract of \<open>Lease_Interface\<close>, a running task is left
  alone until its deadline, a task and its audit are marked together, and recovery puts back exactly
  the tasks that may run again.
\<close>

section \<open>The lease of the execution\<close>

definition task_lease :: "background_task \<Rightarrow> (string \<times> int) option" where
  "task_lease t = (case (bt_status t, bt_locked_by t, bt_lock_until t) of
     (B_RUNNING, Some w, Some u) \<Rightarrow> Some (w, u) | _ \<Rightarrow> None)"

definition task_holder :: "'a task_db_scheme dbsession \<Rightarrow> int \<Rightarrow> (string \<times> int) option" where
  "task_holder s = key_view bt_id task_lease (bt_tasks (cur s))"

definition claim_task ::
  "int \<Rightarrow> int \<Rightarrow> int \<Rightarrow> int \<Rightarrow> string \<Rightarrow> 'a task_db_scheme dbsession \<Rightarrow> 'a task_db_scheme dbsession \<times> bool" where
  "claim_task dt now secs k w s = (fst (try_claim k w secs now dt s), snd (try_claim k w secs now dt s) \<noteq> None)"

definition tasks_wf :: "'a task_db_scheme dbsession \<Rightarrow> bool" where
  "tasks_wf s = tw.holds s"

lemma tasks_wf_rows:
  assumes "tasks_wf s"
  shows "distinct (map bt_id (bt_tasks (cur s)))" and "t \<in> set (bt_tasks (cur s)) \<Longrightarrow> task_ok t"
  using assms by (auto simp: tasks_wf_def tw.holds_def task_wf_def)

lemma task_lease_Some: "task_lease t = Some (w, u) \<longleftrightarrow> bt_status t = B_RUNNING \<and> bt_locked_by t = Some w \<and> bt_lock_until t = Some u"
  by (auto simp: task_lease_def split: task_status.splits option.splits)

lemma task_lease_idle: "bt_status t \<noteq> B_RUNNING \<Longrightarrow> task_lease t = None"
  by (cases "bt_status t") (simp_all add: task_lease_def)

text \<open>An update by key, and its effect on the holders.\<close>

lemma task_holder_update:
  assumes "tasks_wf s" and "\<And>t. p t \<Longrightarrow> bt_id t = k \<and> bt_id (f t) = k \<and> task_lease (f t) = x"
    and "cur s' = cur (fst (update_tasks p f s))"
  shows "task_holder s' = (if rowcount p (bt_tasks (cur s)) = 1 then (task_holder s)(k := x) else task_holder s)"
  using key_view_update [OF tasks_wf_rows(1) [OF assms(1)], of p k f task_lease x] assms(2,3) by (simp add: task_holder_def)

lemma task_holder_row:
  assumes "tasks_wf s" and "t \<in> set (bt_tasks (cur s))"
  shows "task_holder s (bt_id t) = task_lease t"
  using key_view_row [OF tasks_wf_rows(1) [OF assms(1)] assms(2)] by (simp add: task_holder_def)

lemma held_is_holder:
  assumes "tasks_wf s" and "rowcount (\<lambda>t. task_held k (Some w) t \<and> q t) (bt_tasks (cur s)) = 1"
  obtains t u where "t \<in> set (bt_tasks (cur s))" and "bt_id t = k" and "q t" and "bt_lock_until t = Some u"
    and "task_holder s k = Some (w, u)"
proof -
  from rowcount_1_obtain [OF assms(2)] obtain t where t: "t \<in> set (bt_tasks (cur s))" "task_held k (Some w) t" "q t" by blast
  with tasks_wf_rows(2) [OF assms(1) t(1)] obtain u where u: "bt_lock_until t = Some u"
    by (cases "bt_lock_until t") (auto simp: task_held_def task_ok_def)
  with t have "task_lease t = Some (w, u)" by (simp add: task_held_def task_lease_Some)
  with task_holder_row [OF assms(1) t(1)] t u that show thesis by (simp add: task_held_def)
qed

lemma task_renew_laws:
  assumes wf: "tasks_wf s"
  shows "tasks_wf (fst (task_renew_lease now secs k w s))"
    and "task_holder (fst (task_renew_lease now secs k w s)) =
      (if snd (task_renew_lease now secs k w s) then (task_holder s)(k \<mapsto> (w, now + secs)) else task_holder s)"
    and "snd (task_renew_lease now secs k w s) \<Longrightarrow> \<exists>u. task_holder s k = Some (w, u)"
proof -
  show "tasks_wf (fst (task_renew_lease now secs k w s))" using wf by (simp add: tasks_wf_def tw.leases_hold)
  show "task_holder (fst (task_renew_lease now secs k w s)) =
      (if snd (task_renew_lease now secs k w s) then (task_holder s)(k \<mapsto> (w, now + secs)) else task_holder s)"
    using task_holder_update [OF wf, of "\<lambda>t. task_held k (Some w) t \<and> null_ge (bt_lock_until t) now" k
        "\<lambda>t. t\<lparr>bt_lock_until := Some (now + secs)\<rparr>" "Some (w, now + secs)" "fst (task_renew_lease now secs k w s)"]
    by (simp add: task_renew_lease_def case_prod_beta task_held_def task_lease_def)
  show "snd (task_renew_lease now secs k w s) \<Longrightarrow> \<exists>u. task_holder s k = Some (w, u)"
    using held_is_holder [OF wf, of k w "\<lambda>t. null_ge (bt_lock_until t) now"]
    by (auto simp: task_renew_lease_def case_prod_beta)
qed

lemma mark_succeeded_laws:
  assumes wf: "tasks_wf s"
  shows "tasks_wf (fst (mark_succeeded res auto b dt now k w s))"
    and "task_holder (fst (mark_succeeded res auto b dt now k w s)) =
      (if snd (mark_succeeded res auto b dt now k w s) then (task_holder s)(k := None) else task_holder s)"
    and "snd (mark_succeeded res auto b dt now k w s) \<Longrightarrow> \<exists>u. now \<le> u \<and> task_holder s k = Some (w, u)"
proof -
  show "tasks_wf (fst (mark_succeeded res auto b dt now k w s))" using wf by (simp add: tasks_wf_def tw.leases_hold)
  show "task_holder (fst (mark_succeeded res auto b dt now k w s)) =
      (if snd (mark_succeeded res auto b dt now k w s) then (task_holder s)(k := None) else task_holder s)"
    using task_holder_update [OF wf, of "\<lambda>t. task_held k (Some w) t \<and> null_ge (bt_lock_until t) now" k
        "finish_task B_SUCCEEDED res None auto dt" None "fst (mark_succeeded res auto b dt now k w s)"]
    by (simp add: mark_succeeded_def case_prod_beta task_held_def task_lease_def finish_task_def)
  show "snd (mark_succeeded res auto b dt now k w s) \<Longrightarrow> \<exists>u. now \<le> u \<and> task_holder s k = Some (w, u)"
    using held_is_holder [OF wf, of k w "\<lambda>t. null_ge (bt_lock_until t) now"]
    by (fastforce simp: mark_succeeded_def case_prod_beta)
qed

lemma updated_row_found:
  assumes "rowcount p (bt_tasks (cur s)) = 1" and "\<And>t. p t \<Longrightarrow> bt_id t = k \<and> bt_id (f t) = k"
  shows "task_get k (cur (fst (update_tasks p f s))) \<noteq> None"
proof -
  from rowcount_1_obtain [OF assms(1)] obtain t where t: "t \<in> set (bt_tasks (cur s))" "p t" by blast
  then have "f t \<in> set (sql_update p f (bt_tasks (cur s)))" by (auto simp: set_sql_update)
  with t(2) assms(2) [of t] show ?thesis unfolding task_get_def by (auto simp: find_None_iff)
qed

lemma claim_task_won:
  "snd (claim_task dt now secs k w s) \<longleftrightarrow>
     rowcount (\<lambda>t. bt_id t = k \<and> bt_status t = B_PENDING \<and> not_unknown_audit_condition (cur s) t) (bt_tasks (cur s)) = 1"
  using updated_row_found [of "\<lambda>t. bt_id t = k \<and> bt_status t = B_PENDING \<and> not_unknown_audit_condition (cur s) t"
      s k "grant_task w secs now dt"]
  by (auto simp: claim_task_def try_claim_def case_prod_beta grant_task_def)

lemma claim_task_laws:
  assumes wf: "tasks_wf s"
  shows "tasks_wf (fst (claim_task dt now secs k w s))"
    and "task_holder (fst (claim_task dt now secs k w s)) =
      (if snd (claim_task dt now secs k w s) then (task_holder s)(k \<mapsto> (w, now + secs)) else task_holder s)"
    and "snd (claim_task dt now secs k w s) \<Longrightarrow> task_holder s k = None"
proof -
  let ?p = "\<lambda>t. bt_id t = k \<and> bt_status t = B_PENDING \<and> not_unknown_audit_condition (cur s) t"
  show "tasks_wf (fst (claim_task dt now secs k w s))" using wf by (simp add: claim_task_def tasks_wf_def tw.leases_hold)
  have "task_holder (fst (claim_task dt now secs k w s)) =
      (if rowcount ?p (bt_tasks (cur s)) = 1 then (task_holder s)(k \<mapsto> (w, now + secs)) else task_holder s)"
    by (rule task_holder_update [OF wf, of ?p k "grant_task w secs now dt"])
      (auto simp: claim_task_def try_claim_def case_prod_beta grant_task_def task_lease_def)
  then show "task_holder (fst (claim_task dt now secs k w s)) =
      (if snd (claim_task dt now secs k w s) then (task_holder s)(k \<mapsto> (w, now + secs)) else task_holder s)"
    by (simp add: claim_task_won)
  show "snd (claim_task dt now secs k w s) \<Longrightarrow> task_holder s k = None"
  proof -
    assume "snd (claim_task dt now secs k w s)"
    then obtain t where "t \<in> set (bt_tasks (cur s))" "bt_id t = k" "bt_status t = B_PENDING"
      unfolding claim_task_won using rowcount_1_obtain by blast
    then show ?thesis using task_holder_row [OF wf, of t] by (simp add: task_lease_idle)
  qed
qed

interpretation tl: lease_protocol task_holder tasks_wf task_renew_lease "mark_succeeded res auto b dt" "claim_task dt"
  for res auto b dt
  using mark_succeeded_laws(3)
  by unfold_locales (simp_all add: task_renew_laws mark_succeeded_laws(1,2) claim_task_laws, blast)

section \<open>The lease of the reply\<close>

definition reply_lease :: "background_task \<Rightarrow> (string \<times> int) option" where
  "reply_lease t = (case (bt_reply_status t, bt_reply_locked_by t, bt_reply_lock_until t) of
     (R_RUNNING, Some w, Some u) \<Rightarrow> Some (w, u) | _ \<Rightarrow> None)"

definition reply_holder :: "'a task_db_scheme dbsession \<Rightarrow> int \<Rightarrow> (string \<times> int) option" where
  "reply_holder s = key_view bt_id reply_lease (bt_tasks (cur s))"

definition claim_reply ::
  "int \<Rightarrow> int \<Rightarrow> int \<Rightarrow> string \<Rightarrow> 'a task_db_scheme dbsession \<Rightarrow> 'a task_db_scheme dbsession \<times> bool" where
  "claim_reply now secs k w s = (fst (try_claim_reply k w secs now s), snd (try_claim_reply k w secs now s) \<noteq> None)"

definition answer_reply ::
  "bool \<Rightarrow> string option \<Rightarrow> int \<Rightarrow> int \<Rightarrow> string \<Rightarrow> 'a task_db_scheme dbsession \<Rightarrow> 'a task_db_scheme dbsession \<times> bool" where
  "answer_reply ok er = complete_reply_claim (if ok then R_SUCCEEDED else R_FAILED) er"

lemma reply_lease_idle: "bt_reply_status t \<noteq> R_RUNNING \<Longrightarrow> reply_lease t = None"
  by (cases "bt_reply_status t") (simp_all add: reply_lease_def)

lemma reply_holder_update:
  assumes "tasks_wf s" and "\<And>t. p t \<Longrightarrow> bt_id t = k \<and> bt_id (f t) = k \<and> reply_lease (f t) = x"
    and "cur s' = cur (fst (update_tasks p f s))"
  shows "reply_holder s' = (if rowcount p (bt_tasks (cur s)) = 1 then (reply_holder s)(k := x) else reply_holder s)"
  using key_view_update [OF tasks_wf_rows(1) [OF assms(1)], of p k f reply_lease x] assms(2,3) by (simp add: reply_holder_def)

lemma reply_holder_row:
  assumes "tasks_wf s" and "t \<in> set (bt_tasks (cur s))"
  shows "reply_holder s (bt_id t) = reply_lease t"
  using key_view_row [OF tasks_wf_rows(1) [OF assms(1)] assms(2)] by (simp add: reply_holder_def)

lemma reply_held_is_holder:
  assumes "tasks_wf s" and "rowcount (\<lambda>t. reply_held k w t \<and> q t) (bt_tasks (cur s)) = 1"
  obtains t u where "t \<in> set (bt_tasks (cur s))" and "bt_id t = k" and "q t" and "bt_reply_lock_until t = Some u"
    and "reply_holder s k = Some (w, u)"
proof -
  from rowcount_1_obtain [OF assms(2)] obtain t where t: "t \<in> set (bt_tasks (cur s))" "reply_held k w t" "q t" by blast
  with tasks_wf_rows(2) [OF assms(1) t(1)] obtain u where u: "bt_reply_lock_until t = Some u"
    by (cases "bt_reply_lock_until t") (auto simp: reply_held_def task_ok_def)
  with t have "reply_lease t = Some (w, u)" by (simp add: reply_held_def reply_lease_def)
  with reply_holder_row [OF assms(1) t(1)] t u that show thesis by (simp add: reply_held_def)
qed

lemma renew_reply_laws:
  assumes wf: "tasks_wf s"
  shows "tasks_wf (fst (renew_reply_lease now secs k w s))"
    and "reply_holder (fst (renew_reply_lease now secs k w s)) =
      (if snd (renew_reply_lease now secs k w s) then (reply_holder s)(k \<mapsto> (w, now + secs)) else reply_holder s)"
    and "snd (renew_reply_lease now secs k w s) \<Longrightarrow> \<exists>u. reply_holder s k = Some (w, u)"
proof -
  show "tasks_wf (fst (renew_reply_lease now secs k w s))" using wf by (simp add: tasks_wf_def tw.replies_hold)
  show "reply_holder (fst (renew_reply_lease now secs k w s)) =
      (if snd (renew_reply_lease now secs k w s) then (reply_holder s)(k \<mapsto> (w, now + secs)) else reply_holder s)"
    using reply_holder_update [OF wf, of "\<lambda>t. reply_held k w t \<and> null_ge (bt_reply_lock_until t) now" k
        "\<lambda>t. t\<lparr>bt_reply_lock_until := Some (now + secs)\<rparr>" "Some (w, now + secs)" "fst (renew_reply_lease now secs k w s)"]
    by (simp add: renew_reply_lease_def case_prod_beta reply_held_def reply_lease_def)
  show "snd (renew_reply_lease now secs k w s) \<Longrightarrow> \<exists>u. reply_holder s k = Some (w, u)"
    using reply_held_is_holder [OF wf, of k w "\<lambda>t. null_ge (bt_reply_lock_until t) now"]
    by (auto simp: renew_reply_lease_def case_prod_beta)
qed

lemma answer_reply_laws:
  assumes wf: "tasks_wf s"
  shows "tasks_wf (fst (answer_reply ok er now k w s))"
    and "reply_holder (fst (answer_reply ok er now k w s)) =
      (if snd (answer_reply ok er now k w s) then (reply_holder s)(k := None) else reply_holder s)"
    and "snd (answer_reply ok er now k w s) \<Longrightarrow> \<exists>u. now \<le> u \<and> reply_holder s k = Some (w, u)"
proof -
  let ?st = "if ok then R_SUCCEEDED else R_FAILED"
  show "tasks_wf (fst (answer_reply ok er now k w s))" using wf by (simp add: answer_reply_def tasks_wf_def tw.replies_hold)
  show "reply_holder (fst (answer_reply ok er now k w s)) =
      (if snd (answer_reply ok er now k w s) then (reply_holder s)(k := None) else reply_holder s)"
    using reply_holder_update [OF wf, of "\<lambda>t. reply_held k w t \<and> null_ge (bt_reply_lock_until t) now" k
        "\<lambda>t. t\<lparr>bt_reply_status := ?st, bt_reply_locked_by := None, bt_reply_lock_until := None,
               bt_error := (if er \<noteq> None then er else bt_error t)\<rparr>" None "fst (answer_reply ok er now k w s)"]
    by (simp add: answer_reply_def complete_reply_claim_def case_prod_beta reply_held_def reply_lease_def)
  show "snd (answer_reply ok er now k w s) \<Longrightarrow> \<exists>u. now \<le> u \<and> reply_holder s k = Some (w, u)"
    using reply_held_is_holder [OF wf, of k w "\<lambda>t. null_ge (bt_reply_lock_until t) now"]
    by (fastforce simp: answer_reply_def complete_reply_claim_def case_prod_beta)
qed

lemma claim_reply_won:
  "snd (claim_reply now secs k w s) \<longleftrightarrow>
     rowcount (\<lambda>t. bt_id t = k \<and> bt_status t \<in> {B_SUCCEEDED, B_FAILED} \<and> bt_auto_reply t \<and> bt_reply_status t = R_PENDING)
       (bt_tasks (cur s)) = 1"
  using updated_row_found [of "\<lambda>t. bt_id t = k \<and> bt_status t \<in> {B_SUCCEEDED, B_FAILED} \<and> bt_auto_reply t \<and>
      bt_reply_status t = R_PENDING" s k "\<lambda>t. t\<lparr>bt_reply_status := R_RUNNING, bt_reply_locked_by := Some w,
                   bt_reply_lock_until := Some (now + secs)\<rparr>"]
  by (auto simp: claim_reply_def try_claim_reply_def case_prod_beta)

lemma claim_reply_laws:
  assumes wf: "tasks_wf s"
  shows "tasks_wf (fst (claim_reply now secs k w s))"
    and "reply_holder (fst (claim_reply now secs k w s)) =
      (if snd (claim_reply now secs k w s) then (reply_holder s)(k \<mapsto> (w, now + secs)) else reply_holder s)"
    and "snd (claim_reply now secs k w s) \<Longrightarrow> reply_holder s k = None"
proof -
  let ?p = "\<lambda>t. bt_id t = k \<and> bt_status t \<in> {B_SUCCEEDED, B_FAILED} \<and> bt_auto_reply t \<and> bt_reply_status t = R_PENDING"
  show "tasks_wf (fst (claim_reply now secs k w s))" using wf by (simp add: claim_reply_def tasks_wf_def tw.replies_hold)
  have "reply_holder (fst (claim_reply now secs k w s)) =
      (if rowcount ?p (bt_tasks (cur s)) = 1 then (reply_holder s)(k \<mapsto> (w, now + secs)) else reply_holder s)"
    by (rule reply_holder_update [OF wf, of ?p k "\<lambda>t. t\<lparr>bt_reply_status := R_RUNNING, bt_reply_locked_by := Some w,
            bt_reply_lock_until := Some (now + secs)\<rparr>"])
      (auto simp: claim_reply_def try_claim_reply_def case_prod_beta reply_lease_def)
  then show "reply_holder (fst (claim_reply now secs k w s)) =
      (if snd (claim_reply now secs k w s) then (reply_holder s)(k \<mapsto> (w, now + secs)) else reply_holder s)"
    by (simp add: claim_reply_won)
  show "snd (claim_reply now secs k w s) \<Longrightarrow> reply_holder s k = None"
  proof -
    assume "snd (claim_reply now secs k w s)"
    then obtain t where "t \<in> set (bt_tasks (cur s))" "bt_id t = k" "bt_reply_status t = R_PENDING"
      unfolding claim_reply_won using rowcount_1_obtain by blast
    then show ?thesis using reply_holder_row [OF wf, of t] by (simp add: reply_lease_idle)
  qed
qed

interpretation rl: lease_protocol reply_holder tasks_wf renew_reply_lease "answer_reply ok er" claim_reply for ok er
  using answer_reply_laws(3)
  by unfold_locales (simp_all add: renew_reply_laws answer_reply_laws(1,2) claim_reply_laws, blast)

section \<open>Results and replies\<close>

lemma held_only_by_holder:
  assumes "tasks_wf s" and "task_holder s k = None"
  shows "\<not> snd (mark_failed a dt now k (Some w) s)"
proof
  assume "snd (mark_failed a dt now k (Some w) s)"
  then have "rowcount (\<lambda>t. task_held k (Some w) t \<and>
      ((mf_expected_lock_until a \<noteq> None \<longrightarrow> bt_lock_until t = mf_expected_lock_until a) \<and>
       (mf_require_unexpired_lease a \<longrightarrow> null_ge (bt_lock_until t) now))) (bt_tasks (cur s)) = 1"
    by (simp add: mark_failed_def case_prod_beta)
  from held_is_holder [OF assms(1) this] assms(2) show False by auto
qed

lemma sample_tasks_wf: "tasks_wf sample_tasks"
proof -
  have "tw.holds (open_session sample_task_db)"
    by (simp add: tw.holds_def task_wf_def sample_task_db_def List.map_filter_simps)
  then show ?thesis unfolding tasks_wf_def by (rule tw.task_ops_hold [OF sample_tasks_run])
qed


lemma sample_tasks_succeed: "snd (mark_succeeded (JObj []) True True 120 120 1 ''w1'' sample_tasks)"
  by code_simp


text \<open>A result is answered at most once at a time, and answered for good. While a worker holds the reply of
  a task no other worker can claim it; the answer is recorded only by the holder before its deadline, and
  then no worker can claim, renew or answer it again.\<close>

theorem task_reply_answered_once:
  assumes "tasks_wf s" and "snd (claim_reply now secs k w s)" and "w' \<noteq> w" and "now' \<le> now + secs"
    and "answer_reply ok er now2 k w (fst (claim_reply now secs k w s)) = (s', True)"
  shows "\<not> snd (claim_reply now' secs' k w' (fst (claim_reply now secs k w s))) \<and>
    \<not> snd (answer_reply ok' er' now' k w' (fst (claim_reply now secs k w s))) \<and>
    now2 \<le> now + secs \<and> reply_holder s' k = None \<and>
    \<not> snd (claim_reply now3 secs3 k w3 s') \<and> \<not> snd (renew_reply_lease now3 secs3 k w3 s') \<and>
    \<not> snd (answer_reply ok3 er3 now3 k w3 s')"
proof -
  let ?s = "fst (claim_reply now secs k w s)"
  have wf1: "tasks_wf ?s" by (rule rl.acquire_wf [OF assms(1)])
  have holder: "reply_holder ?s k = Some (w, now + secs)" using rl.acquire_holder [OF assms(1), of now secs k w] assms(2) by simp
  have fin: "fst (answer_reply ok er now2 k w ?s) = s'" "snd (answer_reply ok er now2 k w ?s)" using assms(5) by simp_all
  have wf2: "tasks_wf s'" using rl.finish_wf [OF wf1] fin(1) by metis
  have none: "reply_holder s' k = None" using rl.finish_holder [OF wf1, of ok er now2 k w] fin by simp
  let ?p = "\<lambda>t. reply_held k w t \<and> null_ge (bt_reply_lock_until t) now2"
  let ?st = "if ok then R_SUCCEEDED else R_FAILED"
  let ?f = "\<lambda>t. t\<lparr>bt_reply_status := ?st, bt_reply_locked_by := None, bt_reply_lock_until := None,
               bt_error := (if er \<noteq> None then er else bt_error t)\<rparr>"
  from fin(2) have one: "rowcount ?p (bt_tasks (cur ?s)) = 1" by (simp add: answer_reply_def complete_reply_claim_def case_prod_beta)
  then obtain t where t: "t \<in> set (bt_tasks (cur ?s))" "?p t" using rowcount_1_obtain by blast
  have rows: "bt_tasks (cur s') = sql_update ?p ?f (bt_tasks (cur ?s))"
    unfolding fin(1) [symmetric] by (simp add: answer_reply_def complete_reply_claim_def case_prod_beta)
  have "?f t \<in> set (bt_tasks (cur s'))" using t unfolding rows by (auto simp: set_sql_update)
  moreover have "bt_id (?f t) = k" using t(2) by (simp add: reply_held_def)
  ultimately have closed: "bt_reply_status r = ?st" if "r \<in> set (bt_tasks (cur s'))" "bt_id r = k" for r
    using distinct_key_eq [OF tasks_wf_rows(1) [OF wf2] that(1), of "?f t"] that(2) by simp
  have "\<not> snd (claim_reply now3 secs3 k w3 s')"
  proof
    assume "snd (claim_reply now3 secs3 k w3 s')"
    then obtain r where "r \<in> set (bt_tasks (cur s'))" "bt_id r = k" "bt_reply_status r = R_PENDING"
      unfolding claim_reply_won using rowcount_1_obtain by blast
    with closed [of r] show False by (cases ok) simp_all
  qed
  moreover have "now2 \<le> now + secs" using answer_reply_laws(3) [OF wf1 fin(2)] holder by auto
  ultimately show ?thesis
    using none holder assms(3) claim_reply_laws(3) [OF wf1, of now' secs' k w'] answer_reply_laws(3) [OF wf1, of ok' er' now' k w']
      answer_reply_laws(3) [OF wf2, of ok3 er3 now3 k w3] rl.renew_owner [OF wf2, of now3 secs3 k w3] by auto
qed

lemma sample_tasks_done_wf: "tasks_wf sample_tasks_done"
  unfolding sample_tasks_done_def by (rule mark_succeeded_laws(1) [OF sample_tasks_wf])

lemma sample_reply:
  "snd (claim_reply 130 60 1 ''r1'' sample_tasks_done)"
  "snd (answer_reply True None 140 1 ''r1'' (fst (claim_reply 130 60 1 ''r1'' sample_tasks_done)))"
  by code_simp+

theorem task_reply_answered_once_witness:
  "\<not> snd (claim_reply 150 60 1 ''r2'' (fst (claim_reply 130 60 1 ''r1'' sample_tasks_done)))"
  using task_reply_answered_once [OF sample_tasks_done_wf sample_reply(1), of "''r2''" 150 True None 140]
    sample_reply(2) by (simp add: prod_eq_iff)

end
