(* ===== verification/Task_Audit.thy ===== *)
theory Task_Audit
  imports Task_Leases Audit_Laws
begin

text \<open>
  A running task is left alone until its deadline; a task and its audited execution are marked together;
  recovery puts back exactly the expired tasks that may run again.
\<close>

section \<open>A running task is protected\<close>

text \<open>The operations of the other workers before the deadline \<open>u\<close> of \<open>w\<close>; cancelling is not among them.\<close>

inductive foreign_op :: "string \<Rightarrow> int \<Rightarrow> 'a task_db_scheme dbsession \<Rightarrow> 'a task_db_scheme dbsession \<Rightarrow> bool"
  for w u where
  "foreign_op w u s (fst (create_task a b lt s))"
| "foreign_op w u s (fst (try_claim k w' secs now dt s))"
| "w' \<noteq> w \<Longrightarrow> foreign_op w u s (fst (task_renew_lease now secs k w' s))"
| "w' \<noteq> w \<Longrightarrow> foreign_op w u s (fst (task_mark_execution_started k w' e now s))"
| "w' \<noteq> w \<Longrightarrow> foreign_op w u s (fst (mark_succeeded res auto b dt now k w' s))"
| "wo \<noteq> Some w \<Longrightarrow> foreign_op w u s (fst (mark_failed fa dt now k wo s))"
| "wo \<noteq> Some w \<Longrightarrow> foreign_op w u s (fst (task_mark_execution_unknown reason res auto req ex lt dt now k wo s))"
| "w' \<noteq> w \<Longrightarrow> foreign_op w u s (fst (release_claim k w' ex lt dt now s))"
| "now \<le> u \<Longrightarrow> foreign_op w u s (fst (requeue_expired_running pid reason mx lt dt now s))"
| "foreign_op w u s (fst (try_claim_reply k w' secs now s))"
| "foreign_op w u s (fst (recover_expired_replies now s))"
| "foreign_op w u s (commit s)"
| "foreign_op w u s (rollback s)"

definition keeps :: "background_task \<Rightarrow> 'a task_db_scheme dbsession \<Rightarrow> bool" where
  "keeps t s \<longleftrightarrow> t \<in> set (bt_tasks (cur s)) \<and> t \<in> set (bt_tasks (saved s))"

lemma keeps_transaction [simp, intro!]:
  "keeps t s \<Longrightarrow> keeps t (commit s)" "keeps t s \<Longrightarrow> keeps t (rollback s)" "keeps t s \<Longrightarrow> keeps t (commit_if b s)"
  by (simp_all add: keeps_def commit_if_def)

lemma keeps_update: "keeps t s \<Longrightarrow> \<not> p t \<Longrightarrow> keeps t (fst (update_tasks p f s))"
  by (auto simp: keeps_def set_sql_update)

lemma keeps_create: "keeps t s \<Longrightarrow> keeps t (fst (create_task a b lt s))"
proof -
  assume k: "keeps t s"
  then have "keeps t (execute (\<lambda>d. d\<lparr>bt_tasks := bt_tasks d @ [t']\<rparr>) s)" for t' by (simp add: keeps_def execute_def)
  with k show ?thesis by (auto simp: create_task_def Let_def split: option.split)
qed

lemma keeps_failed:
  assumes "keeps t s"
    and "\<not> (task_held k wo t \<and> (mf_expected_lock_until a \<noteq> None \<longrightarrow> bt_lock_until t = mf_expected_lock_until a))"
  shows "keeps t (fst (mark_failed a dt now k wo s))"
  using assms by (auto simp: mark_failed_def case_prod_beta intro!: keeps_update)

lemma keeps_unknown:
  assumes "keeps t s" and "\<not> (task_held k wo t \<and> (ex \<noteq> None \<longrightarrow> bt_lock_until t = ex))"
  shows "keeps t (fst (task_mark_execution_unknown er res auto req ex lt dt now k wo s))"
proof -
  obtain s' m where m: "task_mark_execution_unknown er res auto req ex lt dt now k wo s = (s', m)" by (meson surj_pair)
  have "keeps t s'"
  proof (cases rule: task_unknown_cases [OF m])
    case 3
    have "keeps t (fst (mark_failed (unknown_failure er res auto req ex t') dt now k wo s))" for t'
      using keeps_failed [OF assms(1), of k wo "unknown_failure er res auto req ex t'" dt now] assms(2) by (auto simp: unknown_failure_def)
    with 3 show ?thesis by (auto simp: keeps_def)
  qed (use assms(1) in \<open>auto simp: keeps_def\<close>)
  with m show ?thesis by simp
qed

lemma keeps_release:
  assumes "keeps t s" and "bt_locked_by t = Some w" and "w' \<noteq> w"
  shows "keeps t (fst (release_claim k w' ex lt dt now s))"
  using assms by (auto simp: release_claim_def case_prod_beta Let_def task_held_def intro!: keeps_unknown keeps_update
      split: option.split)

lemma keeps_requeue_each:
  assumes "keeps t s" and "bt_lock_until t = Some u" and "now \<le> u" and "\<forall>r\<in>set ts. null_lt (bt_lock_until r) now"
  shows "keeps t (fst (requeue_each er mx lt dt now ts ids s))"
  using assms(1,4)
proof (induction ts arbitrary: s ids)
  case (Cons r ts)
  then have exp: "bt_lock_until r \<noteq> Some u" "bt_lock_until r \<noteq> None" using assms(3) by (auto simp: null_lt_iff)
  obtain s1 m where m: "task_mark_execution_unknown ''ERR_BACKGROUND_TASK_EXECUTION_UNKNOWN'' (unknown_result r)
      (bt_auto_reply r) False (bt_lock_until r) lt dt now (bt_id r) (bt_locked_by r) s = (s1, m)" by (meson surj_pair)
  have k1: "keeps t s1" using keeps_unknown [OF Cons.prems(1)] exp assms(2) m by (metis fst_conv)
  have free: "\<not> still_expired r now t" using exp assms(2) by (simp add: still_expired_def)
  show ?case using Cons k1 m free by (auto simp: Let_def case_prod_beta intro!: Cons.IH keeps_update split: bool.split)
qed simp

lemma keeps_requeue:
  assumes "keeps t s" and "bt_lock_until t = Some u" and "now \<le> u"
  shows "keeps t (fst (requeue_expired_running pid er mx lt dt now s))"
  using keeps_requeue_each [OF assms] assms(1)
  by (auto simp: requeue_expired_running_def Let_def case_prod_beta split: sum.splits)

lemma foreign_op_keeps:
  assumes "foreign_op w u s s'" and "keeps t s" and "bt_status t = B_RUNNING" and "bt_locked_by t = Some w"
    and "bt_lock_until t = Some u"
  shows "keeps t s'"
  using assms
  by (induction rule: foreign_op.induct)
    (auto simp: try_claim_def task_renew_lease_def task_mark_execution_started_def mark_succeeded_def task_held_def
      try_claim_reply_def recover_expired_replies_def case_prod_beta
      intro!: keeps_create keeps_failed keeps_unknown keeps_release keeps_requeue keeps_update)

text \<open>A running task belongs to its worker until the deadline. Whatever the other workers do before the
  deadline, claims, renewals, results, releases and the recovery of expired tasks, in any order, committed or
  rolled back, no column of the task changes.\<close>

theorem running_task_protected:
  assumes "(foreign_op w u)\<^sup>*\<^sup>* s s'" and "cur s = saved s" and "t \<in> set (bt_tasks (cur s))"
    and "bt_status t = B_RUNNING" and "bt_locked_by t = Some w" and "bt_lock_until t = Some u"
  shows "t \<in> set (bt_tasks (cur s')) \<and> t \<in> set (bt_tasks (saved s'))"
proof -
  have "keeps t s" using assms(2,3) by (simp add: keeps_def)
  from assms(1) this have "keeps t s'"
    by (induction rule: rtranclp_induct) (use foreign_op_keeps assms(4-6) in blast)+
  then show ?thesis by (simp add: keeps_def)
qed

lemma sample_tasks_committed: "cur sample_tasks = saved sample_tasks"
  by code_simp

theorem running_task_protected_witness:
  "\<exists>t\<in>set (bt_tasks (cur (fst (requeue_expired_running 1 ''e'' 3 150 150 150 sample_tasks)))). bt_status t = B_RUNNING"
proof -
  obtain t where t: "t \<in> set (bt_tasks (cur sample_tasks))" "bt_status t = B_RUNNING" "bt_locked_by t = Some ''w1''"
    "bt_lock_until t = Some 160"
    using sample_tasks_rows by (cases "bt_tasks (cur sample_tasks)") auto
  have "(foreign_op ''w1'' 160)\<^sup>*\<^sup>* sample_tasks (fst (requeue_expired_running 1 ''e'' 3 150 150 150 sample_tasks))"
    by (intro r_into_rtranclp foreign_op.intros) simp
  from running_task_protected [OF this sample_tasks_committed t] t(2) show ?thesis by blast
qed

section \<open>A task and its audit are marked together\<close>

text \<open>What the audit says about the execution attempt of a task.\<close>

definition attempt_is :: "execution_status \<Rightarrow> background_task \<Rightarrow> 'a task_db_scheme \<Rightarrow> bool" where
  "attempt_is st t d \<longleftrightarrow> (\<exists>k. bt_audit_execution_record_id t = Some k \<and>
     (\<exists>x\<in>set (ad_executions d). ae_id x = k \<and> ae_status x = st))"

definition record_is :: "audit_status \<Rightarrow> background_task \<Rightarrow> 'a task_db_scheme \<Rightarrow> bool" where
  "record_is st t d \<longleftrightarrow> (\<exists>i. bt_audit_record_id t = Some i \<and> (\<exists>r\<in>set (ad_records d). ar_id r = i \<and> ar_status r = st))"

lemma updated_row_exists: "rowcount p t = 1 \<Longrightarrow> (\<And>r. p r \<Longrightarrow> q (f r)) \<Longrightarrow> \<exists>r\<in>set (sql_update p f t). q r"
  using rowcount_1_obtain [of p t] by (auto simp: set_sql_update)

lemma audit_mark_unknown_sets:
  assumes "mark_execution_unknown i token reason (Some k) b lt s = (s', True)"
  shows "(\<exists>x\<in>set (ad_executions (cur s')). ae_id x = k \<and> ae_status x = X_EXECUTION_UNKNOWN) \<and>
    (\<exists>r\<in>set (ad_records (cur s')). ar_id r = i \<and> ar_status r = A_EXECUTION_UNKNOWN)"
proof -
  let ?p = "\<lambda>x. running_in i token x \<and> ae_id x = k" and ?q = "\<lambda>x. running_in i token x \<and> ae_id x \<noteq> k"
  let ?L = "lose_execution reason lt"
  from assms have n: "rowcount ?p (ad_executions (cur s)) = 1" and r: "rowcount (executing_with i token) (ad_records (cur s)) = 1"
    and ex: "ad_executions (cur s') = sql_update ?q ?L (sql_update ?p ?L (ad_executions (cur s)))"
    and rs: "ad_records (cur s') = sql_update (executing_with i token) (end_round A_EXECUTION_UNKNOWN (Some reason) lt) (ad_records (cur s))"
    by (auto simp: mark_execution_unknown_def Let_def case_prod_beta split: if_splits)
  from rowcount_1_obtain [OF n] obtain x where x: "x \<in> set (ad_executions (cur s))" "?p x" by blast
  then have "?L x \<in> set (ad_executions (cur s'))" unfolding ex
    by (auto simp: set_sql_update running_in_def lose_execution_def)
  moreover have "\<exists>r\<in>set (ad_records (cur s')). ar_id r = i \<and> ar_status r = A_EXECUTION_UNKNOWN"
    unfolding rs by (rule updated_row_exists [OF r]) (simp add: executing_with_def end_round_def)
  ultimately show ?thesis using x(2) by (auto simp: lose_execution_def intro!: bexI [of _ "?L x"])
qed

lemma mark_audit_unknown_sets:
  assumes "mark_audit_unknown t reason lt s = (s', True)"
  shows "attempt_is X_EXECUTION_UNKNOWN t (cur s') \<and> record_is A_EXECUTION_UNKNOWN t (cur s')"
  using assms audit_mark_unknown_sets
  by (auto simp: mark_audit_unknown_def attempt_is_def record_is_def split: option.splits) blast+

lemma mark_audit_cancelled_sets:
  assumes "mark_audit_cancelled t reason lt s = (s', True)"
  shows "attempt_is X_CANCELLED t (cur s')"
proof -
  from assms obtain i k where t: "bt_audit_record_id t = Some i" "bt_audit_execution_record_id t = Some k"
    by (auto simp: mark_audit_cancelled_def split: option.splits)
  with assms obtain x where x: "get_execution_record k (cur s) = Some x"
    by (auto simp: mark_audit_cancelled_def split: option.splits)
  obtain s1 b where b: "cancel_execution_attempt i k (ae_claim_token x) reason False lt s = (s1, b)" by (meson surj_pair)
  with assms t x have ok: "snd (cancel_execution_attempt i k (ae_claim_token x) reason False lt s)"
    and s': "s' = fst (finish_execution_round_if_complete i (ae_claim_token x) False lt
        (fst (cancel_execution_attempt i k (ae_claim_token x) reason False lt s)))"
    by (auto simp: mark_audit_cancelled_def split: bool.splits)
  let ?p = "\<lambda>y. ae_id y = k \<and> ae_audit_record_id y = i \<and> ae_claim_token y = ae_claim_token x \<and> ae_status y = X_RUNNING \<and>
      (\<exists>r\<in>set (ad_records (cur s)). executing_with i (ae_claim_token x) r)"
  let ?f = "\<lambda>y. y\<lparr>ae_status := X_CANCELLED, ae_error := Some reason, ae_finished_at := Some lt\<rparr>"
  have n: "rowcount ?p (ad_executions (cur s)) = 1" using ok by (simp add: cancel_execution_attempt_def Let_def case_prod_beta)
  have "ad_executions (cur s') = sql_update ?p ?f (ad_executions (cur s))"
    unfolding s' by (simp add: finish_execution_round_if_complete_def cancel_execution_attempt_def Let_def case_prod_beta)
  with updated_row_exists [OF n, of "\<lambda>y. ae_id y = k \<and> ae_status y = X_CANCELLED" ?f] t show ?thesis
    by (auto simp: attempt_is_def)
qed

lemma audit_is_unknown_sets:
  "audit_is_unknown t d \<Longrightarrow> attempt_is X_EXECUTION_UNKNOWN t d \<and> record_is A_EXECUTION_UNKNOWN t d"
  by (auto simp: audit_is_unknown_def attempt_is_def record_is_def get_execution_record_def get_record_def
      split: option.splits dest!: find_Some_iff_in)

text \<open>C20: A lost execution is recorded in the task and in its audit together, or in neither. When marking a task
  as unknown succeeds, everything is committed: the task has failed with the given result, and if it is bound
  to an audited execution, both the attempt and its record are in the state unknown. When it fails, the
  transaction has been rolled back to the last commit, or nothing was written.\<close>

theorem unknown_mark_atomic:
  assumes "task_mark_execution_unknown er res auto req ex lt dt now k w s = (s', m)"
  shows "(m \<and> saved s' = cur s' \<and> (\<exists>t. task_get k (cur s) = Some t \<and>
        (\<exists>t'\<in>set (bt_tasks (cur s')). bt_id t' = k \<and> bt_status t' = B_FAILED \<and> bt_result t' = res \<and> bt_error t' = Some er) \<and>
        (bt_audit_execution_record_id t = None \<or>
         attempt_is X_EXECUTION_UNKNOWN t (cur s') \<and> record_is A_EXECUTION_UNKNOWN t (cur s')))) \<or>
    (\<not> m \<and> saved s' = saved s \<and> (cur s' = saved s \<or> cur s' = cur s))"
proof (cases rule: task_unknown_cases [OF assms, case_names missing lost marked])
  case (marked t)
  let ?a = "unknown_failure er res auto req ex t"
  define s1 where "s1 = fst (mark_failed ?a dt now k w s)"
  let ?p = "\<lambda>t. task_held k w t \<and> (mf_expected_lock_until ?a \<noteq> None \<longrightarrow> bt_lock_until t = mf_expected_lock_until ?a) \<and>
                 (mf_require_unexpired_lease ?a \<longrightarrow> null_ge (bt_lock_until t) now)"
  have n: "rowcount ?p (bt_tasks (cur s)) = 1" using marked(4) by (simp add: mark_failed_def case_prod_beta)
  have rows: "bt_tasks (cur s') = sql_update ?p (\<lambda>t. (finish_task B_FAILED (mf_result ?a) (Some (mf_error ?a)) (mf_auto_reply ?a) dt t)
      \<lparr>bt_extra := (case mf_extra ?a of None \<Rightarrow> bt_extra t | Some x \<Rightarrow> x)\<rparr>) (bt_tasks (cur s))"
    unfolding marked(5) by (simp add: mark_failed_def case_prod_beta)
  have row: "\<exists>t'\<in>set (bt_tasks (cur s')). bt_id t' = k \<and> bt_status t' = B_FAILED \<and> bt_result t' = res \<and> bt_error t' = Some er"
    unfolding rows by (rule updated_row_exists [OF n]) (simp add: finish_task_def unknown_failure_def task_held_def)
  have "bt_audit_execution_record_id t = None \<or>
      attempt_is X_EXECUTION_UNKNOWN t (cur s') \<and> record_is A_EXECUTION_UNKNOWN t (cur s')"
    using marked(6) mark_audit_unknown_sets [of t er lt s1] audit_is_unknown_sets [of t "cur s'"]
    by (auto simp: s1_def [symmetric] prod_eq_iff)
  with marked row show ?thesis by blast
qed simp_all

text \<open>A task bound to the attempt of an audited round.\<close>

definition sample_bound :: "task_db dbsession" where
  "sample_bound = fst (try_claim 1 ''w1'' 60 100 100 (fst (create_task (sample_task 1 ''shell'' (Some 1)) True 5
     (fst (create_execution_attempt 1 1 ''t'' ''n'' ''new'' 4 (fst (claim_passed_for_execution 1 ''t'' 3
       (fst (complete_preparation id sample_preparation 2 (fst (create_preparing id sample_preparing 1
         (open_session sample_task_db))))))))))))"

lemma sample_bound_unknown:
  "snd (task_mark_execution_unknown ''e'' JNull True False None 200 200 200 1 (Some ''w1'') sample_bound)"
  "map_option bt_audit_execution_record_id (task_get 1 (cur sample_bound)) = Some (Some 1)"
  by code_simp+

theorem unknown_mark_atomic_witness:
  "\<exists>x\<in>set (ad_executions (saved (fst (task_mark_execution_unknown ''e'' JNull True False None 200 200 200 1 (Some ''w1'') sample_bound)))).
     ae_id x = 1 \<and> ae_status x = X_EXECUTION_UNKNOWN"
  using unknown_mark_atomic [OF prod.collapse [symmetric], of "''e''" JNull True False None 200 200 200 1 "Some ''w1''" sample_bound]
    sample_bound_unknown by (auto simp: attempt_is_def)

section \<open>Cancelling a task\<close>

lemma user_task_row:
  "get_user_task k uid d = Some t \<Longrightarrow> t \<in> set (bt_tasks d) \<and> bt_id t = k \<and> bt_uid t = uid"
  unfolding get_user_task_def by (drule find_Some_iff_in) simp

lemma cancel_conditionally_result:
  assumes "cancel_task_conditionally t False True lt now s = (s1, True)" and "distinct (map bt_id (bt_tasks (cur s)))"
  shows "saved s1 = saved s \<and> distinct (map bt_id (bt_tasks (cur s1))) \<and>
    (\<exists>r\<in>set (bt_tasks (cur s)). bt_id r = bt_id t \<and> cancelled lt r \<in> set (bt_tasks (cur s1)))"
proof -
  let ?p = "\<lambda>r. bt_id r = bt_id t \<and> bt_status r = bt_status t \<and>
                 (bt_status t = B_RUNNING \<longrightarrow> bt_locked_by r = bt_locked_by t \<and> bt_lock_until r = bt_lock_until t \<and>
                    null_ge (bt_lock_until r) now)"
  let ?f = "\<lambda>r. (cancelled lt r)\<lparr>bt_session_id := bt_session_id r\<rparr>"
  from assms(1) have s1: "s1 = fst (update_tasks ?p ?f s)" and n: "rowcount ?p (bt_tasks (cur s)) = 1"
    by (simp_all add: cancel_task_conditionally_def case_prod_beta)
  from rowcount_1_obtain [OF n] obtain r where r: "r \<in> set (bt_tasks (cur s))" "?p r" by blast
  then have "?f r \<in> set (bt_tasks (cur s1))" unfolding s1 by (auto simp: set_sql_update)
  moreover have "?f r = cancelled lt r" by (simp add: cancelled_def close_reply_def)
  moreover have "map bt_id (bt_tasks (cur s1)) = map bt_id (bt_tasks (cur s))"
    unfolding s1 by (simp add: map_sql_update cancelled_def close_reply_def)
  ultimately show ?thesis using r s1 assms(2) by auto
qed

text \<open>C21: Cancelling a task is all or nothing, with its audit. Cancelling an active task of the user either
  commits that the task is cancelled and needs no reply, together with its audited attempt, which is
  cancelled if the task was waiting and of unknown outcome if it was running, and takes the task from its
  worker; or it leaves the tables as they were last committed and returns the task as it is there.\<close>

theorem cancel_user_task_atomic:
  assumes "tasks_wf s" and "get_user_task k uid (cur s) = Some t" and "bt_status t \<in> {B_PENDING, B_RUNNING}"
    and "cancel_user_task k uid lt now s = (s', r)"
  shows "(saved s' = cur s' \<and> task_holder s' k = None \<and>
      (\<exists>t'\<in>set (bt_tasks (cur s')). r = Some t' \<and> bt_id t' = k \<and> bt_status t' = B_CANCELLED \<and>
         bt_reply_status t' = R_NONE \<and> \<not> bt_auto_reply t') \<and>
      (bt_audit_execution_record_id t = None \<or>
       attempt_is (if bt_status t = B_RUNNING then X_EXECUTION_UNKNOWN else X_CANCELLED) t (cur s'))) \<or>
    (cur s' = saved s \<and> saved s' = saved s \<and> r = get_user_task k uid (saved s))"
proof -
  note t = user_task_row [OF assms(2)]
  have wf': "tasks_wf s'" using tw.cancel_user_task_holds [of s k uid lt now] assms(1,4) by (simp add: tasks_wf_def)
  obtain s1 b where b: "cancel_task_conditionally t False True lt now s = (s1, b)" by (meson surj_pair)
  define a where "a = (if bt_audit_execution_record_id t = None then (s1, True)
       else if bt_status t = B_RUNNING then mark_audit_unknown t ''ERR_BACKGROUND_TASK_EXECUTION_UNKNOWN'' lt s1
       else mark_audit_cancelled t ''ERR_BACKGROUND_TASK_CANCELLED_BEFORE_EXECUTION'' lt s1)"
  obtain s2 c where c: "a = (s2, c)" by (meson surj_pair)
  have sv: "saved s1 = saved s" using b by (auto simp: cancel_task_conditionally_def case_prod_beta)
  have s2: "saved s2 = saved s1" "bt_tasks (cur s2) = bt_tasks (cur s1)"
    using c audit_marks_keep_tasks unfolding a_def by (metis fst_conv)+
  have "\<not> task_final (bt_status t)" using assms(3) by (auto simp: task_final_def)
  with assms(2,4) b c have out: "(s', r) = (if \<not> b then (rollback s1, get_user_task k uid (saved s1))
      else if \<not> c then (rollback s2, get_user_task k uid (saved s2)) else (commit s2, task_get (bt_id t) (cur s2)))"
    unfolding a_def by (cases b; cases c) (simp_all add: cancel_user_task_def)
  show ?thesis
  proof (cases "b \<and> c")
    case False
    with out sv s2 show ?thesis by (auto split: if_splits)
  next
    case True
    with out have s': "s' = commit s2" "r = task_get k (cur s2)" using t by simp_all
    from True b have "cancel_task_conditionally t False True lt now s = (s1, True)" by simp
    from cancel_conditionally_result [OF this tasks_wf_rows(1) [OF assms(1)]] t obtain q where
      q: "bt_id q = k" "cancelled lt q \<in> set (bt_tasks (cur s1))" "distinct (map bt_id (bt_tasks (cur s1)))" by blast
    let ?q = "cancelled lt q"
    have qf: "bt_id ?q = k" "bt_status ?q = B_CANCELLED" "bt_reply_status ?q = R_NONE" "\<not> bt_auto_reply ?q"
      using q(1) by (simp_all add: cancelled_def close_reply_def)
    have r: "r = Some ?q" using distinct_key_find [OF q(3,2)] qf(1) s2(2) s'(2) by (simp add: task_get_def)
    have in': "?q \<in> set (bt_tasks (cur s'))" using q(2) s2(2) s'(1) by simp
    then have "task_holder s' k = None" using task_holder_row [OF wf' in'] qf by (simp add: task_lease_idle)
    moreover have "bt_audit_execution_record_id t = None \<or>
       attempt_is (if bt_status t = B_RUNNING then X_EXECUTION_UNKNOWN else X_CANCELLED) t (cur s')"
      using True c mark_audit_unknown_sets [of t _ lt s1 s2] mark_audit_cancelled_sets [of t _ lt s1 s2] s'(1) unfolding a_def by (auto split: if_splits)
    ultimately show ?thesis using r in' qf s'(1) by auto
  qed
qed

lemma sample_bound_wf: "tasks_wf sample_bound"
proof -
  have "tw.holds (fst (create_execution_attempt 1 1 ''t'' ''n'' ''new'' 4 (fst (claim_passed_for_execution 1 ''t'' 3
       (fst (complete_preparation id sample_preparation 2 (fst (create_preparing id sample_preparing 1
         (open_session sample_task_db)))))))))" (is "tw.holds ?s")
  proof -
    have "bt_tasks (cur ?s) = [] \<and> bt_tasks (saved ?s) = []" by code_simp
    then show ?thesis by (simp add: tw.holds_def task_wf_def List.map_filter_simps)
  qed
  from tw.leases_hold(1) [OF tw.create_task_holds [OF this]] show ?thesis
    unfolding tasks_wf_def sample_bound_def .
qed

lemma sample_bound_task:
  "map_option bt_status (get_user_task 1 ''u'' (cur sample_bound)) = Some B_RUNNING"
  "map_option bt_status (snd (cancel_user_task 1 ''u'' 130 130 sample_bound)) = Some B_CANCELLED"
  "map_option bt_status (get_user_task 1 ''u'' (saved sample_bound)) = Some B_RUNNING"
  by code_simp+

theorem cancel_user_task_atomic_witness: "task_holder (fst (cancel_user_task 1 ''u'' 130 130 sample_bound)) 1 = None"
proof -
  obtain t where t: "get_user_task 1 ''u'' (cur sample_bound) = Some t" "bt_status t = B_RUNNING"
    using sample_bound_task(1) by auto
  from cancel_user_task_atomic [OF sample_bound_wf t(1) _ prod.collapse [symmetric], of 130 130] t(2) sample_bound_task(2,3)
  show ?thesis by auto
qed

end
