(* ===== verification/Task_Recovery.thy ===== *)
theory Task_Recovery
  imports Task_Audit
begin

text \<open>
  Recovery after a crash: expired tasks that cannot have had an effect are put back or, when their attempts
  are used up, failed; the start-up clears everything that was under way.
\<close>

section \<open>The recovery loop as one table update\<close>

definition put_back :: "background_task \<Rightarrow> background_task" where
  "put_back t = t\<lparr>bt_status := B_PENDING, bt_locked_by := None, bt_lock_until := None\<rparr>"

definition recovered :: "string \<Rightarrow> int \<Rightarrow> int \<Rightarrow> background_task \<Rightarrow> background_task" where
  "recovered error mx dt t =
     (if mx \<le> bt_attempt_count t
      then finish_task B_FAILED (build_background_task_failure_result (bt_tool_name t) error) (Some error) (bt_auto_reply t) dt t
      else put_back t)"

definition task_expired :: "int \<Rightarrow> int \<Rightarrow> background_task \<Rightarrow> bool" where
  "task_expired pid now t \<longleftrightarrow> bt_profile_id t = pid \<and> bt_status t = B_RUNNING \<and> null_lt (bt_lock_until t) now"

lemma recovered_id [simp]: "bt_id (recovered error mx dt t) = bt_id t"
  by (simp add: recovered_def put_back_def finish_task_def)

lemma requeue_plain_step:
  assumes "distinct (map bt_id (bt_tasks (cur s)))" and "t \<in> set (bt_tasks (cur s))" and "task_expired pid now t"
    and "bt_audit_execution_record_id t = None" and "\<not> has_origin_work t"
  obtains s1 where "requeue_each error mx lt dt now (t # ts) ids s =
      requeue_each error mx lt dt now ts (if mx \<le> bt_attempt_count t \<and> bt_auto_reply t then ids @ [bt_id t] else ids) s1"
    and "bt_tasks (cur s1) = map (\<lambda>r. if r = t then recovered error mx dt r else r) (bt_tasks (cur s))"
    and "saved s1 = saved s"
proof
  let ?F = "finish_task B_FAILED (build_background_task_failure_result (bt_tool_name t) error) (Some error) (bt_auto_reply t) dt"
  let ?s1 = "fst (update_tasks (still_expired t now) (if mx \<le> bt_attempt_count t then ?F else put_back) s)"
  have exp: "still_expired t now t" using assms(3) by (simp add: still_expired_def task_expired_def)
  have "rowcount (still_expired t now) (bt_tasks (cur s)) = 1"
    using rowcount_key_eq_1 [OF assms(1), of "still_expired t now" "bt_id t"] assms(2) exp by (auto simp: still_expired_def)
  then show "requeue_each error mx lt dt now (t # ts) ids s =
      requeue_each error mx lt dt now ts (if mx \<le> bt_attempt_count t \<and> bt_auto_reply t then ids @ [bt_id t] else ids) ?s1"
    using assms(4,5) by (simp add: Let_def case_prod_beta put_back_def [abs_def])
  have "sql_update (still_expired t now) g (bt_tasks (cur s)) = map (\<lambda>r. if r = t then g t else r) (bt_tasks (cur s))" for g
    by (rule sql_update_one [where k = bt_id]) (use assms(1,2) exp in \<open>simp_all add: still_expired_def\<close>)
  then show "bt_tasks (cur ?s1) = map (\<lambda>r. if r = t then recovered error mx dt r else r) (bt_tasks (cur s))"
    by (auto simp: recovered_def)
  show "saved ?s1 = saved s" by simp
qed

lemma requeue_plain:
  assumes "distinct (map bt_id (bt_tasks (cur s)))" and "distinct ts" and "set ts \<subseteq> set (bt_tasks (cur s))"
    and "\<forall>t\<in>set ts. task_expired pid now t \<and> bt_audit_execution_record_id t = None \<and> \<not> has_origin_work t"
  shows "\<exists>s1. requeue_each error mx lt dt now ts ids s =
      (s1, Inr (ids @ map bt_id (filter (\<lambda>t. mx \<le> bt_attempt_count t \<and> bt_auto_reply t) ts))) \<and>
    bt_tasks (cur s1) = map (\<lambda>r. if r \<in> set ts then recovered error mx dt r else r) (bt_tasks (cur s)) \<and> saved s1 = saved s"
  using assms
proof (induction ts arbitrary: s ids)
  case Nil
  then show ?case by simp
next
  case (Cons t ts)
  from Cons.prems obtain s1 where s1: "requeue_each error mx lt dt now (t # ts) ids s =
      requeue_each error mx lt dt now ts (if mx \<le> bt_attempt_count t \<and> bt_auto_reply t then ids @ [bt_id t] else ids) s1"
    and rows: "bt_tasks (cur s1) = map (\<lambda>r. if r = t then recovered error mx dt r else r) (bt_tasks (cur s))"
    and sv: "saved s1 = saved s"
    using requeue_plain_step [of s t pid now error mx lt dt ts ids] by auto
  have "map bt_id (bt_tasks (cur s1)) = map bt_id (bt_tasks (cur s))" unfolding rows by simp
  then have d1: "distinct (map bt_id (bt_tasks (cur s1)))" using Cons.prems(1) by (simp only:)
  have sub: "set ts \<subseteq> set (bt_tasks (cur s1))" using Cons.prems(2,3) unfolding rows by auto
  have ts: "distinct ts" "\<forall>t\<in>set ts. task_expired pid now t \<and> bt_audit_execution_record_id t = None \<and> \<not> has_origin_work t"
    using Cons.prems by simp_all
  from Cons.IH [OF d1 ts(1) sub ts(2)] obtain s2 where s2: "requeue_each error mx lt dt now ts (if mx \<le> bt_attempt_count t \<and> bt_auto_reply t then ids @ [bt_id t] else ids) s1 =
      (s2, Inr ((if mx \<le> bt_attempt_count t \<and> bt_auto_reply t then ids @ [bt_id t] else ids) @
         map bt_id (filter (\<lambda>t. mx \<le> bt_attempt_count t \<and> bt_auto_reply t) ts)))"
    "bt_tasks (cur s2) = map (\<lambda>r. if r \<in> set ts then recovered error mx dt r else r) (bt_tasks (cur s1))" "saved s2 = saved s1"
    by blast
  have new: "recovered error mx dt t \<notin> set ts"
  proof
    assume "recovered error mx dt t \<in> set ts"
    then have "task_expired pid now (recovered error mx dt t)" using Cons.prems(4) by simp
    then show False by (simp add: recovered_def put_back_def finish_task_def task_expired_def split: if_splits)
  qed
  have "bt_tasks (cur s2) = map (\<lambda>r. if r \<in> set (t # ts) then recovered error mx dt r else r) (bt_tasks (cur s))"
    unfolding s2(2) rows map_map
  proof (rule map_cong [OF refl])
    fix r show "((\<lambda>r. if r \<in> set ts then recovered error mx dt r else r) \<circ> (\<lambda>r. if r = t then recovered error mx dt r else r)) r =
        (if r \<in> set (t # ts) then recovered error mx dt r else r)"
      by (cases "r = t") (use new in simp_all)
  qed
  moreover have "requeue_each error mx lt dt now (t # ts) ids s =
      (s2, Inr (ids @ map bt_id (filter (\<lambda>t. mx \<le> bt_attempt_count t \<and> bt_auto_reply t) (t # ts))))"
    unfolding s1 s2(1) by simp
  moreover have "saved s2 = saved s" using s2(3) sv by simp
  ultimately show ?case by blast
qed

text \<open>Recovering expired tasks is one step on the table. When none of the expired tasks of the profile is
  bound to an audited execution or to a waiting work item, the loop is equivalent to updating the table once:
  an expired task with attempts left is waiting again without a holder, one without has failed with the given
  error, every other row is unchanged, the identifiers returned are exactly those of the failed tasks whose
  result is to be answered, and everything is committed.\<close>

theorem requeue_equals_bulk_update:
  assumes "tasks_wf s" and "cur s = saved s"
    and "\<forall>t\<in>set (bt_tasks (cur s)). task_expired pid now t \<longrightarrow> bt_audit_execution_record_id t = None \<and> \<not> has_origin_work t"
    and "requeue_expired_running pid error mx lt dt now s = (s', res)"
  shows "bt_tasks (cur s') = map (\<lambda>t. if task_expired pid now t then recovered error mx dt t else t) (bt_tasks (cur s)) \<and>
    bt_tasks (saved s') = bt_tasks (cur s') \<and>
    res = Inr (map bt_id (filter (\<lambda>t. task_expired pid now t \<and> mx \<le> bt_attempt_count t \<and> bt_auto_reply t) (bt_tasks (cur s))))"
proof -
  let ?ts = "filter (task_expired pid now) (bt_tasks (cur s))"
  have dist: "distinct (map bt_id (bt_tasks (cur s)))" by (rule tasks_wf_rows(1) [OF assms(1)])
  have ex: "filter (\<lambda>t. bt_profile_id t = pid \<and> bt_status t = B_RUNNING \<and> null_lt (bt_lock_until t) now) (bt_tasks (cur s)) = ?ts"
    by (simp add: task_expired_def [abs_def])
  from dist have "distinct ?ts" by (simp add: distinct_map)
  moreover have "set ?ts \<subseteq> set (bt_tasks (cur s))" by simp
  moreover have "\<forall>t\<in>set ?ts. task_expired pid now t \<and> bt_audit_execution_record_id t = None \<and> \<not> has_origin_work t"
    using assms(3) by simp
  ultimately obtain s1 where
    s1: "requeue_each error mx lt dt now ?ts [] s = (s1, Inr (map bt_id (filter (\<lambda>t. mx \<le> bt_attempt_count t \<and> bt_auto_reply t) ?ts)))"
    "bt_tasks (cur s1) = map (\<lambda>r. if r \<in> set ?ts then recovered error mx dt r else r) (bt_tasks (cur s))" "saved s1 = saved s"
    using requeue_plain [OF dist, of ?ts pid now error mx lt dt "[]"] unfolding append_Nil by blast
  have rows: "bt_tasks (cur s1) = map (\<lambda>t. if task_expired pid now t then recovered error mx dt t else t) (bt_tasks (cur s))"
    unfolding s1(2) by (intro map_cong refl) simp
  have s': "s' = (if ?ts \<noteq> [] then commit s1 else s1)"
    and res: "res = Inr (map bt_id (filter (\<lambda>t. mx \<le> bt_attempt_count t \<and> bt_auto_reply t) ?ts))"
    using assms(4) s1(1) by (simp_all add: requeue_expired_running_def ex Let_def)
  have "bt_tasks (cur s1) = bt_tasks (saved s1)" if "?ts = []"
    using that assms(2) unfolding s1(2,3) by simp
  then have "bt_tasks (saved s') = bt_tasks (cur s')" "cur s' = cur s1" unfolding s' by simp_all
  then show ?thesis using rows res by (simp only: filter_filter)
qed

definition sample_plain :: "task_db dbsession" where
  "sample_plain = fst (try_claim 1 ''w1'' 60 100 100
     (fst (create_task (sample_task 1 ''shell'' None) True 1 (open_session sample_task_db))))"

lemma sample_plain_wf: "tasks_wf sample_plain"
proof -
  have "tw.holds (open_session sample_task_db)"
    by (simp add: tw.holds_def task_wf_def sample_task_db_def List.map_filter_simps)
  from tw.leases_hold(1) [OF tw.create_task_holds [OF this]] show ?thesis unfolding tasks_wf_def sample_plain_def .
qed

lemma sample_plain_rows:
  "\<forall>t\<in>set (bt_tasks (cur sample_plain)). task_expired 1 200 t \<longrightarrow> bt_audit_execution_record_id t = None \<and> \<not> has_origin_work t"
  "cur sample_plain = saved sample_plain"
  "map (\<lambda>t. (task_expired 1 200 t, bt_attempt_count t)) (bt_tasks (cur sample_plain)) = [(True, 1)]"
  by code_simp+

theorem requeue_equals_bulk_update_witness:
  "map bt_status (bt_tasks (cur (fst (requeue_expired_running 1 ''e'' 3 200 200 200 sample_plain)))) = [B_PENDING]"
  using requeue_equals_bulk_update [OF sample_plain_wf sample_plain_rows(2,1) prod.collapse [symmetric], of "''e''" 3 200 200]
    sample_plain_rows(3) by (cases "bt_tasks (cur sample_plain)") (auto simp: recovered_def put_back_def)

section \<open>What a failing mark undoes\<close>

text \<open>Two expired tasks: the first has used up its attempts and asks for a reply, the second is bound to an
  attempt the audit no longer has. Marking the second as unknown fails and rolls the session back, with it the
  failure of the first; the identifier of the first is returned nevertheless, and the first is still running.\<close>

definition sample_undone :: "task_db dbsession" where
  "sample_undone = fst (try_claim 2 ''w1'' 60 100 100 (fst (create_task (sample_task 2 ''shell'' (Some 9)) True 1 sample_plain)))"

lemma requeue_reports_undone_failure:
  "snd (requeue_expired_running 1 ''e'' 1 200 200 200 sample_undone) = Inr [1]"
  "map (\<lambda>t. (bt_id t, bt_status t)) (bt_tasks (saved (fst (requeue_expired_running 1 ''e'' 1 200 200 200 sample_undone)))) =
    [(1, B_RUNNING), (2, B_RUNNING)]"
  by code_simp+

end
