(* ===== verification/Py_Text.thy ===== *)
theory Py_Text
  imports Prelude "HOL-Library.Sublist"
begin

text \<open>
  Python strings, as far as the modelled text algorithms use them. A text is the list of its
  code points (the code handles Chinese punctuation and whitespace outside ASCII). The
  operations of the standard library have Python's behaviour: \<open>strip\<close> and the pattern \<open>\s\<close> use
  the whitespace of \<open>str.isspace\<close>; a slice accepts negative and out-of-range bounds; \<open>find\<close>
  returns \<open>-1\<close> when there is no match; \<open>split\<close> and \<open>join\<close> are literal.
\<close>

type_synonym py_text = "nat list"

named_theorems text_simps \<open>rewrite rules for texts\<close>

section \<open>Characters\<close>

definition NL :: nat where "NL = 10"
definition CR :: nat where "CR = 13"
definition SP :: nat where "SP = 32"

definition py_isspace :: "nat \<Rightarrow> bool" where
  "py_isspace c \<longleftrightarrow> c \<in> {9, 10, 11, 12, 13, 28, 29, 30, 31, 32, 133, 160, 5760, 8232, 8233, 8239,
     8287, 12288} \<or> 8192 \<le> c \<and> c \<le> 8202"

lemma py_isspace_control [simp]: "py_isspace NL" "py_isspace CR" "py_isspace SP"
  by (simp_all add: py_isspace_def NL_def CR_def SP_def)

lemma CR_NL [simp]: "CR \<noteq> NL" "NL \<noteq> CR"
  by (simp_all add: NL_def CR_def)

section \<open>Stripping\<close>

definition lstrip :: "py_text \<Rightarrow> py_text" where
  "lstrip t = dropWhile py_isspace t"

definition rstrip :: "py_text \<Rightarrow> py_text" where
  "rstrip t = rev (dropWhile py_isspace (rev t))"

definition strip :: "py_text \<Rightarrow> py_text" where
  "strip t = rstrip (lstrip t)"

definition blank :: "py_text \<Rightarrow> bool" where
  "blank t \<longleftrightarrow> strip t = []"

definition ink :: "py_text \<Rightarrow> py_text" where
  "ink t = filter (\<lambda>c. \<not> py_isspace c) t"

lemma strip_Nil [simp]: "lstrip [] = []" "rstrip [] = []" "strip [] = []"
  by (simp_all add: lstrip_def rstrip_def strip_def)

lemma ink_append [simp]: "ink (a @ b) = ink a @ ink b"
  by (simp add: ink_def)

lemma ink_Nil [simp]: "ink [] = []"
  by (simp add: ink_def)

lemma ink_Cons: "ink (c # t) = (if py_isspace c then ink t else c # ink t)"
  by (simp add: ink_def)

lemma ink_rev: "ink (rev t) = rev (ink t)"
  by (simp add: ink_def rev_filter)

lemma ink_dropWhile [simp]: "ink (dropWhile py_isspace t) = ink t"
  by (induction t) (auto simp: ink_def)

lemma ink_strip [simp]: "ink (lstrip t) = ink t" "ink (rstrip t) = ink t" "ink (strip t) = ink t"
proof -
  show l: "ink (lstrip t) = ink t" for t
    by (simp add: lstrip_def)
  show r: "ink (rstrip t) = ink t" for t
    by (metis ink_dropWhile ink_rev rev_rev_ident rstrip_def)
  show "ink (strip t) = ink t"
    by (simp add: strip_def r l)
qed

lemma ink_Nil_iff: "ink t = [] \<longleftrightarrow> (\<forall>c\<in>set t. py_isspace c)"
  by (auto simp: ink_def filter_empty_conv)

lemma strip_empty_iff: "strip t = [] \<longleftrightarrow> (\<forall>c\<in>set t. py_isspace c)"
proof
  assume "strip t = []"
  then have "ink (strip t) = []" by simp
  then show "\<forall>c\<in>set t. py_isspace c" by (simp add: ink_Nil_iff)
next
  assume "\<forall>c\<in>set t. py_isspace c"
  then have "lstrip t = []" by (metis dropWhile_eq_Nil_conv lstrip_def)
  then show "strip t = []" by (simp add: strip_def)
qed

lemma lstrip_drop: "lstrip t = drop (length t - length (lstrip t)) t"
proof -
  have e: "t = takeWhile py_isspace t @ lstrip t" by (simp add: lstrip_def)
  then have "length t = length (takeWhile py_isspace t) + length (lstrip t)"
    by (metis length_append)
  then have "length t - length (lstrip t) = length (takeWhile py_isspace t)" by simp
  then show ?thesis using e by (metis append_eq_conv_conj)
qed

lemma rstrip_take: "rstrip t = take (length (rstrip t)) t"
proof -
  have "rev t = takeWhile py_isspace (rev t) @ dropWhile py_isspace (rev t)" by simp
  then have "t = rstrip t @ rev (takeWhile py_isspace (rev t))"
    by (metis rev_append rev_rev_ident rstrip_def)
  then show ?thesis by (metis append_eq_conv_conj)
qed

lemma length_lstrip_le: "length (lstrip t) \<le> length t"
  by (simp add: lstrip_def length_dropWhile_le)

lemma length_rstrip_le: "length (rstrip t) \<le> length t"
  by (metis length_dropWhile_le length_rev rstrip_def)

text \<open>A text is stripped when neither end is whitespace.\<close>

definition stripped :: "py_text \<Rightarrow> bool" where
  "stripped t \<longleftrightarrow> t \<noteq> [] \<and> \<not> py_isspace (hd t) \<and> \<not> py_isspace (last t)"

lemma strip_stripped: "strip t \<noteq> [] \<Longrightarrow> stripped (strip t)"
proof -
  assume ne: "strip t \<noteq> []"
  let ?l = "lstrip t"
  have l: "?l \<noteq> []" using ne by (auto simp: strip_def)
  have h: "\<not> py_isspace (hd ?l)" using l by (simp add: lstrip_def hd_dropWhile)
  have s: "strip t = rstrip ?l" by (simp add: strip_def)
  have la: "\<not> py_isspace (last (rstrip ?l))"
  proof -
    have "dropWhile py_isspace (rev ?l) \<noteq> []" using ne by (auto simp: strip_def rstrip_def)
    then have "\<not> py_isspace (hd (dropWhile py_isspace (rev ?l)))" by (rule hd_dropWhile)
    then show ?thesis by (simp add: rstrip_def last_rev)
  qed
  have "hd (rstrip ?l) = hd ?l"
    using ne s rstrip_take [of ?l] by (metis hd_take length_greater_0_conv)
  then show ?thesis using ne h la s by (simp add: stripped_def)
qed

lemma strip_of_stripped: "stripped t \<Longrightarrow> strip t = t"
proof -
  assume s: "stripped t"
  have l: "lstrip t = t" using s by (cases t) (auto simp: stripped_def lstrip_def)
  have "rev t \<noteq> []" "\<not> py_isspace (hd (rev t))" using s by (auto simp: stripped_def hd_rev)
  then have "dropWhile py_isspace (rev t) = rev t" by (cases "rev t") auto
  then have "rstrip t = t" by (simp add: rstrip_def)
  then show ?thesis by (simp add: strip_def l)
qed

lemma strip_decomp:
  assumes "strip t \<noteq> []"
  obtains a b where "t = a @ strip t @ b" "\<forall>c\<in>set a. py_isspace c" "\<forall>c\<in>set b. py_isspace c"
    "lstrip t = strip t @ b" "rstrip t = a @ strip t"
proof -
  let ?a = "takeWhile py_isspace t"
  let ?b = "rev (takeWhile py_isspace (rev (lstrip t)))"
  have t: "t = ?a @ lstrip t" by (simp add: lstrip_def)
  have "rev (lstrip t) = takeWhile py_isspace (rev (lstrip t)) @ dropWhile py_isspace (rev (lstrip t))"
    by simp
  then have l: "lstrip t = strip t @ ?b"
    by (metis rev_append rev_rev_ident rstrip_def strip_def)
  have sa: "\<forall>c\<in>set ?a. py_isspace c" and sb: "\<forall>c\<in>set ?b. py_isspace c"
    by (auto dest: set_takeWhileD)
  have st: "stripped (strip t)" using assms by (rule strip_stripped)
  have eq: "t = ?a @ strip t @ ?b" using t l by metis
  have "rev t = rev ?b @ rev (strip t) @ rev ?a"
    by (subst eq) simp
  moreover have "\<not> py_isspace (hd (rev (strip t)))" "rev (strip t) \<noteq> []"
    using st by (auto simp: stripped_def hd_rev)
  ultimately have "dropWhile py_isspace (rev t) = rev (strip t) @ rev ?a"
    using sb by (cases "rev (strip t)") (auto simp: dropWhile_append2)
  then have "rstrip t = ?a @ strip t" by (simp add: rstrip_def)
  then show ?thesis using that eq sa sb l by blast
qed

section \<open>Slices\<close>

definition slice_bound :: "nat \<Rightarrow> int \<Rightarrow> nat" where
  "slice_bound n i = (if i < 0 then nat (i + int n) else min (nat i) n)"

definition py_slice :: "'a list \<Rightarrow> int \<Rightarrow> int \<Rightarrow> 'a list" where
  "py_slice t i j = (let a = slice_bound (length t) i; b = slice_bound (length t) j
     in take (b - a) (drop a t))"

definition sub :: "'a list \<Rightarrow> nat \<Rightarrow> nat \<Rightarrow> 'a list" where
  "sub t a b = take (b - a) (drop a t)"

lemma py_slice_nat: "py_slice t (int a) (int b) = sub t a b"
proof -
  have "take (min b (length t) - min a (length t)) (drop (min a (length t)) t) = take (b - a) (drop a t)"
    by (cases "a \<le> length t"; cases "b \<le> length t") (auto simp: min_def)
  then show ?thesis by (simp add: py_slice_def slice_bound_def sub_def Let_def)
qed

lemma py_slice_int: "0 \<le> a \<Longrightarrow> 0 \<le> b \<Longrightarrow> py_slice t a b = sub t (nat a) (nat b)"
  using py_slice_nat [of t "nat a" "nat b"] by simp

lemma length_sub: "length (sub t a b) = min (b - a) (length t - a)"
  by (simp add: sub_def min.commute)

lemma sub_sub: "b \<le> d - c \<Longrightarrow> sub (sub t c d) a b = sub t (c + a) (c + b)"
proof -
  assume "b \<le> d - c"
  then have m: "min (b - a) (d - c - a) = b - a" by simp
  have "sub (sub t c d) a b = take (b - a) (take (d - c - a) (drop a (drop c t)))"
    by (simp only: sub_def drop_take)
  also have "\<dots> = take (b - a) (drop (c + a) t)"
    by (simp only: take_take m drop_drop add.commute)
  finally show ?thesis by (simp add: sub_def)
qed

lemma sub_append: "a \<le> b \<Longrightarrow> b \<le> c \<Longrightarrow> sub t a b @ sub t b c = sub t a c"
proof -
  assume "a \<le> b" "b \<le> c"
  then have "c - a = (b - a) + (c - b)" "b = (b - a) + a" by simp_all
  then show ?thesis unfolding sub_def
    by (metis drop_drop take_add)
qed

lemma sub_all: "sub t 0 (length t) = t"
  by (simp add: sub_def)

lemma sub_0: "sub t 0 n = take n t"
  by (simp add: sub_def)

lemma nth_sub: "i < b - a \<Longrightarrow> b \<le> length t \<Longrightarrow> sub t a b ! i = t ! (a + i)"
  by (simp add: sub_def)

end
