(* ===== verification/Text_Splitter.thy ===== *)
theory Text_Splitter
  imports Py_Text
begin

text \<open>
  The text splitter of the knowledge base (\<open>src/app/core/utils/text_splitter.py\<close>): it normalises
  a text into paragraphs, packs short paragraphs into chunks, cuts long paragraphs at sentence
  boundaries with an overlap, and records for every chunk the span of the normalised text it
  stands for. The generator that cuts a long paragraph is a \<open>partial_function\<close> on options:
  \<open>None\<close> means that the loop does not end. \<open>int(chunk_size * 0.6)\<close> is \<open>3 * chunk_size div 5\<close>,
  which floating point computes exactly for sizes below \<open>2 ^ 50\<close>.
\<close>

section \<open>Normalisation\<close>

text \<open>\<open>text.replace("\r\n", "\n")\<close>\<close>

fun replace_crlf :: "py_text \<Rightarrow> py_text" where
  "replace_crlf (a # b # t) =
     (if a = CR \<and> b = NL then NL # replace_crlf t else a # replace_crlf (b # t))"
| "replace_crlf t = t"

text \<open>
  \<open>re.split(r"\n\s*\n+", text)\<close>. From a line feed, the greedy \<open>\s*\<close> takes the whole run of
  whitespace and then gives back characters until a line feed follows, so a match ends behind
  the last line feed of the run; without a line feed in the run there is no match here.
\<close>

definition behind_break :: "py_text \<Rightarrow> py_text" where
  "behind_break t =
     rev (takeWhile (\<lambda>c. c \<noteq> NL) (rev (takeWhile py_isspace t))) @ dropWhile py_isspace t"

definition break_here :: "py_text \<Rightarrow> bool" where
  "break_here t = (case t of [] \<Rightarrow> False | c # cs \<Rightarrow> c = NL \<and> NL \<in> set (takeWhile py_isspace cs))"

lemma length_behind_break: "length (behind_break t) \<le> length t"
proof -
  have "length (takeWhile (\<lambda>c. c \<noteq> NL) (rev (takeWhile py_isspace t))) \<le> length (takeWhile py_isspace t)"
    using length_takeWhile_le [of "\<lambda>c. c \<noteq> NL" "rev (takeWhile py_isspace t)"] by simp
  moreover have "length t = length (takeWhile py_isspace t) + length (dropWhile py_isspace t)"
    by (metis length_append takeWhile_dropWhile_id)
  ultimately show ?thesis by (simp add: behind_break_def)
qed

function split_breaks :: "py_text \<Rightarrow> py_text \<Rightarrow> py_text list" where
  "split_breaks acc [] = [rev acc]"
| "split_breaks acc (c # cs) =
     (if break_here (c # cs) then rev acc # split_breaks [] (behind_break cs)
      else split_breaks (c # acc) cs)"
  by pat_completeness auto
termination
  by (relation "measure (\<lambda>(acc, t). length t)") (auto simp: less_Suc_eq_le length_behind_break)

text \<open>\<open>"\n\n".join(paragraphs)\<close>\<close>

fun join_paragraphs :: "py_text list \<Rightarrow> py_text" where
  "join_paragraphs [] = []"
| "join_paragraphs [p] = p"
| "join_paragraphs (p # q # ps) = p @ [NL, NL] @ join_paragraphs (q # ps)"

definition paragraphs_of :: "py_text \<Rightarrow> py_text list" where
  "paragraphs_of t = filter (\<lambda>p. p \<noteq> []) (map strip (split_breaks [] t))"

fun paragraph_spans :: "int \<Rightarrow> py_text list \<Rightarrow> (py_text \<times> int \<times> int) list" where
  "paragraph_spans cursor [] = []"
| "paragraph_spans cursor (p # ps) =
     (p, cursor, cursor + int (length p)) # paragraph_spans (cursor + int (length p) + 2) ps"

section \<open>Chunks and splitters\<close>

record split_chunk =
  chunk_content :: py_text
  chunk_start :: int
  chunk_end :: int

record text_splitter =
  chunk_size :: int
  chunk_overlap :: int

definition make_splitter :: "int \<Rightarrow> int \<Rightarrow> py_error + text_splitter" where
  "make_splitter csize overlap =
     (if overlap \<ge> csize then Inl (ParameterException ''ERR_KB_CHUNK_OVERLAP_ERROR'')
      else Inr \<lparr>chunk_size = csize, chunk_overlap = overlap\<rparr>)"

section \<open>Cutting a long paragraph\<close>

text \<open>The characters \<open>"\<dots>.!?;\n"\<close>, the first four of them the full-width ones.\<close>

definition boundary_chars :: "nat list" where
  "boundary_chars = [12290, 65281, 65311, 65307, 46, 33, 63, 59, 10]"

definition find_sentence_boundary :: "text_splitter \<Rightarrow> py_text \<Rightarrow> int \<Rightarrow> int \<Rightarrow> int" where
  "find_sentence_boundary sp text start hard_end =
     (if hard_end \<ge> int (length text) then hard_end
      else (case find (\<lambda>i. text ! nat i \<in> set boundary_chars)
                   (rev [start + max (3 * chunk_size sp div 5) 1 .. hard_end - 1]) of
              Some i \<Rightarrow> i + 1
            | None \<Rightarrow> hard_end))"

definition chunk_stop :: "text_splitter \<Rightarrow> py_text \<Rightarrow> int \<Rightarrow> int" where
  "chunk_stop sp text start =
     find_sentence_boundary sp text start (min (start + chunk_size sp) (int (length text)))"

definition trimmed_chunk :: "py_text \<Rightarrow> int \<Rightarrow> int \<Rightarrow> int \<Rightarrow> split_chunk list" where
  "trimmed_chunk text base start stop =
     (let raw = py_slice text start stop; chunk = strip raw;
          leading = int (length raw) - int (length (lstrip raw));
          trailing = int (length raw) - int (length (rstrip raw))
      in if chunk \<noteq> []
         then [\<lparr>chunk_content = chunk, chunk_start = base + start + leading,
                chunk_end = base + stop - trailing\<rparr>]
         else [])"

definition next_start :: "text_splitter \<Rightarrow> int \<Rightarrow> int \<Rightarrow> int" where
  "next_start sp start stop =
     (if stop - chunk_overlap sp > start then stop - chunk_overlap sp
      else start + (chunk_size sp - chunk_overlap sp))"

partial_function (option) split_long ::
    "text_splitter \<Rightarrow> py_text \<Rightarrow> int \<Rightarrow> int \<Rightarrow> split_chunk list option" where
  "split_long sp text base start =
     (if start < int (length text)
      then if chunk_stop sp text start \<ge> int (length text)
           then Some (trimmed_chunk text base start (chunk_stop sp text start))
           else Option.bind
                  (split_long sp text base (next_start sp start (chunk_stop sp text start)))
                  (\<lambda>rest. Some (trimmed_chunk text base start (chunk_stop sp text start) @ rest))
      else Some [])"

declare split_long.simps [code]

definition split_long_text_with_spans :: "text_splitter \<Rightarrow> py_text \<Rightarrow> int \<Rightarrow> split_chunk list option" where
  "split_long_text_with_spans sp text base = split_long sp text base 0"

definition split_long_text :: "text_splitter \<Rightarrow> py_text \<Rightarrow> py_text list option" where
  "split_long_text sp text = map_option (map chunk_content) (split_long_text_with_spans sp text 0)"

section \<open>Packing paragraphs\<close>

text \<open>
  The local variables of \<open>_split_with_spans\<close>. The generator is run to its end before its chunks
  are added, which makes no difference because it has no effects and, for every splitter that
  \<open>make_splitter\<close> returns, ends.
\<close>

record split_state =
  st_chunks :: "split_chunk list"
  st_total_chars :: int
  st_current :: py_text
  st_current_start :: "int option"
  st_current_end :: "int option"

definition empty_split :: split_state where
  "empty_split = \<lparr>st_chunks = [], st_total_chars = 0, st_current = [], st_current_start = None,
     st_current_end = None\<rparr>"

definition limit_reached :: "int option \<Rightarrow> int \<Rightarrow> bool" where
  "limit_reached limit n = (case limit of None \<Rightarrow> False | Some m \<Rightarrow> n \<ge> m)"

definition limit_exceeded :: "int option \<Rightarrow> int \<Rightarrow> bool" where
  "limit_exceeded limit n = (case limit of None \<Rightarrow> False | Some m \<Rightarrow> n > m)"

definition add_chunk ::
    "int option \<Rightarrow> int option \<Rightarrow> split_chunk \<Rightarrow> split_state \<Rightarrow> py_error + split_state" where
  "add_chunk max_chunks max_total_chars chunk st =
     (if chunk_content chunk = [] then Inr st
      else if limit_reached max_chunks (int (length (st_chunks st)))
      then Inl (ParameterException ''ERR_KB_CHUNK_COUNT_EXCEEDED'')
      else if limit_exceeded max_total_chars (st_total_chars st + int (length (chunk_content chunk)))
      then Inl (ParameterException ''ERR_KB_CHUNK_TOTAL_CHARS_EXCEEDED'')
      else Inr (st\<lparr>st_chunks := st_chunks st @ [chunk],
                   st_total_chars := st_total_chars st + int (length (chunk_content chunk))\<rparr>))"

fun add_chunks ::
    "int option \<Rightarrow> int option \<Rightarrow> split_chunk list \<Rightarrow> split_state \<Rightarrow> py_error + split_state" where
  "add_chunks mc mt [] st = Inr st"
| "add_chunks mc mt (c # cs) st =
     (case add_chunk mc mt c st of Inl e \<Rightarrow> Inl e | Inr st' \<Rightarrow> add_chunks mc mt cs st')"

definition current_chunk :: "split_state \<Rightarrow> split_chunk" where
  "current_chunk st = \<lparr>chunk_content = strip (st_current st),
     chunk_start = (case st_current_start st of None \<Rightarrow> 0 | Some i \<Rightarrow> i),
     chunk_end = (case st_current_end st of None \<Rightarrow> 0 | Some i \<Rightarrow> i)\<rparr>"

definition add_current :: "int option \<Rightarrow> int option \<Rightarrow> split_state \<Rightarrow> py_error + split_state" where
  "add_current mc mt st =
     (if st_current st \<noteq> [] then add_chunk mc mt (current_chunk st) st else Inr st)"

definition clear_current :: "split_state \<Rightarrow> split_state" where
  "clear_current st =
     (if st_current st \<noteq> []
      then st\<lparr>st_current := [], st_current_start := None, st_current_end := None\<rparr> else st)"

definition set_current :: "py_text \<Rightarrow> int \<Rightarrow> int \<Rightarrow> split_state \<Rightarrow> split_state" where
  "set_current p s e st =
     st\<lparr>st_current := p, st_current_start := Some s, st_current_end := Some e\<rparr>"

definition candidate :: "split_state \<Rightarrow> py_text \<Rightarrow> py_text" where
  "candidate st p = (if st_current st \<noteq> [] then st_current st @ [NL, NL] @ p else p)"

definition extend_current :: "py_text \<Rightarrow> int \<Rightarrow> int \<Rightarrow> split_state \<Rightarrow> split_state" where
  "extend_current p s e st =
     st\<lparr>st_current := candidate st p,
        st_current_start := (if st_current st = [] then Some s else st_current_start st),
        st_current_end := Some e\<rparr>"

text \<open>One pass of the loop over the paragraphs.\<close>

definition split_paragraph ::
    "text_splitter \<Rightarrow> int option \<Rightarrow> int option \<Rightarrow> py_text \<times> int \<times> int \<Rightarrow> split_state \<Rightarrow>
     (py_error + split_state) option" where
  "split_paragraph sp mc mt span st =
     (case span of (p, s, e) \<Rightarrow>
        if int (length p) > chunk_size sp
        then (case add_current mc mt st of
                Inl err \<Rightarrow> Some (Inl err)
              | Inr st' \<Rightarrow> Option.bind (split_long_text_with_spans sp p s)
                  (\<lambda>chunks. Some (add_chunks mc mt chunks (clear_current st'))))
        else if int (length (candidate st p)) \<le> chunk_size sp
        then Some (Inr (extend_current p s e st))
        else Some (case add_current mc mt st of
                     Inl err \<Rightarrow> Inl err
                   | Inr st' \<Rightarrow> Inr (set_current p s e st')))"

fun split_spans ::
    "text_splitter \<Rightarrow> int option \<Rightarrow> int option \<Rightarrow> (py_text \<times> int \<times> int) list \<Rightarrow> split_state \<Rightarrow>
     (py_error + split_state) option" where
  "split_spans sp mc mt [] st = Some (add_current mc mt st)"
| "split_spans sp mc mt (span # spans) st =
     (case split_paragraph sp mc mt span st of
        None \<Rightarrow> None
      | Some (Inl err) \<Rightarrow> Some (Inl err)
      | Some (Inr st') \<Rightarrow> split_spans sp mc mt spans st')"

definition split_with_spans ::
    "text_splitter \<Rightarrow> py_text \<Rightarrow> int option \<Rightarrow> int option \<Rightarrow>
     (py_error + py_text \<times> split_chunk list) option" where
  "split_with_spans sp text mc mt =
     (let t = strip (replace_crlf text); ps = paragraphs_of t in
      if t = [] then Some (Inr ([], []))
      else (case split_spans sp mc mt (paragraph_spans 0 ps) empty_split of
              None \<Rightarrow> None
            | Some (Inl err) \<Rightarrow> Some (Inl err)
            | Some (Inr st) \<Rightarrow> Some (Inr (join_paragraphs ps, st_chunks st))))"

definition split_text ::
    "text_splitter \<Rightarrow> py_text \<Rightarrow> int option \<Rightarrow> int option \<Rightarrow> (py_error + py_text list) option" where
  "split_text sp text mc mt =
     map_option (\<lambda>r. case r of Inl err \<Rightarrow> Inl err | Inr (_, chunks) \<Rightarrow> Inr (map chunk_content chunks))
       (split_with_spans sp text mc mt)"

definition reconstruct_chunk_range ::
    "text_splitter \<Rightarrow> py_text \<Rightarrow> int \<Rightarrow> int \<Rightarrow> (py_error + py_text option) option" where
  "reconstruct_chunk_range sp text i j =
     map_option (\<lambda>r. case r of
         Inl err \<Rightarrow> Inl err
       | Inr (normalized, chunks) \<Rightarrow> Inr
           (if i < 0 \<or> j < i \<or> j \<ge> int (length chunks) then None
            else Some (py_slice normalized (chunk_start (chunks ! nat i)) (chunk_end (chunks ! nat j)))))
       (split_with_spans sp text None None)"

end
