(* ===== verification/Splitter_Laws.thy ===== *)
theory Splitter_Laws
  imports Text_Splitter
begin

text \<open>
  Correctness of the text splitter. Normalisation keeps every character that is not whitespace;
  every splitter that the constructor accepts ends on every text; each chunk is the part of the
  normalised text that its span names, is not longer than the chunk size, and together the
  chunks cover every character that is not whitespace; the limits on number and size refuse
  exactly the texts whose full list of chunks exceeds them.
\<close>

section \<open>Normalisation\<close>

lemma ink_replace_crlf [simp]: "ink (replace_crlf t) = ink t"
  by (induction t rule: replace_crlf.induct) (auto simp: ink_Cons)

lemma ink_behind_break: "ink (behind_break t) = ink t"
proof -
  have "\<forall>c\<in>set (rev (takeWhile (\<lambda>c. c \<noteq> NL) (rev (takeWhile py_isspace t)))). py_isspace c"
    by (auto dest!: set_takeWhileD)
  then have "ink (rev (takeWhile (\<lambda>c. c \<noteq> NL) (rev (takeWhile py_isspace t)))) = []"
    by (simp only: ink_Nil_iff)
  then show ?thesis by (simp add: behind_break_def)
qed

lemma ink_split_breaks: "ink (concat (split_breaks acc t)) = ink (rev acc) @ ink t"
proof (induction acc t rule: split_breaks.induct)
  case (1 acc)
  then show ?case by simp
next
  case (2 acc c cs)
  show ?case
  proof (cases "break_here (c # cs)")
    case True
    then have "c = NL" by (simp add: break_here_def)
    then show ?thesis using 2 True by (simp add: ink_behind_break ink_Cons)
  next
    case False
    have "ink (c # cs) = ink [c] @ ink cs" by (simp add: ink_Cons)
    then show ?thesis using 2 False by simp
  qed
qed

lemma ink_join_paragraphs: "ink (join_paragraphs ps) = ink (concat ps)"
  by (induction ps rule: join_paragraphs.induct) (auto simp: ink_Cons)

lemma ink_paragraphs_of: "ink (concat (paragraphs_of t)) = ink t"
proof -
  have "ink (concat (filter (\<lambda>p. p \<noteq> []) (map strip xs))) = ink (concat xs)" for xs
  proof (induction xs)
    case (Cons x xs)
    have "ink x = ink (strip x)" by simp
    then show ?case using Cons by (auto simp del: ink_strip)
  qed simp
  then show ?thesis using ink_split_breaks [of "[]" t] by (simp add: paragraphs_of_def)
qed

lemma paragraphs_stripped: "p \<in> set (paragraphs_of t) \<Longrightarrow> stripped p"
  by (auto simp: paragraphs_of_def strip_stripped)

section \<open>Spans of the paragraphs\<close>

text \<open>
  \<open>span_list norm c spans\<close>: the spans describe consecutive paragraphs of \<open>norm\<close>, behind the
  paragraph that ends at \<open>c\<close> (or from the start when \<open>c\<close> is \<open>0\<close>), separated by one blank line,
  up to the end of \<open>norm\<close>.
\<close>

fun span_list :: "py_text \<Rightarrow> int \<Rightarrow> (py_text \<times> int \<times> int) list \<Rightarrow> bool" where
  "span_list norm c [] \<longleftrightarrow> c = int (length norm)"
| "span_list norm c ((p, s, e) # spans) \<longleftrightarrow>
     (c = 0 \<and> s = 0 \<or> 0 < c \<and> s = c + 2 \<and> sub norm (nat c) (nat s) = [NL, NL]) \<and>
     e = s + int (length p) \<and> e \<le> int (length norm) \<and> stripped p \<and>
     p = sub norm (nat s) (nat e) \<and> span_list norm e spans"

lemma span_listD:
  assumes "span_list norm c ((p, s, e) # spans)" "0 \<le> c"
  shows "c = 0 \<and> s = c \<or> s = c + 2 \<and> 0 < c \<and> sub norm (nat c) (nat s) = [NL, NL]"
    "p = sub norm (nat s) (nat e)" "e = s + int (length p)" "e \<le> int (length norm)" "0 \<le> s"
    "stripped p" "span_list norm e spans"
proof -
  note f = assms(1) [unfolded span_list.simps]
  show "c = 0 \<and> s = c \<or> s = c + 2 \<and> 0 < c \<and> sub norm (nat c) (nat s) = [NL, NL]"
    "p = sub norm (nat s) (nat e)" "e = s + int (length p)" "e \<le> int (length norm)"
    "stripped p" "span_list norm e spans"
    using f by blast+
  show "0 \<le> s" using f assms(2) by linarith
qed

lemma stripped_length: "stripped p \<Longrightarrow> 0 < length p"
  by (auto simp: stripped_def)

lemma span_list_tail:
  assumes "\<forall>p\<in>set ps. stripped p" "pre \<noteq> []"
  shows "span_list (pre @ concat (map (\<lambda>p. [NL, NL] @ p) ps)) (int (length pre))
           (paragraph_spans (int (length pre) + 2) ps)"
  using assms
proof (induction ps arbitrary: pre)
  case Nil
  then show ?case by simp
next
  case (Cons p ps)
  let ?pre = "pre @ [NL, NL] @ p"
  have IH: "span_list (?pre @ concat (map (\<lambda>p. [NL, NL] @ p) ps)) (int (length ?pre))
      (paragraph_spans (int (length ?pre) + 2) ps)"
    by (rule Cons.IH) (use Cons.prems in auto)
  have l: "int (length ?pre) = int (length pre) + 2 + int (length p)" by simp
  have n: "nat (int (length pre) + 2) = length pre + 2"
    "nat (int (length pre) + 2 + int (length p)) = length pre + 2 + length p" by simp_all
  show ?case
    using IH Cons.prems unfolding l
    by (simp add: sub_def n del: of_nat_add)
qed

lemma join_paragraphs_Cons:
  "join_paragraphs (p # ps) = p @ concat (map (\<lambda>p. [NL, NL] @ p) ps)"
proof (induction ps arbitrary: p)
  case (Cons q ps)
  show ?case using Cons [of q] by simp
qed simp

lemma span_list_paragraphs:
  assumes "\<forall>p\<in>set ps. stripped p"
  shows "span_list (join_paragraphs ps) 0 (paragraph_spans 0 ps)"
proof (cases ps)
  case (Cons p qs)
  have "span_list (p @ concat (map (\<lambda>p. [NL, NL] @ p) qs)) (int (length p))
      (paragraph_spans (int (length p) + 2) qs)"
    by (rule span_list_tail) (use assms Cons in \<open>auto simp: stripped_def\<close>)
  then show ?thesis using assms Cons by (simp add: join_paragraphs_Cons sub_def)
qed simp

section \<open>Cutting a long paragraph\<close>

definition constructed :: "text_splitter \<Rightarrow> bool" where
  "constructed sp \<longleftrightarrow> chunk_overlap sp < chunk_size sp"

lemma make_splitter_Inr:
  "make_splitter cs ov = Inr sp \<longleftrightarrow> ov < cs \<and> sp = \<lparr>chunk_size = cs, chunk_overlap = ov\<rparr>"
  by (auto simp: make_splitter_def)

lemma find_in_range:
  assumes "find P (rev [a..b]) = Some i"
  shows "a \<le> i" "i \<le> b"
proof -
  have "i \<in> set (rev [a..b])" using assms by (metis find_Some_iff nth_mem)
  then show "a \<le> i" "i \<le> b" by simp_all
qed

lemma chunk_stop_bounds:
  assumes "0 \<le> start" "start < int (length t)" "0 < chunk_size sp"
  shows "start < chunk_stop sp t start" "chunk_stop sp t start \<le> int (length t)"
    "chunk_stop sp t start \<le> start + chunk_size sp"
    "chunk_stop sp t start = int (length t) \<or> chunk_stop sp t start = start + chunk_size sp \<or>
       3 * chunk_size sp div 5 < chunk_stop sp t start - start"
proof -
  let ?h = "min (start + chunk_size sp) (int (length t))"
  let ?lo = "start + max (3 * chunk_size sp div 5) 1"
  let ?f = "find (\<lambda>i. t ! nat i \<in> set boundary_chars) (rev [?lo .. ?h - 1])"
  have e: "chunk_stop sp t start =
      (if ?h \<ge> int (length t) then ?h else (case ?f of Some i \<Rightarrow> i + 1 | None \<Rightarrow> ?h))"
    by (simp only: chunk_stop_def find_sentence_boundary_def)
  have "start < chunk_stop sp t start \<and> chunk_stop sp t start \<le> ?h \<and>
      (chunk_stop sp t start = ?h \<or> 3 * chunk_size sp div 5 < chunk_stop sp t start - start)"
  proof (cases "?h \<ge> int (length t) \<or> ?f = None")
    case True
    then have "chunk_stop sp t start = ?h" using e by auto
    then show ?thesis using assms by simp
  next
    case False
    then obtain i where i: "?f = Some i" by blast
    then have "chunk_stop sp t start = i + 1" using e False by simp
    moreover have "?lo \<le> i" "i \<le> ?h - 1" using find_in_range [OF i] by simp_all
    ultimately show ?thesis by linarith
  qed
  then show "start < chunk_stop sp t start" "chunk_stop sp t start \<le> int (length t)"
    "chunk_stop sp t start \<le> start + chunk_size sp"
    "chunk_stop sp t start = int (length t) \<or> chunk_stop sp t start = start + chunk_size sp \<or>
       3 * chunk_size sp div 5 < chunk_stop sp t start - start"
    by linarith+
qed

lemma next_start_greater: "constructed sp \<Longrightarrow> start < next_start sp start stop"
  by (auto simp: next_start_def constructed_def)

text \<open>A gap between two cuts would lose characters; there is none.\<close>

lemma next_start_no_gap:
  assumes "0 \<le> start" "start < int (length t)" "constructed sp" "0 \<le> chunk_overlap sp"
    and "chunk_stop sp t start < int (length t)"
  shows "next_start sp start (chunk_stop sp t start) \<le> chunk_stop sp t start"
proof -
  have o: "chunk_overlap sp < chunk_size sp" using assms(3) by (simp add: constructed_def)
  then have pos: "0 < chunk_size sp" using assms(4) by linarith
  note b = chunk_stop_bounds [OF assms(1,2) pos]
  show ?thesis
  proof (cases "chunk_stop sp t start - chunk_overlap sp > start")
    case True
    then show ?thesis using assms(4) by (simp add: next_start_def)
  next
    case False
    then have "3 * chunk_size sp div 5 < chunk_stop sp t start - start" using b(4) assms(5) o by linarith
    moreover have "x div 5 < d \<Longrightarrow> x < 5 * d" for x d :: int by presburger
    ultimately have "3 * chunk_size sp < 5 * (chunk_stop sp t start - start)" by blast
    moreover have "next_start sp start (chunk_stop sp t start) =
        start + (chunk_size sp - chunk_overlap sp)"
      using False by (simp add: next_start_def)
    moreover have "3 * c < 5 * (s - a) \<Longrightarrow> n = a + (c - v) \<Longrightarrow> s \<le> a + v \<Longrightarrow> a < s \<Longrightarrow> n \<le> s"
      for a c n s v :: int by simp
    moreover have "chunk_stop sp t start \<le> start + chunk_overlap sp" using False by simp
    ultimately show ?thesis using b(1) by blast
  qed
qed

lemma split_long_returns: "constructed sp \<Longrightarrow> \<exists>cs. split_long sp t base start = Some cs"
proof (induction "nat (int (length t) - start)" arbitrary: start rule: less_induct)
  case less
  let ?n = "next_start sp start (chunk_stop sp t start)"
  show ?case
  proof (cases "start < int (length t) \<and> \<not> chunk_stop sp t start \<ge> int (length t)")
    case True
    have "start < ?n" using less.prems by (rule next_start_greater)
    then obtain cs where "split_long sp t base ?n = Some cs"
      using less True by force
    then show ?thesis using True by (simp add: split_long.simps [of sp t base start])
  next
    case False
    then show ?thesis by (auto simp: split_long.simps [of sp t base start])
  qed
qed

text \<open>A chunk of \<open>norm\<close>: its content is the part that its span names.\<close>

definition chunk_of :: "text_splitter \<Rightarrow> py_text \<Rightarrow> split_chunk \<Rightarrow> bool" where
  "chunk_of sp norm c \<longleftrightarrow> 0 \<le> chunk_start c \<and> chunk_start c < chunk_end c \<and>
     chunk_end c \<le> int (length norm) \<and> chunk_content c = py_slice norm (chunk_start c) (chunk_end c) \<and>
     stripped (chunk_content c) \<and> chunk_end c - chunk_start c \<le> chunk_size sp"

definition covers :: "split_chunk list \<Rightarrow> int \<Rightarrow> bool" where
  "covers cs i \<longleftrightarrow> (\<exists>c\<in>set cs. chunk_start c \<le> i \<and> i < chunk_end c)"

lemma covers_append [simp]: "covers (a @ b) i \<longleftrightarrow> covers a i \<or> covers b i"
  by (auto simp: covers_def)

lemma covers_Nil [simp]: "\<not> covers [] i"
  by (simp add: covers_def)

lemma trimmed_chunk_cases:
  assumes "0 \<le> start" "start \<le> stop" "stop \<le> int (length t)"
  obtains
    (blank) "trimmed_chunk t base start stop = []"
      "\<forall>i. start \<le> i \<and> i < stop \<longrightarrow> py_isspace (t ! nat i)"
  | (chunk) a b where "start \<le> a" "a < b" "b \<le> stop"
      "trimmed_chunk t base start stop =
        [\<lparr>chunk_content = sub t (nat a) (nat b), chunk_start = base + a, chunk_end = base + b\<rparr>]"
      "stripped (sub t (nat a) (nat b))"
      "\<forall>i. start \<le> i \<and> i < stop \<and> \<not> py_isspace (t ! nat i) \<longrightarrow> a \<le> i \<and> i < b"
proof -
  let ?raw = "sub t (nat start) (nat stop)"
  have raw: "py_slice t start stop = ?raw" using assms by (simp add: py_slice_int)
  have len: "length ?raw = nat stop - nat start" using assms by (simp add: length_sub)
  have nth: "t ! nat i = ?raw ! (nat i - nat start)" if "start \<le> i" "i < stop" for i
    using that assms by (subst nth_sub) auto
  have inraw: "nat i - nat start < length ?raw" if "start \<le> i" "i < stop" for i
    using that assms len by (simp add: nat_less_eq_zless diff_less_mono nat_le_eq_zle)
  show ?thesis
  proof (cases "strip ?raw = []")
    case True
    then have sp: "\<forall>c\<in>set ?raw. py_isspace c" by (simp add: strip_empty_iff)
    have "\<forall>i. start \<le> i \<and> i < stop \<longrightarrow> py_isspace (t ! nat i)"
    proof (intro allI impI)
      fix i assume i: "start \<le> i \<and> i < stop"
      then have "?raw ! (nat i - nat start) \<in> set ?raw" using inraw by (simp add: nth_mem)
      then show "py_isspace (t ! nat i)" using sp nth i by simp
    qed
    then show ?thesis using blank True by (simp add: trimmed_chunk_def raw Let_def)
  next
    case False
    then obtain x y where d: "?raw = x @ strip ?raw @ y" "\<forall>c\<in>set x. py_isspace c"
      "\<forall>c\<in>set y. py_isspace c" "lstrip ?raw = strip ?raw @ y" "rstrip ?raw = x @ strip ?raw"
      by (rule strip_decomp)
    let ?m = "strip ?raw"
    have lr: "length ?raw = length x + length ?m + length y"
      using arg_cong [OF d(1), of length] by simp
    have ilr: "stop - start = int (length x) + int (length ?m) + int (length y)"
      using lr len assms by (simp add: nat_diff_distrib' [symmetric])
    define a where "a = start + int (length x)"
    define b where "b = stop - int (length y)"
    have lm: "0 < length ?m" using False by simp
    have ab: "start \<le> a" "a < b" "b \<le> stop" "b - a = int (length ?m)"
      using ilr lm assms unfolding a_def b_def by linarith+
    have m: "?m = sub t (nat a) (nat b)"
    proof -
      have "?m = sub ?raw (length x) (length x + length ?m)"
        by (subst (2) d(1)) (simp add: sub_def)
      also have "\<dots> = sub t (nat start + length x) (nat start + (length x + length ?m))"
        by (rule sub_sub) (use lr len in simp)
      also have "nat start + length x = nat a" using assms by (simp add: a_def nat_add_distrib)
      also have "nat start + (length x + length ?m) = nat b"
        using ilr assms unfolding b_def by linarith
      finally show ?thesis .
    qed
    have tc: "trimmed_chunk t base start stop =
        [\<lparr>chunk_content = ?m, chunk_start = base + a, chunk_end = base + b\<rparr>]"
      using False lr by (simp add: trimmed_chunk_def raw Let_def d(4) d(5) a_def b_def)
    have cov: "\<forall>i. start \<le> i \<and> i < stop \<and> \<not> py_isspace (t ! nat i) \<longrightarrow> a \<le> i \<and> i < b"
    proof (intro allI impI)
      fix i assume i: "start \<le> i \<and> i < stop \<and> \<not> py_isspace (t ! nat i)"
      let ?k = "nat i - nat start"
      have k: "?raw ! ?k = t ! nat i" "?k < length ?raw" using i nth inraw by simp_all
      have "\<not> ?k < length x"
      proof
        assume kx: "?k < length x"
        then have "?raw ! ?k = x ! ?k" by (subst d(1)) (simp add: nth_append)
        then show False using kx d(2) k i by (metis nth_mem)
      qed
      moreover have "?k < length x + length ?m"
      proof (rule ccontr)
        assume ge: "\<not> ?k < length x + length ?m"
        then have "(x @ ?m @ y) ! ?k = y ! (?k - length x - length ?m)"
          by (simp add: nth_append) linarith
        then have "?raw ! ?k = y ! (?k - length x - length ?m)" using d(1) by metis
        moreover have "?k - length x - length ?m < length y" using ge k(2) lr by linarith
        ultimately show False using d(3) k i by (metis nth_mem)
      qed
      ultimately show "a \<le> i \<and> i < b"
        using i assms ilr unfolding a_def b_def by linarith
    qed
    show ?thesis
      by (rule chunk [OF ab(1,2,3) tc [unfolded m] _ cov])
        (use False m strip_stripped [of ?raw] in simp)
  qed
qed


text \<open>What a long paragraph at \<open>base\<close> of \<open>norm\<close> yields from position \<open>start\<close> on.\<close>

definition cut_from :: "text_splitter \<Rightarrow> py_text \<Rightarrow> int \<Rightarrow> int \<Rightarrow> split_chunk list \<Rightarrow> bool" where
  "cut_from sp t base start cs \<longleftrightarrow>
     (\<forall>c\<in>set cs. \<exists>a b. start \<le> a \<and> a < b \<and> b \<le> int (length t) \<and> b - a \<le> chunk_size sp \<and>
        c = \<lparr>chunk_content = sub t (nat a) (nat b), chunk_start = base + a, chunk_end = base + b\<rparr> \<and>
        stripped (sub t (nat a) (nat b))) \<and>
     (\<forall>i. start \<le> i \<and> i < int (length t) \<and> \<not> py_isspace (t ! nat i) \<longrightarrow> covers cs (base + i)) \<and>
     sorted (map chunk_start cs)"

lemma stripped_hd_nth:
  assumes "stripped (sub t (nat a) (nat b))" "0 \<le> a" "a < b"
  shows "\<not> py_isspace (t ! nat a)"
proof -
  have "hd (sub t (nat a) (nat b)) = t ! nat a"
    using assms by (auto simp: stripped_def sub_def hd_drop_conv_nth)
  then show ?thesis using assms(1) by (simp add: stripped_def)
qed

lemma cut_from_chunk_start:
  assumes "cut_from sp t base start cs" "0 \<le> start" "c \<in> set cs"
  obtains a where "start \<le> a" "a < int (length t)" "chunk_start c = base + a" "\<not> py_isspace (t ! nat a)"
proof -
  obtain a b where "start \<le> a" "a < b" "b \<le> int (length t)" "chunk_start c = base + a"
    "stripped (sub t (nat a) (nat b))"
    using assms unfolding cut_from_def by fastforce
  then show ?thesis using that [of a] stripped_hd_nth [of t a b] assms(2) by simp
qed

lemma cut_from_trimmed:
  assumes rest: "cut_from sp t base n cs" and n: "start < n" "n \<le> stop"
    and b: "0 \<le> start" "start \<le> stop" "stop \<le> int (length t)" "stop \<le> start + chunk_size sp"
  shows "cut_from sp t base start (trimmed_chunk t base start stop @ cs)"
  using b(1-3)
proof (cases rule: trimmed_chunk_cases [where base = base, case_names blank chunk])
  case blank
  have "covers cs (base + i)" if "start \<le> i" "i < int (length t)" "\<not> py_isspace (t ! nat i)" for i
    using that blank(2) n rest by (cases "i < stop") (auto simp: cut_from_def)
  moreover have "\<forall>c\<in>set cs. \<exists>a b. start \<le> a \<and> a < b \<and> b \<le> int (length t) \<and> b - a \<le> chunk_size sp \<and>
        c = \<lparr>chunk_content = sub t (nat a) (nat b), chunk_start = base + a, chunk_end = base + b\<rparr> \<and>
        stripped (sub t (nat a) (nat b))"
    using rest n by (fastforce simp: cut_from_def)
  ultimately show ?thesis using rest blank(1) by (simp add: cut_from_def)
next
  case (chunk a e)
  let ?c = "\<lparr>chunk_content = sub t (nat a) (nat e), chunk_start = base + a, chunk_end = base + e\<rparr>"
  have tail: "\<forall>c\<in>set cs. \<exists>a b. start \<le> a \<and> a < b \<and> b \<le> int (length t) \<and> b - a \<le> chunk_size sp \<and>
        c = \<lparr>chunk_content = sub t (nat a) (nat b), chunk_start = base + a, chunk_end = base + b\<rparr> \<and>
        stripped (sub t (nat a) (nat b))"
    using rest n by (fastforce simp: cut_from_def)
  have hd: "\<exists>x y. start \<le> x \<and> x < y \<and> y \<le> int (length t) \<and> y - x \<le> chunk_size sp \<and>
        ?c = \<lparr>chunk_content = sub t (nat x) (nat y), chunk_start = base + x, chunk_end = base + y\<rparr> \<and>
        stripped (sub t (nat x) (nat y))"
    using chunk b by (intro exI [of _ a] exI [of _ e]) simp
  have cov: "covers (?c # cs) (base + i)"
    if "start \<le> i" "i < int (length t)" "\<not> py_isspace (t ! nat i)" for i
    using that chunk(6) n rest by (cases "i < stop") (auto simp: cut_from_def covers_def)
  have ord: "base + a \<le> chunk_start c" if c: "c \<in> set cs" for c
  proof -
    have "0 \<le> n" using n b by simp
    then obtain x where x: "n \<le> x" "x < int (length t)" "chunk_start c = base + x"
      "\<not> py_isspace (t ! nat x)"
      by (rule cut_from_chunk_start [OF rest _ c])
    show ?thesis using x n chunk(3,6) chunk(1) chunk(2) by (cases "x < stop") auto
  qed
  have "sorted (map chunk_start (?c # cs))" using ord rest by (auto simp: cut_from_def)
  then show ?thesis using tail hd cov chunk(4) unfolding cut_from_def by simp
qed

lemma cut_from_Nil: "int (length t) \<le> start \<Longrightarrow> cut_from sp t base start []"
  by (simp add: cut_from_def)

lemma split_long_cut:
  assumes "constructed sp" "0 \<le> chunk_overlap sp"
  shows "0 \<le> start \<Longrightarrow> split_long sp t base start = Some cs \<Longrightarrow> cut_from sp t base start cs"
proof (induction "nat (int (length t) - start)" arbitrary: start cs rule: less_induct)
  case less
  let ?e = "chunk_stop sp t start"
  let ?n = "next_start sp start ?e"
  have pos: "0 < chunk_size sp" using assms by (simp add: constructed_def)
  show ?case
  proof (cases "start < int (length t)")
    case False
    then show ?thesis using less.prems
      by (simp add: split_long.simps [of sp t base start] cut_from_Nil)
  next
    case True
    note b = chunk_stop_bounds [OF less.prems(1) True pos]
    show ?thesis
    proof (cases "?e \<ge> int (length t)")
      case fin: True
      then have "cs = trimmed_chunk t base start ?e @ []"
        using less.prems True by (simp add: split_long.simps [of sp t base start])
      then show ?thesis
        using cut_from_trimmed [OF cut_from_Nil [of t ?e sp base], of start ?e] b fin less.prems
        by simp
    next
      case False
      then obtain rest where r: "split_long sp t base ?n = Some rest"
        "cs = trimmed_chunk t base start ?e @ rest"
        using less.prems True by (auto simp: split_long.simps [of sp t base start] bind_eq_Some_conv)
      have n: "start < ?n" using assms(1) by (rule next_start_greater)
      have g: "?n \<le> ?e"
        using next_start_no_gap [OF less.prems(1) True assms] False by simp
      have "cut_from sp t base ?n rest"
        using less.hyps [of ?n rest] n True less.prems r by simp
      then show ?thesis
        using cut_from_trimmed [of sp t base ?n rest start ?e] n g b less.prems r by simp
    qed
  qed
qed


text \<open>The ends of the chunks are in order, too: a later cut never stops before an earlier one.\<close>

lemma find_rev_last:
  "find P (rev [a..b]) = Some i \<Longrightarrow> i < j \<Longrightarrow> j \<le> b \<Longrightarrow> \<not> P j"
  "find P (rev [a..b]) = None \<Longrightarrow> a \<le> j \<Longrightarrow> j \<le> b \<Longrightarrow> \<not> P j"
proof -
  show "\<not> P j" if "find P (rev [a..b]) = Some i" "i < j" "j \<le> b"
    using that
  proof (induction "nat (b - a + 1)" arbitrary: b)
    case 0
    then show ?case by simp
  next
    case (Suc n)
    have ab: "a \<le> b" using Suc.hyps(2) by simp
    have r: "rev [a..b] = b # rev [a..b - 1]" using upto_rec2 [OF ab] by simp
    show ?case
    proof (cases "P b")
      case True
      then show ?thesis using Suc.prems r by simp
    next
      case False
      then have f: "find P (rev [a..b - 1]) = Some i" using Suc.prems(1) r by simp
      show ?thesis
      proof (cases "j = b")
        case False
        then show ?thesis using Suc.hyps(1) [of "b - 1"] Suc.hyps(2) f Suc.prems by simp
      qed (use \<open>\<not> P b\<close> in simp)
    qed
  qed
  show "\<not> P j" if "find P (rev [a..b]) = None" "a \<le> j" "j \<le> b"
    using that by (auto simp: find_None_iff)
qed

lemma chunk_stop_mono:
  assumes "start \<le> n" "n < int (length t)" "0 \<le> start" "0 < chunk_size sp"
  shows "chunk_stop sp t start \<le> chunk_stop sp t n"
proof -
  define len where "len = int (length t)"
  define m where "m = max (3 * chunk_size sp div 5) 1"
  define P where "P = (\<lambda>i. t ! nat i \<in> set boundary_chars)"
  define stop where "stop = (\<lambda>s. let h = min (s + chunk_size sp) len in
    if h \<ge> len then h else (case find P (rev [s + m..h - 1]) of Some i \<Rightarrow> i + 1 | None \<Rightarrow> h))"
  have cs: "chunk_stop sp t s = stop s" for s
    by (simp add: chunk_stop_def find_sentence_boundary_def stop_def len_def m_def P_def Let_def)
  have up: "stop s \<le> s + chunk_size sp \<and> stop s \<le> len" for s
    by (auto simp: stop_def Let_def dest: find_in_range split: option.splits)
  show ?thesis
  proof (cases "n + chunk_size sp \<ge> len")
    case True
    then have "stop n = len" by (simp add: stop_def Let_def)
    then show ?thesis using up [of start] cs by simp
  next
    case False
    then have h: "n + chunk_size sp < len" "start + chunk_size sp < len" using assms by simp_all
    have n: "stop n = (case find P (rev [n + m..n + chunk_size sp - 1]) of Some i \<Rightarrow> i + 1
        | None \<Rightarrow> n + chunk_size sp)"
      and s: "stop start = (case find P (rev [start + m..start + chunk_size sp - 1]) of
        Some i \<Rightarrow> i + 1 | None \<Rightarrow> start + chunk_size sp)"
      using h by (simp_all add: stop_def Let_def)
    show ?thesis
    proof (cases "find P (rev [n + m..n + chunk_size sp - 1])")
      case None
      then show ?thesis using n up [of start] assms(1) cs by simp
    next
      case (Some i)
      have i: "n + m \<le> i" "P i"
        using find_in_range [OF Some] Some by (auto simp: find_Some_iff)
      show ?thesis
      proof (cases "find P (rev [start + m..start + chunk_size sp - 1])")
        case none: None
        have "\<not> i \<le> start + chunk_size sp - 1"
          using find_rev_last(2) [OF none, of i] i assms(1) by auto
        then show ?thesis using n s Some none cs by simp
      next
        case some: (Some k)
        have k: "k \<le> start + chunk_size sp - 1" "P k"
          using find_in_range [OF some] some by (auto simp: find_Some_iff)
        have "\<not> i < k" using find_rev_last(1) [OF Some, of k] k assms(1) by auto
        then show ?thesis using n s Some some cs by simp
      qed
    qed
  qed
qed

definition ends_from :: "py_text \<Rightarrow> int \<Rightarrow> int \<Rightarrow> split_chunk list \<Rightarrow> bool" where
  "ends_from t base m cs \<longleftrightarrow> sorted (map chunk_end cs) \<and>
     (\<forall>c\<in>set cs. \<forall>i. chunk_end c - base \<le> i \<and> i < m \<longrightarrow> py_isspace (t ! nat i))"

lemma stripped_last_nth:
  assumes "stripped (sub t (nat a) (nat b))" "0 \<le> a" "a < b" "b \<le> int (length t)"
  shows "\<not> py_isspace (t ! nat (b - 1))"
proof -
  let ?s = "sub t (nat a) (nat b)"
  have l: "length ?s = nat b - nat a" using assms by (simp add: length_sub)
  have "last ?s = ?s ! (length ?s - 1)" using assms(1) by (intro last_conv_nth) (simp add: stripped_def)
  also have "\<dots> = t ! (nat a + (nat b - nat a - 1))"
    unfolding l by (rule nth_sub) (use assms in linarith)+
  also have "nat a + (nat b - nat a - 1) = nat (b - 1)" using assms by linarith
  finally show ?thesis using assms(1) by (simp add: stripped_def)
qed

lemma ends_from_trimmed:
  assumes rest: "ends_from t base m cs" "stop \<le> m"
    and b: "0 \<le> start" "start \<le> stop" "stop \<le> int (length t)"
  shows "ends_from t base stop (trimmed_chunk t base start stop @ cs)"
  using b
proof (cases rule: trimmed_chunk_cases [where base = base, case_names blank chunk])
  case blank
  then show ?thesis using rest by (auto simp: ends_from_def)
next
  case (chunk a e)
  have last: "\<not> py_isspace (t ! nat (e - 1))"
    by (rule stripped_last_nth [OF chunk(5)]) (use chunk b in linarith)+
  have le: "base + e \<le> chunk_end c" if c: "c \<in> set cs" for c
  proof (rule ccontr)
    assume "\<not> ?thesis"
    then have "chunk_end c - base \<le> e - 1" "e - 1 < m" using chunk(3) rest(2) by simp_all
    then show False using rest(1) c last by (auto simp: ends_from_def)
  qed
  have "py_isspace (t ! nat i)" if "e \<le> i" "i < stop" for i
  proof (rule ccontr)
    assume "\<not> ?thesis"
    then have "i < e" using chunk(6) that chunk(1,2) by (meson order.trans less_imp_le)
    then show False using that by simp
  qed
  then show ?thesis using rest le chunk(4) by (auto simp: ends_from_def)
qed

lemma split_long_ends:
  assumes "constructed sp" "0 \<le> chunk_overlap sp"
  shows "0 \<le> start \<Longrightarrow> start < int (length t) \<Longrightarrow> split_long sp t base start = Some cs \<Longrightarrow>
    ends_from t base (chunk_stop sp t start) cs"
proof (induction "nat (int (length t) - start)" arbitrary: start cs rule: less_induct)
  case less
  let ?e = "chunk_stop sp t start"
  let ?n = "next_start sp start ?e"
  have pos: "0 < chunk_size sp" using assms by (simp add: constructed_def)
  note b = chunk_stop_bounds [OF less.prems(1,2) pos]
  show ?case
  proof (cases "?e \<ge> int (length t)")
    case fin: True
    then have "cs = trimmed_chunk t base start ?e @ []"
      using less.prems by (simp add: split_long.simps [of sp t base start])
    moreover have "ends_from t base ?e []" by (simp add: ends_from_def)
    ultimately show ?thesis using ends_from_trimmed [of t base ?e "[]" ?e start] b less.prems by simp
  next
    case False
    then obtain rest where r: "split_long sp t base ?n = Some rest"
      "cs = trimmed_chunk t base start ?e @ rest"
      using less.prems by (auto simp: split_long.simps [of sp t base start] bind_eq_Some_conv)
    have n: "start < ?n" using assms(1) by (rule next_start_greater)
    have g: "?n \<le> ?e"
      using next_start_no_gap [OF less.prems(1,2) assms] False by simp
    have "ends_from t base (chunk_stop sp t ?n) rest"
      using less.hyps [of ?n rest] n g False less.prems r by simp
    moreover have "?e \<le> chunk_stop sp t ?n"
      by (rule chunk_stop_mono) (use n g False less.prems pos in auto)
    ultimately show ?thesis
      using ends_from_trimmed [of t base "chunk_stop sp t ?n" rest ?e start] b less.prems r by simp
  qed
qed

lemma split_long_sorted_ends:
  assumes "constructed sp" "0 \<le> chunk_overlap sp" "split_long sp t base 0 = Some cs"
  shows "sorted (map chunk_end cs)"
proof (cases "t = []")
  case True
  have "split_long sp t base 0 = Some []" using True by (simp add: split_long.simps [of sp "[]" base 0])
  then show ?thesis using assms(3) by simp
next
  case False
  then show ?thesis using split_long_ends [OF assms(1,2) _ _ assms(3)] by (simp add: ends_from_def)
qed

section \<open>The full list of chunks\<close>

text \<open>
  The chunks that the loop over the paragraphs produces, without the limits: the reference for
  the loop, which adds each of them through \<open>add_chunk\<close>.
\<close>

definition pending :: "split_state \<Rightarrow> split_chunk list" where
  "pending st = (if st_current st \<noteq> [] then [current_chunk st] else [])"

fun plan :: "text_splitter \<Rightarrow> (py_text \<times> int \<times> int) list \<Rightarrow> split_state \<Rightarrow> split_chunk list option" where
  "plan sp [] st = Some (pending st)"
| "plan sp ((p, s, e) # spans) st =
     (if int (length p) > chunk_size sp
      then Option.bind (split_long_text_with_spans sp p s)
             (\<lambda>cs. Option.bind (plan sp spans (clear_current st)) (\<lambda>rest. Some (pending st @ cs @ rest)))
      else if int (length (candidate st p)) \<le> chunk_size sp
      then plan sp spans (extend_current p s e st)
      else Option.bind (plan sp spans (set_current p s e st)) (\<lambda>rest. Some (pending st @ rest)))"

definition same_current :: "split_state \<Rightarrow> split_state \<Rightarrow> bool" where
  "same_current st st' \<longleftrightarrow> st_current st = st_current st' \<and>
     st_current_start st = st_current_start st' \<and> st_current_end st = st_current_end st'"

lemma same_current_ops:
  assumes "same_current st st'"
  shows "pending st = pending st'" "candidate st p = candidate st' p"
    "same_current (clear_current st) (clear_current st')"
    "same_current (extend_current p s e st) (extend_current p s e st')"
    "same_current (set_current p s e st) (set_current p s e st')"
  using assms by (auto simp: same_current_def pending_def current_chunk_def candidate_def
      clear_current_def extend_current_def set_current_def)

lemma plan_cong: "same_current st st' \<Longrightarrow> plan sp spans st = plan sp spans st'"
proof (induction spans arbitrary: st st')
  case Nil
  then show ?case by (simp add: same_current_ops)
next
  case (Cons span spans)
  obtain p s e where span: "span = (p, s, e)" by (cases span)
  note o = same_current_ops [OF Cons.prems]
  have "plan sp spans (clear_current st) = plan sp spans (clear_current st')"
    by (rule Cons.IH [OF o(3)])
  moreover have "plan sp spans (extend_current p s e st) = plan sp spans (extend_current p s e st')"
    by (rule Cons.IH [OF o(4)])
  moreover have "plan sp spans (set_current p s e st) = plan sp spans (set_current p s e st')"
    by (rule Cons.IH [OF o(5)])
  ultimately show ?case using o(1) o(2) [of p] by (simp add: span)
qed

lemma plan_returns: "constructed sp \<Longrightarrow> \<exists>cs. plan sp spans st = Some cs"
proof (induction spans arbitrary: st)
  case (Cons span spans)
  obtain p s e where span: "span = (p, s, e)" by (cases span)
  obtain cs where "split_long_text_with_spans sp p s = Some cs"
    using split_long_returns [OF Cons.prems, of p s 0] by (auto simp: split_long_text_with_spans_def)
  moreover have "\<exists>r. plan sp spans x = Some r" for x by (rule Cons.IH [OF Cons.prems])
  then obtain a b c where "plan sp spans (clear_current st) = Some a"
    "plan sp spans (extend_current p s e st) = Some b" "plan sp spans (set_current p s e st) = Some c"
    by blast
  ultimately show ?case by (simp add: span)
qed simp

section \<open>The loop adds the full list\<close>

lemma add_chunk_same_current: "add_chunk mc mt c st = Inr st' \<Longrightarrow> same_current st st'"
  by (auto simp: add_chunk_def same_current_def split: if_splits)

lemma add_chunks_same_current: "add_chunks mc mt cs st = Inr st' \<Longrightarrow> same_current st st'"
proof (induction cs arbitrary: st)
  case (Cons c cs)
  then obtain x where x: "add_chunk mc mt c st = Inr x" "add_chunks mc mt cs x = Inr st'"
    by (auto split: sum.splits)
  show ?case
    using Cons.IH [OF x(2)] add_chunk_same_current [OF x(1)] by (simp add: same_current_def)
qed (simp add: same_current_def)

text \<open>Two states with the same chunks and total.\<close>

definition same_added :: "split_state \<Rightarrow> split_state \<Rightarrow> bool" where
  "same_added st st' \<longleftrightarrow> st_chunks st = st_chunks st' \<and> st_total_chars st = st_total_chars st'"

definition added :: "py_error + split_state \<Rightarrow> py_error + split_chunk list" where
  "added r = map_sum id st_chunks r"

lemma added_simps [simp]: "added (Inl e) = Inl e" "added (Inr st) = Inr (st_chunks st)"
  by (simp_all add: added_def)

lemma add_chunks_cong_cases:
  assumes "same_added st st'"
  obtains (failed) err where "add_chunks mc mt cs st = Inl err" "add_chunks mc mt cs st' = Inl err"
  | (ok) x y where "add_chunks mc mt cs st = Inr x" "add_chunks mc mt cs st' = Inr y" "same_added x y"
proof -
  have "(\<exists>err. add_chunks mc mt cs st = Inl err \<and> add_chunks mc mt cs st' = Inl err) \<or>
    (\<exists>x y. add_chunks mc mt cs st = Inr x \<and> add_chunks mc mt cs st' = Inr y \<and> same_added x y)"
    using assms
  proof (induction cs arbitrary: st st')
    case Nil
    then show ?case by simp
  next
    case (Cons c cs)
    show ?case
    proof (cases "add_chunk mc mt c st")
      case (Inl e)
      then have "add_chunk mc mt c st' = Inl e"
        using Cons.prems by (auto simp: add_chunk_def same_added_def split: if_splits)
      then show ?thesis using Inl by simp
    next
      case (Inr x)
      then obtain y where y: "add_chunk mc mt c st' = Inr y" "same_added x y"
        using Cons.prems by (auto simp: add_chunk_def same_added_def split: if_splits)
      then show ?thesis using Inr Cons.IH [OF y(2)] by simp
    qed
  qed
  then show ?thesis using failed ok by blast
qed

lemma add_chunks_cong:
  "same_added st st' \<Longrightarrow> added (add_chunks mc mt cs st) = added (add_chunks mc mt cs st')"
  by (cases rule: add_chunks_cong_cases [of st st' mc mt cs]) (auto simp: same_added_def)

lemma add_chunks_append:
  "add_chunks mc mt (a @ b) st =
     (case add_chunks mc mt a st of Inl e \<Rightarrow> Inl e | Inr st' \<Rightarrow> add_chunks mc mt b st')"
  by (induction a arbitrary: st) (auto split: sum.splits)

lemma add_current_pending: "add_current mc mt st = add_chunks mc mt (pending st) st"
  by (auto simp: add_current_def pending_def split: sum.splits)

lemma current_updates_added:
  "same_added (clear_current st) st" "same_added (extend_current p s e st) st"
  "same_added (set_current p s e st) st"
  by (auto simp: same_added_def clear_current_def extend_current_def set_current_def)

lemma split_spans_plan:
  assumes "constructed sp"
  shows "plan sp spans st = Some cs \<Longrightarrow>
    map_option added (split_spans sp mc mt spans st) = Some (added (add_chunks mc mt cs st))"
proof (induction spans arbitrary: st cs)
  case Nil
  then show ?case by (simp add: add_current_pending)
next
  case (Cons span spans)
  obtain p s e where span: "span = (p, s, e)" by (cases span)
  have ih: "map_option added (split_spans sp mc mt spans x) = Some (added (add_chunks mc mt r y))"
    if "plan sp spans z = Some r" "same_current x z" "same_added x y" for x y z r
    using Cons.IH [of x r] plan_cong [OF that(2)] that(1) add_chunks_cong [OF that(3)] by simp
  consider (long) "int (length p) > chunk_size sp"
    | (pack) "\<not> int (length p) > chunk_size sp" "int (length (candidate st p)) \<le> chunk_size sp"
    | (flush) "\<not> int (length p) > chunk_size sp" "\<not> int (length (candidate st p)) \<le> chunk_size sp"
    by blast
  then show ?case
  proof cases
    case long
    then obtain a r where a: "split_long_text_with_spans sp p s = Some a"
      "plan sp spans (clear_current st) = Some r" "cs = pending st @ a @ r"
      using Cons.prems by (auto simp: span bind_eq_Some_conv)
    show ?thesis
    proof (cases "add_chunks mc mt (pending st) st")
      case (Inl err)
      then show ?thesis using long a
        by (simp add: span split_paragraph_def add_current_pending add_chunks_append)
    next
      case (Inr x)
      have x: "same_current st x" using Inr by (rule add_chunks_same_current)
      show ?thesis
        using current_updates_added(1) [of x]
      proof (cases rule: add_chunks_cong_cases [where mc = mc and mt = mt and cs = a, case_names failed ok])
        case (failed err)
        then show ?thesis using long a Inr
          by (simp add: span split_paragraph_def add_current_pending add_chunks_append)
      next
        case (ok y z)
        have "same_current y (clear_current st)"
          using add_chunks_same_current [OF ok(1)] same_current_ops(3) [OF x] by (simp add: same_current_def)
        then show ?thesis using long a ok Inr ih [of "clear_current st" r y z]
          by (simp add: span split_paragraph_def add_current_pending add_chunks_append)
      qed
    qed
  next
    case pack
    then show ?thesis
      using Cons.prems ih [of "extend_current p s e st" cs "extend_current p s e st" st]
        current_updates_added(2)
      by (simp add: span split_paragraph_def same_current_def)
  next
    case flush
    then obtain r where r: "plan sp spans (set_current p s e st) = Some r" "cs = pending st @ r"
      using Cons.prems by (auto simp: span bind_eq_Some_conv)
    show ?thesis
    proof (cases "add_chunks mc mt (pending st) st")
      case (Inl err)
      then show ?thesis using flush r
        by (simp add: span split_paragraph_def add_current_pending add_chunks_append)
    next
      case (Inr x)
      have x: "same_current st x" using Inr by (rule add_chunks_same_current)
      have "same_current (set_current p s e x) (set_current p s e st)"
        using same_current_ops(5) [OF x] by (simp add: same_current_def)
      then show ?thesis
        using flush r Inr ih [of "set_current p s e st" r "set_current p s e x" x] current_updates_added(3)
        by (simp add: span split_paragraph_def add_current_pending add_chunks_append)
    qed
  qed
qed


section \<open>What the full list is\<close>

text \<open>\<open>planned sp norm lo hi cs\<close>: the chunks \<open>cs\<close> account for \<open>norm\<close> between \<open>lo\<close> and \<open>hi\<close>.\<close>

definition planned :: "text_splitter \<Rightarrow> py_text \<Rightarrow> int \<Rightarrow> int \<Rightarrow> split_chunk list \<Rightarrow> bool" where
  "planned sp norm lo hi cs \<longleftrightarrow> lo \<le> hi \<and>
     (\<forall>c\<in>set cs. chunk_of sp norm c \<and> lo \<le> chunk_start c \<and> chunk_end c \<le> hi) \<and>
     (\<forall>i. lo \<le> i \<and> i < hi \<and> \<not> py_isspace (norm ! nat i) \<longrightarrow> covers cs i) \<and>
     sorted (map chunk_start cs) \<and> sorted (map chunk_end cs)"

lemma planned_append:
  assumes "planned sp norm lo mid a" "planned sp norm mid hi b"
  shows "planned sp norm lo hi (a @ b)"
proof -
  have lt: "chunk_start c < chunk_end c" if "c \<in> set a \<or> c \<in> set b" for c
    using assms that by (auto simp: planned_def chunk_of_def)
  have "chunk_start x \<le> chunk_start y \<and> chunk_end x \<le> chunk_end y" if "x \<in> set a" "y \<in> set b" for x y
  proof -
    have "chunk_end x \<le> mid" "mid \<le> chunk_start y" using assms that by (auto simp: planned_def)
    then show ?thesis using lt [of x] lt [of y] that by simp
  qed
  then have "sorted (map chunk_start (a @ b))" "sorted (map chunk_end (a @ b))"
    using assms by (auto simp: planned_def sorted_append)
  moreover have "covers (a @ b) i" if "lo \<le> i" "i < hi" "\<not> py_isspace (norm ! nat i)" for i
    using assms that by (cases "i < mid") (auto simp: planned_def)
  moreover have "chunk_of sp norm c \<and> lo \<le> chunk_start c \<and> chunk_end c \<le> hi" if "c \<in> set (a @ b)" for c
    using assms that by (fastforce simp: planned_def)
  ultimately show ?thesis using assms by (simp add: planned_def)
qed

lemma planned_Nil: "planned sp norm c c []"
  by (simp add: planned_def)

lemma planned_gap:
  assumes "c = s \<or> s = c + 2 \<and> 0 < c \<and> sub norm (nat c) (nat s) = [NL, NL]"
  shows "planned sp norm c s []"
proof -
  have "py_isspace (norm ! nat i)" if i: "c \<le> i" "i < s" for i
  proof -
    have g: "s = c + 2" "0 < c" "sub norm (nat c) (nat s) = [NL, NL]" using assms i by auto
    have two: "nat s - nat c = 2" using g by simp
    have len: "2 \<le> length norm - nat c"
      using arg_cong [OF g(3), of length] two by (simp add: length_sub)
    have "norm ! nat i = sub norm (nat c) (nat s) ! (nat i - nat c)"
      using i g len by (subst nth_sub) auto
    moreover have "nat i - nat c = 0 \<or> nat i - nat c = 1" using i g by linarith
    ultimately show ?thesis by (auto simp: g(3))
  qed
  then show ?thesis using assms by (auto simp: planned_def)
qed

lemma planned_long:
  assumes "cut_from sp p s 0 cs" "p = sub norm (nat s) (nat e)" "0 \<le> s"
    "e = s + int (length p)" "e \<le> int (length norm)" "sorted (map chunk_end cs)"
  shows "planned sp norm s e cs"
proof -
  have "chunk_of sp norm c \<and> s \<le> chunk_start c \<and> chunk_end c \<le> e" if c: "c \<in> set cs" for c
  proof -
    obtain a b where ab: "0 \<le> a" "a < b" "b \<le> int (length p)" "b - a \<le> chunk_size sp"
      "c = \<lparr>chunk_content = sub p (nat a) (nat b), chunk_start = s + a, chunk_end = s + b\<rparr>"
      "stripped (sub p (nat a) (nat b))"
      using assms(1) c unfolding cut_from_def by blast
    have "sub p (nat a) (nat b) = sub norm (nat s + nat a) (nat s + nat b)"
      unfolding assms(2) by (rule sub_sub) (use ab assms in linarith)
    then have "sub p (nat a) (nat b) = py_slice norm (s + a) (s + b)"
      using ab(1,2) assms(3) by (simp add: py_slice_int nat_add_distrib)
    then show ?thesis using ab assms(3-5) by (simp add: chunk_of_def)
  qed
  moreover have "covers cs i" if i: "s \<le> i" "i < e" "\<not> py_isspace (norm ! nat i)" for i
  proof -
    have "p ! nat (i - s) = norm ! nat i"
    proof -
      have k: "nat (i - s) < nat e - nat s" "nat e \<le> length norm" "nat s + nat (i - s) = nat i"
        using i assms(3-5) by linarith+
      show ?thesis using nth_sub [OF k(1,2)] unfolding assms(2) [symmetric] k(3) .
    qed
    moreover have "0 \<le> i - s" "i - s < int (length p)" using i assms(4) by linarith+
    ultimately have "covers cs (s + (i - s))"
      using assms(1) i(3) unfolding cut_from_def by metis
    then show ?thesis by simp
  qed
  moreover have "sorted (map chunk_start cs)" using assms(1) by (simp add: cut_from_def)
  moreover have "s \<le> e" using assms(4) by simp
  ultimately show ?thesis using assms(6) unfolding planned_def by blast
qed

text \<open>The paragraphs collected so far, which end at \<open>c\<close>.\<close>

definition current_ok :: "text_splitter \<Rightarrow> py_text \<Rightarrow> int \<Rightarrow> split_state \<Rightarrow> bool" where
  "current_ok sp norm c st \<longleftrightarrow> 0 \<le> c \<and> (st_current st \<noteq> [] \<longrightarrow>
     (\<exists>s. st_current_start st = Some s \<and> st_current_end st = Some c \<and> 0 \<le> s \<and> s < c \<and>
        c \<le> int (length norm) \<and> c - s \<le> chunk_size sp \<and>
        st_current st = sub norm (nat s) (nat c) \<and> stripped (st_current st)))"

definition current_from :: "int \<Rightarrow> split_state \<Rightarrow> int" where
  "current_from c st = (if st_current st = [] then c else the (st_current_start st))"

lemma planned_pending:
  assumes "current_ok sp norm c st"
  shows "planned sp norm (current_from c st) c (pending st)"
proof (cases "st_current st = []")
  case True
  then show ?thesis by (simp add: pending_def current_from_def planned_Nil)
next
  case False
  then obtain s where s: "st_current_start st = Some s" "st_current_end st = Some c" "0 \<le> s" "s < c"
    "c \<le> int (length norm)" "c - s \<le> chunk_size sp" "st_current st = sub norm (nat s) (nat c)"
    "stripped (st_current st)"
    using assms by (auto simp: current_ok_def)
  then have "pending st =
      [\<lparr>chunk_content = py_slice norm s c, chunk_start = s, chunk_end = c\<rparr>]"
    using False by (simp add: pending_def current_chunk_def strip_of_stripped py_slice_int)
  then show ?thesis using s False
    by (auto simp: planned_def chunk_of_def covers_def current_from_def py_slice_int)
qed

lemma sub_split_gap:
  assumes "sub norm (nat c) (nat s) = [NL, NL]" "0 \<le> a" "a \<le> c" "s = c + 2" "s \<le> e"
  shows "sub norm (nat a) (nat c) @ [NL, NL] @ sub norm (nat s) (nat e) = sub norm (nat a) (nat e)"
proof -
  have "sub norm (nat a) (nat c) @ sub norm (nat c) (nat s) = sub norm (nat a) (nat s)"
    by (rule sub_append) (use assms in auto)
  moreover have "sub norm (nat a) (nat s) @ sub norm (nat s) (nat e) = sub norm (nat a) (nat e)"
    by (rule sub_append) (use assms in auto)
  ultimately show ?thesis using assms(1) by (metis append.assoc)
qed

lemma current_ok_extend:
  assumes ok: "current_ok sp norm c st" and span: "span_list norm c ((p, s, e) # spans)"
    and fits: "int (length (candidate st p)) \<le> chunk_size sp"
  shows "current_ok sp norm e (extend_current p s e st)"
    "st_current st \<noteq> [] \<Longrightarrow> current_from e (extend_current p s e st) = current_from c st"
    "st_current st = [] \<Longrightarrow> current_from e (extend_current p s e st) = s"
proof -
  have c0: "0 \<le> c" using ok by (simp add: current_ok_def)
  note d = span_listD [OF span c0]
  have p: "stripped p" "p \<noteq> []" "sub norm (nat s) (nat e) = p" "int (length p) = e - s"
    "e \<le> int (length norm)" "0 \<le> s" "s < e"
    using d(2) [symmetric] d(3-6) stripped_length [OF d(6)] by (blast, force, blast, linarith+)
  show "st_current st \<noteq> [] \<Longrightarrow> current_from e (extend_current p s e st) = current_from c st"
    by (simp add: current_from_def extend_current_def candidate_def)
  show "st_current st = [] \<Longrightarrow> current_from e (extend_current p s e st) = s"
    using p(2) by (simp add: current_from_def extend_current_def candidate_def)
  show "current_ok sp norm e (extend_current p s e st)"
  proof (cases "st_current st = []")
    case True
    then show ?thesis using p fits by (simp add: current_ok_def extend_current_def candidate_def)
  next
    case False
    then obtain a where a: "st_current_start st = Some a" "0 \<le> a" "a < c"
      "c \<le> int (length norm)" "st_current st = sub norm (nat a) (nat c)" "stripped (st_current st)"
      using ok by (auto simp: current_ok_def)
    then have g: "s = c + 2" "sub norm (nat c) (nat s) = [NL, NL]" using d(1) by auto
    have "candidate st p = sub norm (nat a) (nat c) @ [NL, NL] @ sub norm (nat s) (nat e)"
      using False p(3) a(5) by (simp add: candidate_def)
    also have "\<dots> = sub norm (nat a) (nat e)"
      by (rule sub_split_gap [OF g(2) a(2) _ g(1)]) (use a p in linarith)+
    finally have cand: "candidate st p = sub norm (nat a) (nat e)" .
    have "stripped (candidate st p)" using a(6) p(1,2) False by (simp add: stripped_def candidate_def)
    moreover have "int (length (candidate st p)) = e - a"
      using a(2,3) p(5,7) g(1) by (simp add: cand length_sub)
    ultimately show ?thesis using a(1-4) p(5,7) g(1) fits False
      by (simp add: current_ok_def extend_current_def cand)
  qed
qed

lemma plan_correct:
  assumes "constructed sp" "0 \<le> chunk_overlap sp"
  shows "span_list norm c spans \<Longrightarrow> current_ok sp norm c st \<Longrightarrow> plan sp spans st = Some cs \<Longrightarrow>
    planned sp norm (current_from c st) (int (length norm)) cs"
proof (induction spans arbitrary: c st cs)
  case Nil
  then show ?case using planned_pending [of sp norm c st] by simp
next
  case (Cons span spans)
  obtain p s e where span: "span = (p, s, e)" by (cases span)
  note sl = Cons.prems(1) [unfolded span]
  have c0: "0 \<le> c" using Cons.prems(2) by (simp add: current_ok_def)
  then have p: "p = sub norm (nat s) (nat e)" "e = s + int (length p)" "e \<le> int (length norm)"
    "0 \<le> s" "stripped p" "span_list norm e spans"
    using span_listD [OF sl] by blast+
  have gap: "planned sp norm c s []" by (rule planned_gap) (use span_listD(1) [OF sl c0] in blast)
  have pend: "planned sp norm (current_from c st) s (pending st)"
    using planned_append [OF planned_pending [OF Cons.prems(2)] gap] by simp
  consider (long) "int (length p) > chunk_size sp"
    | (pack) "\<not> int (length p) > chunk_size sp" "int (length (candidate st p)) \<le> chunk_size sp"
    | (flush) "\<not> int (length p) > chunk_size sp" "\<not> int (length (candidate st p)) \<le> chunk_size sp"
    by blast
  then show ?case
  proof cases
    case long
    then obtain a r where a: "split_long sp p s 0 = Some a"
      "plan sp spans (clear_current st) = Some r" "cs = pending st @ a @ r"
      using Cons.prems(3) by (auto simp: span bind_eq_Some_conv split_long_text_with_spans_def)
    have cut: "planned sp norm s e a"
      by (rule planned_long [OF split_long_cut [OF assms _ a(1)] p(1,4,2,3) split_long_sorted_ends [OF assms a(1)]]) simp
    have cl: "st_current (clear_current st) = []" by (simp add: clear_current_def)
    have "planned sp norm e (int (length norm)) r"
      using Cons.IH [OF p(6) _ a(2)] cl p(2,4) by (simp add: current_ok_def current_from_def)
    then show ?thesis using planned_append [OF pend planned_append [OF cut]] a by simp
  next
    case pack
    have ok: "current_ok sp norm e (extend_current p s e st)"
      and from_eq: "st_current st \<noteq> [] \<Longrightarrow> current_from e (extend_current p s e st) = current_from c st"
        "st_current st = [] \<Longrightarrow> current_from e (extend_current p s e st) = s"
      using current_ok_extend [OF Cons.prems(2) sl pack(2)] by auto
    have ih: "planned sp norm (current_from e (extend_current p s e st)) (int (length norm)) cs"
      using Cons.IH [OF p(6) ok] Cons.prems(3) pack by (simp add: span)
    show ?thesis
    proof (cases "st_current st = []")
      case True
      then show ?thesis using planned_append [OF gap ih [unfolded from_eq(2) [OF True]]]
        by (simp add: current_from_def)
    next
      case False
      then show ?thesis using ih from_eq(1) by simp
    qed
  next
    case flush
    then obtain r where r: "plan sp spans (set_current p s e st) = Some r" "cs = pending st @ r"
      using Cons.prems(3) by (auto simp: span bind_eq_Some_conv)
    have ok: "current_ok sp norm e (set_current p s e st)"
      using p(2-5) p(1) [symmetric] flush(1) stripped_length [OF p(5)]
      by (simp add: current_ok_def set_current_def)
    have "current_from e (set_current p s e st) = s"
      using p(5) by (simp add: current_from_def set_current_def stripped_def)
    then have "planned sp norm s (int (length norm)) r" using Cons.IH [OF p(6) ok r(1)] by simp
    then show ?thesis using planned_append [OF pend] r by simp
  qed
qed


section \<open>The splitter\<close>

lemma split_unlimited:
  assumes "constructed sp" "0 \<le> chunk_overlap sp"
  obtains norm cs where "split_with_spans sp text None None = Some (Inr (norm, cs))"
    "ink norm = ink text" "planned sp norm 0 (int (length norm)) cs"
    "\<And>mc mt. strip (replace_crlf text) \<noteq> [] \<Longrightarrow> map_option (map_sum id snd) (split_with_spans sp text mc mt) =
       Some (added (add_chunks mc mt cs empty_split))"
    "strip (replace_crlf text) = [] \<Longrightarrow> cs = []"
proof -
  let ?t = "strip (replace_crlf text)"
  let ?ps = "paragraphs_of ?t"
  let ?norm = "join_paragraphs ?ps"
  have ink: "ink ?norm = ink text" by (simp add: ink_join_paragraphs ink_paragraphs_of)
  show ?thesis
  proof (cases "?t = []")
    case True
    then have "ink text = []" by (metis ink_Nil ink_replace_crlf ink_strip(3))
    then show ?thesis using that [of "[]" "[]"] True by (simp add: split_with_spans_def planned_Nil)
  next
    case False
    obtain cs where cs: "plan sp (paragraph_spans 0 ?ps) empty_split = Some cs"
      using plan_returns [OF assms(1)] by blast
    have run: "map_option added (split_spans sp mc mt (paragraph_spans 0 ?ps) empty_split) =
        Some (added (add_chunks mc mt cs empty_split))" for mc mt
      by (rule split_spans_plan [OF assms(1) cs])
    have sl: "span_list ?norm 0 (paragraph_spans 0 ?ps)"
      by (rule span_list_paragraphs) (simp add: paragraphs_stripped)
    have ok: "current_ok sp ?norm 0 empty_split" "current_from 0 empty_split = 0"
      by (simp_all add: current_ok_def current_from_def empty_split_def)
    have pl: "planned sp ?norm 0 (int (length ?norm)) cs"
      using plan_correct [OF assms sl ok(1) cs] ok(2) by simp
    have ne: "\<forall>c\<in>set cs. chunk_content c \<noteq> []"
      using pl by (auto simp: planned_def chunk_of_def stripped_def)
    have all: "added (add_chunks None None xs st) = Inr (st_chunks st @ xs)"
      if "\<forall>c\<in>set xs. chunk_content c \<noteq> []" for xs st
      using that
      by (induction xs arbitrary: st) (auto simp: add_chunk_def limit_reached_def limit_exceeded_def)
    have gen: "map_option (map_sum id snd) (split_with_spans sp text mc mt) =
       Some (added (add_chunks mc mt cs empty_split))" for mc mt
      using run [of mc mt] False
      by (auto simp: split_with_spans_def Let_def split: option.splits sum.splits)
    have un: "added (add_chunks None None cs empty_split) = Inr cs"
      using all [OF ne, of empty_split] by (simp add: empty_split_def)
    have "split_with_spans sp text None None = Some (Inr (?norm, cs))"
      using run [of None None] un False
      by (auto simp: split_with_spans_def Let_def added_def split: option.splits sum.splits)
    then show ?thesis using that ink pl gen False by blast
  qed
qed

text \<open>C23: A splitter that the constructor accepts, with the non-negative overlap that the API
  enforces, ends on every text. Every chunk it returns is not empty, starts and ends with a
  character that is not whitespace, is not longer than the chunk size and is exactly the part of
  the normalised text that its recorded span names. The normalised text has the same
  non-whitespace characters as the input, in the same order, and each of them lies in some
  chunk: splitting loses nothing. The spans are in order.\<close>

theorem split_chunks_correct:
  assumes "make_splitter csize ov = Inr sp" and "0 \<le> ov"
  shows "\<exists>norm chunks. split_with_spans sp text None None = Some (Inr (norm, chunks)) \<and>
    ink norm = ink text \<and>
    (\<forall>c\<in>set chunks. chunk_content c \<noteq> [] \<and> stripped (chunk_content c) \<and>
       int (length (chunk_content c)) \<le> csize \<and>
       0 \<le> chunk_start c \<and> chunk_start c < chunk_end c \<and> chunk_end c \<le> int (length norm) \<and>
       chunk_content c = py_slice norm (chunk_start c) (chunk_end c)) \<and>
    (\<forall>i<length norm. \<not> py_isspace (norm ! i) \<longrightarrow>
       (\<exists>c\<in>set chunks. chunk_start c \<le> int i \<and> int i < chunk_end c)) \<and>
    sorted (map chunk_start chunks) \<and> sorted (map chunk_end chunks)"
proof -
  have sp: "constructed sp" "0 \<le> chunk_overlap sp" "chunk_size sp = csize"
    using assms by (auto simp: make_splitter_Inr constructed_def)
  obtain norm cs where s: "split_with_spans sp text None None = Some (Inr (norm, cs))"
    "ink norm = ink text" "planned sp norm 0 (int (length norm)) cs"
    by (rule split_unlimited [OF sp(1,2)]) blast
  have len: "int (length (chunk_content c)) = chunk_end c - chunk_start c" if "chunk_of sp norm c" for c
    using that by (auto simp: chunk_of_def py_slice_int length_sub)
  have "\<forall>c\<in>set cs. chunk_of sp norm c" using s(3) by (simp add: planned_def)
  then have c: "\<forall>c\<in>set cs. chunk_content c \<noteq> [] \<and> stripped (chunk_content c) \<and>
       int (length (chunk_content c)) \<le> csize \<and>
       0 \<le> chunk_start c \<and> chunk_start c < chunk_end c \<and> chunk_end c \<le> int (length norm) \<and>
       chunk_content c = py_slice norm (chunk_start c) (chunk_end c)"
    using len sp(3) unfolding chunk_of_def stripped_def by (metis order.refl)
  have "\<exists>c\<in>set cs. chunk_start c \<le> int i \<and> int i < chunk_end c"
    if "i < length norm" "\<not> py_isspace (norm ! i)" for i
    using s(3) that by (auto simp: planned_def covers_def)
  then show ?thesis using s c unfolding planned_def by blast
qed


lemma split_chunks_witness:
  "\<exists>norm chunks. split_with_spans \<lparr>chunk_size = 4, chunk_overlap = 1\<rparr>
      [97, 98, 46, 99, 100, 101, 13, 10, 32, 10, 102] None None = Some (Inr (norm, chunks)) \<and>
    ink norm = [97, 98, 46, 99, 100, 101, 102] \<and>
    sorted (map chunk_start chunks)"
  using split_chunks_correct [of 4 1 "\<lparr>chunk_size = 4, chunk_overlap = 1\<rparr>"
      "[97, 98, 46, 99, 100, 101, 13, 10, 32, 10, 102]"]
  by (fastforce simp: make_splitter_def ink_def py_isspace_def)

text \<open>The limits: what the first chunk beyond a limit makes of the full list.\<close>

definition total_chars :: "split_chunk list \<Rightarrow> int" where
  "total_chars cs = sum_list (map (\<lambda>c. int (length (chunk_content c))) cs)"

definition limited_result :: "int option \<Rightarrow> int option \<Rightarrow> split_chunk list \<Rightarrow> py_error + py_text list" where
  "limited_result mc mt cs =
     (if limit_exceeded mc (int (length cs)) \<and> \<not> limit_exceeded mt (total_chars (take (nat (the mc)) cs))
      then Inl (ParameterException ''ERR_KB_CHUNK_COUNT_EXCEEDED'')
      else if limit_exceeded mt (total_chars cs)
      then Inl (ParameterException ''ERR_KB_CHUNK_TOTAL_CHARS_EXCEEDED'')
      else Inr (map chunk_content cs))"

lemma total_chars_simps [simp]:
  "total_chars [] = 0" "total_chars (c # cs) = int (length (chunk_content c)) + total_chars cs"
  by (simp_all add: total_chars_def)

lemma total_chars_nonneg: "0 \<le> total_chars cs"
  by (induction cs) auto

lemma total_chars_take_le: "total_chars (take n cs) \<le> total_chars cs"
proof (induction cs arbitrary: n)
  case (Cons c cs)
  show ?case
    using Cons [of "n - 1"] total_chars_nonneg [of cs] by (cases n) auto
qed simp

lemma limit_mono: "limit_exceeded l a \<Longrightarrow> a \<le> b \<Longrightarrow> limit_exceeded l b"
  by (auto simp: limit_exceeded_def split: option.splits)

definition limited_from :: "int option \<Rightarrow> int option \<Rightarrow> split_state \<Rightarrow> split_chunk list \<Rightarrow> py_error + split_chunk list" where
  "limited_from mc mt st cs =
     (let n = int (length (st_chunks st)); total = st_total_chars st in
      if limit_exceeded mc (n + int (length cs)) \<and>
         \<not> limit_exceeded mt (total + total_chars (take (nat (the mc - n)) cs))
      then Inl (ParameterException ''ERR_KB_CHUNK_COUNT_EXCEEDED'')
      else if limit_exceeded mt (total + total_chars cs)
      then Inl (ParameterException ''ERR_KB_CHUNK_TOTAL_CHARS_EXCEEDED'')
      else Inr (st_chunks st @ cs))"

lemma add_chunks_limited:
  assumes "\<forall>c\<in>set cs. chunk_content c \<noteq> []" "\<not> limit_exceeded mc (int (length (st_chunks st)))"
    "\<not> limit_exceeded mt (st_total_chars st)"
  shows "added (add_chunks mc mt cs st) = limited_from mc mt st cs"
  using assms
proof (induction cs arbitrary: st)
  case Nil
  then show ?case by (simp add: limited_from_def Let_def)
next
  case (Cons c cs)
  let ?n = "int (length (st_chunks st))"
  let ?l = "int (length (chunk_content c))"
  let ?t = "st_total_chars st + ?l"
  have ne: "chunk_content c \<noteq> []" using Cons.prems by simp
  show ?case
  proof (cases "limit_reached mc ?n")
    case True
    then obtain m where m: "mc = Some m" "m = ?n"
      using Cons.prems(2) by (auto simp: limit_reached_def limit_exceeded_def split: option.splits)
    then show ?thesis using True ne Cons.prems(3)
      by (simp add: add_chunk_def limited_from_def Let_def limit_exceeded_def split: option.splits)
  next
    case room: False
    show ?thesis
    proof (cases "limit_exceeded mt ?t")
      case True
      have big: "limit_exceeded mt (st_total_chars st + (?l + total_chars xs))" for xs
        by (rule limit_mono [OF True]) (use total_chars_nonneg [of xs] in simp)
      have "take (nat (the mc - ?n)) (c # cs) = c # take (nat (the mc - ?n) - 1) cs"
        if "mc = Some m" for m
        using room that by (cases "nat (the mc - ?n)") (auto simp: limit_reached_def)
      then have "limit_exceeded mc k \<Longrightarrow>
          limit_exceeded mt (st_total_chars st + total_chars (take (nat (the mc - ?n)) (c # cs)))" for k
        using big by (cases mc) (auto simp: limit_exceeded_def)
      moreover have "limit_exceeded mt (st_total_chars st + total_chars (c # cs))" using big by simp
      ultimately show ?thesis using True room ne
        by (auto simp: add_chunk_def limited_from_def Let_def)
    next
      case False
      let ?st = "st\<lparr>st_chunks := st_chunks st @ [c], st_total_chars := ?t\<rparr>"
      have step: "add_chunk mc mt c st = Inr ?st" using ne room False by (simp add: add_chunk_def)
      have "\<not> limit_exceeded mc (int (length (st_chunks ?st)))"
        using room by (auto simp: limit_reached_def limit_exceeded_def split: option.splits)
      then have ih: "added (add_chunks mc mt cs ?st) = limited_from mc mt ?st cs"
        using Cons.IH [of ?st] Cons.prems(1) False by simp
      have "limited_from mc mt ?st cs = limited_from mc mt st (c # cs)"
      proof (cases mc)
        case None
        then show ?thesis by (simp add: limited_from_def Let_def limit_exceeded_def [of None] algebra_simps)
      next
        case (Some m)
        have "nat (m - ?n) = Suc (nat (m - (?n + 1)))" using room Some by (simp add: limit_reached_def)
        then have "take (nat (m - ?n)) (c # cs) = c # take (nat (m - (?n + 1))) cs" by simp
        then show ?thesis using Some by (simp add: limited_from_def Let_def algebra_simps)
      qed
      then show ?thesis using step ih by simp
    qed
  qed
qed

text \<open>The limits on the number of chunks and on their total length change nothing but the
  refusal: with (non-negative) limits, the splitter returns exactly the unlimited chunks when they
  respect both limits, and otherwise the error of the limit that is violated first.\<close>

theorem split_limits_exact:
  assumes "make_splitter csize ov = Inr sp" and "0 \<le> ov"
    and "\<not> limit_exceeded mc 0" and "\<not> limit_exceeded mt 0"
  shows "\<exists>norm chunks. split_with_spans sp text None None = Some (Inr (norm, chunks)) \<and>
    split_text sp text mc mt = Some (limited_result mc mt chunks)"
proof -
  have sp: "constructed sp" "0 \<le> chunk_overlap sp"
    using assms by (auto simp: make_splitter_Inr constructed_def)
  obtain norm cs where s: "split_with_spans sp text None None = Some (Inr (norm, cs))"
    "planned sp norm 0 (int (length norm)) cs"
    "strip (replace_crlf text) \<noteq> [] \<Longrightarrow> map_option (map_sum id snd) (split_with_spans sp text mc mt) =
       Some (added (add_chunks mc mt cs empty_split))"
    "strip (replace_crlf text) = [] \<Longrightarrow> cs = []"
    by (rule split_unlimited [OF sp]) blast
  have st: "split_text sp text mc mt = map_option (map_sum id (map chunk_content))
      (map_option (map_sum id snd) (split_with_spans sp text mc mt))"
    by (cases "split_with_spans sp text mc mt")
      (auto simp: split_text_def map_sum.compositionality split: sum.splits)
  have "split_text sp text mc mt = Some (limited_result mc mt cs)"
  proof (cases "strip (replace_crlf text) = []")
    case True
    then show ?thesis using s(4) assms(3,4)
      by (simp add: split_text_def split_with_spans_def limited_result_def)
  next
    case False
    have ne: "\<forall>c\<in>set cs. chunk_content c \<noteq> []"
      using s(2) by (auto simp: planned_def chunk_of_def stripped_def)
    have "added (add_chunks mc mt cs empty_split) = limited_from mc mt empty_split cs"
      by (rule add_chunks_limited [OF ne]) (use assms in \<open>simp_all add: empty_split_def\<close>)
    then show ?thesis using st s(3) [OF False]
      by (simp add: limited_from_def limited_result_def empty_split_def Let_def)
  qed
  then show ?thesis using s(1) by blast
qed

lemma split_limits_witness:
  "split_text \<lparr>chunk_size = 4, chunk_overlap = 1\<rparr> [97, 98, 10, 10, 99, 100] (Some 1) None =
     Some (Inl (ParameterException ''ERR_KB_CHUNK_COUNT_EXCEEDED'')) \<and>
   (\<exists>norm chunks. split_with_spans \<lparr>chunk_size = 4, chunk_overlap = 1\<rparr> [97, 98, 10, 10, 99, 100]
        None None = Some (Inr (norm, chunks)) \<and>
      Inl (ParameterException ''ERR_KB_CHUNK_COUNT_EXCEEDED'') = limited_result (Some 1) None chunks)"
proof -
  have p: "paragraphs_of [97, 98, 10, 10, 99, 100] = [[97, 98], [99, 100]]"
    by (simp add: paragraphs_of_def break_here_def behind_break_def strip_def lstrip_def rstrip_def
        py_isspace_def NL_def)
  have e: "split_text \<lparr>chunk_size = 4, chunk_overlap = 1\<rparr> [97, 98, 10, 10, 99, 100] (Some 1) None =
     Some (Inl (ParameterException ''ERR_KB_CHUNK_COUNT_EXCEEDED''))"
    by (simp add: split_text_def split_with_spans_def p Let_def split_paragraph_def empty_split_def
        candidate_def extend_current_def set_current_def add_current_def add_chunk_def
        current_chunk_def limit_reached_def limit_exceeded_def strip_def lstrip_def rstrip_def
        py_isspace_def NL_def CR_def)
  show ?thesis
    using split_limits_exact [of 4 1 "\<lparr>chunk_size = 4, chunk_overlap = 1\<rparr>" "Some 1" None
      "[97, 98, 10, 10, 99, 100]"] e
    by (simp add: make_splitter_def limit_exceeded_def)
qed


section \<open>Reconstruction\<close>

lemma ink_sub_blank:
  assumes "\<And>i. a \<le> i \<Longrightarrow> i < b \<Longrightarrow> i < length t \<Longrightarrow> py_isspace (t ! i)"
  shows "ink (sub t a b) = []"
proof -
  have "py_isspace x" if x: "x \<in> set (sub t a b)" for x
  proof -
    obtain k where k: "k < length (sub t a b)" "sub t a b ! k = x"
      using x unfolding in_set_conv_nth by blast
    then have "x = t ! (a + k)" "a + k < b" "a + k < length t" by (auto simp: sub_def)
    then show ?thesis using assms [of "a + k"] by simp
  qed
  then show ?thesis by (simp add: ink_Nil_iff)
qed

lemma ink_sub_covered:
  assumes "a \<le> b" "b \<le> length t"
    and "\<And>i. i < length t \<Longrightarrow> \<not> py_isspace (t ! i) \<Longrightarrow> a \<le> i \<and> i < b"
  shows "ink (sub t a b) = ink t"
proof -
  have "t = sub t 0 a @ sub t a b @ sub t b (length t)"
    using sub_append [of 0 a b t] sub_append [of 0 b "length t" t] assms(1,2) sub_all [of t]
    by (metis append.assoc zero_le)
  moreover have "ink (sub t 0 a) = []" by (rule ink_sub_blank) (use assms(3) in \<open>meson not_le\<close>)
  moreover have "ink (sub t b (length t)) = []" by (rule ink_sub_blank) (use assms(3) in \<open>meson not_le\<close>)
  ultimately show ?thesis by (metis append_Nil append_Nil2 ink_append)
qed

lemma sorted_map_nth:
  "sorted (map f cs) \<Longrightarrow> i \<le> j \<Longrightarrow> j < length cs \<Longrightarrow> (f (cs ! i) :: int) \<le> f (cs ! j)"
  using sorted_nth_mono [of "map f cs" i j] by simp

text \<open>C24: \<open>reconstruct_chunk_range\<close> undoes the splitting. For chunk numbers \<open>i \<le> j\<close> that exist it
  returns a text in which every chunk from \<open>i\<close> to \<open>j\<close> stands at its offset from the start of
  chunk \<open>i\<close>, so that overlapping chunks are not repeated; the full range has exactly the
  non-whitespace characters of the input; any other pair of numbers gives \<open>None\<close>.\<close>

theorem reconstruct_inverts_split:
  assumes "make_splitter csize ov = Inr sp" and "0 \<le> ov"
  shows "\<exists>norm cs. split_with_spans sp text None None = Some (Inr (norm, cs)) \<and>
    (\<forall>i j. \<not> (0 \<le> i \<and> i \<le> j \<and> j < int (length cs)) \<longrightarrow>
       reconstruct_chunk_range sp text i j = Some (Inr None)) \<and>
    (\<forall>i j k. 0 \<le> i \<and> i \<le> k \<and> k \<le> j \<and> j < int (length cs) \<longrightarrow>
       (\<exists>r. reconstruct_chunk_range sp text i j = Some (Inr (Some r)) \<and>
          py_slice r (chunk_start (cs ! nat k) - chunk_start (cs ! nat i))
                     (chunk_end (cs ! nat k) - chunk_start (cs ! nat i)) = chunk_content (cs ! nat k))) \<and>
    (cs \<noteq> [] \<longrightarrow> (\<exists>r. reconstruct_chunk_range sp text 0 (int (length cs) - 1) = Some (Inr (Some r)) \<and>
       ink r = ink text))"
proof -
  have sp: "constructed sp" "0 \<le> chunk_overlap sp"
    using assms by (auto simp: make_splitter_Inr constructed_def)
  obtain norm cs where s: "split_with_spans sp text None None = Some (Inr (norm, cs))"
    "ink norm = ink text" "planned sp norm 0 (int (length norm)) cs"
    by (rule split_unlimited [OF sp]) blast
  let ?r = "\<lambda>i j. sub norm (nat (chunk_start (cs ! nat i))) (nat (chunk_end (cs ! nat j)))"
  have ok: "chunk_of sp norm c" if "c \<in> set cs" for c using s(3) that by (simp add: planned_def)
  have rec: "reconstruct_chunk_range sp text i j = Some (Inr
      (if 0 \<le> i \<and> i \<le> j \<and> j < int (length cs) then Some (?r i j) else None))" for i j
  proof -
    have "0 \<le> chunk_start (cs ! nat i)" "0 \<le> chunk_end (cs ! nat j)"
      if "0 \<le> i" "i \<le> j" "j < int (length cs)"
      using ok [of "cs ! nat i"] ok [of "cs ! nat j"] that by (simp_all add: chunk_of_def)
    then show ?thesis by (auto simp: reconstruct_chunk_range_def s(1) py_slice_int)
  qed
  have part: "py_slice (?r i j) (chunk_start (cs ! nat k) - chunk_start (cs ! nat i))
      (chunk_end (cs ! nat k) - chunk_start (cs ! nat i)) = chunk_content (cs ! nat k)"
    if ijk: "0 \<le> i" "i \<le> k" "k \<le> j" "j < int (length cs)" for i j k
  proof -
    have o: "chunk_start (cs ! nat i) \<le> chunk_start (cs ! nat k)"
      "chunk_end (cs ! nat k) \<le> chunk_end (cs ! nat j)"
      using sorted_map_nth [of chunk_start cs "nat i" "nat k"]
        sorted_map_nth [of chunk_end cs "nat k" "nat j"] s(3) ijk by (simp_all add: planned_def)
    have k: "0 \<le> chunk_start (cs ! nat i)" "chunk_start (cs ! nat k) < chunk_end (cs ! nat k)"
      "chunk_content (cs ! nat k) = sub norm (nat (chunk_start (cs ! nat k))) (nat (chunk_end (cs ! nat k)))"
      using ok [of "cs ! nat i"] ok [of "cs ! nat k"] ijk o by (auto simp: chunk_of_def py_slice_int)
    let ?a = "chunk_start (cs ! nat i)"
    let ?x = "chunk_start (cs ! nat k)"
    let ?y = "chunk_end (cs ! nat k)"
    have "py_slice (?r i j) (?x - ?a) (?y - ?a) = sub (?r i j) (nat (?x - ?a)) (nat (?y - ?a))"
      by (rule py_slice_int) (use o k in linarith)+
    also have "\<dots> = sub norm (nat ?a + nat (?x - ?a)) (nat ?a + nat (?y - ?a))"
      by (rule sub_sub) (use o k in linarith)
    also have "nat ?a + nat (?x - ?a) = nat ?x" using o k by linarith
    also have "nat ?a + nat (?y - ?a) = nat ?y" using o k by linarith
    finally show ?thesis using k(3) by simp
  qed
  have full: "ink (?r 0 (int (length cs) - 1)) = ink text" if ne: "cs \<noteq> []"
  proof -
    let ?l = "nat (int (length cs) - 1)"
    have l: "?l < length cs" using ne by (cases cs) auto
    have rng: "chunk_start (cs ! 0) \<le> chunk_start c \<and> chunk_end c \<le> chunk_end (cs ! ?l)"
      if c: "c \<in> set cs" for c
    proof -
      obtain m where "m < length cs" "c = cs ! m" using c by (auto simp: in_set_conv_nth)
      then show ?thesis
        using sorted_map_nth [of chunk_start cs 0 m] sorted_map_nth [of chunk_end cs m ?l] s(3)
        by (simp add: planned_def)
    qed
    have c0: "chunk_of sp norm (cs ! 0)" "chunk_of sp norm (cs ! ?l)" using ok l ne by simp_all
    have "ink (sub norm (nat (chunk_start (cs ! 0))) (nat (chunk_end (cs ! ?l)))) = ink norm"
    proof (rule ink_sub_covered)
      have "chunk_start (cs ! 0) \<le> chunk_start (cs ! ?l)" using rng [of "cs ! ?l"] l by simp
      then show "nat (chunk_start (cs ! 0)) \<le> nat (chunk_end (cs ! ?l))"
        using c0 unfolding chunk_of_def by linarith
      show "nat (chunk_end (cs ! ?l)) \<le> length norm" using c0 unfolding chunk_of_def by linarith
      fix i assume i: "i < length norm" "\<not> py_isspace (norm ! i)"
      then have "0 \<le> int i \<and> int i < int (length norm) \<and> \<not> py_isspace (norm ! nat (int i))" by simp
      then have "covers cs (int i)" using s(3) unfolding planned_def by blast
      then obtain c where "c \<in> set cs" "chunk_start c \<le> int i" "int i < chunk_end c"
        unfolding covers_def by blast
      then show "nat (chunk_start (cs ! 0)) \<le> i \<and> i < nat (chunk_end (cs ! ?l))"
        using rng [of c] by linarith
    qed
    then show ?thesis using s(2) by simp
  qed
  have "\<exists>r. reconstruct_chunk_range sp text i j = Some (Inr (Some r)) \<and>
      py_slice r (chunk_start (cs ! nat k) - chunk_start (cs ! nat i))
                 (chunk_end (cs ! nat k) - chunk_start (cs ! nat i)) = chunk_content (cs ! nat k)"
    if "0 \<le> i" "i \<le> k" "k \<le> j" "j < int (length cs)" for i j k
    using rec [of i j] part [OF that] that by simp
  moreover have "cs \<noteq> [] \<Longrightarrow> \<exists>r. reconstruct_chunk_range sp text 0 (int (length cs) - 1) = Some (Inr (Some r)) \<and>
      ink r = ink text"
    using rec [of 0 "int (length cs) - 1"] full by (cases cs) auto
  ultimately show ?thesis using s(1) rec by auto
qed

lemma reconstruct_witness:
  "\<exists>norm cs. split_with_spans \<lparr>chunk_size = 4, chunk_overlap = 1\<rparr> [97, 98, 10, 10, 99, 100] None None =
      Some (Inr (norm, cs)) \<and>
    reconstruct_chunk_range \<lparr>chunk_size = 4, chunk_overlap = 1\<rparr> [97, 98, 10, 10, 99, 100] 1 0 =
      Some (Inr None)"
  using reconstruct_inverts_split [of 4 1 "\<lparr>chunk_size = 4, chunk_overlap = 1\<rparr>" "[97, 98, 10, 10, 99, 100]"]
  by (auto simp: make_splitter_def)

end
