(* ===== verification/File_Text.thy ===== *)
theory File_Text
  imports Py_Text
begin

text \<open>
  Text files as the file tool sees them (\<open>src/app/core/tools/file_tool/text.py\<close>): bytes and
  UTF-8, the byte order mark, line endings, line numbers. A byte is a number below 256. A file
  is a \<open>file_node\<close>: absent (with a parent directory that can or cannot be made), a regular file
  with its bytes, or something else. Failures of the operating system other than these are not
  modelled.
\<close>

section \<open>UTF-8\<close>

text \<open>\<open>str.encode("utf-8")\<close>: surrogates are refused.\<close>

definition utf8_char :: "nat \<Rightarrow> nat list option" where
  "utf8_char c =
     (if c < 128 then Some [c]
      else if c < 2048 then Some [192 + c div 64, 128 + c mod 64]
      else if c < 65536 then
        (if 55296 \<le> c \<and> c < 57344 then None
         else Some [224 + c div 4096, 128 + c div 64 mod 64, 128 + c mod 64])
      else if c < 1114112 then
        Some [240 + c div 262144, 128 + c div 4096 mod 64, 128 + c div 64 mod 64, 128 + c mod 64]
      else None)"

fun utf8_encode :: "py_text \<Rightarrow> nat list option" where
  "utf8_encode [] = Some []"
| "utf8_encode (c # t) =
     (case utf8_char c of None \<Rightarrow> None
      | Some b \<Rightarrow> (case utf8_encode t of None \<Rightarrow> None | Some bs \<Rightarrow> Some (b @ bs)))"

text \<open>\<open>bytes.decode("utf-8")\<close>: continuation bytes, no overlong forms, no surrogates.\<close>

definition cont :: "nat \<Rightarrow> bool" where
  "cont b \<longleftrightarrow> 128 \<le> b \<and> b < 192"

fun utf8_head :: "nat list \<Rightarrow> (nat \<times> nat list) option" where
  "utf8_head [] = None"
| "utf8_head (a # t) =
     (if a < 128 then Some (a, t)
      else if 194 \<le> a \<and> a < 224 then
        (case t of b # t' \<Rightarrow> if cont b then Some ((a - 192) * 64 + (b - 128), t') else None
         | _ \<Rightarrow> None)
      else if 224 \<le> a \<and> a < 240 then
        (case t of b # c # t' \<Rightarrow>
           let v = (a - 224) * 4096 + (b - 128) * 64 + (c - 128) in
           if cont b \<and> cont c \<and> 2048 \<le> v \<and> \<not> (55296 \<le> v \<and> v < 57344) then Some (v, t') else None
         | _ \<Rightarrow> None)
      else if 240 \<le> a \<and> a < 245 then
        (case t of b # c # d # t' \<Rightarrow>
           let v = (a - 240) * 262144 + (b - 128) * 4096 + (c - 128) * 64 + (d - 128) in
           if cont b \<and> cont c \<and> cont d \<and> 65536 \<le> v \<and> v < 1114112 then Some (v, t') else None
         | _ \<Rightarrow> None)
      else None)"

lemma utf8_head_shorter: "utf8_head bs = Some (c, rest) \<Longrightarrow> length rest < length bs"
  by (cases bs) (auto simp: Let_def split: if_splits list.splits)

function utf8_decode :: "nat list \<Rightarrow> py_text option" where
  "utf8_decode bs =
     (if bs = [] then Some []
      else (case utf8_head bs of None \<Rightarrow> None
            | Some (c, rest) \<Rightarrow> (case utf8_decode rest of None \<Rightarrow> None | Some t \<Rightarrow> Some (c # t))))"
  by pat_completeness auto
termination
  by (relation "measure length") (auto simp: utf8_head_shorter)

declare utf8_decode.simps [simp del]

section \<open>Line endings and lines\<close>

fun contains_crlf :: "py_text \<Rightarrow> bool" where
  "contains_crlf (a # b # t) \<longleftrightarrow> (a = CR \<and> b = NL) \<or> contains_crlf (b # t)"
| "contains_crlf _ \<longleftrightarrow> False"

definition detect_line_ending :: "py_text \<Rightarrow> py_text" where
  "detect_line_ending t = (if contains_crlf t then [CR, NL] else [NL])"

text \<open>\<open>text.replace("\r\n", "\n").replace("\r", "\n")\<close>\<close>

fun crlf_to_lf :: "py_text \<Rightarrow> py_text" where
  "crlf_to_lf (a # b # t) = (if a = CR \<and> b = NL then NL # crlf_to_lf t else a # crlf_to_lf (b # t))"
| "crlf_to_lf t = t"

definition normalize_line_endings :: "py_text \<Rightarrow> py_text" where
  "normalize_line_endings t = map (\<lambda>c. if c = CR then NL else c) (crlf_to_lf t)"

definition convert_line_endings :: "py_text \<Rightarrow> py_text \<Rightarrow> py_text" where
  "convert_line_endings t ending =
     (let n = normalize_line_endings t in
      if ending = [NL] then n else concat (map (\<lambda>c. if c = NL then [CR, NL] else [c]) n))"

text \<open>\<open>str.splitlines\<close> splits at every line boundary of Unicode, not only at line feeds.\<close>

definition line_boundary :: "nat \<Rightarrow> bool" where
  "line_boundary c \<longleftrightarrow> c \<in> {10, 11, 12, 13, 28, 29, 30, 133, 8232, 8233}"

fun splitlines_from :: "py_text \<Rightarrow> py_text \<Rightarrow> py_text list" where
  "splitlines_from acc [] = (if acc = [] then [] else [rev acc])"
| "splitlines_from acc [c] = (if line_boundary c then [rev acc] else [rev (c # acc)])"
| "splitlines_from acc (c # d # t) =
     (if c = CR \<and> d = NL then rev acc # splitlines_from [] t
      else if line_boundary c then rev acc # splitlines_from [] (d # t)
      else splitlines_from (c # acc) (d # t))"

definition splitlines :: "py_text \<Rightarrow> py_text list" where
  "splitlines t = splitlines_from [] t"

text \<open>\<open>str.split("\n")\<close> and \<open>"\n".join\<close>\<close>

fun split_nl_from :: "py_text \<Rightarrow> py_text \<Rightarrow> py_text list" where
  "split_nl_from acc [] = [rev acc]"
| "split_nl_from acc (c # t) =
     (if c = NL then rev acc # split_nl_from [] t else split_nl_from (c # acc) t)"

definition split_nl :: "py_text \<Rightarrow> py_text list" where
  "split_nl t = split_nl_from [] t"

fun join_nl :: "py_text list \<Rightarrow> py_text" where
  "join_nl [] = []"
| "join_nl [l] = l"
| "join_nl (l # m # ls) = l @ NL # join_nl (m # ls)"

function dec_digits :: "nat \<Rightarrow> py_text" where
  "dec_digits n = (if n < 10 then [48 + n] else dec_digits (n div 10) @ [48 + n mod 10])"
  by pat_completeness auto
termination by (relation "measure id") auto

declare dec_digits.simps [simp del]

definition numbered_line :: "py_text list \<Rightarrow> nat \<Rightarrow> py_text" where
  "numbered_line lines n = dec_digits n @ [58, 32] @ lines ! (n - 1)"

text \<open>Line numbers start at 1; the callers keep the end within the number of lines.\<close>

definition format_numbered_lines :: "py_text list \<Rightarrow> nat \<Rightarrow> nat \<Rightarrow> py_text" where
  "format_numbered_lines lines start_line end_line =
     (if lines = [] \<or> start_line > end_line then []
      else join_nl (map (numbered_line lines) [start_line..<Suc end_line]))"

definition line_number_at :: "py_text \<Rightarrow> nat \<Rightarrow> nat" where
  "line_number_at t position = length (filter (\<lambda>c. c = NL) (take position t)) + 1"

section \<open>Files\<close>

datatype file_node =
    Absent bool   \<comment> \<open>whether the parent directory exists or can be made\<close>
  | Regular "nat list"
  | Other_node

datatype file_error =
    FileNotFoundError string
  | NotRegularError string
  | PathError string
  | UnicodeDecodeError
  | UnicodeEncodeError
  | OSError

record text_source =
  ts_text :: py_text
  ts_has_bom :: bool
  ts_line_ending :: py_text

definition UTF8_BOM :: "nat list" where
  "UTF8_BOM = [239, 187, 191]"

definition read_text_source :: "file_node \<Rightarrow> file_error + text_source" where
  "read_text_source node =
     (case node of
        Absent _ \<Rightarrow> Inl (FileNotFoundError ''ERR_FILE_NOT_FOUND'')
      | Other_node \<Rightarrow> Inl (NotRegularError ''ERR_FILE_TOOL_NOT_REGULAR'')
      | Regular raw \<Rightarrow>
          (let has_bom = (take 3 raw = UTF8_BOM); payload = (if has_bom then drop 3 raw else raw) in
           (case utf8_decode payload of
              None \<Rightarrow> Inl UnicodeDecodeError
            | Some t \<Rightarrow> Inr \<lparr>ts_text = t, ts_has_bom = has_bom,
                             ts_line_ending = detect_line_ending t\<rparr>)))"

text \<open>Writing a text: the file afterwards, or the error with the file unchanged.\<close>

definition write_text :: "file_node \<Rightarrow> py_text \<Rightarrow> bool \<Rightarrow> file_error + file_node" where
  "write_text node t has_bom =
     (case node of
        Absent False \<Rightarrow> Inl OSError
      | Other_node \<Rightarrow> Inl (NotRegularError ''ERR_FILE_TOOL_NOT_REGULAR'')
      | _ \<Rightarrow> (case utf8_encode t of
                None \<Rightarrow> Inl UnicodeEncodeError
              | Some payload \<Rightarrow> Inr (Regular ((if has_bom then UTF8_BOM else []) @ payload))))"

section \<open>UTF-8 round trips\<close>

lemma div_64_64: "n div 4096 = n div 64 div 64" "n div 262144 = n div 64 div 64 div 64" for n :: nat
  by (simp_all add: div_mult2_eq [symmetric])

lemma digits_64:
  "n div 4096 * 4096 + n div 64 mod 64 * 64 + n mod 64 = n"
  "n div 262144 * 262144 + n div 4096 mod 64 * 4096 + n div 64 mod 64 * 64 + n mod 64 = n" for n :: nat
proof -
  have d: "m = m div 64 * 64 + m mod 64" for m :: nat by simp
  show "n div 4096 * 4096 + n div 64 mod 64 * 64 + n mod 64 = n"
    "n div 262144 * 262144 + n div 4096 mod 64 * 4096 + n div 64 mod 64 * 64 + n mod 64 = n"
    unfolding div_64_64 using d [of n] d [of "n div 64"] d [of "n div 64 div 64"] by linarith+
qed

lemma compose_64: "r < 64 \<Longrightarrow> (m * 64 + r) div 64 = m" "r < 64 \<Longrightarrow> (m * 64 + r) mod 64 = r" for m r :: nat
  by simp_all

lemma utf8_char_head: "utf8_char c = Some b \<Longrightarrow> utf8_head (b @ rest) = Some (c, rest)"
proof -
  assume a: "utf8_char c = Some b"
  consider (one) "c < 128" | (two) "128 \<le> c" "c < 2048"
    | (three) "2048 \<le> c" "c < 65536" "\<not> (55296 \<le> c \<and> c < 57344)"
    | (four) "65536 \<le> c" "c < 1114112"
    using a by (auto simp: utf8_char_def split: if_splits)
  then show ?thesis
  proof cases
    case one
    then show ?thesis using a by (auto simp: utf8_char_def)
  next
    case two
    then have "b = [192 + c div 64, 128 + c mod 64]" using a by (simp add: utf8_char_def)
    moreover have "2 \<le> c div 64" "c div 64 < 32" using two by linarith+
    ultimately show ?thesis by (simp add: cont_def)
  next
    case three
    then have "b = [224 + c div 4096, 128 + c div 64 mod 64, 128 + c mod 64]"
      using a by (auto simp: utf8_char_def split: if_splits)
    moreover have "c div 4096 < 16" using three by linarith
    moreover have "c div 4096 * 4096 + c div 64 mod 64 * 64 + c mod 64 = c" by (rule digits_64)
    ultimately show ?thesis using three by (simp add: cont_def Let_def)
  next
    case four
    then have "b = [240 + c div 262144, 128 + c div 4096 mod 64, 128 + c div 64 mod 64, 128 + c mod 64]"
      using a by (simp add: utf8_char_def)
    moreover have "c div 262144 < 5" using four by linarith
    moreover have "c div 262144 * 262144 + c div 4096 mod 64 * 4096 + c div 64 mod 64 * 64 + c mod 64 = c"
      by (rule digits_64)
    ultimately show ?thesis using four by (simp add: cont_def Let_def)
  qed
qed

lemma utf8_char_nonempty: "utf8_char c = Some b \<Longrightarrow> b \<noteq> []"
  by (auto simp: utf8_char_def split: if_splits)

lemma utf8_decode_encode: "utf8_encode t = Some bs \<Longrightarrow> utf8_decode bs = Some t"
proof (induction t arbitrary: bs)
  case Nil
  then show ?case by (simp add: utf8_decode.simps)
next
  case (Cons c t)
  then obtain b bs' where b: "utf8_char c = Some b" "utf8_encode t = Some bs'" "bs = b @ bs'"
    by (auto split: option.splits)
  then show ?case
    using Cons.IH [of bs'] utf8_char_head [OF b(1), of bs'] utf8_char_nonempty [OF b(1)]
    by (simp add: utf8_decode.simps [of "b @ bs'"])
qed

lemma utf8_head_char:
  assumes "utf8_head bs = Some (c, rest)"
  obtains b where "utf8_char c = Some b" "bs = b @ rest"
proof -
  have "\<exists>b. utf8_char c = Some b \<and> bs = b @ rest"
  proof (cases bs rule: utf8_head.cases)
    case 1
    then show ?thesis using assms by simp
  next
    case (2 a t)
    consider (one) "a < 128" | (two) "194 \<le> a" "a < 224" | (three) "224 \<le> a" "a < 240"
      | (four) "240 \<le> a" "a < 245"
      using assms 2 by (auto split: if_splits)
    then show ?thesis
    proof cases
      case one
      then show ?thesis using assms 2 by (simp add: utf8_char_def)
    next
      case two
      then obtain x where x: "t = x # rest" "cont x" "c = (a - 192) * 64 + (x - 128)"
        using assms 2 by (auto split: if_splits list.splits)
      obtain p q where p: "a = 192 + p" "x = 128 + q" "2 \<le> p" "p < 32" "q < 64"
        using x two by (auto simp: cont_def le_iff_add)
      have c: "c = p * 64 + q" using x(3) p by simp
      have "c div 64 = p" "c mod 64 = q" "128 \<le> c" "c < 2048"
        using p unfolding c by (simp_all only: compose_64)
      then show ?thesis using 2 x p by (simp add: utf8_char_def)
    next
      case three
      then obtain x y where x: "t = x # y # rest" "cont x" "cont y"
        "c = (a - 224) * 4096 + (x - 128) * 64 + (y - 128)" "2048 \<le> c" "\<not> (55296 \<le> c \<and> c < 57344)"
        using assms 2 by (auto simp: Let_def split: if_splits list.splits)
      obtain p q r where p: "a = 224 + p" "x = 128 + q" "y = 128 + r" "p < 16" "q < 64" "r < 64"
        using x three by (auto simp: cont_def le_iff_add)
      have c: "c = (p * 64 + q) * 64 + r" using x(4) p by simp
      have "c div 4096 = p" "c div 64 mod 64 = q" "c mod 64 = r" "c < 65536"
        using p unfolding c div_64_64 by (simp_all only: compose_64, simp)
      then show ?thesis using 2 x p by (simp add: utf8_char_def)
    next
      case four
      then obtain x y z where x: "t = x # y # z # rest" "cont x" "cont y" "cont z"
        "c = (a - 240) * 262144 + (x - 128) * 4096 + (y - 128) * 64 + (z - 128)" "65536 \<le> c" "c < 1114112"
        using assms 2 by (auto simp: Let_def split: if_splits list.splits)
      obtain p q r s where p: "a = 240 + p" "x = 128 + q" "y = 128 + r" "z = 128 + s"
        "p < 5" "q < 64" "r < 64" "s < 64"
        using x four by (auto simp: cont_def le_iff_add)
      have c: "c = ((p * 64 + q) * 64 + r) * 64 + s" using x(5) p by simp
      have "c div 262144 = p" "c div 4096 mod 64 = q" "c div 64 mod 64 = r" "c mod 64 = s"
        using p unfolding c div_64_64 by (simp_all only: compose_64)
      then show ?thesis using 2 x p by (simp add: utf8_char_def)
    qed
  qed
  then show ?thesis using that by blast
qed

lemma utf8_encode_decode: "utf8_decode bs = Some t \<Longrightarrow> utf8_encode t = Some bs"
proof (induction bs arbitrary: t rule: utf8_decode.induct)
  case (1 bs)
  show ?case
  proof (cases "bs = []")
    case True
    then show ?thesis using 1 by (simp add: utf8_decode.simps)
  next
    case False
    then obtain c rest t' where c: "utf8_head bs = Some (c, rest)" "utf8_decode rest = Some t'" "t = c # t'"
      using 1(2) by (auto simp: utf8_decode.simps [of bs] split: option.splits prod.splits)
    obtain b where "utf8_char c = Some b" "bs = b @ rest" using c(1) by (rule utf8_head_char)
    then show ?thesis using 1(1) [OF False] c by simp
  qed
qed

end
