(* ===== verification/File_Tools.thy ===== *)
theory File_Tools
  imports File_Text
begin

text \<open>
  The operations of the file tool on one target file: read, write, edit and patch
  (\<open>read.py\<close>, \<open>write.py\<close>, \<open>edit.py\<close>, \<open>patch.py\<close> under \<open>src/app/core/tools/file_tool/\<close>). Each
  takes the file as it is and returns the reply with the file afterwards, or the exception,
  in which case the file is unchanged. \<open>None\<close> stands for an argument that is missing or not of
  the type the schema asks for; messages are their keys.
\<close>

datatype match_mode = Exact_match | Rstrip_match | Strip_match

record read_page =
  rp_start_line :: int
  rp_end_line :: int
  rp_total_lines :: int
  rp_truncated :: bool
  rp_next_start_line :: "int option"
  rp_content :: py_text

record edit_target =
  et_start_line :: nat
  et_end_line :: nat
  et_content :: py_text

record patch_target =
  pt_hunk_index :: nat
  pt_start_line :: nat
  pt_end_line :: nat
  pt_match_strategy :: match_mode
  pt_content :: py_text

text \<open>A failed reply has the message key, the reason and the number that goes with it (matches,
  line number or hunk index).\<close>

datatype file_reply =
    Failed_reply string "string option" "nat option"
  | Blocked_reply string
  | Read_reply read_page
  | Write_reply nat
  | Edit_reply nat nat "edit_target list"
  | Patch_reply nat "patch_target list"
  | Grep_reply

section \<open>Read\<close>

definition DEFAULT_READ_LINES :: int where
  "DEFAULT_READ_LINES = 2000"

definition read_file :: "file_node \<Rightarrow> int option \<Rightarrow> int option \<Rightarrow> file_error + file_reply" where
  "read_file node start_line end_line =
     (let start = (case start_line of None \<Rightarrow> 1 | Some s \<Rightarrow> s);
          requested_end = (case end_line of None \<Rightarrow> start + DEFAULT_READ_LINES - 1 | Some e \<Rightarrow> e)
      in if start < 1 \<or> requested_end < start
         then Inr (Failed_reply ''ERR_FILE_TOOL_READ_RANGE_INVALID'' None None)
         else (case read_text_source node of
                 Inl e \<Rightarrow> Inl e
               | Inr source \<Rightarrow>
                   (let lines = splitlines (normalize_line_endings (ts_text source));
                        total_lines = int (length lines);
                        capped_end = min requested_end (start + DEFAULT_READ_LINES - 1);
                        actual_end = (if total_lines = 0 then 0 else min capped_end total_lines);
                        content = (if total_lines = 0 then []
                                   else format_numbered_lines lines (nat start) (nat actual_end));
                        truncated = (actual_end < total_lines)
                    in if total_lines \<noteq> 0 \<and> start > total_lines
                       then Inr (Failed_reply ''ERR_FILE_TOOL_READ_RANGE_INVALID'' None None)
                       else Inr (Read_reply
                         \<lparr>rp_start_line = start, rp_end_line = actual_end,
                          rp_total_lines = total_lines, rp_truncated = truncated,
                          rp_next_start_line = (if truncated then Some (actual_end + 1) else None),
                          rp_content = content\<rparr>))))"

section \<open>Write\<close>

definition write_file :: "file_node \<Rightarrow> py_text option \<Rightarrow> file_error + file_reply \<times> file_node" where
  "write_file node content =
     (case content of
        None \<Rightarrow> Inr (Failed_reply ''ERR_FILE_TOOL_CONTENT_REQUIRED'' None None, node)
      | Some t \<Rightarrow> (case write_text node t False of
                     Inl e \<Rightarrow> Inl e
                   | Inr node' \<Rightarrow> Inr (Write_reply (case utf8_encode t of None \<Rightarrow> 0 | Some b \<Rightarrow> length b),
                                       node')))"

section \<open>Edit\<close>

fun find_from :: "py_text \<Rightarrow> py_text \<Rightarrow> nat \<Rightarrow> nat option" where
  "find_from needle [] i = (if needle = [] then Some i else None)"
| "find_from needle (c # t) i = (if prefix needle (c # t) then Some i else find_from needle t (i + 1))"

text \<open>\<open>text.find(needle, cursor)\<close>, with \<open>None\<close> for \<open>-1\<close>\<close>

definition py_find :: "py_text \<Rightarrow> py_text \<Rightarrow> nat \<Rightarrow> nat option" where
  "py_find t needle cursor =
     (if cursor > length t then None else find_from needle (drop cursor t) cursor)"

lemma find_from_bounds: "find_from needle t i = Some k \<Longrightarrow> i \<le> k \<and> k \<le> i + length t"
  by (induction t arbitrary: i) (fastforce split: if_splits)+

lemma py_find_bounds: "py_find t needle cursor = Some k \<Longrightarrow> cursor \<le> k \<and> k \<le> length t"
  using find_from_bounds [of needle "drop cursor t" cursor k] by (auto simp: py_find_def split: if_splits)

function literal_matches_from :: "py_text \<Rightarrow> py_text \<Rightarrow> nat \<Rightarrow> nat list" where
  "literal_matches_from t needle cursor =
     (case py_find t needle cursor of
        None \<Rightarrow> []
      | Some index \<Rightarrow> index # literal_matches_from t needle (index + max 1 (length needle)))"
  by pat_completeness auto
termination
  by (relation "measure (\<lambda>(t, needle, cursor). Suc (length t) - cursor)")
    (auto dest!: py_find_bounds)

declare literal_matches_from.simps [simp del]

definition literal_matches :: "py_text \<Rightarrow> py_text \<Rightarrow> nat list" where
  "literal_matches t needle = literal_matches_from t needle 0"

text \<open>The loop of \<open>_apply_literal_replacements\<close>: the joined parts and the spans.\<close>

fun apply_from :: "py_text \<Rightarrow> nat \<Rightarrow> py_text \<Rightarrow> nat list \<Rightarrow> nat \<Rightarrow> nat \<Rightarrow> py_text \<times> (nat \<times> nat) list" where
  "apply_from t old_len new [] cursor output_length = (drop cursor t, [])"
| "apply_from t old_len new (position # positions) cursor output_length =
     (let pre = sub t cursor position;
          start = output_length + length pre;
          out = start + length new;
          rest = apply_from t old_len new positions (position + old_len) out
      in (pre @ new @ fst rest, (start, out) # snd rest))"

definition apply_literal_replacements ::
    "py_text \<Rightarrow> py_text \<Rightarrow> py_text \<Rightarrow> nat list \<Rightarrow> py_text \<times> (nat \<times> nat) list" where
  "apply_literal_replacements t old_text new_text positions =
     apply_from t (length old_text) new_text positions 0 0"

definition edit_target_of :: "py_text \<Rightarrow> nat \<times> nat \<Rightarrow> edit_target" where
  "edit_target_of replaced_text span =
     (let lines = splitlines (normalize_line_endings replaced_text);
          start_line = line_number_at replaced_text (fst span);
          end_line = line_number_at replaced_text (max (fst span) (snd span - 1))
      in \<lparr>et_start_line = start_line, et_end_line = end_line,
          et_content = format_numbered_lines lines start_line (min end_line (length lines))\<rparr>)"

definition edit_file ::
    "file_node \<Rightarrow> py_text option \<Rightarrow> py_text option \<Rightarrow> bool option \<Rightarrow> file_error + file_reply \<times> file_node" where
  "edit_file node old_text new_text replace_all =
     (if old_text = None \<or> old_text = Some []
      then Inr (Failed_reply ''ERR_FILE_TOOL_OLD_TEXT_REQUIRED'' None None, node)
      else if new_text = None
      then Inr (Failed_reply ''ERR_FILE_TOOL_NEW_TEXT_REQUIRED'' None None, node)
      else if replace_all = None
      then Inr (Failed_reply ''ERR_FILE_TOOL_EDIT_MULTIPLE_MATCHES'' None (Some 0), node)
      else if old_text = new_text
      then Inr (Failed_reply ''ERR_FILE_TOOL_EDIT_IDENTICAL'' None None, node)
      else (case read_text_source node of
              Inl e \<Rightarrow> Inl e
            | Inr source \<Rightarrow>
                (let old = convert_line_endings (the old_text) (ts_line_ending source);
                     new = convert_line_endings (the new_text) (ts_line_ending source);
                     matches = literal_matches (ts_text source) old;
                     selected = (if the replace_all then matches else take 1 matches);
                     replaced = apply_literal_replacements (ts_text source) old new selected
                 in if matches = []
                    then Inr (Failed_reply ''ERR_FILE_TOOL_EDIT_NOT_FOUND'' (Some ''old_text_not_found'')
                           (Some 0), node)
                    else if length matches > 1 \<and> \<not> the replace_all
                    then Inr (Failed_reply ''ERR_FILE_TOOL_EDIT_MULTIPLE_MATCHES'' (Some ''multiple_matches'')
                           (Some (length matches)), node)
                    else (case write_text node (fst replaced) (ts_has_bom source) of
                            Inl e \<Rightarrow> Inl e
                          | Inr node' \<Rightarrow> Inr (Edit_reply (length matches) (length selected)
                              (map (edit_target_of (fst replaced)) (snd replaced)), node')))))"

section \<open>Patch\<close>

record patch_line =
  pl_kind :: nat
  pl_text :: py_text

type_synonym patch_hunk = "patch_line list"

datatype patch_format_reason =
    HUNK_HEADER_REQUIRED | LINE_PREFIX_INVALID | HUNK_REQUIRED | EMPTY_HUNK | HUNK_NO_CHANGES
  | HUNK_CONTEXT_REQUIRED

fun reason_value :: "patch_format_reason \<Rightarrow> string" where
  "reason_value HUNK_HEADER_REQUIRED = ''hunk_header_required''"
| "reason_value LINE_PREFIX_INVALID = ''line_prefix_invalid''"
| "reason_value HUNK_REQUIRED = ''hunk_required''"
| "reason_value EMPTY_HUNK = ''empty_hunk''"
| "reason_value HUNK_NO_CHANGES = ''hunk_no_changes''"
| "reason_value HUNK_CONTEXT_REQUIRED = ''hunk_context_required''"

definition KEPT :: nat where "KEPT = 32"
definition REMOVED :: nat where "REMOVED = 45"
definition ADDED :: nat where "ADDED = 43"

type_synonym patch_error = "patch_format_reason \<times> nat option"

definition append_hunk :: "patch_hunk list \<Rightarrow> patch_line list \<Rightarrow> patch_error + patch_hunk list" where
  "append_hunk hunks lines =
     (if lines = [] then Inl (EMPTY_HUNK, None)
      else if \<not> (\<exists>l\<in>set lines. pl_kind l \<in> {REMOVED, ADDED}) then Inl (HUNK_NO_CHANGES, None)
      else if \<not> (\<exists>l\<in>set lines. pl_kind l \<in> {KEPT, REMOVED}) then Inl (HUNK_CONTEXT_REQUIRED, None)
      else Inr (hunks @ [lines]))"

text \<open>One line of the patch: line \<open>n\<close> of \<open>n_lines\<close>.\<close>

definition parse_line ::
    "nat \<Rightarrow> nat \<Rightarrow> py_text \<Rightarrow> patch_hunk list \<Rightarrow> patch_line list option \<Rightarrow>
     patch_error + patch_hunk list \<times> patch_line list option" where
  "parse_line n_lines n raw hunks current =
     (if n = n_lines \<and> raw = [] then Inr (hunks, current)
      else if take 2 raw = [64, 64]
      then (case current of
              None \<Rightarrow> Inr (hunks, Some [])
            | Some lines \<Rightarrow> (case append_hunk hunks lines of
                Inl e \<Rightarrow> Inl e | Inr hunks' \<Rightarrow> Inr (hunks', Some [])))
      else (case current of
              None \<Rightarrow> if strip raw \<noteq> [] then Inl (HUNK_HEADER_REQUIRED, Some n) else Inr (hunks, None)
            | Some lines \<Rightarrow>
                (case raw of
                   [] \<Rightarrow> Inr (hunks, Some (lines @ [\<lparr>pl_kind = KEPT, pl_text = []\<rparr>]))
                 | c # rest \<Rightarrow>
                     if c \<notin> {KEPT, REMOVED, ADDED} then Inl (LINE_PREFIX_INVALID, Some n)
                     else Inr (hunks, Some (lines @ [\<lparr>pl_kind = c, pl_text = rest\<rparr>])))))"

fun parse_lines ::
    "nat \<Rightarrow> nat \<Rightarrow> py_text list \<Rightarrow> patch_hunk list \<Rightarrow> patch_line list option \<Rightarrow>
     patch_error + patch_hunk list \<times> patch_line list option" where
  "parse_lines n_lines n [] hunks current = Inr (hunks, current)"
| "parse_lines n_lines n (raw # rest) hunks current =
     (case parse_line n_lines n raw hunks current of
        Inl e \<Rightarrow> Inl e
      | Inr (hunks', current') \<Rightarrow> parse_lines n_lines (n + 1) rest hunks' current')"

definition parse_patch :: "py_text \<Rightarrow> patch_error + patch_hunk list" where
  "parse_patch patch =
     (let raw_lines = split_nl (normalize_line_endings patch) in
      case parse_lines (length raw_lines) 1 raw_lines [] None of
        Inl e \<Rightarrow> Inl e
      | Inr (hunks, current) \<Rightarrow>
          (case (case current of None \<Rightarrow> Inr hunks | Some lines \<Rightarrow> append_hunk hunks lines) of
             Inl e \<Rightarrow> Inl e
           | Inr hunks' \<Rightarrow> if hunks' = [] then Inl (HUNK_REQUIRED, None) else Inr hunks'))"

definition old_lines :: "patch_hunk \<Rightarrow> py_text list" where
  "old_lines hunk = map pl_text (filter (\<lambda>l. pl_kind l \<in> {KEPT, REMOVED}) hunk)"

fun normalizer :: "match_mode \<Rightarrow> py_text \<Rightarrow> py_text" where
  "normalizer Exact_match l = l"
| "normalizer Rstrip_match l = rstrip l"
| "normalizer Strip_match l = strip l"

definition candidate_positions :: "py_text list \<Rightarrow> py_text list \<Rightarrow> match_mode \<Rightarrow> nat list" where
  "candidate_positions source expected mode =
     (if expected = [] \<or> length expected > length source then []
      else filter (\<lambda>i. map (normalizer mode) (take (length expected) (drop i source)) =
                       map (normalizer mode) expected)
             [0..<length source - length expected + 1])"

datatype location = Located nat match_mode | Ambiguous match_mode | Not_located

fun locate_by :: "py_text list \<Rightarrow> py_text list \<Rightarrow> match_mode list \<Rightarrow> location" where
  "locate_by source expected [] = Not_located"
| "locate_by source expected (mode # modes) =
     (case candidate_positions source expected mode of
        [] \<Rightarrow> locate_by source expected modes
      | [p] \<Rightarrow> Located p mode
      | _ \<Rightarrow> Ambiguous mode)"

definition locate_hunk :: "py_text list \<Rightarrow> patch_hunk \<Rightarrow> location" where
  "locate_hunk source hunk =
     locate_by source (old_lines hunk) [Exact_match, Rstrip_match, Strip_match]"

fun replacement :: "py_text list \<Rightarrow> nat \<Rightarrow> patch_hunk \<Rightarrow> py_text list" where
  "replacement actual_old cursor [] = []"
| "replacement actual_old cursor (l # ls) =
     (if pl_kind l = KEPT then actual_old ! cursor # replacement actual_old (cursor + 1) ls
      else if pl_kind l = REMOVED then replacement actual_old (cursor + 1) ls
      else pl_text l # replacement actual_old cursor ls)"

definition apply_hunk :: "py_text list \<Rightarrow> patch_hunk \<Rightarrow> nat \<Rightarrow> py_text list \<times> nat" where
  "apply_hunk source hunk start =
     (let old_count = length (old_lines hunk);
          actual_old = take old_count (drop start source);
          new = replacement actual_old 0 hunk
      in (take start source @ new @ drop (start + old_count) source, length new))"

definition display_lines :: "py_text list \<Rightarrow> py_text list" where
  "display_lines lines = (if lines \<noteq> [] \<and> last lines = [] then butlast lines else lines)"

definition patch_target_of :: "nat \<Rightarrow> py_text list \<Rightarrow> nat \<Rightarrow> nat \<Rightarrow> match_mode \<Rightarrow> patch_target" where
  "patch_target_of index lines start count mode =
     (let start_line = start + 1; end_line = max start_line (start + count) in
      \<lparr>pt_hunk_index = index, pt_start_line = start_line, pt_end_line = end_line,
       pt_match_strategy = mode,
       pt_content = format_numbered_lines (display_lines lines) start_line
         (min end_line (length (display_lines lines)))\<rparr>)"

fun apply_hunks ::
    "nat \<Rightarrow> patch_hunk list \<Rightarrow> py_text list \<Rightarrow> patch_target list \<Rightarrow>
     file_reply + py_text list \<times> patch_target list" where
  "apply_hunks index [] lines targets = Inr (lines, targets)"
| "apply_hunks index (hunk # hunks) lines targets =
     (case locate_hunk lines hunk of
        Ambiguous _ \<Rightarrow>
          Inl (Failed_reply ''ERR_FILE_TOOL_PATCH_HUNK_AMBIGUOUS'' (Some ''hunk_ambiguous'') (Some index))
      | Not_located \<Rightarrow>
          Inl (Failed_reply ''ERR_FILE_TOOL_PATCH_HUNK_NOT_FOUND'' (Some ''hunk_not_found'') (Some index))
      | Located start mode \<Rightarrow>
          (let applied = apply_hunk lines hunk start in
           apply_hunks (index + 1) hunks (fst applied)
             (targets @ [patch_target_of index (fst applied) start (snd applied) mode])))"

definition patch_file :: "file_node \<Rightarrow> py_text option \<Rightarrow> file_error + file_reply \<times> file_node" where
  "patch_file node patch =
     (if patch = None \<or> strip (the patch) = []
      then Inr (Failed_reply ''ERR_FILE_TOOL_PATCH_REQUIRED'' None None, node)
      else (case parse_patch (the patch) of
              Inl (reason, line_number) \<Rightarrow>
                Inr (Failed_reply ''ERR_FILE_TOOL_PATCH_INVALID'' (Some (reason_value reason)) line_number, node)
            | Inr hunks \<Rightarrow>
                (case read_text_source node of
                   Inl e \<Rightarrow> Inl e
                 | Inr source \<Rightarrow>
                     (case apply_hunks 1 hunks (split_nl (normalize_line_endings (ts_text source))) [] of
                        Inl reply \<Rightarrow> Inr (reply, node)
                      | Inr (lines, targets) \<Rightarrow>
                          (case write_text node
                                  (convert_line_endings (join_nl lines) (ts_line_ending source))
                                  (ts_has_bom source) of
                             Inl e \<Rightarrow> Inl e
                           | Inr node' \<Rightarrow> Inr (Patch_reply (length hunks) targets, node'))))))"

end
