(* ===== verification/File_Laws.thy ===== *)
theory File_Laws
  imports File_Tools
begin

text \<open>
  Correctness of the file tool: \<open>edit\<close> is the library's literal replacement on the file's text,
  \<open>patch\<close> rewrites exactly the located lines and changes the file only when every hunk applies,
  a patch is undone by its reverse, pages of \<open>read\<close> cover the file.
\<close>

section \<open>Reading and writing\<close>

lemma utf8_bom_char: "utf8_char c = Some b \<Longrightarrow> take 3 (b @ bs) = UTF8_BOM \<Longrightarrow> length b = 3 \<Longrightarrow> c = 65279"
proof -
  assume a: "utf8_char c = Some b" "take 3 (b @ bs) = UTF8_BOM" "length b = 3"
  then have "utf8_head ([239, 187, 191] @ bs) = Some (c, bs)"
    using utf8_char_head [OF a(1), of bs] by (simp add: UTF8_BOM_def)
  then show ?thesis by (simp add: cont_def)
qed

lemma utf8_encode_no_bom:
  assumes "utf8_encode t = Some bs" "take 3 bs = UTF8_BOM"
  shows "t \<noteq> [] \<and> hd t = 65279"
proof (cases t)
  case Nil
  then show ?thesis using assms by (simp add: UTF8_BOM_def)
next
  case (Cons c u)
  then obtain b b' where b: "utf8_char c = Some b" "bs = b @ b'"
    using assms(1) by (auto split: option.splits)
  have "utf8_head bs = Some (c, b')" using utf8_char_head [OF b(1)] b(2) by simp
  moreover obtain r where "bs = 239 # 187 # 191 # r"
    using assms(2) by (cases bs; cases "tl bs"; cases "tl (tl bs)") (auto simp: UTF8_BOM_def)
  ultimately show ?thesis using Cons by (simp add: cont_def)
qed

text \<open>A text survives the file, unless it would be mistaken for one with a byte order mark.\<close>

lemma read_after_write:
  assumes "write_text node t bom = Inr node'" and "bom \<or> t = [] \<or> hd t \<noteq> 65279"
  shows "read_text_source node' =
    Inr \<lparr>ts_text = t, ts_has_bom = bom, ts_line_ending = detect_line_ending t\<rparr>"
proof -
  obtain bs where bs: "utf8_encode t = Some bs" "node' = Regular ((if bom then UTF8_BOM else []) @ bs)"
    using assms(1) by (auto simp: write_text_def split: file_node.splits option.splits bool.splits)
  have d: "utf8_decode bs = Some t" using bs(1) by (rule utf8_decode_encode)
  show ?thesis
  proof (cases bom)
    case True
    then show ?thesis using bs d by (simp add: read_text_source_def UTF8_BOM_def Let_def)
  next
    case False
    then have "take 3 bs \<noteq> UTF8_BOM" using utf8_encode_no_bom [OF bs(1)] assms(2) by auto
    then show ?thesis using bs d False by (simp add: read_text_source_def Let_def)
  qed
qed

lemma read_text_source_Inr:
  assumes "read_text_source node = Inr source"
  obtains bs where "node = Regular ((if ts_has_bom source then UTF8_BOM else []) @ bs)"
    "utf8_encode (ts_text source) = Some bs"
    "ts_line_ending source = detect_line_ending (ts_text source)"
proof -
  obtain raw where raw: "node = Regular raw"
    using assms by (auto simp: read_text_source_def split: file_node.splits)
  show ?thesis
  proof (cases "take 3 raw = UTF8_BOM")
    case True
    then have "raw = UTF8_BOM @ drop 3 raw" by (metis append_take_drop_id)
    then show ?thesis using that [of "drop 3 raw"] assms raw True
      by (auto simp: read_text_source_def Let_def utf8_encode_decode split: option.splits)
  next
    case False
    then show ?thesis using that [of raw] assms raw
      by (auto simp: read_text_source_def Let_def utf8_encode_decode split: option.splits)
  qed
qed

lemma write_text_Inr:
  assumes "write_text (Regular raw) t bom = Inr node'"
  obtains bs where "utf8_encode t = Some bs" "node' = Regular ((if bom then UTF8_BOM else []) @ bs)"
  using assms by (auto simp: write_text_def split: option.splits)

section \<open>Literal replacement\<close>

text \<open>\<open>str.replace(old, new)\<close> and \<open>str.count(old)\<close> for an \<open>old\<close> that is not empty: from left to
  right, without overlaps.\<close>

function str_replace :: "py_text \<Rightarrow> py_text \<Rightarrow> py_text \<Rightarrow> py_text" where
  "str_replace old new [] = []"
| "str_replace old new (c # t) =
     (if old \<noteq> [] \<and> prefix old (c # t) then new @ str_replace old new (drop (length old) (c # t))
      else c # str_replace old new t)"
  by pat_completeness auto
termination by (relation "measure (\<lambda>(old, new, t). length t)") (auto simp: neq_Nil_conv)

function str_count :: "py_text \<Rightarrow> py_text \<Rightarrow> nat" where
  "str_count old [] = 0"
| "str_count old (c # t) =
     (if old \<noteq> [] \<and> prefix old (c # t) then Suc (str_count old (drop (length old) (c # t)))
      else str_count old t)"
  by pat_completeness auto
termination by (relation "measure (\<lambda>(old, t). length t)") (auto simp: neq_Nil_conv)

declare str_replace.simps [simp del] str_count.simps [simp del]

lemma str_here:
  assumes "old \<noteq> []" "prefix old t"
  shows "str_replace old new t = new @ str_replace old new (drop (length old) t)"
    "str_count old t = Suc (str_count old (drop (length old) t))"
proof -
  obtain c u where "t = c # u" using assms by (cases t) auto
  then show "str_replace old new t = new @ str_replace old new (drop (length old) t)"
    "str_count old t = Suc (str_count old (drop (length old) t))"
    using assms by (simp_all add: str_replace.simps(2) [of old new c u] str_count.simps(2) [of old c u])
qed

lemma find_from_str:
  assumes "old \<noteq> []"
  shows "find_from old t i = None \<Longrightarrow> str_replace old new t = t \<and> str_count old t = 0"
    and "find_from old t i = Some k \<Longrightarrow> i \<le> k \<and> prefix old (drop (k - i) t) \<and>
      str_replace old new t = take (k - i) t @ str_replace old new (drop (k - i) t) \<and>
      str_count old t = str_count old (drop (k - i) t)"
proof -
  show "find_from old t i = None \<Longrightarrow> str_replace old new t = t \<and> str_count old t = 0"
    by (induction t arbitrary: i) (auto simp: str_replace.simps str_count.simps split: if_splits)
  show "find_from old t i = Some k \<Longrightarrow> i \<le> k \<and> prefix old (drop (k - i) t) \<and>
      str_replace old new t = take (k - i) t @ str_replace old new (drop (k - i) t) \<and>
      str_count old t = str_count old (drop (k - i) t)"
  proof (induction t arbitrary: i)
    case Nil
    then show ?case using assms by simp
  next
    case (Cons c t)
    show ?case
    proof (cases "prefix old (c # t)")
      case True
      then show ?thesis using Cons.prems by simp
    next
      case False
      then have "find_from old t (i + 1) = Some k" using Cons.prems by simp
      then have ih: "i + 1 \<le> k \<and> prefix old (drop (k - (i + 1)) t) \<and>
        str_replace old new t = take (k - (i + 1)) t @ str_replace old new (drop (k - (i + 1)) t) \<and>
        str_count old t = str_count old (drop (k - (i + 1)) t)"
        by (rule Cons.IH)
      then have "k - i = Suc (k - (i + 1))" by arith
      then show ?thesis using ih False by (simp add: str_replace.simps(2) str_count.simps(2))
    qed
  qed
qed

lemma py_find_str:
  assumes "old \<noteq> []" "cursor \<le> length t"
  shows "py_find t old cursor = None \<Longrightarrow>
      str_replace old new (drop cursor t) = drop cursor t \<and> str_count old (drop cursor t) = 0"
    and "py_find t old cursor = Some k \<Longrightarrow> cursor \<le> k \<and> k + length old \<le> length t \<and> prefix old (drop k t) \<and>
      str_replace old new (drop cursor t) =
        sub t cursor k @ new @ str_replace old new (drop (k + length old) t) \<and>
      str_count old (drop cursor t) = Suc (str_count old (drop (k + length old) t))"
proof -
  show "py_find t old cursor = None \<Longrightarrow>
      str_replace old new (drop cursor t) = drop cursor t \<and> str_count old (drop cursor t) = 0"
    using find_from_str(1) [OF assms(1), of "drop cursor t" cursor new] assms(2)
    by (simp add: py_find_def)
  assume "py_find t old cursor = Some k"
  then have "find_from old (drop cursor t) cursor = Some k" using assms(2) by (simp add: py_find_def)
  note g = find_from_str(2) [OF assms(1) this, of new]
  then have eq: "k - cursor + cursor = k" by arith
  have f: "cursor \<le> k" "prefix old (drop k t)"
    "str_replace old new (drop cursor t) = take (k - cursor) (drop cursor t) @ str_replace old new (drop k t)"
    "str_count old (drop cursor t) = str_count old (drop k t)"
    using g unfolding drop_drop eq by blast+
  have "length old \<le> length (drop k t)" using f(2) by (rule prefix_length_le)
  then have "k + length old \<le> length t" using assms(1) by (cases "k \<le> length t") auto
  then show "cursor \<le> k \<and> k + length old \<le> length t \<and> prefix old (drop k t) \<and>
      str_replace old new (drop cursor t) =
        sub t cursor k @ new @ str_replace old new (drop (k + length old) t) \<and>
      str_count old (drop cursor t) = Suc (str_count old (drop (k + length old) t))"
    using f str_here(1) [OF assms(1) f(2), of new] str_here(2) [OF assms(1) f(2)]
    by (simp add: sub_def add.commute)
qed

lemma literal_matches_from_str:
  "old \<noteq> [] \<Longrightarrow> cursor \<le> length t \<Longrightarrow>
    fst (apply_from t (length old) new (literal_matches_from t old cursor) cursor out) =
      str_replace old new (drop cursor t) \<and>
    length (literal_matches_from t old cursor) = str_count old (drop cursor t)"
proof (induction t old cursor arbitrary: out rule: literal_matches_from.induct)
  case (1 t needle cursor)
  note ne = 1(2)
  show ?case
  proof (cases "py_find t needle cursor")
    case None
    then show ?thesis using py_find_str(1) [OF ne 1(3) None, of new]
      by (simp add: literal_matches_from.simps [of t needle cursor])
  next
    case (Some k)
    have f: "cursor \<le> k" "k + length needle \<le> length t"
      "str_replace needle new (drop cursor t) =
        sub t cursor k @ new @ str_replace needle new (drop (k + length needle) t)"
      "str_count needle (drop cursor t) = Suc (str_count needle (drop (k + length needle) t))"
      using py_find_str(2) [OF ne 1(3) Some, of new] by auto
    have m: "max 1 (length needle) = length needle" using ne by (cases needle) auto
    show ?thesis using 1(1) [OF Some ne, of "out + length (sub t cursor k) + length new"] f m Some
      by (simp add: literal_matches_from.simps [of t needle cursor] Let_def)
  qed
qed


section \<open>Edit\<close>

lemma convert_nonempty: "t \<noteq> [] \<Longrightarrow> convert_line_endings t e \<noteq> []"
proof -
  assume "t \<noteq> []"
  then have "crlf_to_lf t \<noteq> []" by (cases t rule: crlf_to_lf.cases) auto
  then show ?thesis
    by (cases "crlf_to_lf t") (auto simp: convert_line_endings_def normalize_line_endings_def Let_def)
qed

lemma edit_text:
  assumes "old \<noteq> []" "literal_matches t old \<noteq> []" "all \<or> length (literal_matches t old) \<le> 1"
  shows "fst (apply_literal_replacements t old new
      (if all then literal_matches t old else take 1 (literal_matches t old))) = str_replace old new t"
    "length (literal_matches t old) = str_count old t"
proof -
  have "take 1 (literal_matches t old) = literal_matches t old" if "\<not> all"
    using assms(3) that by simp
  then show "fst (apply_literal_replacements t old new
      (if all then literal_matches t old else take 1 (literal_matches t old))) = str_replace old new t"
    "length (literal_matches t old) = str_count old t"
    using literal_matches_from_str [OF assms(1), of 0 t new 0]
    by (auto simp: literal_matches_def apply_literal_replacements_def)
qed

lemma edit_file_run:
  assumes "old0 \<noteq> []" "old0 \<noteq> new0" "read_text_source node = Inr source"
  shows "edit_file node (Some old0) (Some new0) (Some all) =
    (let t = ts_text source; old = convert_line_endings old0 (ts_line_ending source);
         new = convert_line_endings new0 (ts_line_ending source);
         sel = (if all then literal_matches t old else take 1 (literal_matches t old))
     in if literal_matches t old = []
      then Inr (Failed_reply ''ERR_FILE_TOOL_EDIT_NOT_FOUND'' (Some ''old_text_not_found'') (Some 0), node)
      else if length (literal_matches t old) > 1 \<and> \<not> all
      then Inr (Failed_reply ''ERR_FILE_TOOL_EDIT_MULTIPLE_MATCHES'' (Some ''multiple_matches'')
             (Some (length (literal_matches t old))), node)
      else (case write_text node (fst (apply_literal_replacements t old new sel)) (ts_has_bom source) of
              Inl e \<Rightarrow> Inl e
            | Inr n \<Rightarrow> Inr (Edit_reply (length (literal_matches t old)) (length sel)
                (map (edit_target_of (fst (apply_literal_replacements t old new sel)))
                   (snd (apply_literal_replacements t old new sel))), n)))"
  using assms by (simp add: edit_file_def Let_def)

text \<open>C26: A successful \<open>edit\<close> performs Python's literal \<open>str.replace\<close> on the file's text, with the
  arguments converted to the file's line endings: the bytes of the file before and after are the
  UTF-8 encodings of the two texts, a byte order mark is kept, the reported number of matches is
  the number of occurrences, and without \<open>replace_all\<close> there is exactly one. Every other reply
  leaves the file as it was.\<close>

theorem edit_file_correct:
  assumes "edit_file node old_text new_text replace_all = Inr (reply, node')"
  shows "case reply of
      Edit_reply matched replaced targets \<Rightarrow>
        (\<exists>old0 new0 all t before after bom.
           old_text = Some old0 \<and> new_text = Some new0 \<and> replace_all = Some all \<and>
           bom \<in> {[], UTF8_BOM} \<and> node = Regular (bom @ before) \<and> node' = Regular (bom @ after) \<and>
           utf8_decode before = Some t \<and>
           (let old = convert_line_endings old0 (detect_line_ending t);
                new = convert_line_endings new0 (detect_line_ending t)
            in old \<noteq> [] \<and> utf8_decode after = Some (str_replace old new t) \<and>
               matched = str_count old t \<and> 0 < matched \<and> replaced = matched \<and>
               (\<not> all \<longrightarrow> matched = 1) \<and> length targets = matched))
    | _ \<Rightarrow> node' = node"
proof (cases "\<exists>m r ts. reply = Edit_reply m r ts")
  case False
  then show ?thesis using assms
    by (auto simp: edit_file_def Let_def split: if_splits sum.splits file_reply.splits)
next
  case True
  then obtain m r ts where reply: "reply = Edit_reply m r ts" by blast
  obtain old0 new0 all where args: "old_text = Some old0" "old0 \<noteq> []" "new_text = Some new0"
    "replace_all = Some all"
    using assms reply by (cases old_text; cases new_text; cases replace_all)
      (auto simp: edit_file_def split: if_splits)
  obtain source where src: "read_text_source node = Inr source"
    using assms reply args by (auto simp: edit_file_def split: if_splits sum.splits)
  define t where "t = ts_text source"
  define old where "old = convert_line_endings old0 (ts_line_ending source)"
  define new where "new = convert_line_endings new0 (ts_line_ending source)"
  define sel where "sel = (if all then literal_matches t old else take 1 (literal_matches t old))"
  have ne: "old0 \<noteq> new0"
    using assms reply args by (auto simp: edit_file_def split: if_splits)
  have run: "(if literal_matches t old = []
      then Inr (Failed_reply ''ERR_FILE_TOOL_EDIT_NOT_FOUND'' (Some ''old_text_not_found'') (Some 0), node)
      else if length (literal_matches t old) > 1 \<and> \<not> all
      then Inr (Failed_reply ''ERR_FILE_TOOL_EDIT_MULTIPLE_MATCHES'' (Some ''multiple_matches'')
             (Some (length (literal_matches t old))), node)
      else (case write_text node (fst (apply_literal_replacements t old new sel)) (ts_has_bom source) of
              Inl e \<Rightarrow> Inl e
            | Inr n \<Rightarrow> Inr (Edit_reply (length (literal_matches t old)) (length sel)
                (map (edit_target_of (fst (apply_literal_replacements t old new sel)))
                   (snd (apply_literal_replacements t old new sel))), n))) = Inr (reply, node')"
    using assms edit_file_run [OF args(2) ne src, of all] unfolding args t_def old_def new_def sel_def Let_def
    by (simp only:)
  have hit: "literal_matches t old \<noteq> []" "all \<or> length (literal_matches t old) \<le> 1"
    using run reply by (auto split: if_splits)
  have old: "old \<noteq> []" using args(2) by (simp add: old_def convert_nonempty)
  obtain before where b: "node = Regular ((if ts_has_bom source then UTF8_BOM else []) @ before)"
    "utf8_encode t = Some before" "ts_line_ending source = detect_line_ending t"
    using read_text_source_Inr [OF src] unfolding t_def by blast
  have replaced: "fst (apply_literal_replacements t old new sel) = str_replace old new t"
    and count: "length (literal_matches t old) = str_count old t"
    using edit_text(1) [OF old hit, of new] edit_text(2) [OF old hit] by (simp_all add: sel_def)
  have w: "write_text node (str_replace old new t) (ts_has_bom source) = Inr node'"
    and m: "m = str_count old t" "r = length sel"
      "ts = map (edit_target_of (str_replace old new t)) (snd (apply_literal_replacements t old new sel))"
    using run hit reply count by (auto simp: replaced split: if_splits sum.splits)
  obtain after where a: "utf8_encode (str_replace old new t) = Some after"
    "node' = Regular ((if ts_has_bom source then UTF8_BOM else []) @ after)"
    using write_text_Inr [OF w [unfolded b(1)]] by blast
  have lsel: "length sel = str_count old t"
    using hit count by (auto simp: sel_def min_def)
  have "length (snd (apply_from x n v ps c out)) = length ps" for x n v ps c out
    by (induction ps arbitrary: c out) (auto simp: Let_def)
  then have lts: "length ts = str_count old t" using m(3) lsel by (simp add: apply_literal_replacements_def)
  have pos: "0 < str_count old t" using hit(1) count by (cases "literal_matches t old") auto
  have one: "\<not> all \<Longrightarrow> str_count old t = 1" using hit(2) pos count by auto
  have eqs: "convert_line_endings old0 (detect_line_ending t) = old"
    "convert_line_endings new0 (detect_line_ending t) = new"
    using b(3) by (simp_all add: old_def new_def)
  note dec = utf8_decode_encode [OF b(2)] utf8_decode_encode [OF a(1)]
  have rm: "r = m" "length ts = m" "0 < m" using m(1,2) lsel lts pos by simp_all
  have "\<exists>old0 new0 all t before after bom.
           old_text = Some old0 \<and> new_text = Some new0 \<and> replace_all = Some all \<and>
           bom \<in> {[], UTF8_BOM} \<and> node = Regular (bom @ before) \<and> node' = Regular (bom @ after) \<and>
           utf8_decode before = Some t \<and>
           (let old = convert_line_endings old0 (detect_line_ending t);
                new = convert_line_endings new0 (detect_line_ending t)
            in old \<noteq> [] \<and> utf8_decode after = Some (str_replace old new t) \<and>
               m = str_count old t \<and> 0 < m \<and> r = m \<and>
               (\<not> all \<longrightarrow> m = 1) \<and> length ts = m)"
    unfolding Let_def
    by (rule exI [of _ old0], rule exI [of _ new0], rule exI [of _ all], rule exI [of _ t],
        rule exI [of _ before], rule exI [of _ after],
        rule exI [of _ "if ts_has_bom source then UTF8_BOM else []"], unfold eqs)
      (use args(1,3,4) b(1) a(2) dec m(1) rm one old in simp)
  then show ?thesis by (simp add: reply)
qed

lemmas file_eval =
  edit_file_def read_text_source_def utf8_decode.simps UTF8_BOM_def detect_line_ending_def
  convert_line_endings_def normalize_line_endings_def literal_matches_def literal_matches_from.simps
  py_find_def apply_literal_replacements_def sub_def write_text_def utf8_char_def edit_target_of_def
  splitlines_def line_boundary_def line_number_at_def format_numbered_lines_def numbered_line_def
  dec_digits.simps NL_def CR_def Let_def eval_nat_numeral

lemma edit_file_example:
  "edit_file (Regular [97, 13, 10, 98, 97]) (Some [97]) (Some [99, 10]) (Some True) =
     Inr (Edit_reply 2 2 [\<lparr>et_start_line = 1, et_end_line = 1, et_content = [49, 58, 32, 99]\<rparr>,
            \<lparr>et_start_line = 3, et_end_line = 3, et_content = [51, 58, 32, 98, 99]\<rparr>],
          Regular [99, 13, 10, 13, 10, 98, 99, 13, 10])"
  by (simp add: file_eval)

lemma edit_file_witness:
  "\<exists>t before bom. utf8_decode before = Some t \<and>
     str_count (convert_line_endings [97] (detect_line_ending t)) t = 2 \<and>
     Regular [97, 13, 10, 98, 97] = Regular (bom @ before)"
  using edit_file_correct [OF edit_file_example] by (fastforce simp: Let_def)

text \<open>
  The lines shown with a successful edit are numbered by line feeds but cut with \<open>splitlines\<close>,
  which also splits at form feeds and other separators: in this file the edit happens in line 2,
  and the text shown as line 2 is the end of line 1, without the edit.
\<close>

lemma edit_shows_wrong_line:
  "edit_file (Regular [97, 12, 98, 10, 120]) (Some [120]) (Some [121]) (Some False) =
     Inr (Edit_reply 1 1 [\<lparr>et_start_line = 2, et_end_line = 2, et_content = [50, 58, 32, 98]\<rparr>],
          Regular [97, 12, 98, 10, 121])"
  by (simp add: file_eval)


section \<open>Patch\<close>

text \<open>The lines that replace the located lines \<open>old\<close>: kept lines stay as the file has them.\<close>

fun weave :: "patch_hunk \<Rightarrow> py_text list \<Rightarrow> py_text list" where
  "weave [] old = []"
| "weave (l # ls) old =
     (if pl_kind l = KEPT then hd old # weave ls (tl old)
      else if pl_kind l = REMOVED then weave ls (tl old)
      else pl_text l # weave ls old)"

lemma kind_neq [simp]: "KEPT \<noteq> REMOVED" "KEPT \<noteq> ADDED" "REMOVED \<noteq> ADDED" "REMOVED \<noteq> KEPT" "ADDED \<noteq> KEPT" "ADDED \<noteq> REMOVED"
  by (simp_all add: KEPT_def REMOVED_def ADDED_def)

lemma old_lines_simps [simp]:
  "old_lines [] = []"
  "old_lines (l # ls) = (if pl_kind l = KEPT \<or> pl_kind l = REMOVED then pl_text l # old_lines ls else old_lines ls)"
  by (simp_all add: old_lines_def)

lemma replacement_weave:
  "k + length (old_lines h) \<le> length old \<Longrightarrow> replacement old k h = weave h (drop k old)"
  by (induction h arbitrary: k) (auto simp: hd_drop_conv_nth drop_Suc tl_drop)

definition matches_at :: "match_mode \<Rightarrow> py_text list \<Rightarrow> py_text list \<Rightarrow> nat \<Rightarrow> bool" where
  "matches_at mode source expected i \<longleftrightarrow> i + length expected \<le> length source \<and>
     map (normalizer mode) (take (length expected) (drop i source)) = map (normalizer mode) expected"

lemma set_candidate_positions:
  "expected \<noteq> [] \<Longrightarrow> set (candidate_positions source expected mode) = {i. matches_at mode source expected i}"
  by (cases "length expected \<le> length source")
    (auto simp: candidate_positions_def matches_at_def simp del: upt_Suc)

lemma locate_by_Located:
  "locate_by source expected modes = Located s mode \<Longrightarrow>
    mode \<in> set modes \<and> candidate_positions source expected mode = [s]"
  by (induction modes) (auto split: list.splits)

lemma locate_hunk_Located:
  assumes "locate_hunk source h = Located s mode"
  shows "old_lines h \<noteq> []" "matches_at mode source (old_lines h) s"
    "\<And>i. matches_at mode source (old_lines h) i \<Longrightarrow> i = s"
proof -
  have c: "candidate_positions source (old_lines h) mode = [s]"
    using assms locate_by_Located unfolding locate_hunk_def by blast
  then show ne: "old_lines h \<noteq> []" by (auto simp: candidate_positions_def split: if_splits)
  show "matches_at mode source (old_lines h) s" "\<And>i. matches_at mode source (old_lines h) i \<Longrightarrow> i = s"
    using set_candidate_positions [OF ne, of source mode] c by auto
qed

text \<open>One hunk: its old lines stand at one place only, in the sense of some matching mode, and
  only they change.\<close>

definition hunk_step :: "patch_hunk \<Rightarrow> py_text list \<Rightarrow> py_text list \<Rightarrow> bool" where
  "hunk_step h source result \<longleftrightarrow> (\<exists>mode pre old post.
     source = pre @ old @ post \<and> old \<noteq> [] \<and>
     map (normalizer mode) old = map (normalizer mode) (old_lines h) \<and>
     (\<forall>i. matches_at mode source (old_lines h) i \<longrightarrow> i = length pre) \<and>
     result = pre @ weave h old @ post)"

inductive patched :: "patch_hunk list \<Rightarrow> py_text list \<Rightarrow> py_text list \<Rightarrow> bool" where
  none: "patched [] source source"
| step: "hunk_step h source mid \<Longrightarrow> patched hs mid result \<Longrightarrow> patched (h # hs) source result"

lemma matches_at_split:
  assumes "matches_at mode source expected s"
  obtains old where "source = take s source @ old @ drop (s + length expected) source"
    "length old = length expected" "map (normalizer mode) old = map (normalizer mode) expected"
    "old = take (length expected) (drop s source)"
proof -
  let ?old = "take (length expected) (drop s source)"
  have "source = take s source @ ?old @ drop (length expected) (drop s source)"
    by (metis append_take_drop_id)
  then have "source = take s source @ ?old @ drop (s + length expected) source"
    by (simp add: add.commute)
  moreover have "length ?old = length expected" using assms unfolding matches_at_def by (metis length_map)
  ultimately show ?thesis using that [of ?old] assms by (simp add: matches_at_def)
qed

lemma apply_hunk_step:
  assumes "locate_hunk source h = Located s mode"
  shows "hunk_step h source (fst (apply_hunk source h s))"
proof -
  note l = locate_hunk_Located [OF assms]
  obtain old where o: "source = take s source @ old @ drop (s + length (old_lines h)) source"
    "length old = length (old_lines h)" "map (normalizer mode) old = map (normalizer mode) (old_lines h)"
    "old = take (length (old_lines h)) (drop s source)"
    using matches_at_split [OF l(2)] by blast
  have s: "length (take s source) = s" using l(2) by (simp add: matches_at_def)
  have "fst (apply_hunk source h s) = take s source @ weave h old @ drop (s + length (old_lines h)) source"
    using replacement_weave [of 0 h old] o(2,4) by (simp add: apply_hunk_def Let_def)
  moreover have "old \<noteq> []" using o(2) l(1) by auto
  ultimately show ?thesis unfolding hunk_step_def using o(1,3) l(3) s by metis
qed

lemma apply_hunks_patched:
  "apply_hunks n hunks source targets = Inr (result, targets') \<Longrightarrow>
    patched hunks source result \<and> length targets' = length targets + length hunks"
proof (induction hunks arbitrary: n source targets)
  case Nil
  then show ?case by (auto intro: patched.intros)
next
  case (Cons h hunks)
  then obtain s mode where l: "locate_hunk source h = Located s mode"
    by (auto split: location.splits)
  then have "apply_hunks (n + 1) hunks (fst (apply_hunk source h s))
      (targets @ [patch_target_of n (fst (apply_hunk source h s)) s (snd (apply_hunk source h s)) mode]) =
      Inr (result, targets')"
    using Cons.prems by (simp add: Let_def)
  then have "patched hunks (fst (apply_hunk source h s)) result \<and>
      length targets' = Suc (length targets) + length hunks"
    using Cons.IH by fastforce
  then show ?case using apply_hunk_step [OF l] by (auto intro: patched.intros)
qed

lemma append_hunk_Inr: "append_hunk hunks lines = Inr hunks' \<Longrightarrow> hunks' \<noteq> []"
  by (auto simp: append_hunk_def split: if_splits)

lemma parse_patch_nonempty: "parse_patch p = Inr hunks \<Longrightarrow> hunks \<noteq> []"
  by (auto simp: parse_patch_def Let_def split: sum.splits prod.splits option.splits if_splits)


text \<open>The reverse of a hunk removes what it adds and adds what it removes.\<close>

definition reverse_hunk :: "patch_hunk \<Rightarrow> patch_hunk" where
  "reverse_hunk h = map (\<lambda>l. l\<lparr>pl_kind := (if pl_kind l = REMOVED then ADDED
     else if pl_kind l = ADDED then REMOVED else pl_kind l)\<rparr>) h"

definition well_kinded :: "patch_hunk \<Rightarrow> bool" where
  "well_kinded h \<longleftrightarrow> (\<forall>l\<in>set h. pl_kind l \<in> {KEPT, REMOVED, ADDED})"

lemma weave_old_lines: "well_kinded h \<Longrightarrow> weave h (old_lines h) = old_lines (reverse_hunk h)"
  by (induction h) (auto simp: reverse_hunk_def well_kinded_def)

lemma weave_reverse: "well_kinded h \<Longrightarrow> weave (reverse_hunk h) (old_lines (reverse_hunk h)) = old_lines h"
  by (induction h) (auto simp: reverse_hunk_def well_kinded_def)

text \<open>Applying a hunk whose old lines were located exactly and then its reverse at the same
  place restores the lines of the file.\<close>

theorem reverse_hunk_restores:
  assumes "locate_hunk source h = Located s Exact_match" and "well_kinded h"
  shows "apply_hunk (fst (apply_hunk source h s)) (reverse_hunk h) s = (source, length (old_lines h))"
proof -
  note l = locate_hunk_Located [OF assms(1)]
  let ?new = "old_lines (reverse_hunk h)"
  have n: "map (normalizer Exact_match) xs = xs" for xs by (induction xs) simp_all
  obtain old where o: "source = take s source @ old @ drop (s + length (old_lines h)) source"
    "map (normalizer Exact_match) old = map (normalizer Exact_match) (old_lines h)"
    "old = take (length (old_lines h)) (drop s source)"
    using matches_at_split [OF l(2)] by blast
  then have old: "old = old_lines h" by (simp only: n)
  have len: "length (take s source) = s" using l(2) by (simp add: matches_at_def)
  have a: "fst (apply_hunk source h s) = take s source @ ?new @ drop (s + length (old_lines h)) source"
    using replacement_weave [of 0 h "old_lines h"] o(3) old assms(2)
    by (simp add: apply_hunk_def Let_def weave_old_lines)
  have "apply_hunk (take s source @ ?new @ drop (s + length (old_lines h)) source) (reverse_hunk h) s =
      (take s source @ old_lines h @ drop (s + length (old_lines h)) source, length (old_lines h))"
    using replacement_weave [of 0 "reverse_hunk h" ?new] len assms(2)
    by (simp add: apply_hunk_def Let_def weave_reverse)
  then show ?thesis using a o(1) old by simp
qed

lemma reverse_hunk_witness:
  "apply_hunk (fst (apply_hunk [[97], [98], [99]] [\<lparr>pl_kind = KEPT, pl_text = [97]\<rparr>,
       \<lparr>pl_kind = REMOVED, pl_text = [98]\<rparr>, \<lparr>pl_kind = ADDED, pl_text = [100]\<rparr>] 0))
     (reverse_hunk [\<lparr>pl_kind = KEPT, pl_text = [97]\<rparr>, \<lparr>pl_kind = REMOVED, pl_text = [98]\<rparr>,
        \<lparr>pl_kind = ADDED, pl_text = [100]\<rparr>]) 0 = ([[97], [98], [99]], 2)"
  using reverse_hunk_restores [of "[[97], [98], [99]]" "[\<lparr>pl_kind = KEPT, pl_text = [97]\<rparr>,
       \<lparr>pl_kind = REMOVED, pl_text = [98]\<rparr>, \<lparr>pl_kind = ADDED, pl_text = [100]\<rparr>]" 0]
  by (simp add: locate_hunk_def candidate_positions_def well_kinded_def eval_nat_numeral)


lemmas patch_eval =
  patch_file_def parse_patch_def parse_line_def split_nl_def append_hunk_def locate_hunk_def
  candidate_positions_def apply_hunk_def patch_target_of_def display_lines_def
  strip_def lstrip_def rstrip_def py_isspace_def KEPT_def REMOVED_def ADDED_def

lemma patch_file_example:
  "patch_file (Regular [98, 10]) (Some [64, 64, 10, 45, 98, 10, 43, 99]) =
     Inr (Patch_reply 1 [\<lparr>pt_hunk_index = 1, pt_start_line = 1, pt_end_line = 1,
            pt_match_strategy = Exact_match, pt_content = [49, 58, 32, 99]\<rparr>], Regular [99, 10])"
  by (simp add: patch_eval file_eval)


section \<open>Pages\<close>

lemma join_nl_append: "a \<noteq> [] \<Longrightarrow> b \<noteq> [] \<Longrightarrow> join_nl (a @ b) = join_nl a @ NL # join_nl b"
proof (induction a rule: join_nl.induct)
  case (2 l)
  then show ?case by (cases b) simp_all
qed auto

lemma format_split:
  assumes "lines \<noteq> []" "a \<le> b" "b < c"
  shows "format_numbered_lines lines a c =
    format_numbered_lines lines a b @ NL # format_numbered_lines lines (Suc b) c"
proof -
  have "[a..<Suc c] = [a..<Suc b] @ [Suc b..<Suc c]"
    using upt_add_eq_append [of a "Suc b" "c - b"] assms by simp
  then show ?thesis using assms by (simp add: format_numbered_lines_def join_nl_append del: upt_Suc)
qed

text \<open>A client that reads from \<open>start\<close> and follows \<open>next_start_line\<close>: the contents of the pages,
  or \<open>None\<close> when a read fails or \<open>fuel\<close> pages are not enough.\<close>

fun read_pages :: "nat \<Rightarrow> file_node \<Rightarrow> int \<Rightarrow> py_text list option" where
  "read_pages 0 node start = None"
| "read_pages (Suc fuel) node start =
     (case read_file node (Some start) None of
        Inr (Read_reply page) \<Rightarrow>
          (case rp_next_start_line page of
             None \<Rightarrow> Some [rp_content page]
           | Some next \<Rightarrow> map_option (\<lambda>pages. rp_content page # pages) (read_pages fuel node next))
      | _ \<Rightarrow> None)"

lemma read_file_page:
  assumes "read_text_source node = Inr source"
    and "lines = splitlines (normalize_line_endings (ts_text source))"
    and "1 \<le> start" "start \<le> length lines"
  shows "read_file node (Some (int start)) None = Inr (Read_reply
    (let last = min (start + 1999) (length lines) in
     \<lparr>rp_start_line = int start, rp_end_line = int last, rp_total_lines = int (length lines),
      rp_truncated = (last < length lines),
      rp_next_start_line = (if last < length lines then Some (int (last + 1)) else None),
      rp_content = format_numbered_lines lines start last\<rparr>))"
proof -
  have m: "min (int start + 1999) (int (length lines)) = int (min (start + 1999) (length lines))" by simp
  have n: "nat (1999 + int start) = start + 1999" by simp
  have ne: "lines \<noteq> []" using assms(3,4) by auto
  show ?thesis using assms(1,3,4) ne
    by (simp add: read_file_def DEFAULT_READ_LINES_def Let_def m [symmetric] assms(2) [symmetric] del: of_nat_min)
      (simp add: m n)
qed

lemma read_pages_from:
  assumes "read_text_source node = Inr source"
    and "lines = splitlines (normalize_line_endings (ts_text source))"
  shows "1 \<le> start \<Longrightarrow> start \<le> length lines \<Longrightarrow> length lines < start + fuel \<Longrightarrow>
    \<exists>pages. read_pages fuel node (int start) = Some pages \<and> pages \<noteq> [] \<and>
      join_nl pages = format_numbered_lines lines start (length lines)"
proof (induction fuel arbitrary: start)
  case 0
  then show ?case by simp
next
  case (Suc fuel)
  let ?last = "min (start + 1999) (length lines)"
  note p = read_file_page [OF assms Suc.prems(1,2)]
  show ?case
  proof (cases "?last < length lines")
    case False
    then have "?last = length lines" by simp
    then show ?thesis using p by (simp add: Let_def)
  next
    case True
    have next_ok: "1 \<le> ?last + 1" "?last + 1 \<le> length lines" "length lines < ?last + 1 + fuel"
      using True Suc.prems by simp_all
    obtain pages where pages: "read_pages fuel node (int (?last + 1)) = Some pages" "pages \<noteq> []"
      "join_nl pages = format_numbered_lines lines (?last + 1) (length lines)"
      using Suc.IH [OF next_ok] by blast
    have "lines \<noteq> []" "start \<le> ?last" using Suc.prems by auto
    then have "format_numbered_lines lines start (length lines) =
        format_numbered_lines lines start ?last @ NL # join_nl pages"
      using format_split [of lines start ?last "length lines"] True pages(3) by simp
    moreover obtain q qs where "pages = q # qs" using pages(2) by (cases pages) auto
    moreover have "read_pages (Suc fuel) node (int start) =
        Some (format_numbered_lines lines start ?last # pages)"
    proof -
      have t: "start + 1999 < length lines" using True by simp
      then show ?thesis using p pages(1) by (simp add: Let_def)
    qed
    ultimately show ?thesis by simp
  qed
qed

text \<open>Reading a file page by page reaches its end: from line 1, following \<open>next_start_line\<close>
  ends after at most as many pages as there are lines, and the pages together show every line
  once, in order, with its number.\<close>

theorem read_pages_complete:
  assumes "read_text_source node = Inr source"
    and "lines = splitlines (normalize_line_endings (ts_text source))" and "lines \<noteq> []"
  shows "\<exists>pages. read_pages (length lines) node 1 = Some pages \<and>
    join_nl pages = join_nl (map (numbered_line lines) [1..<Suc (length lines)])"
proof -
  obtain pages where "read_pages (length lines) node (int 1) = Some pages"
    "join_nl pages = format_numbered_lines lines 1 (length lines)"
    using read_pages_from [OF assms(1,2), of 1 "length lines"] assms(3) by (cases lines) auto
  then show ?thesis using assms(3) by (cases lines) (auto simp: format_numbered_lines_def)
qed

lemma read_pages_witness:
  "\<exists>pages. read_pages 2 (Regular [97, 10, 98]) 1 = Some pages \<and>
     join_nl pages = [49, 58, 32, 97, 10, 50, 58, 32, 98]"
proof -
  have s: "read_text_source (Regular [97, 10, 98]) =
      Inr \<lparr>ts_text = [97, 10, 98], ts_has_bom = False, ts_line_ending = [10]\<rparr>"
    by (simp add: file_eval)
  have l: "[[97], [98]] = splitlines (normalize_line_endings
      (ts_text \<lparr>ts_text = [97, 10, 98], ts_has_bom = False, ts_line_ending = [10]\<rparr>))"
    by (simp add: file_eval)
  show ?thesis using read_pages_complete [OF s l]
    by (simp add: numbered_line_def dec_digits.simps NL_def eval_nat_numeral)
qed

end
