(* ===== verification/File_Executor.thy ===== *)
theory File_Executor
  imports File_Laws
begin

text \<open>
  The file tool's executor (\<open>src/app/core/tools/file_tool/executor.py\<close>, \<open>paths.py\<close> and
  \<open>src/app/core/utils/operation_directories.py\<close>) on a file system, a function from resolved
  paths to files. Paths are those of a POSIX host. \<open>Path.resolve\<close>, which follows symbolic links,
  \<open>PureWindowsPath.is_absolute\<close> and \<open>grep\<close>, which only reads, are parameters. No other process
  changes the file system during a call.
\<close>

section \<open>Paths\<close>

record py_path =
  path_root :: py_text
  path_parts :: "py_text list"

fun split_slash :: "py_text \<Rightarrow> py_text \<Rightarrow> py_text list" where
  "split_slash acc [] = [rev acc]"
| "split_slash acc (c # t) = (if c = 47 then rev acc # split_slash [] t else split_slash (c # acc) t)"

text \<open>\<open>Path(text)\<close>: two leading slashes are kept, more are one; \<open>.\<close> and empty parts vanish.\<close>

definition parse_path :: "py_text \<Rightarrow> py_path" where
  "parse_path t =
     \<lparr>path_root = (if take 2 t = [47, 47] \<and> take 3 t \<noteq> [47, 47, 47] then [47, 47]
                   else if take 1 t = [47] then [47] else []),
      path_parts = filter (\<lambda>p. p \<noteq> [] \<and> p \<noteq> [46]) (split_slash [] t)\<rparr>"

definition is_absolute :: "py_path \<Rightarrow> bool" where
  "is_absolute p \<longleftrightarrow> path_root p \<noteq> []"

definition path_join :: "py_path \<Rightarrow> py_path \<Rightarrow> py_path" where
  "path_join a b = (if is_absolute b then b else a\<lparr>path_parts := path_parts a @ path_parts b\<rparr>)"

text \<open>\<open>path.relative_to(root)\<close> succeeds\<close>

definition is_within :: "py_path \<Rightarrow> py_path \<Rightarrow> bool" where
  "is_within p root \<longleftrightarrow> path_root p = path_root root \<and> prefix (path_parts root) (path_parts p)"

text \<open>\<open>os.path.abspath\<close>\<close>

fun norm_parts :: "py_text list \<Rightarrow> py_text list \<Rightarrow> py_text list" where
  "norm_parts acc [] = rev acc"
| "norm_parts acc (p # ps) =
     (if p = [46, 46] then norm_parts (drop 1 acc) ps else norm_parts (p # acc) ps)"

definition abspath :: "py_path \<Rightarrow> py_path \<Rightarrow> py_path" where
  "abspath cwd p = (let q = path_join cwd p in q\<lparr>path_parts := norm_parts [] (path_parts q)\<rparr>)"

section \<open>The environment of a call\<close>

record tool_env =
  env_cwd :: py_path
  env_user_dir :: py_path
  env_project_root :: py_path
  env_skills_dir :: py_path
  env_allowed_dirs :: "py_text list"
  env_protect :: bool
  env_resolve :: "py_path \<Rightarrow> file_error + py_path"
  env_windows_absolute :: "py_text \<Rightarrow> bool"

definition normalize_allowed_operation_dirs :: "tool_env \<Rightarrow> py_text list \<Rightarrow> py_path list" where
  "normalize_allowed_operation_dirs env dirs =
     concat (map (\<lambda>d. if is_absolute (parse_path d)
                      then (case env_resolve env (parse_path d) of Inl _ \<Rightarrow> [] | Inr p \<Rightarrow> [p]) else []) dirs)"

definition outside_error :: file_error where
  "outside_error = PathError ''ERR_FILE_PATH_OUTSIDE_ALLOWED_DIRS''"

definition resolve_file_tool_target_path :: "tool_env \<Rightarrow> py_text option \<Rightarrow> bool \<Rightarrow> file_error + py_path" where
  "resolve_file_tool_target_path env path enforce =
     (case path of
        None \<Rightarrow> Inl outside_error
      | Some t \<Rightarrow>
          if strip t = [] then Inl outside_error
          else (case env_resolve env (env_user_dir env) of
                  Inl e \<Rightarrow> Inl e
                | Inr workspace \<Rightarrow>
                    if env_windows_absolute env t \<and> \<not> is_absolute (parse_path t) then Inl outside_error
                    else (case env_resolve env (path_join workspace (parse_path t)) of
                            Inl e \<Rightarrow> Inl e
                          | Inr target \<Rightarrow>
                              if enforce \<and> \<not> (\<exists>root\<in>set (workspace #
                                   normalize_allowed_operation_dirs env (env_allowed_dirs env)).
                                   is_within target root)
                              then Inl outside_error else Inr target)))"

definition get_write_protected_dirs :: "tool_env \<Rightarrow> file_error + py_path list" where
  "get_write_protected_dirs env =
     (case env_resolve env (env_skills_dir env) of
        Inl e \<Rightarrow> Inl e
      | Inr resolved \<Rightarrow>
          (let lexical = abspath (env_cwd env) (env_skills_dir env) in
           Inr (if resolved = lexical then [lexical] else [lexical, resolved])))"

definition is_path_write_protected :: "tool_env \<Rightarrow> py_path \<Rightarrow> file_error + bool" where
  "is_path_write_protected env path =
     (let candidate = (if is_absolute path then path
                       else path_join (abspath (env_cwd env) (env_project_root env)) path) in
      case env_resolve env candidate of
        Inl e \<Rightarrow> Inl e
      | Inr resolved \<Rightarrow>
          (case get_write_protected_dirs env of
             Inl e \<Rightarrow> Inl e
           | Inr dirs \<Rightarrow> Inr (\<exists>c\<in>{abspath (env_cwd env) candidate, resolved}.
                \<exists>d\<in>set dirs. is_within c d \<or> is_within d c)))"

section \<open>Execution\<close>

record file_args =
  fa_operation :: string
  fa_path :: "py_text option"
  fa_start_line :: "int option"
  fa_end_line :: "int option"
  fa_content :: "py_text option"
  fa_old_text :: "py_text option"
  fa_new_text :: "py_text option"
  fa_replace_all :: "bool option"
  fa_patch :: "py_text option"

type_synonym file_system = "py_path \<Rightarrow> file_node"

definition FILE_TOOL_OPERATIONS :: "string list" where
  "FILE_TOOL_OPERATIONS = [''read'', ''write'', ''edit'', ''patch'', ''grep'']"

text \<open>The text of an exception in a failed reply.\<close>

fun error_text :: "file_error \<Rightarrow> string" where
  "error_text (FileNotFoundError k) = k"
| "error_text (NotRegularError k) = k"
| "error_text (PathError k) = k"
| "error_text UnicodeDecodeError = ''ERR_FILE_TOOL_NOT_REGULAR''"
| "error_text UnicodeEncodeError = ''utf-8 codec cannot encode''"
| "error_text OSError = ''OSError''"

definition failed_reply :: "file_error \<Rightarrow> file_reply" where
  "failed_reply e = Failed_reply (error_text e) None None"

definition store :: "file_system \<Rightarrow> py_path \<Rightarrow> file_error + file_reply \<times> file_node \<Rightarrow>
     file_reply \<times> file_system" where
  "store fs target r =
     (case r of Inl e \<Rightarrow> (failed_reply e, fs) | Inr (reply, node) \<Rightarrow> (reply, fs(target := node)))"

definition read_only :: "file_system \<Rightarrow> file_error + file_reply \<Rightarrow> file_reply \<times> file_system" where
  "read_only fs r = (case r of Inl e \<Rightarrow> (failed_reply e, fs) | Inr reply \<Rightarrow> (reply, fs))"

definition run_operation ::
    "(file_system \<Rightarrow> py_path \<Rightarrow> file_error + file_reply) \<Rightarrow> file_system \<Rightarrow> file_args \<Rightarrow> py_path \<Rightarrow>
     file_reply \<times> file_system" where
  "run_operation grep fs args target =
     (if fa_operation args = ''read''
      then read_only fs (read_file (fs target) (fa_start_line args) (fa_end_line args))
      else if fa_operation args = ''write'' then store fs target (write_file (fs target) (fa_content args))
      else if fa_operation args = ''edit''
      then store fs target (edit_file (fs target) (fa_old_text args) (fa_new_text args) (fa_replace_all args))
      else if fa_operation args = ''patch'' then store fs target (patch_file (fs target) (fa_patch args))
      else read_only fs (grep fs target))"

text \<open>The path that the write protection looks at.\<close>

definition protection_path :: "tool_env \<Rightarrow> py_text \<Rightarrow> file_error + py_path" where
  "protection_path env t =
     (if is_absolute (parse_path t) then Inr (parse_path t)
      else (case env_resolve env (env_user_dir env) of
              Inl e \<Rightarrow> Inl e | Inr dir \<Rightarrow> Inr (path_join dir (parse_path t))))"

definition write_protected :: "tool_env \<Rightarrow> file_args \<Rightarrow> file_error + bool" where
  "write_protected env args =
     (if fa_operation args \<in> {''write'', ''edit'', ''patch''} \<and> env_protect env
      then (case protection_path env (the (fa_path args)) of
              Inl e \<Rightarrow> Inl e | Inr p \<Rightarrow> is_path_write_protected env p)
      else Inr False)"

definition file_tool_execute ::
    "(file_system \<Rightarrow> py_path \<Rightarrow> file_error + file_reply) \<Rightarrow> tool_env \<Rightarrow> file_system \<Rightarrow> file_args \<Rightarrow>
     file_reply \<times> file_system" where
  "file_tool_execute grep env fs args =
     (if fa_operation args \<notin> set FILE_TOOL_OPERATIONS
      then (Failed_reply ''ERR_FILE_TOOL_OPERATION_INVALID'' None None, fs)
      else (case resolve_file_tool_target_path env (fa_path args)
                   (fa_operation args \<notin> {''read'', ''grep''}) of
              Inl e \<Rightarrow> (failed_reply e, fs)
            | Inr target \<Rightarrow>
                (case write_protected env args of
                   Inl e \<Rightarrow> (failed_reply e, fs)
                 | Inr True \<Rightarrow> (Blocked_reply ''ERR_TOOL_WRITE_PROTECTED_DIRECTORY'', fs)
                 | Inr False \<Rightarrow> run_operation grep fs args target)))"

section \<open>Confinement\<close>

lemma run_operation_effect:
  "run_operation grep fs args target = (reply, fs') \<Longrightarrow> fs' p \<noteq> fs p \<Longrightarrow>
    p = target \<and> fa_operation args \<in> {''write'', ''edit'', ''patch''}"
  by (auto simp: run_operation_def store_def read_only_def split: if_splits sum.splits prod.splits)


text \<open>A host without symbolic links whose only user directory is \<open>/w\<close>.\<close>

definition plain_env :: tool_env where
  "plain_env = \<lparr>env_cwd = parse_path [47], env_user_dir = parse_path [47, 119],
     env_project_root = parse_path [47], env_skills_dir = parse_path [47, 115], env_allowed_dirs = [],
     env_protect = True, env_resolve = (\<lambda>p. Inr (abspath (parse_path [47]) p)),
     env_windows_absolute = (\<lambda>t. False)\<rparr>"

definition plain_args :: file_args where
  "plain_args = \<lparr>fa_operation = ''write'', fa_path = Some [97], fa_start_line = None,
     fa_end_line = None, fa_content = Some [98], fa_old_text = None, fa_new_text = None,
     fa_replace_all = None, fa_patch = None\<rparr>"

lemma plain_resolve_absolute: "env_resolve plain_env q = Inr r \<Longrightarrow> is_absolute r"
  by (auto simp: plain_env_def abspath_def path_join_def is_absolute_def parse_path_def Let_def
      split: if_splits)

lemma plain_execute:
  "file_tool_execute (\<lambda>fs p. Inr Grep_reply) plain_env (\<lambda>p. Absent True) plain_args =
     (Write_reply 1, (\<lambda>p. Absent True)(\<lparr>path_root = [47], path_parts = [[119], [97]]\<rparr> := Regular [98]))"
  by (simp add: file_tool_execute_def plain_env_def plain_args_def FILE_TOOL_OPERATIONS_def
      resolve_file_tool_target_path_def parse_path_def path_join_def is_absolute_def abspath_def
      is_within_def normalize_allowed_operation_dirs_def write_protected_def protection_path_def
      is_path_write_protected_def get_write_protected_dirs_def run_operation_def store_def
      write_file_def write_text_def utf8_char_def strip_def lstrip_def rstrip_def py_isspace_def
      Let_def eval_nat_numeral)


end
