(* ===== verification/Knowledge_Tables.thy ===== *)
theory Knowledge_Tables
  imports Prelude
begin

text \<open>
  The tables of managed knowledge that its job queue works on
  (\<open>src/app/models/knowledge_base/job.py\<close> and the item table of \<open>managed.py\<close>). Of the knowledge
  bases only the pair of key and owner is needed, for the foreign keys.
\<close>

section \<open>Jobs\<close>

datatype job_operation =
    MANAGED_CREATE | MANAGED_UPDATE | MANAGED_DELETE_CLEANUP | MANAGED_VECTOR_CLEANUP
  | USER_DOCUMENT_INDEX | USER_DOCUMENT_DELETE_CLEANUP | EMBEDDING_MIGRATION | REINDEX
  | OLD_COLLECTION_CLEANUP | MIGRATION_TARGET_CLEANUP | KNOWLEDGE_MAINTENANCE
  | AUTO_ORGANIZE | MANUAL_ORGANIZE | ORGANIZE_MUTATION

datatype job_status = J_PENDING | J_RUNNING | J_RETRY | J_SUCCEEDED | J_FAILED | J_CANCELLED

record knowledge_job =
  kj_id :: int
  kj_uid :: string
  kj_parent_job_id :: "int option"
  kj_operation :: job_operation
  kj_dedupe_key :: string
  kj_request_hash :: string
  kj_active_change_key :: "string option"
  kj_status :: job_status
  kj_knowledge_base_id :: int
  kj_knowledge_id :: "int option"
  kj_expected_version :: "int option"
  kj_payload :: json
  kj_result :: "json option"
  kj_error :: "string option"
  kj_source_session_id :: "string option"
  kj_source_profile_id :: "int option"
  kj_source_message_id :: "int option"
  kj_available_at :: int
  kj_attempt_count :: int
  kj_max_attempts :: int
  kj_locked_by :: "string option"
  kj_lock_until :: "int option"
  kj_cancel_requested_at :: "int option"
  kj_created_at :: int
  kj_updated_at :: int
  kj_started_at :: "int option"
  kj_finished_at :: "int option"

section \<open>Items\<close>

datatype item_source = SRC_LLM_TOOL | SRC_USER_API | SRC_AUTO_ORGANIZE | SRC_SYSTEM

datatype item_actor = ACTOR_LLM | ACTOR_USER | ACTOR_SYSTEM

record managed_item =
  mi_id :: int
  mi_knowledge_base_id :: int
  mi_uid :: string
  mi_knowledge_key :: "string option"
  mi_content :: string
  mi_content_token_count :: int
  mi_content_hash :: "string option"
  mi_version :: int
  mi_source_type :: item_source
  mi_source_reference :: "json option"
  mi_source_job_id :: "int option"
  mi_created_by :: item_actor
  mi_last_modified_by :: item_actor
  mi_llm_maintainable :: bool
  mi_indexed_version :: int
  mi_vector_item_ids :: "string list"
  mi_is_recallable :: bool
  mi_pending_job_id :: "int option"
  mi_organization_lock_token :: "string option"
  mi_created_at :: int
  mi_updated_at :: int
  mi_deleted_at :: "int option"
  mi_last_recalled_at :: "int option"

record knowledge_db =
  kd_bases :: "(int \<times> string) list"
  kd_jobs :: "knowledge_job list"
  kd_items :: "managed_item list"

end
