(* ===== verification/Knowledge_Jobs.thy ===== *)
theory Knowledge_Jobs
  imports Knowledge_Tables
begin

text \<open>
  The queue of knowledge jobs (\<open>src/app/core/crud/knowledge/job.py\<close>): creation with
  de-duplication, claiming under the dependencies between an organisation run and its children,
  leases, ends, recovery, cancellation and release at shutdown. \<open>now\<close> is the clock of the
  database; where the code reads it twice there are two arguments. \<open>job\<close> arguments of the
  creation stand for the keyword arguments of the model's constructor.
\<close>

section \<open>Kinds of operations\<close>

definition TERMINAL_STATUSES :: "job_status set" where
  "TERMINAL_STATUSES = {J_SUCCEEDED, J_FAILED, J_CANCELLED}"

definition SYSTEM_CLEANUP_OPERATIONS :: "job_operation set" where
  "SYSTEM_CLEANUP_OPERATIONS = {MANAGED_DELETE_CLEANUP, MANAGED_VECTOR_CLEANUP,
     OLD_COLLECTION_CLEANUP, MIGRATION_TARGET_CLEANUP, KNOWLEDGE_MAINTENANCE}"

definition ORGANIZATION_OPERATIONS :: "job_operation set" where
  "ORGANIZATION_OPERATIONS = {AUTO_ORGANIZE, MANUAL_ORGANIZE}"

definition ORGANIZATION_CHILD_OPERATIONS :: "job_operation set" where
  "ORGANIZATION_CHILD_OPERATIONS =
     {ORGANIZE_MUTATION, MANAGED_CREATE, MANAGED_UPDATE, MANAGED_DELETE_CLEANUP}"

definition is_system_cleanup_operation :: "job_operation \<Rightarrow> bool" where
  "is_system_cleanup_operation op \<longleftrightarrow> op \<in> SYSTEM_CLEANUP_OPERATIONS"

definition is_organization_operation :: "job_operation \<Rightarrow> bool" where
  "is_organization_operation op \<longleftrightarrow> op \<in> ORGANIZATION_OPERATIONS"

definition is_organization_mutation_operation :: "job_operation \<Rightarrow> bool" where
  "is_organization_mutation_operation op \<longleftrightarrow> op = ORGANIZE_MUTATION"

section \<open>Dependencies between jobs\<close>

definition has_parent :: "(knowledge_job \<Rightarrow> bool) \<Rightarrow> knowledge_db \<Rightarrow> knowledge_job \<Rightarrow> bool" where
  "has_parent q d j \<longleftrightarrow>
     (\<exists>p\<in>set (kd_jobs d). kj_parent_job_id j = Some (kj_id p) \<and> kj_uid p = kj_uid j \<and> q p)"

definition cleanup_parent_terminal :: "knowledge_db \<Rightarrow> knowledge_job \<Rightarrow> bool" where
  "cleanup_parent_terminal d j \<longleftrightarrow> kj_operation j = MANAGED_VECTOR_CLEANUP \<and>
     has_parent (\<lambda>p. kj_status p \<in> TERMINAL_STATUSES) d j"

definition organization_delete_cleanup_parent_terminal :: "knowledge_db \<Rightarrow> knowledge_job \<Rightarrow> bool" where
  "organization_delete_cleanup_parent_terminal d j \<longleftrightarrow> kj_operation j = MANAGED_DELETE_CLEANUP \<and>
     has_parent (\<lambda>p. kj_operation p \<in> ORGANIZATION_OPERATIONS \<and> kj_status p \<in> TERMINAL_STATUSES) d j"

definition organization_parent_active :: "knowledge_db \<Rightarrow> knowledge_job \<Rightarrow> bool" where
  "organization_parent_active d j \<longleftrightarrow> kj_operation j \<in> ORGANIZATION_CHILD_OPERATIONS \<and>
     has_parent (\<lambda>p. kj_operation p \<in> ORGANIZATION_OPERATIONS \<and>
       kj_status p \<in> {J_RUNNING, J_SUCCEEDED} \<and> kj_cancel_requested_at p = None) d j"

definition claim_dependency_condition :: "knowledge_db \<Rightarrow> knowledge_job \<Rightarrow> bool" where
  "claim_dependency_condition d j \<longleftrightarrow>
     cleanup_parent_terminal d j \<or> organization_delete_cleanup_parent_terminal d j \<or>
     (kj_operation j \<noteq> MANAGED_VECTOR_CLEANUP \<and>
      (kj_parent_job_id j = None \<or> kj_operation j \<notin> ORGANIZATION_CHILD_OPERATIONS \<or>
       organization_parent_active d j))"

section \<open>Owners\<close>

definition blank_name :: "string \<Rightarrow> bool" where
  "blank_name w \<longleftrightarrow> (\<forall>c\<in>set w. of_char c \<in> {9, 10, 11, 12, 13, 28, 29, 30, 31, 32, 133, 160 :: nat})"

definition resolve_owner :: "string option \<Rightarrow> string option \<Rightarrow> py_error + string" where
  "resolve_owner owner worker_id =
     (let given = (\<lambda>w. w \<noteq> None \<and> w \<noteq> Some []);
          resolved = (if given owner then owner else worker_id)
      in if given owner \<and> given worker_id \<and> owner \<noteq> worker_id
         then Inl (ValueError ''ERR_KNOWLEDGE_JOB_OWNER_MISMATCH'')
         else (case resolved of
                 None \<Rightarrow> Inl (ValueError ''ERR_KNOWLEDGE_JOB_FIELD_REQUIRED'')
               | Some w \<Rightarrow> if blank_name w then Inl (ValueError ''ERR_KNOWLEDGE_JOB_FIELD_REQUIRED'')
                           else Inr w))"

section \<open>Statements on the job table\<close>

definition update_jobs ::
    "(knowledge_job \<Rightarrow> bool) \<Rightarrow> (knowledge_job \<Rightarrow> knowledge_job) \<Rightarrow> knowledge_db dbsession \<Rightarrow>
     knowledge_db dbsession \<times> nat" where
  "update_jobs p f s =
     (execute (\<lambda>d. d\<lparr>kd_jobs := sql_update p f (kd_jobs d)\<rparr>) s, rowcount p (kd_jobs (cur s)))"

definition is_job :: "string \<Rightarrow> int \<Rightarrow> knowledge_job \<Rightarrow> bool" where
  "is_job uid job_id j \<longleftrightarrow> kj_uid j = uid \<and> kj_id j = job_id"

definition job_get_by_id :: "string \<Rightarrow> int \<Rightarrow> knowledge_db \<Rightarrow> knowledge_job option" where
  "job_get_by_id uid job_id d = find (is_job uid job_id) (kd_jobs d)"

text \<open>The update of \<open>lock_by_id\<close> writes \<open>updated_at\<close> back; it only takes the row's lock.\<close>

definition job_lock_by_id :: "string \<Rightarrow> int \<Rightarrow> knowledge_db \<Rightarrow> knowledge_job option" where
  "job_lock_by_id uid job_id d = job_get_by_id uid job_id d"

definition job_get_by_ids :: "string \<Rightarrow> int list \<Rightarrow> knowledge_db \<Rightarrow> knowledge_job list" where
  "job_get_by_ids uid job_ids d =
     filter (\<lambda>j. kj_uid j = uid \<and> kj_id j \<in> {i \<in> set job_ids. i > 0}) (kd_jobs d)"

definition job_list_children ::
    "string \<Rightarrow> int \<Rightarrow> job_status list option \<Rightarrow> knowledge_db \<Rightarrow> knowledge_job list" where
  "job_list_children uid parent_job_id statuses d =
     (if parent_job_id \<le> 0 then []
      else sort_key kj_id (filter (\<lambda>j. kj_uid j = uid \<and> kj_parent_job_id j = Some parent_job_id \<and>
             (case statuses of None \<Rightarrow> True | Some [] \<Rightarrow> True | Some ss \<Rightarrow> kj_status j \<in> set ss))
             (kd_jobs d)))"

definition has_active_for_knowledge_base_except ::
    "string \<Rightarrow> int \<Rightarrow> int \<Rightarrow> knowledge_db \<Rightarrow> bool" where
  "has_active_for_knowledge_base_except uid kb excluded d \<longleftrightarrow>
     (\<exists>j\<in>set (kd_jobs d). kj_uid j = uid \<and> kj_knowledge_base_id j = kb \<and> kj_id j \<noteq> excluded \<and>
        kj_status j \<in> {J_PENDING, J_RETRY, J_RUNNING})"

definition newest_first :: "(knowledge_job \<Rightarrow> int) \<Rightarrow> knowledge_job list \<Rightarrow> knowledge_job list" where
  "newest_first k js = sort_key (\<lambda>j. (- k j, - kj_id j)) js"

definition list_page_for_knowledge_base ::
    "string \<Rightarrow> int \<Rightarrow> int \<Rightarrow> int \<Rightarrow> job_operation option \<Rightarrow> job_operation list option \<Rightarrow>
     job_status list option \<Rightarrow> knowledge_db \<Rightarrow> py_error + knowledge_job list \<times> nat" where
  "list_page_for_knowledge_base uid kb skip limit op ops statuses d =
     (let hits = filter (\<lambda>j. kj_uid j = uid \<and> kj_knowledge_base_id j = kb \<and>
            (case op of Some x \<Rightarrow> kj_operation j = x
             | None \<Rightarrow> (case ops of None \<Rightarrow> True | Some xs \<Rightarrow> kj_operation j \<in> set xs)) \<and>
            (case statuses of None \<Rightarrow> True | Some [] \<Rightarrow> True | Some ss \<Rightarrow> kj_status j \<in> set ss))
            (kd_jobs d);
          page = min (max limit 0) 100
      in if kb \<le> 0 then Inr ([], 0)
         else if op \<noteq> None \<and> ops \<noteq> None then Inl (ValueError ''ERR_KNOWLEDGE_JOB_FIELD_INVALID'')
         else if op = None \<and> ops = Some [] then Inr ([], 0)
         else if page = 0 then Inr ([], length hits)
         else Inr (take (nat page) (drop (nat (max skip 0)) (newest_first kj_created_at hits)), length hits))"

fun keep_first :: "((int \<times> int) \<times> knowledge_job) list \<Rightarrow> ((int \<times> int) \<times> knowledge_job) list \<Rightarrow>
    ((int \<times> int) \<times> knowledge_job) list" where
  "keep_first acc [] = acc"
| "keep_first acc ((k, j) # rest) =
     keep_first (if map_of acc k = None then acc @ [(k, j)] else acc) rest"

definition latest_publication_jobs_for_targets ::
    "string \<Rightarrow> int \<Rightarrow> (int \<times> int) list \<Rightarrow> knowledge_db \<Rightarrow> ((int \<times> int) \<times> knowledge_job) list" where
  "latest_publication_jobs_for_targets uid kb targets d =
     (let wanted = filter (\<lambda>(k, v). k > 0 \<and> v > 0) targets;
          hits = filter (\<lambda>j. kj_uid j = uid \<and> kj_knowledge_base_id j = kb \<and>
            kj_operation j \<in> {MANAGED_CREATE, MANAGED_UPDATE} \<and>
            (\<exists>(k, v)\<in>set wanted. kj_knowledge_id j = Some k \<and> kj_expected_version j = Some v)) (kd_jobs d)
      in if wanted = [] then []
         else keep_first [] (concat (map (\<lambda>j. case (kj_knowledge_id j, kj_expected_version j) of
                (Some k, Some v) \<Rightarrow> [((k, v), j)] | _ \<Rightarrow> []) (sort_key (\<lambda>j. - kj_id j) hits))))"

definition job_get_by_dedupe_key :: "string \<Rightarrow> string \<Rightarrow> knowledge_db \<Rightarrow> knowledge_job option" where
  "job_get_by_dedupe_key uid key d =
     find (\<lambda>j. kj_uid j = uid \<and> kj_dedupe_key j = key) (kd_jobs d)"

definition get_by_active_change_key :: "string \<Rightarrow> string \<Rightarrow> knowledge_db \<Rightarrow> knowledge_job option" where
  "get_by_active_change_key uid key d =
     find (\<lambda>j. kj_uid j = uid \<and> kj_active_change_key j = Some key) (kd_jobs d)"

section \<open>Creation\<close>

text \<open>The constraints of a new row: the fields' validators, the two unique keys, the foreign key.\<close>

definition job_valid :: "knowledge_job \<Rightarrow> bool" where
  "job_valid j \<longleftrightarrow> (case kj_expected_version j of None \<Rightarrow> True | Some v \<Rightarrow> v \<ge> 1) \<and>
     kj_attempt_count j \<ge> 0 \<and> kj_max_attempts j \<ge> 1 \<and>
     length (kj_uid j) \<le> 50 \<and> length (kj_dedupe_key j) \<le> 255 \<and> length (kj_request_hash j) \<le> 64 \<and>
     (case kj_active_change_key j of None \<Rightarrow> True | Some k \<Rightarrow> length k \<le> 255) \<and>
     (case kj_source_session_id j of None \<Rightarrow> True | Some i \<Rightarrow> length i \<le> 100) \<and>
     (case kj_locked_by j of None \<Rightarrow> True | Some w \<Rightarrow> length w \<le> 100)"

definition job_conflict :: "knowledge_db \<Rightarrow> knowledge_job \<Rightarrow> bool" where
  "job_conflict d j \<longleftrightarrow>
     (\<exists>r\<in>set (kd_jobs d). kj_uid r = kj_uid j \<and> (kj_dedupe_key r = kj_dedupe_key j \<or>
        kj_active_change_key r \<noteq> None \<and> kj_active_change_key r = kj_active_change_key j)) \<or>
     (kj_knowledge_base_id j, kj_uid j) \<notin> set (kd_bases d)"

definition insert_job :: "knowledge_job \<Rightarrow> knowledge_db dbsession \<Rightarrow> knowledge_db dbsession" where
  "insert_job j = execute (\<lambda>d. d\<lparr>kd_jobs := kd_jobs d @ [j\<lparr>kj_id := fresh_id kj_id (kd_jobs d)\<rparr>]\<rparr>)"

definition job_create ::
    "knowledge_job \<Rightarrow> bool \<Rightarrow> knowledge_db dbsession \<Rightarrow>
     knowledge_db dbsession \<times> (py_error + knowledge_job \<times> bool)" where
  "job_create job do_commit s =
     (if \<not> job_valid job then (s, Inl (ValueError ''validation''))
      else if job_conflict (cur s) job
      then (case job_get_by_dedupe_key (kj_uid job) (kj_dedupe_key job) (cur s) of
              Some existing \<Rightarrow> (s, Inr (existing, False))
            | None \<Rightarrow> (s, Inl IntegrityError))
      else (commit_if do_commit (insert_job job s),
            Inr (job\<lparr>kj_id := fresh_id kj_id (kd_jobs (cur s))\<rparr>, True)))"

definition claimed_values :: "string \<Rightarrow> int \<Rightarrow> int \<Rightarrow> knowledge_job \<Rightarrow> knowledge_job" where
  "claimed_values owner secs now j =
     j\<lparr>kj_status := J_RUNNING, kj_locked_by := Some owner, kj_lock_until := Some (now + secs),
       kj_started_at := Some now, kj_error := None, kj_updated_at := now\<rparr>"

text \<open>A violated constraint of the unguarded insert leaves through the caller's rollback.\<close>

definition job_create_claimed ::
    "knowledge_job \<Rightarrow> string option \<Rightarrow> string option \<Rightarrow> int \<Rightarrow> int \<Rightarrow> bool \<Rightarrow> knowledge_db dbsession \<Rightarrow>
     knowledge_db dbsession \<times> (py_error + knowledge_job)" where
  "job_create_claimed job owner worker_id lease_seconds now do_commit s =
     (case resolve_owner owner worker_id of
        Inl e \<Rightarrow> (s, Inl e)
      | Inr w \<Rightarrow>
          if lease_seconds < 1 then (s, Inl (ValueError ''ERR_VALUE_MUST_BE_POSITIVE''))
          else (let j = (claimed_values w lease_seconds now job)\<lparr>kj_attempt_count := 1\<rparr> in
                if \<not> job_valid j then (s, Inl (ValueError ''validation''))
                else if job_conflict (cur s) j then (rollback s, Inl IntegrityError)
                else (commit_if do_commit (insert_job j s),
                      Inr (j\<lparr>kj_id := fresh_id kj_id (kd_jobs (cur s))\<rparr>))))"

definition job_unstarted :: "string \<Rightarrow> int \<Rightarrow> knowledge_job \<Rightarrow> bool" where
  "job_unstarted uid job_id j \<longleftrightarrow> is_job uid job_id j \<and> kj_status j = J_PENDING \<and> kj_locked_by j = None"

definition delete_unstarted ::
    "string \<Rightarrow> int \<Rightarrow> bool \<Rightarrow> knowledge_db dbsession \<Rightarrow> knowledge_db dbsession \<times> bool" where
  "delete_unstarted uid job_id do_commit s =
     (commit_if do_commit (execute (\<lambda>d. d\<lparr>kd_jobs := sql_delete (job_unstarted uid job_id) (kd_jobs d)\<rparr>) s),
      rowcount (job_unstarted uid job_id) (kd_jobs (cur s)) = 1)"

definition set_target ::
    "string \<Rightarrow> int \<Rightarrow> int \<Rightarrow> int \<Rightarrow> bool \<Rightarrow> knowledge_db dbsession \<Rightarrow>
     knowledge_db dbsession \<times> knowledge_job option" where
  "set_target uid job_id knowledge_id expected_version do_commit s =
     (let (s1, n) = update_jobs (job_unstarted uid job_id)
            (\<lambda>j. j\<lparr>kj_knowledge_id := Some knowledge_id, kj_expected_version := Some expected_version\<rparr>) s
      in if n \<noteq> 1 then (s1, None)
         else (commit_if do_commit s1, job_get_by_id uid job_id (cur s1)))"

section \<open>Claims and leases\<close>

definition held :: "string \<Rightarrow> int \<Rightarrow> string \<Rightarrow> knowledge_job \<Rightarrow> bool" where
  "held uid job_id owner j \<longleftrightarrow> is_job uid job_id j \<and> kj_status j = J_RUNNING \<and> kj_locked_by j = Some owner"

definition held_now :: "string \<Rightarrow> int \<Rightarrow> string \<Rightarrow> int \<Rightarrow> knowledge_job \<Rightarrow> bool" where
  "held_now uid job_id owner now j \<longleftrightarrow> held uid job_id owner j \<and> null_ge (kj_lock_until j) now"

definition update_running_payload ::
    "string \<Rightarrow> int \<Rightarrow> string \<Rightarrow> json \<Rightarrow> int \<Rightarrow> bool \<Rightarrow> knowledge_db dbsession \<Rightarrow>
     knowledge_db dbsession \<times> knowledge_job option" where
  "update_running_payload uid job_id owner payload now do_commit s =
     (let (s1, n) = update_jobs (\<lambda>j. held_now uid job_id owner now j \<and> kj_cancel_requested_at j = None)
            (\<lambda>j. j\<lparr>kj_payload := payload, kj_updated_at := now\<rparr>) s
      in if n \<noteq> 1 then (s1, None)
         else (commit_if do_commit s1, job_get_by_id uid job_id (cur s1)))"

definition list_terminal_by_operation :: "job_operation \<Rightarrow> int \<Rightarrow> knowledge_db \<Rightarrow> knowledge_job list" where
  "list_terminal_by_operation op limit d =
     (if limit \<le> 0 then []
      else take (nat (min limit 1000))
        (newest_first (\<lambda>j. case kj_finished_at j of None \<Rightarrow> 0 | Some f \<Rightarrow> f)
          (filter (\<lambda>j. kj_operation j = op \<and> kj_status j \<in> TERMINAL_STATUSES) (kd_jobs d))))"

definition claimable :: "int \<Rightarrow> knowledge_db \<Rightarrow> knowledge_job \<Rightarrow> bool" where
  "claimable now d j \<longleftrightarrow> kj_status j \<in> {J_PENDING, J_RETRY} \<and> kj_available_at j \<le> now \<and>
     kj_cancel_requested_at j = None \<and> claim_dependency_condition d j"

definition list_claimable_for_worker ::
    "job_operation list \<Rightarrow> int list option \<Rightarrow> int \<Rightarrow> int \<Rightarrow> knowledge_db \<Rightarrow> knowledge_job list" where
  "list_claimable_for_worker ops parents limit now d =
     (let n = min (max limit 0) 100;
          parent_ids = map_option (filter (\<lambda>p. p > 0)) parents
      in if ops = [] \<or> n = 0 \<or> parent_ids = Some [] then []
         else take (nat n) (sort_key (\<lambda>j. (kj_available_at j, kj_id j))
           (filter (\<lambda>j. claimable now d j \<and> kj_operation j \<in> set ops \<and>
              (case parent_ids of None \<Rightarrow> True
               | Some ps \<Rightarrow> (case kj_parent_job_id j of None \<Rightarrow> False | Some p \<Rightarrow> p \<in> set ps))) (kd_jobs d))))"

definition job_try_claim ::
    "string \<Rightarrow> int \<Rightarrow> string option \<Rightarrow> string option \<Rightarrow> int \<Rightarrow> job_operation list option \<Rightarrow> int \<Rightarrow> bool \<Rightarrow>
     knowledge_db dbsession \<Rightarrow> knowledge_db dbsession \<times> (py_error + knowledge_job option)" where
  "job_try_claim uid job_id owner worker_id lease_seconds ops now do_commit s =
     (case resolve_owner owner worker_id of
        Inl e \<Rightarrow> (s, Inl e)
      | Inr w \<Rightarrow>
          if lease_seconds < 1 then (s, Inl (ValueError ''ERR_VALUE_MUST_BE_POSITIVE''))
          else if ops = Some [] then (s, Inr None)
          else (let (s1, n) = update_jobs
                   (\<lambda>j. is_job uid job_id j \<and> claimable now (cur s) j \<and>
                      (case ops of None \<Rightarrow> True | Some xs \<Rightarrow> kj_operation j \<in> set xs))
                   (\<lambda>j. (claimed_values w lease_seconds now j)\<lparr>kj_attempt_count := kj_attempt_count j + 1\<rparr>) s
                in (commit_if do_commit s1,
                    Inr (if n \<noteq> 1 then None else job_get_by_id uid job_id (cur s1)))))"

definition get_active_claim ::
    "string \<Rightarrow> int \<Rightarrow> string option \<Rightarrow> string option \<Rightarrow> int \<Rightarrow> knowledge_db \<Rightarrow> py_error + knowledge_job option" where
  "get_active_claim uid job_id owner worker_id now d =
     (case resolve_owner owner worker_id of
        Inl e \<Rightarrow> Inl e
      | Inr w \<Rightarrow> Inr (find (held_now uid job_id w now) (kd_jobs d)))"

definition job_renew_lease ::
    "string \<Rightarrow> int \<Rightarrow> string option \<Rightarrow> string option \<Rightarrow> int \<Rightarrow> int \<Rightarrow> bool \<Rightarrow> knowledge_db dbsession \<Rightarrow>
     knowledge_db dbsession \<times> (py_error + bool)" where
  "job_renew_lease uid job_id owner worker_id lease_seconds now do_commit s =
     (case resolve_owner owner worker_id of
        Inl e \<Rightarrow> (s, Inl e)
      | Inr w \<Rightarrow>
          if lease_seconds < 1 then (s, Inl (ValueError ''ERR_VALUE_MUST_BE_POSITIVE''))
          else (let (s1, n) = update_jobs
                   (\<lambda>j. held_now uid job_id w now j \<and> kj_cancel_requested_at j = None)
                   (\<lambda>j. j\<lparr>kj_lock_until := Some (now + lease_seconds), kj_updated_at := now\<rparr>) s
                in (commit_if do_commit s1, Inr (n = 1))))"

section \<open>Ends\<close>

definition clear_pending_reference ::
    "string \<Rightarrow> int \<Rightarrow> int \<Rightarrow> knowledge_db dbsession \<Rightarrow> knowledge_db dbsession" where
  "clear_pending_reference uid job_id updated_at =
     execute (\<lambda>d. d\<lparr>kd_items := sql_update (\<lambda>i. mi_uid i = uid \<and> mi_pending_job_id i = Some job_id)
       (\<lambda>i. i\<lparr>mi_pending_job_id := None, mi_updated_at := updated_at\<rparr>) (kd_items d)\<rparr>)"

definition unsuccessful_child :: "knowledge_db \<Rightarrow> knowledge_job \<Rightarrow> bool" where
  "unsuccessful_child d j \<longleftrightarrow> (\<exists>c\<in>set (kd_jobs d). kj_uid c = kj_uid j \<and>
     kj_parent_job_id c = Some (kj_id j) \<and> kj_status c \<noteq> J_SUCCEEDED)"

definition end_condition ::
    "string \<Rightarrow> int \<Rightarrow> string \<Rightarrow> job_status \<Rightarrow> int \<Rightarrow> knowledge_db \<Rightarrow> knowledge_job \<Rightarrow> bool" where
  "end_condition uid job_id owner status now d j \<longleftrightarrow> held_now uid job_id owner now j \<and>
     (status \<noteq> J_CANCELLED \<longrightarrow> kj_cancel_requested_at j = None) \<and>
     (status = J_SUCCEEDED \<longrightarrow> kj_operation j \<notin> ORGANIZATION_OPERATIONS \<or> \<not> unsuccessful_child d j)"

definition job_mark_terminal ::
    "job_status \<Rightarrow> json option \<Rightarrow> string option \<Rightarrow> string \<Rightarrow> int \<Rightarrow> string \<Rightarrow> int \<Rightarrow> bool \<Rightarrow>
     knowledge_db dbsession \<Rightarrow> knowledge_db dbsession \<times> bool" where
  "job_mark_terminal status result err uid job_id owner now do_commit s =
     (let (s1, n) = update_jobs (end_condition uid job_id owner status now (cur s))
            (\<lambda>j. j\<lparr>kj_status := status, kj_result := result, kj_error := err,
               kj_active_change_key := None, kj_locked_by := None, kj_lock_until := None,
               kj_finished_at := Some now, kj_updated_at := now\<rparr>) s;
          s2 = (if n = 1 \<and> status \<in> {J_FAILED, J_CANCELLED}
                then clear_pending_reference uid job_id now s1 else s1)
      in (commit_if do_commit s2, n = 1))"

definition job_mark_succeeded ::
    "json option \<Rightarrow> string \<Rightarrow> int \<Rightarrow> string \<Rightarrow> int \<Rightarrow> bool \<Rightarrow> knowledge_db dbsession \<Rightarrow>
     knowledge_db dbsession \<times> bool" where
  "job_mark_succeeded result = job_mark_terminal J_SUCCEEDED result None"

definition job_mark_failed ::
    "json option \<Rightarrow> string \<Rightarrow> string \<Rightarrow> int \<Rightarrow> string \<Rightarrow> int \<Rightarrow> bool \<Rightarrow> knowledge_db dbsession \<Rightarrow>
     knowledge_db dbsession \<times> bool" where
  "job_mark_failed result err = job_mark_terminal J_FAILED result (Some err)"

definition job_mark_cancelled ::
    "string option \<Rightarrow> string \<Rightarrow> int \<Rightarrow> string \<Rightarrow> int \<Rightarrow> bool \<Rightarrow> knowledge_db dbsession \<Rightarrow>
     knowledge_db dbsession \<times> bool" where
  "job_mark_cancelled err = job_mark_terminal J_CANCELLED None err"

text \<open>The job goes back to the queue after a delay.\<close>

definition back_to_queue :: "int \<Rightarrow> int \<Rightarrow> knowledge_job \<Rightarrow> knowledge_job" where
  "back_to_queue delay now j =
     j\<lparr>kj_status := J_RETRY, kj_available_at := now + max delay 0, kj_locked_by := None,
       kj_lock_until := None, kj_updated_at := now\<rparr>"

definition job_release_for_retry ::
    "string \<Rightarrow> int \<Rightarrow> string \<Rightarrow> string \<Rightarrow> int \<Rightarrow> int \<Rightarrow> bool \<Rightarrow> knowledge_db dbsession \<Rightarrow>
     knowledge_db dbsession \<times> bool" where
  "job_release_for_retry uid job_id owner err delay now do_commit s =
     (let (s1, n) = update_jobs (\<lambda>j. held_now uid job_id owner now j \<and> kj_cancel_requested_at j = None)
            (\<lambda>j. (back_to_queue delay now j)\<lparr>kj_error := Some err\<rparr>) s
      in (commit_if do_commit s1, n = 1))"

section \<open>Recovery\<close>

record job_recovery =
  jr_retried :: nat
  jr_failed :: nat
  jr_cancelled :: nat
  jr_terminal_jobs :: "(knowledge_job \<times> job_status \<times> string option) list"

definition next_status :: "knowledge_job \<Rightarrow> job_status" where
  "next_status j =
     (if is_system_cleanup_operation (kj_operation j) then J_RETRY
      else if kj_cancel_requested_at j \<noteq> None then J_CANCELLED
      else if is_organization_operation (kj_operation j) then J_FAILED
      else if kj_operation j = EMBEDDING_MIGRATION then J_RETRY
      else if kj_attempt_count j \<ge> kj_max_attempts j then J_FAILED
      else J_RETRY)"

definition recovered_values ::
    "int \<Rightarrow> int option \<Rightarrow> string option \<Rightarrow> int \<Rightarrow> knowledge_job \<Rightarrow> knowledge_job \<Rightarrow> knowledge_job" where
  "recovered_values delay cleanup_delay max_error now j r =
     (let cleanup = is_system_cleanup_operation (kj_operation j) in
      if next_status j = J_RETRY
      then (let back = back_to_queue (case cleanup_delay of Some c \<Rightarrow> if cleanup then c else delay
                                      | None \<Rightarrow> delay) now r
            in if cleanup then back\<lparr>kj_cancel_requested_at := None\<rparr> else back)
      else (let ended = r\<lparr>kj_status := next_status j, kj_locked_by := None, kj_lock_until := None,
                          kj_updated_at := now, kj_active_change_key := None, kj_finished_at := Some now\<rparr>
            in if next_status j = J_FAILED \<and> max_error \<noteq> None then ended\<lparr>kj_error := max_error\<rparr>
               else ended))"

definition still_held :: "knowledge_job \<Rightarrow> knowledge_job \<Rightarrow> bool" where
  "still_held j r \<longleftrightarrow> kj_id r = kj_id j \<and> kj_uid r = kj_uid j \<and> kj_status r = J_RUNNING \<and>
     kj_locked_by r = kj_locked_by j \<and> kj_lock_until r = kj_lock_until j \<and>
     (next_status j = J_CANCELLED \<or> is_system_cleanup_operation (kj_operation j) \<or>
      kj_cancel_requested_at r = None)"

definition count_recovery ::
    "string option \<Rightarrow> knowledge_job \<Rightarrow> job_recovery \<Rightarrow> job_recovery" where
  "count_recovery max_error j r =
     (if next_status j = J_RETRY then r\<lparr>jr_retried := jr_retried r + 1\<rparr>
      else if next_status j = J_FAILED
      then r\<lparr>jr_failed := jr_failed r + 1,
             jr_terminal_jobs := jr_terminal_jobs r @ [(j, J_FAILED, max_error)]\<rparr>
      else r\<lparr>jr_cancelled := jr_cancelled r + 1,
             jr_terminal_jobs := jr_terminal_jobs r @ [(j, J_CANCELLED, None)]\<rparr>)"

fun recover_jobs ::
    "int \<Rightarrow> int option \<Rightarrow> string option \<Rightarrow> int \<Rightarrow> knowledge_job list \<Rightarrow> knowledge_db dbsession \<Rightarrow>
     job_recovery \<Rightarrow> knowledge_db dbsession \<times> job_recovery" where
  "recover_jobs delay cleanup_delay max_error now [] s r = (s, r)"
| "recover_jobs delay cleanup_delay max_error now (j # js) s r =
     (if kj_locked_by j = None \<or> kj_locked_by j = Some [] \<or> kj_lock_until j = None
      then recover_jobs delay cleanup_delay max_error now js s r
      else (let (s1, n) = update_jobs (still_held j)
                   (recovered_values delay cleanup_delay max_error now j) s
            in if n \<noteq> 1 then recover_jobs delay cleanup_delay max_error now js s1 r
               else recover_jobs delay cleanup_delay max_error now js
                 (if next_status j \<in> TERMINAL_STATUSES
                  then clear_pending_reference (kj_uid j) (kj_id j) now s1 else s1)
                 (count_recovery max_error j r)))"

definition expired_job :: "int \<Rightarrow> knowledge_job \<Rightarrow> bool" where
  "expired_job now j \<longleftrightarrow> kj_status j = J_RUNNING \<and> null_lt (kj_lock_until j) now"

definition job_recover_expired ::
    "int \<Rightarrow> int option \<Rightarrow> string option \<Rightarrow> int \<Rightarrow> bool \<Rightarrow> knowledge_db dbsession \<Rightarrow>
     knowledge_db dbsession \<times> job_recovery" where
  "job_recover_expired delay cleanup_delay max_error now do_commit s =
     (let (s1, r) = recover_jobs delay cleanup_delay max_error now
            (filter (expired_job now) (kd_jobs (cur s))) s
            \<lparr>jr_retried = 0, jr_failed = 0, jr_cancelled = 0, jr_terminal_jobs = []\<rparr>
      in (commit_if do_commit s1, r))"

section \<open>Cancellation\<close>

record job_cancel_result =
  jc_job :: "knowledge_job option"
  jc_accepted :: bool
  jc_changed :: bool

definition refuse :: "knowledge_job option \<Rightarrow> job_cancel_result" where
  "refuse j = \<lparr>jc_job = j, jc_accepted = False, jc_changed = False\<rparr>"

definition not_cancellable :: "knowledge_job \<Rightarrow> bool" where
  "not_cancellable j \<longleftrightarrow> is_system_cleanup_operation (kj_operation j) \<or> kj_status j \<in> TERMINAL_STATUSES"

definition request_cancel_running ::
    "string \<Rightarrow> int \<Rightarrow> int \<Rightarrow> bool \<Rightarrow> knowledge_db dbsession \<Rightarrow> knowledge_db dbsession \<times> job_cancel_result" where
  "request_cancel_running uid job_id now do_commit s =
     (case job_lock_by_id uid job_id (cur s) of
        None \<Rightarrow> (s, refuse None)
      | Some j \<Rightarrow>
          if not_cancellable j \<or> kj_status j \<noteq> J_RUNNING then (s, refuse (Some j))
          else if kj_cancel_requested_at j \<noteq> None
          then (s, \<lparr>jc_job = Some j, jc_accepted = True, jc_changed = False\<rparr>)
          else (let (s1, n) = update_jobs (\<lambda>r. is_job uid job_id r \<and> kj_status r = J_RUNNING \<and>
                       kj_locked_by j \<noteq> None \<and> kj_locked_by r = kj_locked_by j \<and>
                       kj_lock_until j \<noteq> None \<and> kj_lock_until r = kj_lock_until j \<and>
                       kj_cancel_requested_at r = None)
                     (\<lambda>r. r\<lparr>kj_cancel_requested_at := Some now, kj_updated_at := now\<rparr>) s
                in if n = 1
                   then (commit_if do_commit s1,
                         \<lparr>jc_job = job_get_by_id uid job_id (cur s1), jc_accepted = True, jc_changed = True\<rparr>)
                   else (case job_lock_by_id uid job_id (cur s1) of
                           None \<Rightarrow> (s1, refuse None)
                         | Some c \<Rightarrow> (s1, if kj_status c = J_RUNNING \<and> kj_cancel_requested_at c \<noteq> None
                             then \<lparr>jc_job = Some c, jc_accepted = True, jc_changed = False\<rparr>
                             else refuse (Some c)))))"

definition request_cancel ::
    "string \<Rightarrow> int \<Rightarrow> int \<Rightarrow> int \<Rightarrow> bool \<Rightarrow> knowledge_db dbsession \<Rightarrow> knowledge_db dbsession \<times> job_cancel_result" where
  "request_cancel uid job_id now now2 do_commit s =
     (case job_lock_by_id uid job_id (cur s) of
        None \<Rightarrow> (s, refuse None)
      | Some j \<Rightarrow>
          if not_cancellable j then (s, refuse (Some j))
          else (let (s1, n) = update_jobs (\<lambda>r. is_job uid job_id r \<and> kj_status r \<in> {J_PENDING, J_RETRY})
                     (\<lambda>r. r\<lparr>kj_status := J_CANCELLED, kj_active_change_key := None,
                        kj_cancel_requested_at := Some now, kj_locked_by := None, kj_lock_until := None,
                        kj_finished_at := Some now, kj_updated_at := now\<rparr>) s
                in if n = 1
                   then (let s2 = clear_pending_reference uid job_id now s1 in
                         (commit_if do_commit s2,
                          \<lparr>jc_job = job_get_by_id uid job_id (cur s2), jc_accepted = True, jc_changed = True\<rparr>))
                   else request_cancel_running uid job_id now2 do_commit s1))"

section \<open>Shutdown\<close>

definition release_claim_for_shutdown ::
    "string \<Rightarrow> int \<Rightarrow> string \<Rightarrow> int \<Rightarrow> string \<Rightarrow> int \<Rightarrow> bool \<Rightarrow> knowledge_db dbsession \<Rightarrow>
     knowledge_db dbsession \<times> bool" where
  "release_claim_for_shutdown uid job_id owner delay max_error now do_commit s =
     (case job_get_by_id uid job_id (cur s) of
        None \<Rightarrow> (s, False)
      | Some j \<Rightarrow>
          if kj_status j \<noteq> J_RUNNING \<or> kj_locked_by j \<noteq> Some owner then (s, False)
          else if is_system_cleanup_operation (kj_operation j) \<and>
               \<not> (kj_operation j = MANAGED_DELETE_CLEANUP \<and> kj_parent_job_id j \<noteq> None \<and>
                  kj_cancel_requested_at j \<noteq> None) \<or>
             kj_operation j = EMBEDDING_MIGRATION \<and> kj_cancel_requested_at j = None
          then (let (s1, n) = update_jobs (held uid job_id owner)
                     (\<lambda>r. (back_to_queue delay now r)\<lparr>kj_cancel_requested_at := None\<rparr>) s
                in (commit_if do_commit s1, n = 1))
          else if kj_cancel_requested_at j \<noteq> None
          then job_mark_cancelled None uid job_id owner now do_commit s
          else if is_organization_operation (kj_operation j) \<or> kj_attempt_count j \<ge> kj_max_attempts j
          then job_mark_failed None max_error uid job_id owner now do_commit s
          else (let (s1, n) = update_jobs (\<lambda>r. held uid job_id owner r \<and> kj_cancel_requested_at r = None)
                     (back_to_queue delay now) s
                in (commit_if do_commit s1, n = 1)))"

end
