(* ===== verification/Knowledge_Laws.thy ===== *)
theory Knowledge_Laws
  imports Knowledge_Jobs Lease_Interface
begin

text \<open>
  The laws of the knowledge job queue: every operation keeps the tables well formed and moves jobs
  along their life cycle only, a claimed job is left alone by everybody else until its deadline, a
  child runs only under a live parent and an organisation run succeeds only with all its children,
  and recovery is one bulk update.
\<close>

section \<open>Operations\<close>

text \<open>Every state-changing operation of the queue, with the clock readings it makes.\<close>

datatype job_op =
    Op_create knowledge_job
  | Op_create_claimed knowledge_job "string option" "string option" int int
  | Op_delete_unstarted string int
  | Op_set_target string int int int
  | Op_payload string int string json int
  | Op_claim string int "string option" "string option" int "job_operation list option" int
  | Op_renew string int "string option" "string option" int int
  | Op_finish job_status "json option" "string option" string int string int
  | Op_retry string int string string int int
  | Op_recover int "int option" "string option" int
  | Op_cancel string int int int
  | Op_shutdown string int string int string int

fun run_op :: "bool \<Rightarrow> job_op \<Rightarrow> knowledge_db dbsession \<Rightarrow> knowledge_db dbsession" where
  "run_op b (Op_create j) s = fst (job_create j b s)"
| "run_op b (Op_create_claimed j ow wk secs now) s = fst (job_create_claimed j ow wk secs now b s)"
| "run_op b (Op_delete_unstarted uid k) s = fst (delete_unstarted uid k b s)"
| "run_op b (Op_set_target uid k item ver) s = fst (set_target uid k item ver b s)"
| "run_op b (Op_payload uid k w p now) s = fst (update_running_payload uid k w p now b s)"
| "run_op b (Op_claim uid k ow wk secs ops now) s = fst (job_try_claim uid k ow wk secs ops now b s)"
| "run_op b (Op_renew uid k ow wk secs now) s = fst (job_renew_lease uid k ow wk secs now b s)"
| "run_op b (Op_finish st res err uid k w now) s = fst (job_mark_terminal st res err uid k w now b s)"
| "run_op b (Op_retry uid k w err delay now) s = fst (job_release_for_retry uid k w err delay now b s)"
| "run_op b (Op_recover delay cl err now) s = fst (job_recover_expired delay cl err now b s)"
| "run_op b (Op_cancel uid k now now2) s = fst (request_cancel uid k now now2 b s)"
| "run_op b (Op_shutdown uid k w delay err now) s = fst (release_claim_for_shutdown uid k w delay err now b s)"

section \<open>The life cycle of a job\<close>

definition core :: "knowledge_job \<Rightarrow> int \<times> string \<times> int option \<times> job_operation \<times> string \<times> string \<times> int \<times> int" where
  "core j = (kj_id j, kj_uid j, kj_parent_job_id j, kj_operation j, kj_dedupe_key j,
     kj_request_hash j, kj_knowledge_base_id j, kj_max_attempts j)"

definition life :: "(job_status \<times> job_status) set" where
  "life = {(J_PENDING, J_PENDING), (J_PENDING, J_RUNNING), (J_PENDING, J_CANCELLED),
     (J_RETRY, J_RETRY), (J_RETRY, J_RUNNING), (J_RETRY, J_CANCELLED), (J_RUNNING, J_RUNNING),
     (J_RUNNING, J_RETRY), (J_RUNNING, J_SUCCEEDED), (J_RUNNING, J_FAILED), (J_RUNNING, J_CANCELLED)}"

definition job_step :: "knowledge_job \<Rightarrow> knowledge_job \<Rightarrow> bool" where
  "job_step j j' \<longleftrightarrow> j' = j \<or>
     (core j' = core j \<and> (kj_status j, kj_status j') \<in> life \<and>
      kj_attempt_count j' = kj_attempt_count j +
        (if kj_status j \<noteq> J_RUNNING \<and> kj_status j' = J_RUNNING then 1 else 0) \<and>
      (kj_active_change_key j' = kj_active_change_key j \<or> kj_active_change_key j' = None))"

lemma job_step_refl [simp]: "job_step j j"
  by (simp add: job_step_def)

lemma job_step_core: "job_step j j' \<Longrightarrow> core j' = core j"
  by (auto simp: job_step_def)

lemma job_step_terminal: "job_step j j' \<Longrightarrow> kj_status j \<in> TERMINAL_STATUSES \<Longrightarrow> j' = j"
  by (auto simp: job_step_def life_def TERMINAL_STATUSES_def)

text \<open>A well-formed job, and the well-formed tables.\<close>

definition job_ok :: "knowledge_job \<Rightarrow> bool" where
  "job_ok j \<longleftrightarrow>
     (if kj_status j = J_RUNNING
      then kj_locked_by j \<noteq> None \<and> kj_locked_by j \<noteq> Some [] \<and> kj_lock_until j \<noteq> None \<and> kj_started_at j \<noteq> None
      else kj_locked_by j = None \<and> kj_lock_until j = None) \<and>
     (if kj_status j \<in> TERMINAL_STATUSES
      then kj_active_change_key j = None \<and> kj_finished_at j \<noteq> None
      else kj_finished_at j = None)"

definition refs_ok :: "knowledge_job list \<Rightarrow> managed_item list \<Rightarrow> bool" where
  "refs_ok js items \<longleftrightarrow> (\<forall>i\<in>set items. \<forall>j\<in>set js.
     mi_uid i = kj_uid j \<and> mi_pending_job_id i = Some (kj_id j) \<longrightarrow> kj_status j \<notin> {J_FAILED, J_CANCELLED})"

definition keys_ok :: "knowledge_job list \<Rightarrow> bool" where
  "keys_ok js \<longleftrightarrow> distinct (map kj_id js) \<and> distinct (map (\<lambda>j. (kj_uid j, kj_dedupe_key j)) js) \<and>
     distinct (map (\<lambda>j. (kj_uid j, kj_active_change_key j)) (filter (\<lambda>j. kj_active_change_key j \<noteq> None) js))"

definition kdb_ok :: "knowledge_db \<Rightarrow> bool" where
  "kdb_ok d \<longleftrightarrow> keys_ok (kd_jobs d) \<and> (\<forall>j\<in>set (kd_jobs d). job_ok j) \<and> refs_ok (kd_jobs d) (kd_items d)"

text \<open>What the program passes to the creation: a job that has not run.\<close>

definition new_job :: "knowledge_job \<Rightarrow> bool" where
  "new_job j \<longleftrightarrow> kj_status j = J_PENDING \<and> kj_locked_by j = None \<and> kj_lock_until j = None \<and>
     kj_finished_at j = None \<and> kj_cancel_requested_at j = None"

fun legal_op :: "job_op \<Rightarrow> bool" where
  "legal_op (Op_create j) = new_job j"
| "legal_op (Op_create_claimed j ow wk secs now) = new_job j"
| "legal_op (Op_finish st res err uid k w now) = (st \<in> TERMINAL_STATUSES)"
| "legal_op _ = True"

section \<open>Updates of one job\<close>

lemma update_jobs_fields [simp]:
  "kd_jobs (cur (fst (update_jobs p f s))) = sql_update p f (kd_jobs (cur s))"
  "kd_items (cur (fst (update_jobs p f s))) = kd_items (cur s)"
  "kd_bases (cur (fst (update_jobs p f s))) = kd_bases (cur s)"
  "snd (update_jobs p f s) = rowcount p (kd_jobs (cur s))"
  by (simp_all add: update_jobs_def)

lemma clear_pending_fields [simp]:
  "kd_jobs (cur (clear_pending_reference uid k now s)) = kd_jobs (cur s)"
  "kd_items (cur (clear_pending_reference uid k now s)) =
     sql_update (\<lambda>i. mi_uid i = uid \<and> mi_pending_job_id i = Some k)
       (\<lambda>i. i\<lparr>mi_pending_job_id := None, mi_updated_at := now\<rparr>) (kd_items (cur s))"
  by (simp_all add: clear_pending_reference_def)

lemma keys_update:
  assumes "keys_ok js" and "\<And>j. j \<in> set js \<Longrightarrow> p j \<Longrightarrow> job_step j (f j)"
  shows "keys_ok (sql_update p f js)"
proof -
  let ?g = "\<lambda>j. if p j then f j else j"
  have step: "job_step j (?g j)" if "j \<in> set js" for j using assms(2) that by simp
  have core_eq: "core (?g j) = core j" if "j \<in> set js" for j using step [OF that] by (rule job_step_core)
  have ids: "map kj_id (map ?g js) = map kj_id js"
    "map (\<lambda>j. (kj_uid j, kj_dedupe_key j)) (map ?g js) = map (\<lambda>j. (kj_uid j, kj_dedupe_key j)) js"
    unfolding map_map by (rule map_cong [OF refl], use core_eq in \<open>force simp: core_def\<close>)+
  have act: "kj_active_change_key (?g j) = kj_active_change_key j \<or> kj_active_change_key (?g j) = None"
    if "j \<in> set js" for j
    using step [OF that] by (auto simp: job_step_def)
  have uid: "kj_uid (?g j) = kj_uid j" if "j \<in> set js" for j
    using core_eq [OF that] by (auto simp: core_def)
  have "distinct (map (\<lambda>j. (kj_uid j, kj_active_change_key j)) (filter (\<lambda>j. kj_active_change_key j \<noteq> None) (map ?g xs))) \<and>
    set (map (\<lambda>j. (kj_uid j, kj_active_change_key j)) (filter (\<lambda>j. kj_active_change_key j \<noteq> None) (map ?g xs))) \<subseteq>
    set (map (\<lambda>j. (kj_uid j, kj_active_change_key j)) (filter (\<lambda>j. kj_active_change_key j \<noteq> None) xs))"
    if "set xs \<subseteq> set js"
      "distinct (map (\<lambda>j. (kj_uid j, kj_active_change_key j)) (filter (\<lambda>j. kj_active_change_key j \<noteq> None) xs))" for xs
    using that
  proof (induction xs)
    case (Cons x xs)
    have x: "x \<in> set js" using Cons.prems(1) by simp
    have d: "distinct (map (\<lambda>j. (kj_uid j, kj_active_change_key j)) (filter (\<lambda>j. kj_active_change_key j \<noteq> None) xs))"
      using Cons.prems(2) by (auto split: if_splits)
    note ih = Cons.IH [OF _ d]
    have ih1: "distinct (map (\<lambda>j. (kj_uid j, kj_active_change_key j)) (filter (\<lambda>j. kj_active_change_key j \<noteq> None) (map ?g xs)))"
      and ih2: "set (map (\<lambda>j. (kj_uid j, kj_active_change_key j)) (filter (\<lambda>j. kj_active_change_key j \<noteq> None) (map ?g xs))) \<subseteq>
        set (map (\<lambda>j. (kj_uid j, kj_active_change_key j)) (filter (\<lambda>j. kj_active_change_key j \<noteq> None) xs))"
      using ih Cons.prems(1) by simp_all
    show ?case
    proof (cases "kj_active_change_key (?g x) = None")
      case True
      then show ?thesis using ih1 ih2 by (simp only: list.map filter.simps simp_thms if_False) auto
    next
      case False
      then have same: "kj_active_change_key (?g x) = kj_active_change_key x" "kj_uid (?g x) = kj_uid x"
        using act [OF x] uid [OF x] by auto
      have nin: "(kj_uid x, kj_active_change_key x) \<notin>
          set (map (\<lambda>j. (kj_uid j, kj_active_change_key j)) (filter (\<lambda>j. kj_active_change_key j \<noteq> None) xs))"
        using Cons.prems(2) False same(1) by simp
      then have "(kj_uid (?g x), kj_active_change_key (?g x)) \<notin>
          set (map (\<lambda>j. (kj_uid j, kj_active_change_key j)) (filter (\<lambda>j. kj_active_change_key j \<noteq> None) (map ?g xs)))"
        unfolding same by (rule contra_subsetD [OF ih2])
      then show ?thesis
        using ih1 ih2 False same by (simp only: list.map filter.simps if_True simp_thms distinct.simps list.set) auto
    qed
  qed simp
  then show ?thesis using assms(1) ids unfolding keys_ok_def sql_update_def
    by (metis (no_types, lifting) order_refl)
qed


lemma kdb_okD:
  assumes "kdb_ok d"
  shows "distinct (map kj_id (kd_jobs d))" "j \<in> set (kd_jobs d) \<Longrightarrow> job_ok j"
    "refs_ok (kd_jobs d) (kd_items d)" "keys_ok (kd_jobs d)"
  using assms by (auto simp: kdb_ok_def keys_ok_def)

lemma core_id: "core j' = core j \<Longrightarrow> kj_id j' = kj_id j \<and> kj_uid j' = kj_uid j"
  by (simp add: core_def)

lemma refs_update:
  assumes "refs_ok js items" and "\<And>j. j \<in> set js \<Longrightarrow> p j \<Longrightarrow> core (f j) = core j"
    and "\<And>j. j \<in> set js \<Longrightarrow> p j \<Longrightarrow> kj_status (f j) \<in> {J_FAILED, J_CANCELLED} \<Longrightarrow>
      \<forall>i\<in>set items'. \<not> (mi_uid i = kj_uid j \<and> mi_pending_job_id i = Some (kj_id j))"
    and "\<And>i'. i' \<in> set items' \<Longrightarrow> mi_pending_job_id i' = None \<or>
      (\<exists>i\<in>set items. mi_uid i = mi_uid i' \<and> mi_pending_job_id i = mi_pending_job_id i')"
  shows "refs_ok (sql_update p f js) items'"
  unfolding refs_ok_def
proof (intro ballI impI)
  fix i j' assume i: "i \<in> set items'" and j': "j' \<in> set (sql_update p f js)"
    and eq: "mi_uid i = kj_uid j' \<and> mi_pending_job_id i = Some (kj_id j')"
  obtain i0 where i0: "i0 \<in> set items" "mi_uid i0 = mi_uid i" "mi_pending_job_id i0 = mi_pending_job_id i"
    using assms(4) [OF i] eq by auto
  obtain j where j: "j \<in> set js" "j' = (if p j then f j else j)"
    using j' by (auto simp: sql_update_def)
  show "kj_status j' \<notin> {J_FAILED, J_CANCELLED}"
  proof (cases "p j")
    case True
    then have "kj_id j' = kj_id j" "kj_uid j' = kj_uid j"
      using j assms(2) [OF j(1) True] by (auto dest: core_id)
    then show ?thesis using assms(3) [OF j(1) True] i eq j(2) True by auto
  next
    case False
    then show ?thesis using j eq i0 assms(1) by (auto simp: refs_ok_def)
  qed
qed

text \<open>The pending references of the ended jobs are cleared.\<close>

definition cleared :: "int \<Rightarrow> (managed_item \<Rightarrow> bool) \<Rightarrow> managed_item list \<Rightarrow> managed_item list" where
  "cleared now q items = sql_update q (\<lambda>i. i\<lparr>mi_pending_job_id := None, mi_updated_at := now\<rparr>) items"

lemma cleared_refs:
  "i' \<in> set (cleared now q items) \<Longrightarrow> mi_pending_job_id i' = None \<or>
     (i' \<in> set items \<and> \<not> q i')"
  by (auto simp: cleared_def sql_update_def split: if_splits)

lemma kdb_ok_update:
  assumes "kdb_ok d"
    and "\<And>j. j \<in> set (kd_jobs d) \<Longrightarrow> p j \<Longrightarrow> job_step j (f j) \<and> job_ok (f j)"
    and "\<And>j i. j \<in> set (kd_jobs d) \<Longrightarrow> p j \<Longrightarrow> kj_status (f j) \<in> {J_FAILED, J_CANCELLED} \<Longrightarrow>
      mi_uid i = kj_uid j \<Longrightarrow> mi_pending_job_id i = Some (kj_id j) \<Longrightarrow> q i"
  shows "kdb_ok (d\<lparr>kd_jobs := sql_update p f (kd_jobs d), kd_items := cleared now q (kd_items d)\<rparr>)"
proof -
  note d = kdb_okD [OF assms(1)]
  have keys: "keys_ok (sql_update p f (kd_jobs d))"
    by (rule keys_update [OF d(4)]) (use assms(2) in blast)
  have ok: "\<forall>j\<in>set (sql_update p f (kd_jobs d)). job_ok j"
    using assms(2) d(2) by (auto simp: sql_update_def)
  have refs: "refs_ok (sql_update p f (kd_jobs d)) (cleared now q (kd_items d))"
  proof (rule refs_update [OF d(3)])
    fix j assume j: "j \<in> set (kd_jobs d)" "p j"
    then show "core (f j) = core j" using assms(2) job_step_core by blast
    assume "kj_status (f j) \<in> {J_FAILED, J_CANCELLED}"
    then show "\<forall>i\<in>set (cleared now q (kd_items d)).
        \<not> (mi_uid i = kj_uid j \<and> mi_pending_job_id i = Some (kj_id j))"
      using assms(3) [OF j] by (auto dest!: cleared_refs)
  next
    fix i' assume "i' \<in> set (cleared now q (kd_items d))"
    then show "mi_pending_job_id i' = None \<or>
        (\<exists>i\<in>set (kd_items d). mi_uid i = mi_uid i' \<and> mi_pending_job_id i = mi_pending_job_id i')"
      by (auto dest!: cleared_refs)
  qed
  show ?thesis using keys ok refs by (simp add: kdb_ok_def)
qed

lemma cleared_nothing [simp]: "cleared now (\<lambda>i. False) items = items"
  by (simp add: cleared_def sql_update_def)

lemma cur_update_jobs: "cur (fst (update_jobs p f s)) = (cur s)\<lparr>kd_jobs := sql_update p f (kd_jobs (cur s))\<rparr>"
  by (simp add: update_jobs_def)

lemma cur_clear_pending: "cur (clear_pending_reference uid k now s) =
    (cur s)\<lparr>kd_items := cleared now (\<lambda>i. mi_uid i = uid \<and> mi_pending_job_id i = Some k) (kd_items (cur s))\<rparr>"
  by (simp add: clear_pending_reference_def cleared_def)

text \<open>An organisation run succeeds only when all its children have.\<close>

definition fair_end :: "knowledge_db \<Rightarrow> knowledge_job \<Rightarrow> knowledge_job \<Rightarrow> bool" where
  "fair_end d j j' \<longleftrightarrow> (kj_status j' = J_SUCCEEDED \<and> kj_status j \<noteq> J_SUCCEEDED \<and>
     kj_operation j \<in> ORGANIZATION_OPERATIONS \<longrightarrow> \<not> unsuccessful_child d j)"

lemma fair_end_simps [simp]:
  "kj_status j' \<noteq> J_SUCCEEDED \<Longrightarrow> fair_end d j j'" "kj_status j' = kj_status j \<Longrightarrow> fair_end d j j'"
  by (auto simp: fair_end_def)

lemma stays: "j \<in> set js \<Longrightarrow> \<exists>i\<in>set js. job_step i j \<and> fair_end d i j"
  by (rule bexI [of _ j]) simp_all

text \<open>What one operation makes of the job rows: each stays or moves one step, only jobs that have
  not started disappear, new rows have not run before.\<close>

definition rows_step :: "knowledge_db \<Rightarrow> knowledge_db \<Rightarrow> bool" where
  "rows_step d d' \<longleftrightarrow>
     (\<forall>j\<in>set (kd_jobs d). (\<exists>j'\<in>set (kd_jobs d'). job_step j j') \<or> kj_status j = J_PENDING \<and> kj_locked_by j = None) \<and>
     (\<forall>j'\<in>set (kd_jobs d'). (\<exists>j\<in>set (kd_jobs d). job_step j j' \<and> fair_end d j j') \<or>
        kj_id j' \<notin> kj_id ` set (kd_jobs d) \<and> kj_status j' \<in> {J_PENDING, J_RUNNING})"

lemma rows_step_update:
  assumes "\<And>j. j \<in> set (kd_jobs d) \<Longrightarrow> p j \<Longrightarrow> job_step j (f j) \<and> fair_end d j (f j)" and "kd_jobs d' = sql_update p f (kd_jobs d)"
  shows "rows_step d d'"
proof -
  have "job_step j (if p j then f j else j) \<and> fair_end d j (if p j then f j else j)" if "j \<in> set (kd_jobs d)" for j using assms(1) that by simp
  then show ?thesis unfolding rows_step_def assms(2) sql_update_def set_map by blast
qed

lemma rows_step_same: "kd_jobs d' = kd_jobs d \<Longrightarrow> rows_step d d'"
  using rows_step_update [of d "\<lambda>j. False" id d'] by (simp add: sql_update_def)

definition good_step :: "knowledge_db dbsession \<Rightarrow> knowledge_db dbsession \<Rightarrow> bool" where
  "good_step s s' \<longleftrightarrow> kdb_ok (cur s') \<and> rows_step (cur s) (cur s')"

lemma good_step_same: "kdb_ok (cur s) \<Longrightarrow> cur s' = cur s \<Longrightarrow> good_step s s'"
  by (simp add: good_step_def rows_step_same)

lemma good_step_update:
  assumes "kdb_ok (cur s)"
    and "\<And>j. j \<in> set (kd_jobs (cur s)) \<Longrightarrow> p j \<Longrightarrow> job_ok j \<Longrightarrow> job_step j (f j) \<and> job_ok (f j)"
    and "\<And>j. j \<in> set (kd_jobs (cur s)) \<Longrightarrow> p j \<Longrightarrow> kj_status (f j) \<notin> {J_FAILED, J_CANCELLED} \<and>
      fair_end (cur s) j (f j)"
    and "cur s' = cur (fst (update_jobs p f s))"
  shows "good_step s s'"
proof -
  have st: "job_step j (f j) \<and> job_ok (f j)" if "j \<in> set (kd_jobs (cur s))" "p j" for j
    using assms(2) that kdb_okD(2) [OF assms(1)] by blast
  have "kdb_ok ((cur s)\<lparr>kd_jobs := sql_update p f (kd_jobs (cur s)),
      kd_items := cleared 0 (\<lambda>i. False) (kd_items (cur s))\<rparr>)"
    by (rule kdb_ok_update [OF assms(1) st]) (use assms(3) in blast)+
  then have "kdb_ok (cur s')" by (simp add: assms(4) cur_update_jobs)
  moreover have "rows_step (cur s) (cur s')"
    by (rule rows_step_update [where p = p and f = f]) (use st assms(3,4) in simp_all)
  ultimately show ?thesis by (simp add: good_step_def)
qed

lemma good_step_end:
  assumes "kdb_ok (cur s)"
    and "\<And>j. j \<in> set (kd_jobs (cur s)) \<Longrightarrow> p j \<Longrightarrow> job_ok j \<Longrightarrow> job_step j (f j) \<and> job_ok (f j)"
    and "\<And>j. p j \<Longrightarrow> is_job uid k j \<and> kj_status (f j) \<noteq> J_SUCCEEDED"
    and "cur s' = cur (clear_pending_reference uid k now (fst (update_jobs p f s)))"
  shows "good_step s s'"
proof -
  have st: "job_step j (f j) \<and> job_ok (f j)" if "j \<in> set (kd_jobs (cur s))" "p j" for j
    using assms(2) that kdb_okD(2) [OF assms(1)] by blast
  have "kdb_ok ((cur s)\<lparr>kd_jobs := sql_update p f (kd_jobs (cur s)),
      kd_items := cleared now (\<lambda>i. mi_uid i = uid \<and> mi_pending_job_id i = Some k) (kd_items (cur s))\<rparr>)"
    by (rule kdb_ok_update [OF assms(1) st]) (use assms(3) in \<open>auto simp: is_job_def\<close>)
  then have "kdb_ok (cur s')" by (simp add: assms(4) cur_clear_pending cur_update_jobs)
  moreover have "rows_step (cur s) (cur s')"
    by (rule rows_step_update [where p = p and f = f]) (use st assms(3,4) in simp_all)
  ultimately show ?thesis by (simp add: good_step_def)
qed

lemma is_job_rowcount:
  assumes "kdb_ok (cur s)" and "\<And>j. p j \<Longrightarrow> is_job uid k j" and "rowcount p (kd_jobs (cur s)) \<noteq> 1"
  shows "cur (fst (update_jobs p f s)) = cur s"
proof -
  have "rowcount p (kd_jobs (cur s)) = 0"
    by (rule rowcount_key_cases [OF kdb_okD(1) [OF assms(1)] _ assms(3), of k]) (use assms(2) in \<open>auto simp: is_job_def\<close>)
  then show ?thesis by (simp add: cur_update_jobs sql_update_none)
qed


section \<open>Every operation is a good step\<close>

lemma insert_good_step:
  assumes "kdb_ok (cur s)" and "\<not> job_conflict (cur s) j" and "job_ok j"
    and "kj_status j \<in> {J_PENDING, J_RUNNING}" and "cur s' = cur (insert_job j s)"
  shows "good_step s s'"
proof -
  let ?js = "kd_jobs (cur s)"
  let ?j = "j\<lparr>kj_id := fresh_id kj_id ?js\<rparr>"
  have c: "cur s' = (cur s)\<lparr>kd_jobs := ?js @ [?j]\<rparr>" using assms(5) by (simp add: insert_job_def)
  have fresh: "fresh_id kj_id ?js \<notin> kj_id ` set ?js" by (rule fresh_id_not_in)
  have "keys_ok (?js @ [?j])"
    using kdb_okD(4) [OF assms(1)] assms(2) fresh by (auto simp: keys_ok_def job_conflict_def)
  moreover have "job_ok ?j" using assms(3) by (simp add: job_ok_def)
  moreover have "refs_ok (?js @ [?j]) (kd_items (cur s))"
    using kdb_okD(3) [OF assms(1)] assms(4) by (auto simp: refs_ok_def)
  ultimately have "kdb_ok (cur s')" using kdb_okD(2) [OF assms(1)] by (auto simp: c kdb_ok_def)
  moreover have "rows_step (cur s) (cur s')"
    using fresh assms(4) unfolding rows_step_def c by (auto simp: stays) (meson job_step_refl)+
  ultimately show ?thesis by (simp add: good_step_def)
qed

lemma create_good_step:
  assumes "kdb_ok (cur s)" "new_job j"
  shows "good_step s (fst (job_create j b s))"
proof (cases "\<not> job_valid j \<or> job_conflict (cur s) j")
  case True
  then have "cur (fst (job_create j b s)) = cur s" by (auto simp: job_create_def split: option.splits)
  then show ?thesis using assms(1) by (simp add: good_step_same)
next
  case False
  have "job_ok j" "kj_status j \<in> {J_PENDING, J_RUNNING}"
    using assms(2) by (auto simp: new_job_def job_ok_def TERMINAL_STATUSES_def)
  then show ?thesis using False assms(1)
    by (intro insert_good_step [of s j]) (simp_all add: job_create_def)
qed

lemma resolve_owner_named: "resolve_owner ow wk = Inr w \<Longrightarrow> w \<noteq> []"
  by (auto simp: resolve_owner_def blank_name_def Let_def split: if_splits option.splits)

lemma claimed_ok:
  assumes "w \<noteq> []" "kj_finished_at j = None"
  shows "job_ok ((claimed_values w secs now j)\<lparr>kj_attempt_count := n\<rparr>)"
  using assms by (simp add: job_ok_def claimed_values_def TERMINAL_STATUSES_def)

text \<open>A constraint that the unguarded insert violates rolls the session back, so the step is one
  from the last committed tables.\<close>

lemma create_claimed_good_step:
  assumes "kdb_ok (cur s)" "kdb_ok (saved s)" "new_job j"
  shows "kdb_ok (cur (fst (job_create_claimed j ow wk secs now b s)))"
    and "snd (job_create_claimed j ow wk secs now b s) \<noteq> Inl IntegrityError \<Longrightarrow>
      good_step s (fst (job_create_claimed j ow wk secs now b s))"
proof -
  let ?r = "job_create_claimed j ow wk secs now b s"
  have fin: "kj_finished_at j = None" using assms(3) by (simp add: new_job_def)
  have g: "good_step s (fst ?r) \<or> snd ?r = Inl IntegrityError \<and> cur (fst ?r) = saved s"
  proof (cases "resolve_owner ow wk")
    case (Inl e)
    then show ?thesis using assms(1) by (simp add: job_create_claimed_def good_step_same)
  next
    case (Inr w)
    let ?j = "(claimed_values w secs now j)\<lparr>kj_attempt_count := 1\<rparr>"
    have ok: "job_ok ?j" by (rule claimed_ok [OF resolve_owner_named [OF Inr] fin])
    consider (bad) "secs < 1 \<or> \<not> job_valid ?j" | (conflict) "\<not> secs < 1" "job_valid ?j" "job_conflict (cur s) ?j"
      | (fine) "\<not> secs < 1" "job_valid ?j" "\<not> job_conflict (cur s) ?j" by blast
    then show ?thesis
    proof cases
      case bad
      then have "cur (fst ?r) = cur s" using Inr by (auto simp: job_create_claimed_def Let_def)
      then show ?thesis using assms(1) by (simp add: good_step_same)
    next
      case conflict
      then show ?thesis using Inr by (simp add: job_create_claimed_def Let_def)
    next
      case fine
      then have "good_step s (fst ?r)"
        using Inr ok assms(1) fine
        by (intro insert_good_step [of s ?j]) (simp_all add: job_create_claimed_def Let_def claimed_values_def)
      then show ?thesis by simp
    qed
  qed
  then show "kdb_ok (cur (fst ?r))" using assms(2) by (auto simp: good_step_def)
  show "snd ?r \<noteq> Inl IntegrityError \<Longrightarrow> good_step s (fst ?r)" using g by blast
qed

lemma delete_good_step:
  assumes "kdb_ok (cur s)"
  shows "good_step s (fst (delete_unstarted uid k b s))"
proof -
  let ?js = "kd_jobs (cur s)"
  let ?js' = "sql_delete (job_unstarted uid k) ?js"
  have c: "cur (fst (delete_unstarted uid k b s)) = (cur s)\<lparr>kd_jobs := ?js'\<rparr>"
    by (simp add: delete_unstarted_def)
  have swap: "filter q (sql_delete r xs) = sql_delete r (filter q xs)" for q r and xs :: "knowledge_job list"
    by (induction xs) (simp_all add: sql_delete_def)
  have "keys_ok ?js'"
    using kdb_okD(4) [OF assms] unfolding keys_ok_def swap
    by (simp add: sql_delete_def distinct_map_filter del: filter_filter)
  then have "kdb_ok (cur (fst (delete_unstarted uid k b s)))"
    using kdb_okD [OF assms] by (auto simp: c kdb_ok_def refs_ok_def)
  moreover have "rows_step (cur s) ((cur s)\<lparr>kd_jobs := ?js'\<rparr>)"
    unfolding rows_step_def by (auto simp: job_unstarted_def stays)
  ultimately show ?thesis by (simp add: good_step_def c)
qed

lemma idle_step:
  assumes "job_ok j" "kj_status j \<notin> TERMINAL_STATUSES" "core j' = core j" "kj_status j' = kj_status j"
    "kj_attempt_count j' = kj_attempt_count j" "kj_active_change_key j' = kj_active_change_key j"
  shows "job_step j j'"
proof -
  have "(kj_status j, kj_status j) \<in> life"
    using assms(2) by (cases "kj_status j") (auto simp: life_def TERMINAL_STATUSES_def)
  then show ?thesis using assms by (simp add: job_step_def)
qed

lemma set_target_good_step:
  assumes "kdb_ok (cur s)"
  shows "good_step s (fst (set_target uid k item ver b s))"
proof (rule good_step_update [OF assms, of "job_unstarted uid k"
      "\<lambda>j. j\<lparr>kj_knowledge_id := Some item, kj_expected_version := Some ver\<rparr>"])
  show "cur (fst (set_target uid k item ver b s)) = cur (fst (update_jobs (job_unstarted uid k)
      (\<lambda>j. j\<lparr>kj_knowledge_id := Some item, kj_expected_version := Some ver\<rparr>) s))"
    by (simp add: set_target_def case_prod_beta)
qed (auto simp: job_unstarted_def job_ok_def core_def TERMINAL_STATUSES_def intro!: idle_step)

lemma payload_good_step:
  assumes "kdb_ok (cur s)"
  shows "good_step s (fst (update_running_payload uid k w p now b s))"
proof (rule good_step_update [OF assms, of "\<lambda>j. held_now uid k w now j \<and> kj_cancel_requested_at j = None"
      "\<lambda>j. j\<lparr>kj_payload := p, kj_updated_at := now\<rparr>"])
  show "cur (fst (update_running_payload uid k w p now b s)) =
      cur (fst (update_jobs (\<lambda>j. held_now uid k w now j \<and> kj_cancel_requested_at j = None)
        (\<lambda>j. j\<lparr>kj_payload := p, kj_updated_at := now\<rparr>) s))"
    by (simp add: update_running_payload_def case_prod_beta)
qed (auto simp: held_now_def held_def job_ok_def core_def TERMINAL_STATUSES_def intro!: idle_step)

lemma claim_good_step:
  assumes "kdb_ok (cur s)"
  shows "good_step s (fst (job_try_claim uid k ow wk secs ops now b s))"
proof (cases "resolve_owner ow wk")
  case (Inl e)
  then show ?thesis using assms by (simp add: job_try_claim_def good_step_same)
next
  case (Inr w)
  show ?thesis
  proof (cases "secs < 1 \<or> ops = Some []")
    case True
    then have "cur (fst (job_try_claim uid k ow wk secs ops now b s)) = cur s"
      using Inr by (auto simp: job_try_claim_def)
    then show ?thesis using assms by (simp add: good_step_same)
  next
    case False
    let ?p = "\<lambda>j. is_job uid k j \<and> claimable now (cur s) j \<and>
      (case ops of None \<Rightarrow> True | Some xs \<Rightarrow> kj_operation j \<in> set xs)"
    let ?f = "\<lambda>j. (claimed_values w secs now j)\<lparr>kj_attempt_count := kj_attempt_count j + 1\<rparr>"
    show ?thesis
    proof (rule good_step_update [OF assms, of ?p ?f])
      fix j assume j: "?p j" "job_ok j"
      then have "kj_finished_at j = None" by (auto simp: claimable_def job_ok_def TERMINAL_STATUSES_def)
      then have "job_ok (?f j)" by (rule claimed_ok [OF resolve_owner_named [OF Inr]])
      moreover have "job_step j (?f j)"
        using j by (auto simp: claimable_def job_step_def life_def core_def claimed_values_def)
      ultimately show "job_step j (?f j) \<and> job_ok (?f j)" by simp
    qed (use Inr False in \<open>auto simp: claimed_values_def job_try_claim_def case_prod_beta\<close>)
  qed
qed

lemma renew_good_step:
  assumes "kdb_ok (cur s)"
  shows "good_step s (fst (job_renew_lease uid k ow wk secs now b s))"
proof (cases "resolve_owner ow wk")
  case (Inl e)
  then show ?thesis using assms by (simp add: job_renew_lease_def good_step_same)
next
  case (Inr w)
  show ?thesis
  proof (cases "secs < 1")
    case True
    then show ?thesis using Inr assms by (simp add: job_renew_lease_def good_step_same)
  next
    case False
    show ?thesis
    proof (rule good_step_update [OF assms, of "\<lambda>j. held_now uid k w now j \<and> kj_cancel_requested_at j = None"
          "\<lambda>j. j\<lparr>kj_lock_until := Some (now + secs), kj_updated_at := now\<rparr>"])
      show "cur (fst (job_renew_lease uid k ow wk secs now b s)) =
          cur (fst (update_jobs (\<lambda>j. held_now uid k w now j \<and> kj_cancel_requested_at j = None)
            (\<lambda>j. j\<lparr>kj_lock_until := Some (now + secs), kj_updated_at := now\<rparr>) s))"
        using Inr False by (simp add: job_renew_lease_def case_prod_beta)
    qed (auto simp: held_now_def held_def job_ok_def core_def TERMINAL_STATUSES_def intro!: idle_step)
  qed
qed


lemma finish_good_step:
  assumes "kdb_ok (cur s)" "st \<in> TERMINAL_STATUSES"
  shows "good_step s (fst (job_mark_terminal st res err uid k w now b s))"
proof -
  let ?p = "end_condition uid k w st now (cur s)"
  let ?f = "\<lambda>j. j\<lparr>kj_status := st, kj_result := res, kj_error := err,
               kj_active_change_key := None, kj_locked_by := None, kj_lock_until := None,
               kj_finished_at := Some now, kj_updated_at := now\<rparr>"
  have run: "is_job uid k j" "kj_status j = J_RUNNING" if "?p j" for j
    using that by (auto simp: end_condition_def held_now_def held_def)
  have st: "job_step j (?f j) \<and> job_ok (?f j)" if "?p j" for j
    using run [OF that] assms(2)
    by (auto simp: job_step_def life_def core_def job_ok_def TERMINAL_STATUSES_def)
  show ?thesis
  proof (cases "rowcount ?p (kd_jobs (cur s)) = 1 \<and> st \<in> {J_FAILED, J_CANCELLED}")
    case True
    then show ?thesis
      by (intro good_step_end [OF assms(1), of ?p ?f uid k _ now])
        (use st run in \<open>auto simp: job_mark_terminal_def case_prod_beta Let_def\<close>)
  next
    case False
    show ?thesis
    proof (cases "rowcount ?p (kd_jobs (cur s)) = 1")
      case True
      then have "st = J_SUCCEEDED" using False assms(2) by (auto simp: TERMINAL_STATUSES_def)
      then show ?thesis
        by (intro good_step_update [OF assms(1), of ?p ?f])
          (use st in \<open>auto simp: job_mark_terminal_def case_prod_beta Let_def fair_end_def end_condition_def\<close>)
    next
      case none: False
      have "cur (fst (job_mark_terminal st res err uid k w now b s)) = cur s"
        using is_job_rowcount [OF assms(1) run(1) none, of ?f] none
        by (simp add: job_mark_terminal_def case_prod_beta Let_def)
      then show ?thesis using assms(1) by (simp add: good_step_same)
    qed
  qed
qed

lemma back_to_queue_step:
  assumes "job_ok j" "kj_status j = J_RUNNING"
  shows "job_step j (back_to_queue d now j)" "job_ok (back_to_queue d now j)"
    "job_step j ((back_to_queue d now j)\<lparr>kj_error := e\<rparr>)" "job_ok ((back_to_queue d now j)\<lparr>kj_error := e\<rparr>)"
    "job_step j ((back_to_queue d now j)\<lparr>kj_cancel_requested_at := c\<rparr>)"
    "job_ok ((back_to_queue d now j)\<lparr>kj_cancel_requested_at := c\<rparr>)"
  using assms by (auto simp: back_to_queue_def job_step_def life_def core_def job_ok_def TERMINAL_STATUSES_def)

lemma back_to_queue_status [simp]: "kj_status (back_to_queue d now j) = J_RETRY"
  by (simp add: back_to_queue_def)

lemma retry_good_step:
  assumes "kdb_ok (cur s)"
  shows "good_step s (fst (job_release_for_retry uid k w err delay now b s))"
proof (rule good_step_update [OF assms, of "\<lambda>j. held_now uid k w now j \<and> kj_cancel_requested_at j = None"
      "\<lambda>j. (back_to_queue delay now j)\<lparr>kj_error := Some err\<rparr>"])
  show "cur (fst (job_release_for_retry uid k w err delay now b s)) =
      cur (fst (update_jobs (\<lambda>j. held_now uid k w now j \<and> kj_cancel_requested_at j = None)
        (\<lambda>j. (back_to_queue delay now j)\<lparr>kj_error := Some err\<rparr>) s))"
    by (simp add: job_release_for_retry_def case_prod_beta)
qed (auto simp: held_now_def held_def intro: back_to_queue_step)

text \<open>What a cancellation and a shutdown do to the tables, case by case.\<close>

lemma cancel_running_cases:
  obtains (same) "cur (fst (request_cancel_running uid k now b s)) = cur s"
    | (mark) p where "cur (fst (request_cancel_running uid k now b s)) =
        cur (fst (update_jobs p (\<lambda>r. r\<lparr>kj_cancel_requested_at := Some now, kj_updated_at := now\<rparr>) s))"
      "\<And>r. p r \<Longrightarrow> is_job uid k r \<and> kj_status r = J_RUNNING"
proof (cases "job_lock_by_id uid k (cur s)")
  case None
  then show thesis by (intro same) (simp add: request_cancel_running_def)
next
  case (Some j)
  define p where "p = (\<lambda>r. is_job uid k r \<and> kj_status r = J_RUNNING \<and> kj_locked_by j \<noteq> None \<and>
    kj_locked_by r = kj_locked_by j \<and> kj_lock_until j \<noteq> None \<and> kj_lock_until r = kj_lock_until j \<and>
    kj_cancel_requested_at r = None)"
  define u where "u = update_jobs p (\<lambda>r. r\<lparr>kj_cancel_requested_at := Some now, kj_updated_at := now\<rparr>) s"
  have "fst (request_cancel_running uid k now b s) \<in> {s, fst u, commit_if b (fst u)}"
    unfolding request_cancel_running_def Some option.case p_def [symmetric] u_def [symmetric]
    by (simp add: case_prod_beta split: option.split)
  then have "cur (fst (request_cancel_running uid k now b s)) = cur s \<or>
      cur (fst (request_cancel_running uid k now b s)) = cur (fst u)" by auto
  then show thesis
  proof
    assume "cur (fst (request_cancel_running uid k now b s)) = cur (fst u)"
    then show thesis by (intro mark [of p]) (auto simp: u_def p_def)
  qed (rule same)
qed

lemma cancel_running_good_step:
  assumes "kdb_ok (cur s)"
  shows "good_step s (fst (request_cancel_running uid k now b s))"
proof (cases rule: cancel_running_cases [of uid k now b s])
  case same
  then show ?thesis using assms by (simp add: good_step_same)
next
  case (mark p)
  show ?thesis
    by (rule good_step_update [OF assms _ _ mark(1)])
      (use mark(2) in \<open>auto simp: job_ok_def core_def TERMINAL_STATUSES_def intro!: idle_step\<close>)
qed

definition cancelled_values :: "int \<Rightarrow> knowledge_job \<Rightarrow> knowledge_job" where
  "cancelled_values now r = r\<lparr>kj_status := J_CANCELLED, kj_active_change_key := None,
      kj_cancel_requested_at := Some now, kj_locked_by := None, kj_lock_until := None,
      kj_finished_at := Some now, kj_updated_at := now\<rparr>"

definition waiting_job :: "string \<Rightarrow> int \<Rightarrow> knowledge_job \<Rightarrow> bool" where
  "waiting_job uid k r \<longleftrightarrow> is_job uid k r \<and> kj_status r \<in> {J_PENDING, J_RETRY}"

lemma request_cancel_cases:
  assumes "kdb_ok (cur s)"
  obtains (same) "cur (fst (request_cancel uid k now now2 b s)) = cur s"
    | (waiting) "cur (fst (request_cancel uid k now now2 b s)) =
        cur (clear_pending_reference uid k now (fst (update_jobs (waiting_job uid k) (cancelled_values now) s)))"
    | (running) s' where "cur s' = cur s"
      "fst (request_cancel uid k now now2 b s) = fst (request_cancel_running uid k now2 b s')"
proof -
  let ?s1 = "fst (update_jobs (waiting_job uid k) (cancelled_values now) s)"
  have run: "request_cancel uid k now now2 b s = (case job_lock_by_id uid k (cur s) of
        None \<Rightarrow> (s, refuse None)
      | Some j \<Rightarrow> if not_cancellable j then (s, refuse (Some j))
          else if rowcount (waiting_job uid k) (kd_jobs (cur s)) = 1
          then (commit_if b (clear_pending_reference uid k now ?s1),
                \<lparr>jc_job = job_get_by_id uid k (cur (clear_pending_reference uid k now ?s1)),
                 jc_accepted = True, jc_changed = True\<rparr>)
          else request_cancel_running uid k now2 b ?s1)"
    unfolding request_cancel_def Let_def case_prod_beta waiting_job_def [symmetric] cancelled_values_def [symmetric]
    by (simp split: option.splits)
  show thesis
  proof (cases "job_lock_by_id uid k (cur s)")
    case None
    then show thesis by (intro same) (simp add: run)
  next
    case (Some j)
    show thesis
    proof (cases "not_cancellable j")
      case True
      then show thesis using Some by (intro same) (simp add: run)
    next
      case False
      note go = this
      show thesis
      proof (cases "rowcount (waiting_job uid k) (kd_jobs (cur s)) = 1")
        case True
        then show thesis using Some go by (intro waiting) (simp add: run)
      next
        case False
        have "cur ?s1 = cur s" by (rule is_job_rowcount [where uid = uid and k = k, OF assms _ False]) (simp add: waiting_job_def)
        then show thesis using Some go False by (intro running [of ?s1]) (simp_all add: run)
      qed
    qed
  qed
qed

lemma cancel_good_step:
  assumes "kdb_ok (cur s)"
  shows "good_step s (fst (request_cancel uid k now now2 b s))"
proof (cases rule: request_cancel_cases [OF assms, of uid k now now2 b])
  case 1
  then show ?thesis using assms by (simp add: good_step_same)
next
  case 2
  have "job_step j (cancelled_values now j) \<and> job_ok (cancelled_values now j)" if "waiting_job uid k j" for j
    using that by (auto simp: waiting_job_def cancelled_values_def job_step_def life_def core_def job_ok_def TERMINAL_STATUSES_def)
  then show ?thesis
    by (intro good_step_end [where uid = uid and k = k, OF assms _ _ 2]) (auto simp: waiting_job_def cancelled_values_def)
next
  case (3 s')
  then show ?thesis using cancel_running_good_step [of s' uid k now2 b] assms by (simp add: good_step_def)
qed

lemma shutdown_cases:
  fixes s :: "knowledge_db dbsession" and uid w err :: string and k delay now :: int and b :: bool
  defines "s' \<equiv> fst (release_claim_for_shutdown uid k w delay err now b s)"
  obtains (same) "cur s' = cur s"
    | (cleanup) "cur s' = cur (fst (update_jobs (held uid k w)
        (\<lambda>r. (back_to_queue delay now r)\<lparr>kj_cancel_requested_at := None\<rparr>) s))"
    | (finish) st e where "st \<in> {J_FAILED, J_CANCELLED}" "s' = fst (job_mark_terminal st None e uid k w now b s)"
    | (retry) "cur s' = cur (fst (update_jobs (\<lambda>r. held uid k w r \<and> kj_cancel_requested_at r = None)
        (back_to_queue delay now) s))"
proof (cases "job_get_by_id uid k (cur s)")
  case None
  then show thesis by (intro same) (simp add: s'_def release_claim_for_shutdown_def)
next
  case (Some j)
  have T: "J_CANCELLED \<in> {J_FAILED, J_CANCELLED}" "J_FAILED \<in> {J_FAILED, J_CANCELLED}" by simp_all
  let ?skip = "kj_status j \<noteq> J_RUNNING \<or> kj_locked_by j \<noteq> Some w"
  let ?clean = "is_system_cleanup_operation (kj_operation j) \<and>
      \<not> (kj_operation j = MANAGED_DELETE_CLEANUP \<and> kj_parent_job_id j \<noteq> None \<and> kj_cancel_requested_at j \<noteq> None) \<or>
    kj_operation j = EMBEDDING_MIGRATION \<and> kj_cancel_requested_at j = None"
  let ?fail = "is_organization_operation (kj_operation j) \<or> kj_attempt_count j \<ge> kj_max_attempts j"
  note run = release_claim_for_shutdown_def [of uid k w delay err now b s] Some option.case s'_def case_prod_beta
    Let_def job_mark_cancelled_def job_mark_failed_def
  show thesis
  proof (cases ?skip)
    case True
    show thesis by (intro same) (simp only: run if_True if_False if_P [OF True] fst_conv)
  next
    case go: False
    show thesis
    proof (cases ?clean)
      case True
      show thesis by (intro cleanup) (simp only: run if_True if_False if_not_P [OF go] if_P [OF True] fst_conv commit_if_fields)
    next
      case keep: False
      consider "kj_cancel_requested_at j \<noteq> None" | "kj_cancel_requested_at j = None" ?fail
        | "kj_cancel_requested_at j = None" "\<not> ?fail" by blast
      then show thesis
      proof cases
        case 1
        show thesis by (intro finish [OF T(1), of None]) (simp only: run if_True if_False if_not_P [OF go] if_not_P [OF keep] if_P [OF 1])
      next
        case 2
        then have c: "\<not> kj_cancel_requested_at j \<noteq> None" by simp
        show thesis by (intro finish [OF T(2), of "Some err"]) (simp only: run if_True if_False if_not_P [OF go] if_not_P [OF keep] if_not_P [OF c] if_P [OF 2(2)])
      next
        case 3
        then have c: "\<not> kj_cancel_requested_at j \<noteq> None" by simp
        show thesis by (intro retry) (simp only: run if_True if_False if_not_P [OF go] if_not_P [OF keep] if_not_P [OF c] if_not_P [OF 3(2)] fst_conv commit_if_fields)
      qed
    qed
  qed
qed

lemma shutdown_good_step:
  assumes "kdb_ok (cur s)"
  shows "good_step s (fst (release_claim_for_shutdown uid k w delay err now b s))"
proof (cases rule: shutdown_cases [of uid k w delay err now b s])
  case same
  then show ?thesis using assms by (simp add: good_step_same)
next
  case cleanup
  show ?thesis
    by (rule good_step_update [OF assms _ _ cleanup]) (auto simp: held_def intro: back_to_queue_step)
next
  case (finish st e)
  then have "st \<in> TERMINAL_STATUSES" by (auto simp: TERMINAL_STATUSES_def)
  then show ?thesis using finish_good_step [OF assms] finish(2) by simp
next
  case retry
  show ?thesis
    by (rule good_step_update [OF assms _ _ retry]) (auto simp: held_def intro: back_to_queue_step)
qed

section \<open>Recovery is one bulk update\<close>

definition recovered :: "int \<Rightarrow> int option \<Rightarrow> string option \<Rightarrow> int \<Rightarrow> knowledge_job \<Rightarrow> knowledge_job" where
  "recovered delay cl err now j = recovered_values delay cl err now j j"

definition ended_reference :: "knowledge_job list \<Rightarrow> managed_item \<Rightarrow> bool" where
  "ended_reference js i \<longleftrightarrow> (\<exists>j\<in>set js. next_status j \<in> TERMINAL_STATUSES \<and> mi_uid i = kj_uid j \<and>
     mi_pending_job_id i = Some (kj_id j))"

lemma cleared_twice:
  "cleared now q (cleared now p items) = cleared now (\<lambda>i. p i \<or> q i) items"
  if "\<And>i. p i \<Longrightarrow> \<not> q (i\<lparr>mi_pending_job_id := None, mi_updated_at := now\<rparr>)"
  using that by (auto simp: cleared_def sql_update_def)

lemma recover_jobs_bulk:
  assumes "distinct (map kj_id js)"
    and "\<forall>j\<in>set js. j \<in> set (kd_jobs (cur s)) \<and> kj_status j = J_RUNNING \<and> job_ok j"
    and "distinct (map kj_id (kd_jobs (cur s)))"
  shows "kd_jobs (cur (fst (recover_jobs delay cl err now js s r))) =
      map (\<lambda>j. if j \<in> set js then recovered delay cl err now j else j) (kd_jobs (cur s)) \<and>
    kd_items (cur (fst (recover_jobs delay cl err now js s r))) =
      cleared now (ended_reference js) (kd_items (cur s)) \<and>
    kd_bases (cur (fst (recover_jobs delay cl err now js s r))) = kd_bases (cur s) \<and>
    saved (fst (recover_jobs delay cl err now js s r)) = saved s \<and>
    snd (recover_jobs delay cl err now js s r) = fold (count_recovery err) js r"
  using assms
proof (induction js arbitrary: s r)
  case Nil
  then show ?case by (simp add: ended_reference_def)
next
  case (Cons j js)
  let ?rec = "recovered delay cl err now"
  have j: "j \<in> set (kd_jobs (cur s))" "kj_status j = J_RUNNING" "job_ok j" using Cons.prems(2) by auto
  have guard: "\<not> (kj_locked_by j = None \<or> kj_locked_by j = Some [] \<or> kj_lock_until j = None)"
    using j by (auto simp: job_ok_def)
  have self: "still_held j j"
    using j(2) by (auto simp: still_held_def next_status_def)
  have only: "still_held j q \<Longrightarrow> kj_id q = kj_id j" for q by (simp add: still_held_def)
  have upd: "sql_update (still_held j) (recovered_values delay cl err now j) (kd_jobs (cur s)) =
      map (\<lambda>q. if q = j then ?rec j else q) (kd_jobs (cur s))"
    using sql_update_one [where k = kj_id and p = "still_held j" and r = j, OF Cons.prems(3) j(1) self only]
    by (simp add: recovered_def)
  have n: "rowcount (still_held j) (kd_jobs (cur s)) = 1"
    using rowcount_key_eq_1 [where k = kj_id and p = "still_held j", OF Cons.prems(3) only] j(1) self by blast
  define s1 where "s1 = fst (update_jobs (still_held j) (recovered_values delay cl err now j) s)"
  define s2 where "s2 = (if next_status j \<in> TERMINAL_STATUSES
      then clear_pending_reference (kj_uid j) (kj_id j) now s1 else s1)"
  have jobs2: "kd_jobs (cur s2) = map (\<lambda>q. if q = j then ?rec j else q) (kd_jobs (cur s))"
    using upd by (simp add: s2_def s1_def)
  have items2: "kd_items (cur s2) = cleared now (\<lambda>i. next_status j \<in> TERMINAL_STATUSES \<and>
      mi_uid i = kj_uid j \<and> mi_pending_job_id i = Some (kj_id j)) (kd_items (cur s))"
    by (simp add: s2_def s1_def cleared_def sql_update_def)
  have rest2: "kd_bases (cur s2) = kd_bases (cur s)" "saved s2 = saved s"
    by (simp_all add: s2_def s1_def update_jobs_def clear_pending_reference_def)
  have idrec: "kj_id (?rec j) = kj_id j"
    by (simp add: recovered_def recovered_values_def back_to_queue_def Let_def)
  have dist2: "distinct (map kj_id (kd_jobs (cur s2)))"
  proof -
    have "map kj_id (kd_jobs (cur s2)) = map kj_id (kd_jobs (cur s))"
      unfolding jobs2 map_map using idrec by (intro map_cong refl) auto
    then show ?thesis using Cons.prems(3) by simp
  qed
  have other: "q \<noteq> j" if "q \<in> set js" for q using Cons.prems(1) that by auto
  have in2: "q \<in> set (kd_jobs (cur s2)) \<and> kj_status q = J_RUNNING \<and> job_ok q" if "q \<in> set js" for q
    using Cons.prems(2) that other [OF that] unfolding jobs2 by force
  have new: "?rec j \<notin> set js"
  proof
    assume "?rec j \<in> set js"
    then have "kj_id j \<in> kj_id ` set js" using idrec by (metis imageI)
    then show False using Cons.prems(1) by simp
  qed
  have run: "recover_jobs delay cl err now (j # js) s r =
      recover_jobs delay cl err now js s2 (count_recovery err j r)"
    unfolding recover_jobs.simps if_not_P [OF guard] using n by (simp add: Let_def case_prod_beta s2_def s1_def)
  have clr: "cleared now (ended_reference js) (kd_items (cur s2)) =
      cleared now (ended_reference (j # js)) (kd_items (cur s))"
  proof -
    have "ended_reference (j # js) = (\<lambda>i. (next_status j \<in> TERMINAL_STATUSES \<and> mi_uid i = kj_uid j \<and>
        mi_pending_job_id i = Some (kj_id j)) \<or> ended_reference js i)"
      by (auto simp: ended_reference_def fun_eq_iff)
    then show ?thesis unfolding items2 by (simp only:) (rule cleared_twice, simp add: ended_reference_def)
  qed
  have "map (\<lambda>q. if q \<in> set js then ?rec q else q) (map (\<lambda>q. if q = j then ?rec j else q) (kd_jobs (cur s))) =
      map (\<lambda>q. if q \<in> set (j # js) then ?rec q else q) (kd_jobs (cur s))"
    unfolding map_map using new other by (intro map_cong refl) auto
  then show ?case
    using Cons.IH [of s2 "count_recovery err j r"] Cons.prems(1) in2 dist2 rest2 clr
    by (simp add: run jobs2 del: recover_jobs.simps)
qed

lemma expired_rows:
  assumes "kdb_ok (cur s)"
  shows "distinct (map kj_id (filter (expired_job now) (kd_jobs (cur s))))"
    "\<forall>j\<in>set (filter (expired_job now) (kd_jobs (cur s))).
      j \<in> set (kd_jobs (cur s)) \<and> kj_status j = J_RUNNING \<and> job_ok j"
  using kdb_okD [OF assms] by (auto simp: distinct_map_filter expired_job_def)

lemma recover_expired_tables:
  assumes "kdb_ok (cur s)"
  shows "cur (fst (job_recover_expired delay cl err now b s)) =
    (cur s)\<lparr>kd_jobs := sql_update (expired_job now) (recovered delay cl err now) (kd_jobs (cur s)),
      kd_items := cleared now (ended_reference (filter (expired_job now) (kd_jobs (cur s)))) (kd_items (cur s))\<rparr>"
    and "snd (job_recover_expired delay cl err now b s) =
      fold (count_recovery err) (filter (expired_job now) (kd_jobs (cur s)))
        \<lparr>jr_retried = 0, jr_failed = 0, jr_cancelled = 0, jr_terminal_jobs = []\<rparr>"
proof -
  note bulk = recover_jobs_bulk [where js = "filter (expired_job now) (kd_jobs (cur s))" and s = s and delay = delay
      and cl = cl and err = err and now = now
      and r = "\<lparr>jr_retried = 0, jr_failed = 0, jr_cancelled = 0, jr_terminal_jobs = []\<rparr>",
      OF expired_rows(1) [OF assms] expired_rows(2) [OF assms] kdb_okD(1) [OF assms]]
  have run: "cur (fst (job_recover_expired delay cl err now b s)) =
      cur (fst (recover_jobs delay cl err now (filter (expired_job now) (kd_jobs (cur s))) s
        \<lparr>jr_retried = 0, jr_failed = 0, jr_cancelled = 0, jr_terminal_jobs = []\<rparr>))"
    by (simp add: job_recover_expired_def case_prod_beta)
  have rows: "map (\<lambda>j. if j \<in> set (filter (expired_job now) (kd_jobs (cur s))) then recovered delay cl err now j else j)
      (kd_jobs (cur s)) = sql_update (expired_job now) (recovered delay cl err now) (kd_jobs (cur s))"
    unfolding sql_update_def by (intro map_cong refl) auto
  show "cur (fst (job_recover_expired delay cl err now b s)) =
    (cur s)\<lparr>kd_jobs := sql_update (expired_job now) (recovered delay cl err now) (kd_jobs (cur s)),
      kd_items := cleared now (ended_reference (filter (expired_job now) (kd_jobs (cur s)))) (kd_items (cur s))\<rparr>"
    unfolding run
    by (rule knowledge_db.equality)
      (simp_all add: bulk [THEN conjunct1] bulk [THEN conjunct2, THEN conjunct1]
        bulk [THEN conjunct2, THEN conjunct2, THEN conjunct1] rows del: set_filter)
  show "snd (job_recover_expired delay cl err now b s) =
      fold (count_recovery err) (filter (expired_job now) (kd_jobs (cur s)))
        \<lparr>jr_retried = 0, jr_failed = 0, jr_cancelled = 0, jr_terminal_jobs = []\<rparr>"
    using bulk by (simp add: job_recover_expired_def case_prod_beta)
qed

lemma recovered_core: "core (recovered delay cl err now j) = core j"
  by (simp add: recovered_def recovered_values_def back_to_queue_def core_def Let_def)

lemma recovered_status: "kj_status (recovered delay cl err now j) = next_status j"
  by (auto simp: recovered_def recovered_values_def Let_def)

lemma next_status_range: "next_status j \<in> {J_RETRY, J_CANCELLED, J_FAILED}"
  by (simp add: next_status_def)

lemma recovered_fair [simp]: "fair_end d j (recovered delay cl err now j)"
  using next_status_range [of j] by (intro fair_end_simps(1)) (auto simp: recovered_status)

lemma recovered_step:
  assumes "job_ok j" "kj_status j = J_RUNNING"
  shows "job_step j (recovered delay cl err now j) \<and> job_ok (recovered delay cl err now j)"
proof (cases "next_status j = J_RETRY")
  case True
  have "kj_finished_at j = None" using assms by (simp add: job_ok_def TERMINAL_STATUSES_def)
  with True assms show ?thesis
    by (auto simp: recovered_def recovered_values_def back_to_queue_def Let_def job_step_def life_def core_def
        job_ok_def TERMINAL_STATUSES_def)
next
  case False
  then have "next_status j = J_CANCELLED \<or> next_status j = J_FAILED" using next_status_range [of j] by simp
  with assms show ?thesis
    by (auto simp: recovered_def recovered_values_def Let_def job_step_def life_def core_def
        job_ok_def TERMINAL_STATUSES_def)
qed

lemma recover_good_step:
  assumes "kdb_ok (cur s)"
  shows "good_step s (fst (job_recover_expired delay cl err now b s))"
proof -
  let ?s' = "fst (job_recover_expired delay cl err now b s)"
  have run: "kj_status j = J_RUNNING" if "expired_job now j" for j using that by (simp add: expired_job_def)
  have st: "job_step j (recovered delay cl err now j) \<and> job_ok (recovered delay cl err now j)"
    if "j \<in> set (kd_jobs (cur s))" "expired_job now j" for j
    using recovered_step [OF kdb_okD(2) [OF assms that(1)] run [OF that(2)]] .
  have "kdb_ok (cur ?s')"
    unfolding recover_expired_tables(1) [OF assms]
  proof (rule kdb_ok_update [OF assms st])
    fix j and i :: managed_item assume j: "j \<in> set (kd_jobs (cur s))" "expired_job now j"
      and st: "kj_status (recovered delay cl err now j) \<in> {J_FAILED, J_CANCELLED}"
      and i: "mi_uid i = kj_uid j" "mi_pending_job_id i = Some (kj_id j)"
    from st have "next_status j \<in> TERMINAL_STATUSES" by (auto simp: recovered_status TERMINAL_STATUSES_def)
    with j i show "ended_reference (filter (expired_job now) (kd_jobs (cur s))) i"
      unfolding ended_reference_def by auto
  qed
  moreover have "rows_step (cur s) (cur ?s')"
    by (rule rows_step_update [where p = "expired_job now"]) (use st recover_expired_tables(1) [OF assms] in auto)
  ultimately show ?thesis by (simp add: good_step_def)
qed

section \<open>The invariant of the queue\<close>

fun guarded_op :: "job_op \<Rightarrow> bool" where
  "guarded_op (Op_create_claimed j ow wk secs now) = False"
| "guarded_op _ = True"

lemma run_op_good_step:
  assumes "kdb_ok (cur s)" "legal_op op" "guarded_op op"
  shows "good_step s (run_op b op s)"
  using assms
  by (cases op) (simp_all add: create_good_step delete_good_step set_target_good_step payload_good_step claim_good_step
      renew_good_step finish_good_step retry_good_step recover_good_step cancel_good_step shutdown_good_step)

text \<open>The unguarded insert of a claimed job: a violated constraint leaves the last committed tables.\<close>

fun rolled_back :: "job_op \<Rightarrow> knowledge_db dbsession \<Rightarrow> bool" where
  "rolled_back (Op_create_claimed j ow wk secs now) s \<longleftrightarrow>
     snd (job_create_claimed j ow wk secs now False s) = Inl IntegrityError"
| "rolled_back _ s \<longleftrightarrow> False"

lemma create_claimed_result: "snd (job_create_claimed j ow wk secs now b s) = snd (job_create_claimed j ow wk secs now c s)"
  by (simp add: job_create_claimed_def Let_def split: sum.splits)

lemma resolve_owner_error: "resolve_owner ow wk \<noteq> Inl IntegrityError"
  by (simp add: resolve_owner_def Let_def split: option.splits)

lemma create_claimed_rollback:
  assumes "snd (job_create_claimed j ow wk secs now b s) = Inl IntegrityError"
  shows "cur (fst (job_create_claimed j ow wk secs now b s)) = saved s"
proof (cases "resolve_owner ow wk")
  case (Inl e)
  then show ?thesis using assms resolve_owner_error [of ow wk] by (simp add: job_create_claimed_def)
next
  case (Inr w)
  then show ?thesis using assms by (simp add: job_create_claimed_def Let_def split: if_splits)
qed

lemma rolled_back_tables: "rolled_back op s \<Longrightarrow> cur (run_op b op s) = saved s"
proof (cases op)
  case (Op_create_claimed j ow wk secs now)
  assume "rolled_back op s"
  then have "snd (job_create_claimed j ow wk secs now b s) = Inl IntegrityError"
    using create_claimed_result [of j ow wk secs now b s False] Op_create_claimed by simp
  then show ?thesis using create_claimed_rollback Op_create_claimed by simp
qed simp_all

lemma run_op_step:
  assumes "kdb_ok (cur s)" "kdb_ok (saved s)" "legal_op op"
  shows "rolled_back op s \<and> cur (run_op b op s) = saved s \<or> good_step s (run_op b op s)"
proof (cases op)
  case (Op_create_claimed j ow wk secs now)
  show ?thesis
  proof (cases "rolled_back op s")
    case True
    then show ?thesis using rolled_back_tables by blast
  next
    case False
    then have "snd (job_create_claimed j ow wk secs now b s) \<noteq> Inl IntegrityError"
      using create_claimed_result [of j ow wk secs now b s False] Op_create_claimed by simp
    then show ?thesis
      using create_claimed_good_step(2) [OF assms(1,2)] assms(3) Op_create_claimed by simp
  qed
qed (use run_op_good_step [OF assms(1,3)] in simp_all)

lemma update_jobs_saved [simp]: "saved (fst (update_jobs p f s)) = saved s"
  by (simp add: update_jobs_def)

lemma clear_pending_saved [simp]: "saved (clear_pending_reference uid k now s) = saved s"
  by (simp add: clear_pending_reference_def)

lemma recover_jobs_saved: "saved (fst (recover_jobs delay cl err now js s r)) = saved s"
proof (induction js arbitrary: s r)
  case (Cons j js)
  show ?case by (simp add: Cons.IH case_prod_beta)
qed simp

definition tidy :: "knowledge_db dbsession \<Rightarrow> knowledge_db dbsession \<Rightarrow> bool" where
  "tidy s s' \<longleftrightarrow> saved s' = saved s \<or> saved s' = cur s'"

lemma tidyI [intro]: "saved s' = saved s \<Longrightarrow> tidy s s'" "saved s' = cur s' \<Longrightarrow> tidy s s'"
  by (simp_all add: tidy_def)

lemma tidy_commit_if [simp]: "saved s' = saved s \<Longrightarrow> tidy s (commit_if b s')"
  by (simp add: tidy_def)

lemma finish_tidy: "tidy s (fst (job_mark_terminal st res err uid k w now b s))"
  by (simp add: job_mark_terminal_def case_prod_beta Let_def)

lemma cancel_running_tidy: "tidy s (fst (request_cancel_running uid k now b s))"
  by (auto simp: request_cancel_running_def case_prod_beta Let_def split: option.splits)

lemma cancel_tidy: "tidy s (fst (request_cancel uid k now now2 b s))"
proof -
  have "tidy s (fst (request_cancel_running uid k now2 b s'))" if "saved s' = saved s" for s'
    using cancel_running_tidy [of s' uid k now2 b] that by (simp add: tidy_def)
  then show ?thesis by (auto simp: request_cancel_def case_prod_beta Let_def split: option.splits)
qed

lemma shutdown_tidy: "tidy s (fst (release_claim_for_shutdown uid k w delay err now b s))"
  using finish_tidy [of s _ None _ uid k w now b]
  by (auto simp: release_claim_for_shutdown_def job_mark_cancelled_def job_mark_failed_def case_prod_beta Let_def
      split: option.splits)

lemma run_op_tidy: "tidy s (run_op b op s)"
proof (cases op)
  case (Op_create j)
  then show ?thesis by (auto simp: job_create_def insert_job_def split: option.splits)
next
  case (Op_create_claimed j ow wk secs now)
  then show ?thesis by (auto simp: job_create_claimed_def insert_job_def Let_def split: sum.splits)
next
  case (Op_delete_unstarted uid k)
  then show ?thesis by (simp add: delete_unstarted_def)
next
  case (Op_set_target uid k item ver)
  then show ?thesis by (auto simp: set_target_def case_prod_beta)
next
  case (Op_payload uid k w p now)
  then show ?thesis by (auto simp: update_running_payload_def case_prod_beta)
next
  case (Op_claim uid k ow wk secs ops now)
  then show ?thesis by (auto simp: job_try_claim_def case_prod_beta split: sum.splits)
next
  case (Op_renew uid k ow wk secs now)
  then show ?thesis by (auto simp: job_renew_lease_def case_prod_beta split: sum.splits)
next
  case (Op_recover delay cl err now)
  then show ?thesis by (simp add: job_recover_expired_def case_prod_beta recover_jobs_saved)
qed (simp_all add: finish_tidy cancel_tidy shutdown_tidy job_release_for_retry_def case_prod_beta)

lemma run_op_ok:
  assumes "kdb_ok (cur s)" "kdb_ok (saved s)" "legal_op op"
  shows "kdb_ok (cur (run_op b op s)) \<and> kdb_ok (saved (run_op b op s))"
  using run_op_step [OF assms, of b] run_op_tidy [of s b op] assms(2) by (auto simp: good_step_def tidy_def)

definition run_ops :: "(bool \<times> job_op) list \<Rightarrow> knowledge_db dbsession \<Rightarrow> knowledge_db dbsession" where
  "run_ops = fold (\<lambda>(b, op). run_op b op)"

lemma run_ops_simps [simp]:
  "run_ops [] s = s" "run_ops ((b, op) # ops) s = run_ops ops (run_op b op s)"
  by (simp_all add: run_ops_def)

lemma run_ops_ok:
  assumes "kdb_ok (cur s)" "kdb_ok (saved s)" "\<forall>(b, op)\<in>set ops. legal_op op"
  shows "kdb_ok (cur (run_ops ops s)) \<and> kdb_ok (saved (run_ops ops s))"
  using assms
proof (induction ops arbitrary: s)
  case (Cons x ops)
  obtain b op where x: "x = (b, op)" by (cases x)
  have "kdb_ok (cur (run_op b op s))" "kdb_ok (saved (run_op b op s))"
    using run_op_ok [of s op b] Cons.prems x by auto
  then show ?case using Cons.IH Cons.prems(3) x by simp
qed simp

text \<open>The tables an operation starts its effect from: the open transaction's, or the last committed
  ones where a violated constraint has rolled the session back.\<close>

definition base_tables :: "job_op \<Rightarrow> knowledge_db dbsession \<Rightarrow> knowledge_db" where
  "base_tables op s = (if rolled_back op s then saved s else cur s)"

text \<open>C5: The job queue stays well formed under every sequence of its operations, committed or
  not: ids, de-duplication keys and active change keys stay unique per user, a running job has an
  owner, a deadline and a start, a waiting or ended job has neither owner nor deadline, exactly the
  ended jobs have an end time, and no item waits for a failed or cancelled job. The last of them
  moves every job one step along its life cycle at most (ended jobs never change, an attempt is
  counted exactly by a claim), and only a job that has not started can disappear.\<close>

theorem knowledge_jobs_invariant:
  assumes "kdb_ok (cur s)" "kdb_ok (saved s)" "\<forall>(b, op)\<in>set (ops @ [(b', op')]). legal_op op"
  shows "kdb_ok (cur (run_ops (ops @ [(b', op')]) s)) \<and> kdb_ok (saved (run_ops (ops @ [(b', op')]) s)) \<and>
    rows_step (base_tables op' (run_ops ops s)) (cur (run_ops (ops @ [(b', op')]) s))"
proof -
  let ?s = "run_ops ops s"
  have ok: "kdb_ok (cur ?s)" "kdb_ok (saved ?s)" using run_ops_ok [OF assms(1,2)] assms(3) by auto
  have legal: "legal_op op'" using assms(3) by simp
  have last: "run_ops (ops @ [(b', op')]) s = run_op b' op' ?s" by (simp add: run_ops_def)
  have "rows_step (base_tables op' ?s) (cur (run_op b' op' ?s))"
    using run_op_step [OF ok legal, of b'] rolled_back_tables [of op' ?s b']
    by (auto simp: base_tables_def good_step_def rows_step_same)
  then show ?thesis using run_op_ok [OF ok legal, of b'] by (simp only: last simp_thms)
qed

end
