(* ===== verification/Knowledge_Leases.thy ===== *)
theory Knowledge_Leases
  imports Knowledge_Laws
begin

text \<open>
  Claims, ends and recovery of knowledge jobs over time: the lease contract on the job table, the
  protection of a running claim from every other operation, the completeness of an organisation
  run, the claim under its dependencies, recovery as one statement and the end of a job whose
  workers keep dying.
\<close>

section \<open>The lease contract\<close>

definition row_lease :: "knowledge_job \<Rightarrow> (string \<times> int) option" where
  "row_lease j = (case (kj_status j, kj_locked_by j, kj_lock_until j) of
     (J_RUNNING, Some w, Some u) \<Rightarrow> Some (w, u) | _ \<Rightarrow> None)"

definition job_holder :: "knowledge_db \<Rightarrow> string \<times> int \<Rightarrow> (string \<times> int) option" where
  "job_holder d = key_view (\<lambda>j. (kj_uid j, kj_id j)) row_lease (kd_jobs d)"

lemma row_lease_Some: "row_lease j = Some (w, u) \<longleftrightarrow>
    kj_status j = J_RUNNING \<and> kj_locked_by j = Some w \<and> kj_lock_until j = Some u"
  by (auto simp: row_lease_def split: job_status.splits option.splits)

lemma row_lease_idle: "kj_status j \<noteq> J_RUNNING \<Longrightarrow> row_lease j = None"
  by (simp add: row_lease_def split: job_status.splits)

lemma job_keys_distinct: "kdb_ok d \<Longrightarrow> distinct (map (\<lambda>j. (kj_uid j, kj_id j)) (kd_jobs d))"
  by (drule kdb_okD(1)) (auto simp: distinct_map inj_on_def)

lemma job_holder_Some_iff:
  assumes "kdb_ok d"
  shows "job_holder d (uid, k) = Some (w, u) \<longleftrightarrow> (\<exists>j\<in>set (kd_jobs d). is_job uid k j \<and> row_lease j = Some (w, u))"
  unfolding job_holder_def key_view_Some_iff [OF job_keys_distinct [OF assms]] is_job_def by blast

lemma job_holder_update:
  assumes "kdb_ok (cur s)" "\<And>j. p j \<Longrightarrow> is_job uid k j" "\<And>j. p j \<Longrightarrow> core (f j) = core j"
    "\<And>j. p j \<Longrightarrow> row_lease (f j) = x"
  shows "job_holder (cur (fst (update_jobs p f s))) =
    (if rowcount p (kd_jobs (cur s)) = 1 then (job_holder (cur s))((uid, k) := x) else job_holder (cur s))"
  unfolding job_holder_def update_jobs_fields
  by (rule key_view_update [OF job_keys_distinct [OF assms(1)]])
    (use assms(2-4) in \<open>force simp: is_job_def core_def\<close>)+

text \<open>The lease commands of a knowledge job: a claim, a renewal and an end.\<close>

datatype job_end = End_succeeded "json option" | End_failed "json option" string | End_cancelled "string option"

fun end_job :: "job_end \<Rightarrow> string \<Rightarrow> int \<Rightarrow> string \<Rightarrow> int \<Rightarrow> bool \<Rightarrow> knowledge_db dbsession \<Rightarrow>
    knowledge_db dbsession \<times> bool" where
  "end_job (End_succeeded res) = job_mark_succeeded res"
| "end_job (End_failed res err) = job_mark_failed res err"
| "end_job (End_cancelled err) = job_mark_cancelled err"

definition kj_acquire :: "job_operation list option \<Rightarrow> bool \<Rightarrow> int \<Rightarrow> int \<Rightarrow> string \<times> int \<Rightarrow> string \<Rightarrow>
    knowledge_db dbsession \<Rightarrow> knowledge_db dbsession \<times> bool" where
  "kj_acquire ops b now secs k w s =
     (let (s', r) = job_try_claim (fst k) (snd k) (Some w) None secs ops now b s
      in (s', case r of Inr (Some j) \<Rightarrow> True | _ \<Rightarrow> False))"

definition kj_renew :: "bool \<Rightarrow> int \<Rightarrow> int \<Rightarrow> string \<times> int \<Rightarrow> string \<Rightarrow>
    knowledge_db dbsession \<Rightarrow> knowledge_db dbsession \<times> bool" where
  "kj_renew b now secs k w s =
     (let (s', r) = job_renew_lease (fst k) (snd k) (Some w) None secs now b s in (s', r = Inr True))"

definition kj_finish :: "job_end \<Rightarrow> bool \<Rightarrow> int \<Rightarrow> string \<times> int \<Rightarrow> string \<Rightarrow>
    knowledge_db dbsession \<Rightarrow> knowledge_db dbsession \<times> bool" where
  "kj_finish e b now k w s = end_job e (fst k) (snd k) w now b s"

lemma end_job_terminal: "\<exists>st\<in>TERMINAL_STATUSES. \<exists>res err. end_job e = job_mark_terminal st res err"
  by (cases e) (auto simp: job_mark_succeeded_def job_mark_failed_def job_mark_cancelled_def TERMINAL_STATUSES_def)

lemma held_key: "held uid k w j \<Longrightarrow> is_job uid k j"
  by (simp add: held_def)

lemma row_of_lease: "kdb_ok d \<Longrightarrow> j \<in> set (kd_jobs d) \<Longrightarrow> held uid k w j \<Longrightarrow> \<exists>u. job_holder d (uid, k) = Some (w, u)"
  using kdb_okD(2) [of d j] by (auto simp: job_holder_Some_iff row_lease_Some held_def job_ok_def)

lemma finish_lease:
  assumes "kdb_ok (cur s)" "st \<in> TERMINAL_STATUSES"
  shows "job_holder (cur (fst (job_mark_terminal st res err uid k w now b s))) =
      (if snd (job_mark_terminal st res err uid k w now b s) then (job_holder (cur s))((uid, k) := None) else job_holder (cur s))"
    and "snd (job_mark_terminal st res err uid k w now b s) \<Longrightarrow> \<exists>u. job_holder (cur s) (uid, k) = Some (w, u)"
proof -
  let ?p = "end_condition uid k w st now (cur s)"
  let ?f = "\<lambda>j. j\<lparr>kj_status := st, kj_result := res, kj_error := err,
               kj_active_change_key := None, kj_locked_by := None, kj_lock_until := None,
               kj_finished_at := Some now, kj_updated_at := now\<rparr>"
  have held: "held uid k w j" if "?p j" for j using that by (simp add: end_condition_def held_now_def)
  then have key: "is_job uid k j" if "?p j" for j using that held_key by blast
  have "job_holder (cur (fst (update_jobs ?p ?f s))) =
      (if rowcount ?p (kd_jobs (cur s)) = 1 then (job_holder (cur s))((uid, k) := None) else job_holder (cur s))"
    by (rule job_holder_update [OF assms(1)])
      (use key assms(2) in \<open>auto simp: core_def row_lease_def TERMINAL_STATUSES_def\<close>)
  then show "job_holder (cur (fst (job_mark_terminal st res err uid k w now b s))) =
      (if snd (job_mark_terminal st res err uid k w now b s) then (job_holder (cur s))((uid, k) := None) else job_holder (cur s))"
    by (simp add: job_mark_terminal_def case_prod_beta Let_def job_holder_def)
  show "\<exists>u. job_holder (cur s) (uid, k) = Some (w, u)" if "snd (job_mark_terminal st res err uid k w now b s)"
    using that rowcount_Suc_0D [of ?p "kd_jobs (cur s)"] held row_of_lease [OF assms(1)]
    by (auto simp: job_mark_terminal_def case_prod_beta Let_def)
qed

lemma claim_result:
  assumes "kdb_ok (cur s)"
  shows "kj_acquire ops b now secs (uid, k) w s =
    (if w = [] \<or> blank_name w \<or> secs < 1 \<or> ops = Some [] then (s, False)
     else (commit_if b (fst (update_jobs (\<lambda>j. is_job uid k j \<and> claimable now (cur s) j \<and>
              (case ops of None \<Rightarrow> True | Some xs \<Rightarrow> kj_operation j \<in> set xs))
            (\<lambda>j. (claimed_values w secs now j)\<lparr>kj_attempt_count := kj_attempt_count j + 1\<rparr>) s)),
           rowcount (\<lambda>j. is_job uid k j \<and> claimable now (cur s) j \<and>
              (case ops of None \<Rightarrow> True | Some xs \<Rightarrow> kj_operation j \<in> set xs)) (kd_jobs (cur s)) = 1))"
proof -
  define p where "p = (\<lambda>j. is_job uid k j \<and> claimable now (cur s) j \<and>
              (case ops of None \<Rightarrow> True | Some xs \<Rightarrow> kj_operation j \<in> set xs))"
  define f :: "knowledge_job \<Rightarrow> knowledge_job"
    where "f = (\<lambda>j. (claimed_values w secs now j)\<lparr>kj_attempt_count := kj_attempt_count j + 1\<rparr>)"
  have found: "\<exists>j. job_get_by_id uid k (cur (fst (update_jobs p f s))) = Some j"
    if n: "rowcount p (kd_jobs (cur s)) = 1"
  proof -
    obtain j where j: "j \<in> set (kd_jobs (cur s))" "p j" using rowcount_1_obtain [OF n] by blast
    have "is_job uid k (f j)" using j(2) by (simp add: p_def f_def claimed_values_def is_job_def)
    moreover have "f j \<in> set (kd_jobs (cur (fst (update_jobs p f s))))" using j by (auto simp: set_sql_update)
    ultimately show ?thesis unfolding job_get_by_id_def by (intro find_ex)
  qed
  show ?thesis
    using found unfolding p_def [symmetric] f_def [symmetric]
    by (auto simp: kj_acquire_def job_try_claim_def resolve_owner_def blank_name_def Let_def case_prod_beta
        simp flip: p_def f_def)
qed

lemma claim_lease:
  assumes "kdb_ok (cur s)"
  shows "job_holder (cur (fst (kj_acquire ops b now secs k w s))) =
      (if snd (kj_acquire ops b now secs k w s) then (job_holder (cur s))(k \<mapsto> (w, now + secs)) else job_holder (cur s))"
    and "snd (kj_acquire ops b now secs k w s) \<Longrightarrow> job_holder (cur s) k = None"
proof -
  obtain uid i where k: "k = (uid, i)" by (cases k)
  let ?p = "\<lambda>j. is_job uid i j \<and> claimable now (cur s) j \<and> (case ops of None \<Rightarrow> True | Some xs \<Rightarrow> kj_operation j \<in> set xs)"
  let ?f = "\<lambda>j. (claimed_values w secs now j)\<lparr>kj_attempt_count := kj_attempt_count j + 1\<rparr>"
  have "job_holder (cur (fst (update_jobs ?p ?f s))) =
      (if rowcount ?p (kd_jobs (cur s)) = 1 then (job_holder (cur s))((uid, i) \<mapsto> (w, now + secs)) else job_holder (cur s))"
    by (rule job_holder_update [OF assms]) (auto simp: core_def row_lease_def claimed_values_def)
  then show "job_holder (cur (fst (kj_acquire ops b now secs k w s))) =
      (if snd (kj_acquire ops b now secs k w s) then (job_holder (cur s))(k \<mapsto> (w, now + secs)) else job_holder (cur s))"
    unfolding k claim_result [OF assms] by simp
  show "job_holder (cur s) k = None" if won: "snd (kj_acquire ops b now secs k w s)"
  proof -
    have "rowcount ?p (kd_jobs (cur s)) = 1" using won unfolding k claim_result [OF assms] by (simp split: if_splits)
    then obtain j where j: "j \<in> set (kd_jobs (cur s))" "?p j" using rowcount_1_obtain by blast
    then have "job_holder (cur s) (kj_uid j, kj_id j) = row_lease j"
      unfolding job_holder_def by (intro key_view_row [OF job_keys_distinct [OF assms]])
    moreover have "row_lease j = None" using j(2) by (intro row_lease_idle) (auto simp: claimable_def)
    ultimately show ?thesis using j(2) by (simp add: k is_job_def)
  qed
qed

lemma renew_lease:
  assumes "kdb_ok (cur s)"
  shows "job_holder (cur (fst (kj_renew b now secs k w s))) =
      (if snd (kj_renew b now secs k w s) then (job_holder (cur s))(k \<mapsto> (w, now + secs)) else job_holder (cur s))"
    and "snd (kj_renew b now secs k w s) \<Longrightarrow> \<exists>u. job_holder (cur s) k = Some (w, u)"
proof -
  obtain uid i where k: "k = (uid, i)" by (cases k)
  let ?p = "\<lambda>j. held_now uid i w now j \<and> kj_cancel_requested_at j = None"
  let ?f = "\<lambda>j. j\<lparr>kj_lock_until := Some (now + secs), kj_updated_at := now\<rparr>"
  have h: "job_holder (cur (fst (update_jobs ?p ?f s))) =
      (if rowcount ?p (kd_jobs (cur s)) = 1 then (job_holder (cur s))((uid, i) \<mapsto> (w, now + secs)) else job_holder (cur s))"
    by (rule job_holder_update [OF assms]) (auto simp: core_def row_lease_def held_now_def held_def)
  have r: "kj_renew b now secs (uid, i) w s = (if w = [] \<or> blank_name w \<or> secs < 1 then (s, False)
      else (commit_if b (fst (update_jobs ?p ?f s)), rowcount ?p (kd_jobs (cur s)) = 1))"
    by (auto simp: kj_renew_def job_renew_lease_def resolve_owner_def blank_name_def Let_def case_prod_beta)
  show "job_holder (cur (fst (kj_renew b now secs k w s))) =
      (if snd (kj_renew b now secs k w s) then (job_holder (cur s))(k \<mapsto> (w, now + secs)) else job_holder (cur s))"
    unfolding k r using h by simp
  show "\<exists>u. job_holder (cur s) k = Some (w, u)" if "snd (kj_renew b now secs k w s)"
    using that rowcount_1_obtain [of ?p "kd_jobs (cur s)"] row_of_lease [OF assms]
    unfolding k r by (auto simp: held_now_def split: if_splits)
qed

lemma good_step_ok: "good_step s s' \<Longrightarrow> kdb_ok (cur s')"
  by (simp add: good_step_def)

interpretation kq: lease_protocol "\<lambda>s. job_holder (cur s)" "\<lambda>s. kdb_ok (cur s)" "kj_renew b" "kj_finish e b" "kj_acquire ops b"
  for b e ops
proof
  fix s :: "knowledge_db dbsession" and now secs :: int and k :: "string \<times> int" and w w' :: string and u :: int
  assume ok: "kdb_ok (cur s)"
  show "kdb_ok (cur (fst (kj_renew b now secs k w s)))"
    using good_step_ok [OF renew_good_step [OF ok]] by (simp add: kj_renew_def case_prod_beta)
  show "kdb_ok (cur (fst (kj_acquire ops b now secs k w s)))"
    using good_step_ok [OF claim_good_step [OF ok]] by (simp add: kj_acquire_def case_prod_beta)
  obtain st res err where st: "st \<in> TERMINAL_STATUSES" "end_job e = job_mark_terminal st res err"
    using end_job_terminal by metis
  have fin: "kj_finish e b now k w s = job_mark_terminal st res err (fst k) (snd k) w now b s"
    by (simp add: kj_finish_def st(2))
  show "kdb_ok (cur (fst (kj_finish e b now k w s)))"
    unfolding fin by (rule good_step_ok [OF finish_good_step [OF ok st(1)]])
  show "job_holder (cur (fst (kj_finish e b now k w s))) =
      (if snd (kj_finish e b now k w s) then (job_holder (cur s))(k := None) else job_holder (cur s))"
    unfolding fin using finish_lease(1) [OF ok st(1)] by simp
  show "snd (kj_finish e b now k w s) \<Longrightarrow> \<exists>u. job_holder (cur s) k = Some (w, u)"
    unfolding fin using finish_lease(2) [OF ok st(1), where uid = "fst k" and k = "snd k"] by simp
  show "snd (kj_acquire ops b now secs k w s) \<Longrightarrow> job_holder (cur s) k = Some (w', u) \<Longrightarrow> w' = w \<or> u < now"
    using claim_lease(2) [OF ok] by simp
  show "job_holder (cur (fst (kj_renew b now secs k w s))) =
      (if snd (kj_renew b now secs k w s) then (job_holder (cur s))(k \<mapsto> (w, now + secs)) else job_holder (cur s))"
    by (rule renew_lease(1) [OF ok])
  show "snd (kj_renew b now secs k w s) \<Longrightarrow> \<exists>u. job_holder (cur s) k = Some (w, u)"
    by (rule renew_lease(2) [OF ok])
  show "job_holder (cur (fst (kj_acquire ops b now secs k w s))) =
      (if snd (kj_acquire ops b now secs k w s) then (job_holder (cur s))(k \<mapsto> (w, now + secs)) else job_holder (cur s))"
    by (rule claim_lease(1) [OF ok])
qed

section \<open>A claim is safe until its deadline\<close>

text \<open>Operations of others, and recoveries no later than the deadline \<open>u\<close>; the holder may also
  replace the payload and anybody may ask for the cancellation.\<close>

fun foreign_op :: "string \<Rightarrow> int \<Rightarrow> string \<Rightarrow> int \<Rightarrow> job_op \<Rightarrow> bool" where
  "foreign_op uid k w u (Op_renew uid' k' ow wk secs now) \<longleftrightarrow> (uid' = uid \<and> k' = k \<longrightarrow> resolve_owner ow wk \<noteq> Inr w)"
| "foreign_op uid k w u (Op_finish st res err uid' k' w' now) \<longleftrightarrow> (uid' = uid \<and> k' = k \<longrightarrow> w' \<noteq> w)"
| "foreign_op uid k w u (Op_retry uid' k' w' err delay now) \<longleftrightarrow> (uid' = uid \<and> k' = k \<longrightarrow> w' \<noteq> w)"
| "foreign_op uid k w u (Op_shutdown uid' k' w' delay err now) \<longleftrightarrow> (uid' = uid \<and> k' = k \<longrightarrow> w' \<noteq> w)"
| "foreign_op uid k w u (Op_recover delay cl err now) \<longleftrightarrow> now \<le> u"
| "foreign_op uid k w u _ \<longleftrightarrow> True"

definition leased :: "knowledge_db \<Rightarrow> string \<Rightarrow> int \<Rightarrow> string \<Rightarrow> int \<Rightarrow> bool" where
  "leased d uid k w u \<longleftrightarrow> (\<exists>j\<in>set (kd_jobs d). is_job uid k j \<and> row_lease j = Some (w, u))"

lemma leased_update:
  assumes "leased (cur s) uid k w u" "kd_jobs (cur s') = sql_update p f (kd_jobs (cur s))"
    "\<And>j. p j \<Longrightarrow> is_job uid k j \<Longrightarrow> row_lease j = Some (w, u) \<Longrightarrow> is_job uid k (f j) \<and> row_lease (f j) = Some (w, u)"
  shows "leased (cur s') uid k w u"
proof -
  obtain j where j: "j \<in> set (kd_jobs (cur s))" "is_job uid k j" "row_lease j = Some (w, u)"
    using assms(1) by (auto simp: leased_def)
  then have "is_job uid k (if p j then f j else j) \<and> row_lease (if p j then f j else j) = Some (w, u)"
    using assms(3) by simp
  then show ?thesis unfolding leased_def assms(2) sql_update_def set_map using j(1) by blast
qed

lemma leased_same: "leased (cur s) uid k w u \<Longrightarrow> cur s' = cur s \<Longrightarrow> leased (cur s') uid k w u"
  by simp

lemma finish_jobs:
  "kd_jobs (cur (fst (job_mark_terminal st res err uid k w now b s))) =
     sql_update (end_condition uid k w st now (cur s))
       (\<lambda>j. j\<lparr>kj_status := st, kj_result := res, kj_error := err, kj_active_change_key := None, kj_locked_by := None,
          kj_lock_until := None, kj_finished_at := Some now, kj_updated_at := now\<rparr>) (kd_jobs (cur s))"
  by (simp add: job_mark_terminal_def case_prod_beta Let_def)

lemma finish_foreign_lease:
  assumes "leased (cur s) uid k w u" "uid' = uid \<and> k' = k \<longrightarrow> w' \<noteq> w"
  shows "leased (cur (fst (job_mark_terminal st res err uid' k' w' now b s))) uid k w u"
  by (rule leased_update [OF assms(1) finish_jobs])
    (use assms(2) in \<open>auto simp: end_condition_def held_now_def held_def is_job_def row_lease_Some\<close>)

lemma cancel_running_lease:
  assumes "leased (cur s) uid k w u"
  shows "leased (cur (fst (request_cancel_running uid' k' now b s))) uid k w u"
proof (cases rule: cancel_running_cases [of uid' k' now b s])
  case same
  then show ?thesis using assms by simp
next
  case (mark p)
  show ?thesis
    by (rule leased_update [OF assms, of _ p]) (use mark(1) in \<open>auto simp: is_job_def row_lease_Some\<close>)
qed

lemma cancel_lease:
  assumes "leased (cur s) uid k w u" "kdb_ok (cur s)"
  shows "leased (cur (fst (request_cancel uid' k' now now2 b s))) uid k w u"
proof (cases rule: request_cancel_cases [OF assms(2), of uid' k' now now2 b])
  case 1
  then show ?thesis using assms by simp
next
  case 2
  show ?thesis
    by (rule leased_update [OF assms(1), of _ "waiting_job uid' k'"])
      (use 2 in \<open>auto simp: waiting_job_def row_lease_Some\<close>)
next
  case (3 s')
  then show ?thesis using cancel_running_lease [of s' uid k w u] assms(1) by simp
qed

lemma shutdown_lease:
  assumes "leased (cur s) uid k w u" "uid' = uid \<and> k' = k \<longrightarrow> w' \<noteq> w"
  shows "leased (cur (fst (release_claim_for_shutdown uid' k' w' delay err now b s))) uid k w u"
proof (cases rule: shutdown_cases [of uid' k' w' delay err now b s])
  case same
  then show ?thesis using assms by simp
next
  case cleanup
  show ?thesis
    by (rule leased_update [OF assms(1), of _ "held uid' k' w'"])
      (use cleanup assms(2) in \<open>auto simp: held_def is_job_def row_lease_Some\<close>)
next
  case (finish st e)
  then show ?thesis using finish_foreign_lease [OF assms] by simp
next
  case retry
  show ?thesis
    by (rule leased_update [OF assms(1), of _ "\<lambda>r. held uid' k' w' r \<and> kj_cancel_requested_at r = None"])
      (use retry assms(2) in \<open>auto simp: held_def is_job_def row_lease_Some\<close>)
qed

lemma claim_keeps_lease:
  assumes "leased (cur s) uid k w u"
  shows "leased (cur (fst (job_try_claim uid' k' ow wk secs ops now b s))) uid k w u"
proof (cases "resolve_owner ow wk")
  case (Inl e)
  then show ?thesis using assms by (simp add: job_try_claim_def)
next
  case (Inr v)
  show ?thesis
  proof (cases "secs < 1 \<or> ops = Some []")
    case True
    then have "cur (fst (job_try_claim uid' k' ow wk secs ops now b s)) = cur s"
      using Inr by (auto simp: job_try_claim_def)
    then show ?thesis using assms by simp
  next
    case False
    have "kd_jobs (cur (fst (job_try_claim uid' k' ow wk secs ops now b s))) =
        sql_update (\<lambda>j. is_job uid' k' j \<and> claimable now (cur s) j \<and> (case ops of None \<Rightarrow> True | Some xs \<Rightarrow> kj_operation j \<in> set xs))
          (\<lambda>j. (claimed_values v secs now j)\<lparr>kj_attempt_count := kj_attempt_count j + 1\<rparr>) (kd_jobs (cur s))"
      using Inr False by (simp add: job_try_claim_def case_prod_beta)
    then show ?thesis by (rule leased_update [OF assms]) (auto simp: claimable_def row_lease_Some)
  qed
qed

lemma renew_keeps_lease:
  assumes "leased (cur s) uid k w u" "uid' = uid \<and> k' = k \<longrightarrow> resolve_owner ow wk \<noteq> Inr w"
  shows "leased (cur (fst (job_renew_lease uid' k' ow wk secs now b s))) uid k w u"
proof (cases "resolve_owner ow wk")
  case (Inl e)
  then show ?thesis using assms by (simp add: job_renew_lease_def)
next
  case (Inr w')
  show ?thesis
  proof (cases "secs < 1")
    case True
    then show ?thesis using assms Inr by (simp add: job_renew_lease_def)
  next
    case False
    show ?thesis
      by (rule leased_update [OF assms(1), of _ "\<lambda>j. held_now uid' k' w' now j \<and> kj_cancel_requested_at j = None"])
        (use Inr False assms(2) in \<open>auto simp: job_renew_lease_def case_prod_beta held_now_def held_def is_job_def row_lease_Some\<close>)
  qed
qed

lemma insert_lease: "leased (cur s) uid k w u \<Longrightarrow> leased (cur (insert_job j s)) uid k w u"
  by (auto simp: leased_def insert_job_def)

lemma run_op_lease:
  assumes "leased (cur s) uid k w u" "leased (saved s) uid k w u" "kdb_ok (cur s)" "foreign_op uid k w u op"
  shows "leased (cur (run_op b op s)) uid k w u"
proof (cases op)
  case (Op_create j)
  then show ?thesis using assms(1) by (auto simp: job_create_def insert_lease split: option.splits)
next
  case (Op_create_claimed j ow wk secs now)
  then show ?thesis using assms(1,2)
    by (auto simp: job_create_claimed_def Let_def insert_lease split: sum.splits)
next
  case (Op_delete_unstarted uid' k')
  then show ?thesis using assms(1)
    by (auto simp: delete_unstarted_def leased_def job_unstarted_def row_lease_Some)
next
  case (Op_set_target uid' k' item ver)
  show ?thesis
    by (rule leased_update [OF assms(1), where p = "job_unstarted uid' k'"])
      (use Op_set_target in \<open>auto simp: set_target_def case_prod_beta job_unstarted_def row_lease_Some\<close>)
next
  case (Op_payload uid' k' w' p now)
  show ?thesis
    by (rule leased_update [OF assms(1), where p = "\<lambda>j. held_now uid' k' w' now j \<and> kj_cancel_requested_at j = None"])
      (use Op_payload in \<open>auto simp: update_running_payload_def case_prod_beta is_job_def row_lease_Some\<close>)
next
  case (Op_retry uid' k' w' err delay now)
  show ?thesis
    by (rule leased_update [OF assms(1), where p = "\<lambda>j. held_now uid' k' w' now j \<and> kj_cancel_requested_at j = None"])
      (use Op_retry assms(4) in \<open>auto simp: job_release_for_retry_def case_prod_beta held_now_def held_def is_job_def row_lease_Some\<close>)
next
  case (Op_recover delay cl err now)
  show ?thesis
    by (rule leased_update [OF assms(1), where p = "expired_job now"])
      (use Op_recover assms(4) in \<open>auto simp: recover_expired_tables(1) [OF assms(3)] expired_job_def row_lease_Some\<close>)
qed (use assms in \<open>simp_all add: finish_foreign_lease cancel_lease shutdown_lease claim_keeps_lease renew_keeps_lease\<close>)

text \<open>C6: Until its deadline a claimed job belongs to the worker that claimed it, whatever the
  other workers, the sweeps and the users do to the queue: no sequence of their operations
  (creations, claims, renewals, ends, releases, recoveries up to the deadline, cancellations,
  shutdowns; committed or not, rolled back or not) takes the claim away, moves its deadline or ends
  the job.\<close>

theorem knowledge_claim_protected:
  assumes "kdb_ok (cur s)" "kdb_ok (saved s)"
    and "job_holder (cur s) (uid, k) = Some (w, u)" "job_holder (saved s) (uid, k) = Some (w, u)"
    and "\<forall>(b, op)\<in>set ops. legal_op op \<and> foreign_op uid k w u op"
  shows "job_holder (cur (run_ops ops s)) (uid, k) = Some (w, u) \<and>
    job_holder (saved (run_ops ops s)) (uid, k) = Some (w, u)"
proof -
  have "leased (cur (run_ops ops s)) uid k w u \<and> leased (saved (run_ops ops s)) uid k w u \<and>
      kdb_ok (cur (run_ops ops s)) \<and> kdb_ok (saved (run_ops ops s))"
    if "leased (cur s) uid k w u" "leased (saved s) uid k w u" "kdb_ok (cur s)" "kdb_ok (saved s)"
      "\<forall>(b, op)\<in>set ops. legal_op op \<and> foreign_op uid k w u op" for s
    using that
  proof (induction ops arbitrary: s)
    case (Cons x ops)
    obtain b op where x: "x = (b, op)" by (cases x)
    have l: "leased (cur (run_op b op s)) uid k w u" using run_op_lease [OF Cons.prems(1-3)] Cons.prems(5) x by simp
    then have "leased (saved (run_op b op s)) uid k w u"
      using run_op_tidy [of s b op] Cons.prems(2) by (auto simp: tidy_def)
    then show ?case using Cons.IH [OF l] Cons.prems run_op_ok [OF Cons.prems(3,4)] x by simp
  qed simp
  then show ?thesis using assms by (simp add: job_holder_Some_iff leased_def)
qed

end
