(* ===== verification/Knowledge_Runs.thy ===== *)
theory Knowledge_Runs
  imports Knowledge_Leases
begin

text \<open>
  Organisation runs and their children, recovery as one statement, and the end of a job whose
  workers keep dying.
\<close>

section \<open>Complete organisation runs\<close>

definition runs_complete :: "knowledge_db \<Rightarrow> bool" where
  "runs_complete d \<longleftrightarrow> (\<forall>j\<in>set (kd_jobs d). kj_operation j \<in> ORGANIZATION_OPERATIONS \<and>
     kj_status j = J_SUCCEEDED \<longrightarrow> \<not> unsuccessful_child d j)"

text \<open>The creation of a child for an organisation run that has succeeded.\<close>

definition late_child_of :: "knowledge_db \<Rightarrow> knowledge_job \<Rightarrow> bool" where
  "late_child_of d j \<longleftrightarrow> (\<exists>p\<in>set (kd_jobs d). kj_operation p \<in> ORGANIZATION_OPERATIONS \<and>
     kj_status p = J_SUCCEEDED \<and> kj_uid p = kj_uid j \<and> kj_parent_job_id j = Some (kj_id p))"

fun late_child :: "knowledge_db \<Rightarrow> job_op \<Rightarrow> bool" where
  "late_child d (Op_create j) = late_child_of d j"
| "late_child d (Op_create_claimed j ow wk secs now) = late_child_of d j"
| "late_child d _ = False"

lemma child_unsuccessful:
  "c \<in> set (kd_jobs d) \<Longrightarrow> kj_uid c = kj_uid p \<Longrightarrow> kj_parent_job_id c = Some (kj_id p) \<Longrightarrow>
     \<not> unsuccessful_child d p \<Longrightarrow> kj_status c = J_SUCCEEDED"
  by (auto simp: unsuccessful_child_def)

lemma core_fields:
  "core j' = core j \<Longrightarrow> kj_uid j' = kj_uid j \<and> kj_id j' = kj_id j \<and> kj_operation j' = kj_operation j \<and>
     kj_parent_job_id j' = kj_parent_job_id j"
  by (simp add: core_def)

text \<open>A step of the rows keeps the runs complete when no new row is a child of a succeeded run.\<close>

lemma runs_complete_step:
  assumes complete: "runs_complete d" and step: "rows_step d d'"
    and new: "\<And>c p. c \<in> set (kd_jobs d') \<Longrightarrow> kj_id c \<notin> kj_id ` set (kd_jobs d) \<Longrightarrow> p \<in> set (kd_jobs d') \<Longrightarrow>
      kj_operation p \<in> ORGANIZATION_OPERATIONS \<Longrightarrow> kj_status p = J_SUCCEEDED \<Longrightarrow> kj_uid c = kj_uid p \<Longrightarrow>
      kj_parent_job_id c \<noteq> Some (kj_id p)"
  shows "runs_complete d'"
  unfolding runs_complete_def
proof (intro ballI impI)
  fix p' assume p': "p' \<in> set (kd_jobs d')" "kj_operation p' \<in> ORGANIZATION_OPERATIONS \<and> kj_status p' = J_SUCCEEDED"
  obtain p where p: "p \<in> set (kd_jobs d)" "job_step p p'" "fair_end d p p'"
    using step p' unfolding rows_step_def by fastforce
  have c: "kj_uid p' = kj_uid p" "kj_id p' = kj_id p" "kj_operation p' = kj_operation p"
    using core_fields [OF job_step_core [OF p(2)]] by simp_all
  have none: "\<not> unsuccessful_child d p"
    using p p' c complete by (auto simp: runs_complete_def fair_end_def)
  have "kj_status x = J_SUCCEEDED"
    if x: "x \<in> set (kd_jobs d')" "kj_uid x = kj_uid p'" "kj_parent_job_id x = Some (kj_id p')" for x
  proof (cases "kj_id x \<in> kj_id ` set (kd_jobs d)")
    case True
    then obtain y where y: "y \<in> set (kd_jobs d)" "job_step y x"
      using step x(1) unfolding rows_step_def by blast
    then have "kj_status y = J_SUCCEEDED"
      using child_unsuccessful [OF y(1) _ _ none] core_fields [OF job_step_core [OF y(2)]] x(2,3) c by simp
    then show ?thesis using job_step_terminal [OF y(2)] by (simp add: TERMINAL_STATUSES_def)
  next
    case False
    then show ?thesis using new [OF x(1) False p'(1)] p'(2) x(2,3) by blast
  qed
  then show "\<not> unsuccessful_child d' p'" by (auto simp: unsuccessful_child_def)
qed

lemma insert_complete:
  assumes "kdb_ok (cur s)" "runs_complete (cur s)" "\<not> late_child_of (cur s) j"
    "kj_status j \<in> {J_PENDING, J_RUNNING}" "rows_step (cur s) (cur (insert_job j s))"
  shows "runs_complete (cur (insert_job j s))"
proof (rule runs_complete_step [OF assms(2,5)])
  fix c p
  assume "c \<in> set (kd_jobs (cur (insert_job j s)))" "kj_id c \<notin> kj_id ` set (kd_jobs (cur s))"
    and p: "p \<in> set (kd_jobs (cur (insert_job j s)))" "kj_operation p \<in> ORGANIZATION_OPERATIONS"
      "kj_status p = J_SUCCEEDED" "kj_uid c = kj_uid p"
  then have c: "c = j\<lparr>kj_id := fresh_id kj_id (kd_jobs (cur s))\<rparr>" by (auto simp: insert_job_def)
  have "p \<in> set (kd_jobs (cur s))" using p(1,3) assms(4) by (auto simp: insert_job_def)
  then show "kj_parent_job_id c \<noteq> Some (kj_id p)"
    using assms(3) p by (auto simp: c late_child_of_def)
qed

lemma no_new_rows:
  assumes "kd_jobs (cur s') = sql_update p f (kd_jobs (cur s))" "\<And>j. p j \<Longrightarrow> kj_id (f j) = kj_id j"
  shows "x \<in> set (kd_jobs (cur s')) \<Longrightarrow> kj_id x \<in> kj_id ` set (kd_jobs (cur s))"
  using assms by (auto simp: sql_update_def)

fun creating :: "job_op \<Rightarrow> bool" where
  "creating (Op_create j) = True"
| "creating (Op_create_claimed j ow wk secs now) = True"
| "creating _ = False"

lemma ids_update: "(\<And>j. kj_id (f j) = kj_id j) \<Longrightarrow> kj_id ` set (sql_update p f js) = kj_id ` set js"
  unfolding sql_update_def set_map image_image by (rule image_cong) auto

lemma finish_ids: "kj_id ` set (kd_jobs (cur (fst (job_mark_terminal st res err uid k w now b s)))) = kj_id ` set (kd_jobs (cur s))"
  unfolding finish_jobs by (rule ids_update) simp

lemma cancel_running_ids: "kj_id ` set (kd_jobs (cur (fst (request_cancel_running uid k now b s)))) = kj_id ` set (kd_jobs (cur s))"
  by (cases rule: cancel_running_cases [of uid k now b s]) (simp_all add: ids_update)

lemma back_to_queue_id [simp]: "kj_id (back_to_queue delay now j) = kj_id j"
  by (simp add: back_to_queue_def)

lemma run_op_ids:
  assumes "kdb_ok (cur s)" "\<not> creating op"
  shows "kj_id ` set (kd_jobs (cur (run_op b op s))) \<subseteq> kj_id ` set (kd_jobs (cur s))"
proof (cases op)
  case (Op_claim uid k ow wk secs ops now)
  then show ?thesis
    by (auto simp: job_try_claim_def case_prod_beta ids_update claimed_values_def split: sum.splits if_splits)
next
  case (Op_renew uid k ow wk secs now)
  then show ?thesis by (auto simp: job_renew_lease_def case_prod_beta ids_update split: sum.splits if_splits)
next
  case (Op_recover delay cl err now)
  then show ?thesis
    using core_fields [OF recovered_core] by (simp add: recover_expired_tables(1) [OF assms(1)] ids_update)
next
  case (Op_cancel uid k now now2)
  show ?thesis
    by (cases rule: request_cancel_cases [OF assms(1), of uid k now now2 b])
      (simp_all add: Op_cancel ids_update cancelled_values_def cancel_running_ids)
next
  case (Op_shutdown uid k w delay err now)
  show ?thesis
    by (cases rule: shutdown_cases [of uid k w delay err now b s])
      (simp_all add: Op_shutdown ids_update finish_ids)
qed (use assms(2) in \<open>auto simp: delete_unstarted_def set_target_def update_running_payload_def job_release_for_retry_def
    case_prod_beta ids_update finish_ids\<close>)

lemma run_op_complete:
  assumes "kdb_ok (cur s)" "kdb_ok (saved s)" "runs_complete (cur s)" "runs_complete (saved s)"
    "legal_op op" "\<not> late_child (cur s) op"
  shows "runs_complete (cur (run_op b op s))"
proof (cases "rolled_back op s")
  case True
  then show ?thesis using rolled_back_tables [of op s b] assms(4) by simp
next
  case go: False
  then have step: "rows_step (cur s) (cur (run_op b op s))"
    using run_op_step [OF assms(1,2,5), of b] by (simp add: good_step_def)
  show ?thesis
  proof (cases "creating op")
    case False
    show ?thesis
      by (rule runs_complete_step [OF assms(3) step]) (use run_op_ids [OF assms(1) False, of b] in blast)
  next
    case True
    then show ?thesis
    proof (cases op)
      case (Op_create j)
      then have "cur (run_op b op s) = cur s \<or> cur (run_op b op s) = cur (insert_job j s)"
        by (auto simp: job_create_def split: option.splits)
      then show ?thesis
        using insert_complete [OF assms(1,3), of j] assms(3,5,6) step Op_create by (auto simp: new_job_def)
    next
      case (Op_create_claimed j ow wk secs now)
      show ?thesis
      proof (cases "cur (run_op b op s) = cur s")
        case False
        then obtain w where ow: "resolve_owner ow wk = Inr w" using Op_create_claimed
          by (cases "resolve_owner ow wk") (auto simp: job_create_claimed_def)
        let ?j = "(claimed_values w secs now j)\<lparr>kj_attempt_count := 1\<rparr>"
        have c: "cur (run_op b op s) = cur (insert_job ?j s)"
          using False ow go Op_create_claimed by (auto simp: job_create_claimed_def Let_def split: if_splits)
        have "runs_complete (cur (insert_job ?j s))"
          by (rule insert_complete [OF assms(1,3)])
            (use assms(6) step Op_create_claimed c in \<open>auto simp: claimed_values_def late_child_of_def\<close>)
        then show ?thesis using c by simp
      qed (use assms(3) in simp)
    qed simp_all
  qed
qed

text \<open>The sequences in which nobody creates a child for a run that has already succeeded.\<close>

fun in_time :: "(bool \<times> job_op) list \<Rightarrow> knowledge_db dbsession \<Rightarrow> bool" where
  "in_time [] s = True"
| "in_time ((b, op) # ops) s = (legal_op op \<and> \<not> late_child (cur s) op \<and> in_time ops (run_op b op s))"

text \<open>C7: An organisation run that has succeeded has only succeeded children, at every point of
  every sequence of queue operations in which children are created before their run ends: the end
  of the run checks all its children in the statement that writes it, ended jobs never change, and
  no recovery, cancellation, release or later end of a child breaks it.\<close>

theorem organisation_success_complete:
  assumes "kdb_ok (cur s)" "kdb_ok (saved s)" "runs_complete (cur s)" "runs_complete (saved s)" "in_time ops s"
  shows "runs_complete (cur (run_ops ops s)) \<and> runs_complete (saved (run_ops ops s))"
  using assms
proof (induction ops arbitrary: s)
  case (Cons x ops)
  obtain b op where x: "x = (b, op)" by (cases x)
  have legal: "legal_op op" "\<not> late_child (cur s) op" using Cons.prems(5) x by auto
  have c: "runs_complete (cur (run_op b op s))" by (rule run_op_complete [OF Cons.prems(1-4) legal])
  then have "runs_complete (saved (run_op b op s))"
    using run_op_tidy [of s b op] Cons.prems(4) by (auto simp: tidy_def)
  then show ?case using Cons.IH [of "run_op b op s"] Cons.prems(5) run_op_ok [OF Cons.prems(1,2) legal(1), of b] c x
    by simp
qed simp

section \<open>Recovery is one statement\<close>

definition terminal_report :: "string option \<Rightarrow> knowledge_job \<Rightarrow> knowledge_job \<times> job_status \<times> string option" where
  "terminal_report err j = (j, next_status j, if next_status j = J_FAILED then err else None)"

lemma fold_count_recovery:
  "fold (count_recovery err) js r = \<lparr>jr_retried = jr_retried r + length (filter (\<lambda>j. next_status j = J_RETRY) js),
     jr_failed = jr_failed r + length (filter (\<lambda>j. next_status j = J_FAILED) js),
     jr_cancelled = jr_cancelled r + length (filter (\<lambda>j. next_status j = J_CANCELLED) js),
     jr_terminal_jobs = jr_terminal_jobs r @ map (terminal_report err) (filter (\<lambda>j. next_status j \<noteq> J_RETRY) js)\<rparr>"
proof (induction js arbitrary: r)
  case (Cons j js)
  show ?case
    using next_status_range [of j]
    by (auto simp: Cons.IH count_recovery_def [of err j r] terminal_report_def)
qed simp

text \<open>The recovery sweep, which reads the expired jobs and then updates them one by one under
  the lease it has read, is one statement on the tables: every running job whose deadline has
  passed takes its next status (and no other row changes), the references of exactly the ended
  ones are cleared, no expired job is left, the report counts each of them once, and the ended
  jobs are reported in the order of the table with the rows as they were.\<close>

theorem job_recover_bulk:
  fixes s :: "knowledge_db dbsession" and now :: int
  assumes "kdb_ok (cur s)"
  defines "ex \<equiv> filter (expired_job now) (kd_jobs (cur s))"
  shows "cur (fst (job_recover_expired delay cl err now b s)) =
      (cur s)\<lparr>kd_jobs := sql_update (expired_job now) (recovered delay cl err now) (kd_jobs (cur s)),
        kd_items := cleared now (ended_reference ex) (kd_items (cur s))\<rparr> \<and>
    rowcount (expired_job now) (kd_jobs (cur (fst (job_recover_expired delay cl err now b s)))) = 0 \<and>
    snd (job_recover_expired delay cl err now b s) =
      \<lparr>jr_retried = length (filter (\<lambda>j. next_status j = J_RETRY) ex),
       jr_failed = length (filter (\<lambda>j. next_status j = J_FAILED) ex),
       jr_cancelled = length (filter (\<lambda>j. next_status j = J_CANCELLED) ex),
       jr_terminal_jobs = map (terminal_report err) (filter (\<lambda>j. next_status j \<noteq> J_RETRY) ex)\<rparr>"
proof -
  note t = recover_expired_tables [OF assms(1), of delay cl err now b]
  have "\<not> expired_job now (recovered delay cl err now j)" for j
    using next_status_range [of j] by (auto simp: expired_job_def recovered_status)
  then have "rowcount (expired_job now) (sql_update (expired_job now) (recovered delay cl err now) (kd_jobs (cur s))) = 0"
    by (auto simp: rowcount_0_iff set_sql_update)
  then show ?thesis unfolding t ex_def by (simp add: fold_count_recovery)
qed

section \<open>A job whose workers keep dying ends\<close>

text \<open>A round: a worker \<open>w\<close> claims the job at \<open>t\<close> for \<open>secs\<close> seconds, dies, and the sweep at \<open>t'\<close>
  finds the lease expired.\<close>

fun crash_rounds :: "string \<Rightarrow> int \<Rightarrow> int \<Rightarrow> int option \<Rightarrow> string option \<Rightarrow> (string \<times> int \<times> int \<times> int) list \<Rightarrow>
    knowledge_db dbsession \<Rightarrow> knowledge_db dbsession" where
  "crash_rounds uid k delay cl err [] s = s"
| "crash_rounds uid k delay cl err ((w, secs, t, t') # rs) s = crash_rounds uid k delay cl err rs
     (run_ops [(True, Op_claim uid k (Some w) None secs None t), (True, Op_recover delay cl err t')] s)"

fun timely :: "int \<Rightarrow> int \<Rightarrow> (string \<times> int \<times> int \<times> int) list \<Rightarrow> bool" where
  "timely delay available [] = True"
| "timely delay available ((w, secs, t, t') # rs) \<longleftrightarrow>
     \<not> blank_name w \<and> 1 \<le> secs \<and> available \<le> t \<and> t + secs < t' \<and> timely delay (t' + max delay 0) rs"

definition waits :: "string \<Rightarrow> int \<Rightarrow> knowledge_job \<Rightarrow> bool" where
  "waits uid k j \<longleftrightarrow> is_job uid k j \<and> kj_status j \<in> {J_PENDING, J_RETRY} \<and> kj_cancel_requested_at j = None \<and>
     kj_parent_job_id j = None \<and> \<not> is_system_cleanup_operation (kj_operation j) \<and> kj_operation j \<noteq> EMBEDDING_MIGRATION"

lemma waits_claimable:
  assumes "waits uid k j" "kj_available_at j \<le> t"
  shows "claimable t d j"
proof -
  have "kj_operation j \<noteq> MANAGED_VECTOR_CLEANUP"
    using assms(1) by (auto simp: waits_def is_system_cleanup_operation_def SYSTEM_CLEANUP_OPERATIONS_def)
  then show ?thesis using assms by (auto simp: waits_def claimable_def claim_dependency_condition_def)
qed

lemma crash_round:
  fixes s :: "knowledge_db dbsession" and delay k secs t t' :: int and uid w :: string and cl :: "int option" and err :: "string option"
  assumes "kdb_ok (cur s)" "j \<in> set (kd_jobs (cur s))" "waits uid k j" "kj_available_at j \<le> t"
    "\<not> blank_name w" "1 \<le> secs" "t + secs < t'"
  defines "s2 \<equiv> run_ops [(True, Op_claim uid k (Some w) None secs None t), (True, Op_recover delay cl err t')] s"
  shows "\<exists>j'\<in>set (kd_jobs (cur s2)). is_job uid k j' \<and>
    (kj_status j' = J_FAILED \<or>
     waits uid k j' \<and> kj_available_at j' = t' + max delay 0 \<and> kj_attempt_count j' = kj_attempt_count j + 1 \<and>
     kj_max_attempts j' = kj_max_attempts j \<and> kj_attempt_count j' < kj_max_attempts j')"
proof -
  define s1 where "s1 = fst (job_try_claim uid k (Some w) None secs None t True s)"
  define j1 where "j1 = (claimed_values w secs t j)\<lparr>kj_attempt_count := kj_attempt_count j + 1\<rparr>"
  have ok1: "kdb_ok (cur s1)" unfolding s1_def by (rule good_step_ok [OF claim_good_step [OF assms(1)]])
  have w: "resolve_owner (Some w) None = Inr w"
    using assms(5) by (auto simp: resolve_owner_def blank_name_def)
  have p: "is_job uid k j \<and> claimable t (cur s) j"
    using waits_claimable [OF assms(3,4)] assms(3) by (simp add: waits_def)
  have in1: "j1 \<in> set (kd_jobs (cur s1))"
    using assms(2,6) p w by (auto simp: s1_def j1_def job_try_claim_def case_prod_beta sql_update_def image_iff)
  have ex: "expired_job t' j1" using assms(7) by (simp add: expired_job_def j1_def claimed_values_def)
  have run: "kd_jobs (cur s2) = sql_update (expired_job t') (recovered delay cl err t') (kd_jobs (cur s1))"
    unfolding s2_def using recover_expired_tables(1) [OF ok1] by (simp flip: s1_def)
  let ?j = "recovered delay cl err t' j1"
  have "?j \<in> set (kd_jobs (cur s2))" unfolding run set_sql_update using in1 ex by auto
  moreover have "is_job uid k ?j"
    using core_fields [OF recovered_core [of delay cl err t' j1]] p by (simp add: is_job_def j1_def claimed_values_def)
  moreover have "kj_status ?j = J_FAILED \<or>
     waits uid k ?j \<and> kj_available_at ?j = t' + max delay 0 \<and> kj_attempt_count ?j = kj_attempt_count j + 1 \<and>
     kj_max_attempts ?j = kj_max_attempts j \<and> kj_attempt_count ?j < kj_max_attempts ?j"
    using assms(3) by (auto simp: recovered_def recovered_values_def next_status_def waits_def Let_def back_to_queue_def
        j1_def claimed_values_def is_job_def split: option.splits)
  ultimately show ?thesis by blast
qed

lemma failed_stays:
  assumes "good_step s s'" "j \<in> set (kd_jobs (cur s))" "kj_status j = J_FAILED"
  shows "j \<in> set (kd_jobs (cur s'))"
  using assms job_step_terminal [of j] by (force simp: good_step_def rows_step_def TERMINAL_STATUSES_def)

lemma round_good:
  assumes "kdb_ok (cur s)"
  shows "kdb_ok (cur (run_ops [(True, Op_claim uid k (Some w) None secs None t), (True, Op_recover delay cl err t')] s))"
    and "j \<in> set (kd_jobs (cur s)) \<Longrightarrow> kj_status j = J_FAILED \<Longrightarrow>
      j \<in> set (kd_jobs (cur (run_ops [(True, Op_claim uid k (Some w) None secs None t), (True, Op_recover delay cl err t')] s)))"
proof -
  let ?s1 = "fst (job_try_claim uid k (Some w) None secs None t True s)"
  note c = claim_good_step [OF assms, of uid k "Some w" None secs None t True]
  note d = recover_good_step [OF good_step_ok [OF c], of delay cl err t' True]
  have run: "run_ops [(True, Op_claim uid k (Some w) None secs None t), (True, Op_recover delay cl err t')] s =
      fst (job_recover_expired delay cl err t' True ?s1)" by simp
  show "kdb_ok (cur (run_ops [(True, Op_claim uid k (Some w) None secs None t), (True, Op_recover delay cl err t')] s))"
    unfolding run by (rule good_step_ok [OF d])
  show "j \<in> set (kd_jobs (cur (run_ops [(True, Op_claim uid k (Some w) None secs None t), (True, Op_recover delay cl err t')] s)))"
    if "j \<in> set (kd_jobs (cur s))" "kj_status j = J_FAILED"
    unfolding run by (rule failed_stays [OF d failed_stays [OF c that] that(2)])
qed

lemma crash_rounds_ok: "kdb_ok (cur s) \<Longrightarrow> kdb_ok (cur (crash_rounds uid k delay cl err rs s))"
proof (induction rs arbitrary: s)
  case (Cons r rs)
  obtain w secs t t' where r: "r = (w, secs, t, t')" by (cases r)
  show ?case using Cons.IH [OF round_good(1) [OF Cons.prems]] unfolding r crash_rounds.simps .
qed simp

lemma crash_rounds_failed:
  "kdb_ok (cur s) \<Longrightarrow> j \<in> set (kd_jobs (cur s)) \<Longrightarrow> kj_status j = J_FAILED \<Longrightarrow>
     j \<in> set (kd_jobs (cur (crash_rounds uid k delay cl err rs s)))"
proof (induction rs arbitrary: s)
  case (Cons r rs)
  obtain w secs t t' where r: "r = (w, secs, t, t')" by (cases r)
  show ?case
    using Cons.IH [OF round_good(1) [OF Cons.prems(1)] round_good(2) [OF Cons.prems]] Cons.prems(3)
    unfolding r crash_rounds.simps .
qed simp

lemma crash_rounds_end:
  assumes "kdb_ok (cur s)" "j \<in> set (kd_jobs (cur s))" "waits uid k j" "timely delay (kj_available_at j) rs"
    "rs \<noteq> []" "kj_max_attempts j - kj_attempt_count j \<le> int (length rs)"
  shows "\<exists>j'\<in>set (kd_jobs (cur (crash_rounds uid k delay cl err rs s))). is_job uid k j' \<and> kj_status j' = J_FAILED"
  using assms
proof (induction rs arbitrary: s j)
  case (Cons r rs)
  obtain w secs t t' where r: "r = (w, secs, t, t')" by (cases r)
  let ?s = "run_ops [(True, Op_claim uid k (Some w) None secs None t), (True, Op_recover delay cl err t')] s"
  have tm: "kj_available_at j \<le> t" "\<not> blank_name w" "1 \<le> secs" "t + secs < t'" "timely delay (t' + max delay 0) rs"
    using Cons.prems(4) by (simp_all add: r)
  obtain j' where j': "j' \<in> set (kd_jobs (cur ?s))" "is_job uid k j'"
    and alt: "kj_status j' = J_FAILED \<or>
      waits uid k j' \<and> kj_available_at j' = t' + max delay 0 \<and> kj_attempt_count j' = kj_attempt_count j + 1 \<and>
      kj_max_attempts j' = kj_max_attempts j \<and> kj_attempt_count j' < kj_max_attempts j'"
    using crash_round [OF Cons.prems(1-3) tm(1-4), of delay cl err] by blast
  note ok = round_good(1) [OF Cons.prems(1), of uid k w secs t delay cl err t']
  from alt show ?case
  proof
    assume "kj_status j' = J_FAILED"
    then show ?thesis using crash_rounds_failed [OF ok j'(1)] j'(2) unfolding r crash_rounds.simps by blast
  next
    assume a: "waits uid k j' \<and> kj_available_at j' = t' + max delay 0 \<and> kj_attempt_count j' = kj_attempt_count j + 1 \<and>
      kj_max_attempts j' = kj_max_attempts j \<and> kj_attempt_count j' < kj_max_attempts j'"
    then have len: "kj_max_attempts j' - kj_attempt_count j' \<le> int (length rs)" "rs \<noteq> []"
      using Cons.prems(6) by auto
    show ?thesis
      using Cons.IH [OF ok j'(1), of] a tm(5) len unfolding r crash_rounds.simps by simp
  qed
qed simp

text \<open>C8: A job cannot be retried for ever: if every worker that claims it dies, then after as many
  rounds of claim and recovery as it has attempts left (one at least) the sweep has marked it failed
  and nothing waits for it any more. It holds for every waiting top-level job that is not a system
  clean-up (those are retried without bound on purpose) or an embedding migration.\<close>

theorem abandoned_job_ends:
  fixes s :: "knowledge_db dbsession" and delay k :: int and uid :: string and cl :: "int option" and err :: "string option"
    and rs :: "(string \<times> int \<times> int \<times> int) list"
  assumes "kdb_ok (cur s)" "j \<in> set (kd_jobs (cur s))" "waits uid k j" "timely delay (kj_available_at j) rs"
    "rs \<noteq> []" "kj_max_attempts j - kj_attempt_count j \<le> int (length rs)"
  defines "s' \<equiv> crash_rounds uid k delay cl err rs s"
  shows "(\<exists>j'\<in>set (kd_jobs (cur s')). is_job uid k j' \<and> kj_status j' = J_FAILED) \<and>
    (\<forall>i\<in>set (kd_items (cur s')). mi_uid i = uid \<longrightarrow> mi_pending_job_id i \<noteq> Some k)"
proof -
  obtain j' where j': "j' \<in> set (kd_jobs (cur s'))" "is_job uid k j'" "kj_status j' = J_FAILED"
    using crash_rounds_end [OF assms(1-6)] by (auto simp: s'_def)
  have "refs_ok (kd_jobs (cur s')) (kd_items (cur s'))"
    unfolding s'_def by (rule kdb_okD(3) [OF crash_rounds_ok [OF assms(1)]])
  with j' show ?thesis by (force simp: refs_ok_def is_job_def)
qed

section \<open>Examples\<close>

definition sample_job :: "int \<Rightarrow> job_operation \<Rightarrow> knowledge_job" where
  "sample_job k op = \<lparr>kj_id = k, kj_uid = ''u'', kj_parent_job_id = None, kj_operation = op,
     kj_dedupe_key = replicate (nat k) CHR ''d'', kj_request_hash = ''h'', kj_active_change_key = None,
     kj_status = J_PENDING, kj_knowledge_base_id = 1, kj_knowledge_id = None, kj_expected_version = None,
     kj_payload = JObj [], kj_result = None, kj_error = None, kj_source_session_id = None,
     kj_source_profile_id = None, kj_source_message_id = None, kj_available_at = 0, kj_attempt_count = 0,
     kj_max_attempts = 3, kj_locked_by = None, kj_lock_until = None, kj_cancel_requested_at = None,
     kj_created_at = 0, kj_updated_at = 0, kj_started_at = None, kj_finished_at = None\<rparr>"

definition sample_item :: "int \<Rightarrow> int option \<Rightarrow> managed_item" where
  "sample_item k pending = \<lparr>mi_id = k, mi_knowledge_base_id = 1, mi_uid = ''u'', mi_knowledge_key = None,
     mi_content = ''c'', mi_content_token_count = 1, mi_content_hash = None, mi_version = 1, mi_source_type = SRC_USER_API,
     mi_source_reference = None, mi_source_job_id = None, mi_created_by = ACTOR_USER, mi_last_modified_by = ACTOR_USER,
     mi_llm_maintainable = False, mi_indexed_version = 0, mi_vector_item_ids = [], mi_is_recallable = False,
     mi_pending_job_id = pending, mi_organization_lock_token = None, mi_created_at = 0, mi_updated_at = 0,
     mi_deleted_at = None, mi_last_recalled_at = None\<rparr>"

text \<open>A document to index, a running organisation run held by \<open>w\<close> until 100, and its succeeded child.\<close>

definition sample_knowledge :: knowledge_db where
  "sample_knowledge = \<lparr>kd_bases = [(1, ''u'')],
     kd_jobs = [sample_job 1 USER_DOCUMENT_INDEX,
       (sample_job 2 AUTO_ORGANIZE)\<lparr>kj_status := J_RUNNING, kj_locked_by := Some ''w'', kj_lock_until := Some 100,
          kj_started_at := Some 0, kj_attempt_count := 1\<rparr>,
       (sample_job 3 ORGANIZE_MUTATION)\<lparr>kj_parent_job_id := Some 2, kj_status := J_SUCCEEDED, kj_finished_at := Some 7\<rparr>],
     kd_items = [sample_item 9 (Some 1)]\<rparr>"

lemma sample_knowledge_ok: "kdb_ok sample_knowledge" "runs_complete sample_knowledge"
  by (simp_all add: kdb_ok_def keys_ok_def job_ok_def refs_ok_def runs_complete_def sample_knowledge_def sample_job_def
      sample_item_def TERMINAL_STATUSES_def numeral_eq_Suc unsuccessful_child_def ORGANIZATION_OPERATIONS_def)

lemma sample_knowledge_rows:
  "sample_job 1 USER_DOCUMENT_INDEX \<in> set (kd_jobs sample_knowledge)"
  "job_holder sample_knowledge (''u'', 2) = Some (''w'', 100)"
  by (simp_all add: sample_knowledge_def sample_job_def job_holder_def key_view_def row_lease_def)

theorem knowledge_jobs_invariant_witness:
  "kdb_ok (cur (run_ops [(True, Op_claim ''u'' 1 (Some ''x'') None 30 None 5),
     (True, Op_finish J_SUCCEEDED None None ''u'' 1 ''x'' 20)] (open_session sample_knowledge)))"
  using knowledge_jobs_invariant [of "open_session sample_knowledge" "[(True, Op_claim ''u'' 1 (Some ''x'') None 30 None 5)]"
      True "Op_finish J_SUCCEEDED None None ''u'' 1 ''x'' 20"] sample_knowledge_ok(1)
  by (simp add: TERMINAL_STATUSES_def del: run_ops_simps)

theorem knowledge_claim_protected_witness:
  "job_holder (cur (run_ops [(False, Op_recover 0 None None 50), (True, Op_finish J_FAILED None None ''u'' 2 ''x'' 50),
     (True, Op_cancel ''u'' 2 60 60)] (open_session sample_knowledge))) (''u'', 2) = Some (''w'', 100)"
  using knowledge_claim_protected [of "open_session sample_knowledge" "''u''" 2 "''w''" 100
      "[(False, Op_recover 0 None None 50), (True, Op_finish J_FAILED None None ''u'' 2 ''x'' 50), (True, Op_cancel ''u'' 2 60 60)]"]
    sample_knowledge_ok(1) sample_knowledge_rows(2)
  by (simp add: TERMINAL_STATUSES_def del: run_ops_simps)

theorem organisation_success_complete_witness:
  "runs_complete (cur (run_ops [(True, Op_finish J_SUCCEEDED None None ''u'' 2 ''w'' 50), (True, Op_cancel ''u'' 3 60 60)]
     (open_session sample_knowledge)))"
  using organisation_success_complete [of "open_session sample_knowledge"
      "[(True, Op_finish J_SUCCEEDED None None ''u'' 2 ''w'' 50), (True, Op_cancel ''u'' 3 60 60)]"] sample_knowledge_ok
  by (simp add: TERMINAL_STATUSES_def del: run_ops_simps)

theorem job_recover_bulk_witness:
  "rowcount (expired_job 200) (kd_jobs (cur (fst (job_recover_expired 5 None (Some ''e'') 200 True (open_session sample_knowledge))))) = 0"
  using job_recover_bulk [of "open_session sample_knowledge" 5 None "Some ''e''" 200 True] sample_knowledge_ok(1)
  unfolding open_session_fields by blast

theorem abandoned_job_ends_witness:
  "\<exists>j'\<in>set (kd_jobs (cur (crash_rounds ''u'' 1 10 None None [(''x'', 30, 5, 50), (''y'', 30, 60, 100), (''x'', 30, 110, 150)]
     (open_session sample_knowledge)))). is_job ''u'' 1 j' \<and> kj_status j' = J_FAILED"
proof -
  have w: "waits ''u'' 1 (sample_job 1 USER_DOCUMENT_INDEX)"
    by (simp add: waits_def is_job_def sample_job_def is_system_cleanup_operation_def SYSTEM_CLEANUP_OPERATIONS_def)
  have t: "timely 10 (kj_available_at (sample_job 1 USER_DOCUMENT_INDEX))
      [(''x'', 30, 5, 50), (''y'', 30, 60, 100), (''x'', 30, 110, 150)]"
    by (simp add: sample_job_def blank_name_def)
  show ?thesis
    using abandoned_job_ends [OF _ _ w t, of "open_session sample_knowledge" None None] sample_knowledge_ok(1)
      sample_knowledge_rows(1)
    by (simp add: sample_job_def)
qed

end
