(* ===== verification/Context_Plan.thy ===== *)
theory Context_Plan
  imports Py_Text Complex_Main "HOL-Library.Log_Nat"
begin

text \<open>
  The plan of a context summary (\<open>build_balanced_fragment_plan\<close> of
  \<open>src/app/core/utils/context_summary/pipeline.py\<close>): consecutive units of a conversation are grouped
  into fragments of at most \<open>max_fragment_tokens\<close>. The first part computes, with two pointers and a
  backward pass, the least number of fragments from every position; the second walks forward and
  ends each fragment near the average of what is left, as long as the rest still fits into the
  fragments left. Python's floats are IEEE doubles: \<open>fl\<close> rounds a rational to 53 bits, ties to even
  (token counts are far from overflow).
\<close>

section \<open>Floating point\<close>

definition pow2 :: "int \<Rightarrow> rat" where
  "pow2 k = (if k \<ge> 0 then 2 ^ nat k else 1 / 2 ^ nat (- k))"

definition round_half_even :: "rat \<Rightarrow> int" where
  "round_half_even x = (let f = \<lfloor>x\<rfloor>; r = x - of_int f
     in if r < 1 / 2 \<or> r = 1 / 2 \<and> even f then f else f + 1)"

text \<open>The exponent of a positive rational: \<open>2 ^ e \<le> x < 2 ^ (e + 1)\<close>.\<close>

definition bin_exp :: "rat \<Rightarrow> int" where
  "bin_exp x = (let (n, d) = quotient_of x; e = bitlen n - bitlen d in if pow2 e \<le> x then e else e - 1)"

definition fl_pos :: "rat \<Rightarrow> rat" where
  "fl_pos x = (let k = 52 - bin_exp x in of_int (round_half_even (x * pow2 k)) * pow2 (- k))"

definition fl :: "rat \<Rightarrow> rat" where
  "fl x = (if x = 0 then 0 else if x < 0 then - fl_pos (- x) else fl_pos x)"

definition int_div_float :: "int \<Rightarrow> nat \<Rightarrow> rat" where
  "int_div_float a n = fl (of_int a / of_nat n)"

definition float_distance :: "int \<Rightarrow> rat \<Rightarrow> rat" where
  "float_distance a x = \<bar>fl (fl (of_int a) - x)\<bar>"

section \<open>The plan\<close>

record fragment_plan =
  unit_counts :: "nat list"
  token_counts :: "int list"

definition fragment_count :: "fragment_plan \<Rightarrow> nat" where
  "fragment_count p = length (unit_counts p)"

text \<open>The first unit count that is refused.\<close>

fun check_units :: "int \<Rightarrow> int list \<Rightarrow> py_error option" where
  "check_units m [] = None"
| "check_units m (c # cs) =
     (if c \<le> 0 then Some (ValueError ''ERR_VALUE_MUST_BE_POSITIVE'')
      else if c > m then Some (RuntimeError ''ERR_CONTEXT_SUMMARY_CHUNK_OVER_BUDGET'')
      else check_units m cs)"

text \<open>The inner loop of the window: it grows while the next unit fits.\<close>

function grow :: "int \<Rightarrow> int list \<Rightarrow> nat \<Rightarrow> int \<Rightarrow> nat \<times> int" where
  "grow m cs window_end window_tokens =
     (if window_end < length cs \<and> window_tokens + cs ! window_end \<le> m
      then grow m cs (Suc window_end) (window_tokens + cs ! window_end)
      else (window_end, window_tokens))"
  by pat_completeness auto
termination by (relation "measure (\<lambda>(m, cs, e, t). length cs - e)") auto

declare grow.simps [simp del]

fun next_starts :: "int \<Rightarrow> int list \<Rightarrow> nat list \<Rightarrow> nat \<Rightarrow> int \<Rightarrow> nat list" where
  "next_starts m cs [] window_end window_tokens = []"
| "next_starts m cs (window_start # rest) window_end window_tokens =
     (let (e, t) = grow m cs window_end window_tokens
      in e # next_starts m cs rest e (t - cs ! window_start))"

definition next_fragment_start :: "int \<Rightarrow> int list \<Rightarrow> nat list" where
  "next_fragment_start m cs = next_starts m cs [0..<length cs] 0 0"

text \<open>The backward pass; the list built so far belongs to the positions from \<open>Suc i\<close> on.\<close>

definition minimum_fragments_from :: "nat list \<Rightarrow> nat list" where
  "minimum_fragments_from nxt = foldr (\<lambda>i ms. Suc (ms ! (nxt ! i - Suc i)) # ms) [0..<length nxt] [0]"

text \<open>The search for the end of one fragment over the ends and their last units; \<open>best\<close> is the end,
  its tokens and its distance.\<close>

fun choose_end :: "int \<Rightarrow> nat list \<Rightarrow> nat \<Rightarrow> rat \<Rightarrow> (nat \<times> int) list \<Rightarrow> int \<Rightarrow> (nat \<times> int \<times> rat) option \<Rightarrow>
    (nat \<times> int \<times> rat) option" where
  "choose_end m mins rest_fragments target [] running best = best"
| "choose_end m mins rest_fragments target ((e, c) # ends) running best =
     (let r = running + c in
      if r > m then best
      else if mins ! e > rest_fragments then choose_end m mins rest_fragments target ends r best
      else (let d = float_distance r target;
                better = (case best of None \<Rightarrow> True | Some (be, bt, bd) \<Rightarrow> d < bd \<or> d = bd \<and> r > bt);
                best' = (if better then Some (e, r, d) else best)
            in if of_int r \<ge> target \<and> best' \<noteq> None then best'
               else choose_end m mins rest_fragments target ends r best'))"

fun plan_loop :: "int \<Rightarrow> int list \<Rightarrow> nat list \<Rightarrow> nat \<Rightarrow> nat \<Rightarrow> int \<Rightarrow> py_error + nat list \<times> int list" where
  "plan_loop m cs mins 0 start remaining = Inl (RuntimeError ''ERR_CONTEXT_SUMMARY_FRAGMENT_COUNT_MISMATCH'')"
| "plan_loop m cs mins (Suc 0) start remaining =
     (if start \<ge> length cs \<or> remaining > m then Inl (RuntimeError ''ERR_CONTEXT_SUMMARY_FRAGMENT_COUNT_MISMATCH'')
      else Inr ([length cs - start], [remaining]))"
| "plan_loop m cs mins (Suc (Suc k)) start remaining =
     (let latest = length cs - Suc k;
          ends = map (\<lambda>e. (e, cs ! (e - 1))) [Suc start..<Suc latest]
      in case choose_end m mins (Suc k) (int_div_float remaining (Suc (Suc k))) ends 0 None of
           None \<Rightarrow> Inl (RuntimeError ''ERR_CONTEXT_SUMMARY_FRAGMENT_COUNT_MISMATCH'')
         | Some (e, t, d) \<Rightarrow>
             (case plan_loop m cs mins (Suc k) e (remaining - t) of
                Inl err \<Rightarrow> Inl err
              | Inr (us, ts) \<Rightarrow> Inr ((e - start) # us, t # ts)))"

definition build_balanced_fragment_plan :: "int list \<Rightarrow> int \<Rightarrow> py_error + fragment_plan" where
  "build_balanced_fragment_plan cs m =
     (if m \<le> 0 then Inl (ValueError ''ERR_VALUE_MUST_BE_POSITIVE'')
      else if cs = [] then Inr \<lparr>unit_counts = [], token_counts = []\<rparr>
      else (case check_units m cs of
              Some e \<Rightarrow> Inl e
            | None \<Rightarrow>
                (let mins = minimum_fragments_from (next_fragment_start m cs)
                 in case plan_loop m cs mins (mins ! 0) 0 (sum_list cs) of
                      Inl e \<Rightarrow> Inl e
                    | Inr (us, ts) \<Rightarrow> Inr \<lparr>unit_counts = us, token_counts = ts\<rparr>)))"

end
