(* ===== verification/Context_Plan_Laws.thy ===== *)
theory Context_Plan_Laws
  imports Context_Plan
begin

text \<open>
  The plan exists for all admissible units, covers them in order, respects the budget of every
  fragment and uses the least possible number of fragments.
\<close>

section \<open>Prefix sums\<close>

definition units_ok :: "int \<Rightarrow> int list \<Rightarrow> bool" where
  "units_ok m cs \<longleftrightarrow> (\<forall>c\<in>set cs. 0 < c \<and> c \<le> m)"

definition tokens_until :: "int list \<Rightarrow> nat \<Rightarrow> int" where
  "tokens_until cs e = sum_list (take e cs)"

lemma tokens_until_Suc: "e < length cs \<Longrightarrow> tokens_until cs (Suc e) = tokens_until cs e + cs ! e"
  by (simp add: tokens_until_def take_Suc_conv_app_nth)

lemma tokens_until_0 [simp]: "tokens_until cs 0 = 0"
  by (simp add: tokens_until_def)

lemma tokens_until_length [simp]: "tokens_until cs (length cs) = sum_list cs"
  by (simp add: tokens_until_def)

lemma unit_bounds: "units_ok m cs \<Longrightarrow> i < length cs \<Longrightarrow> 0 < cs ! i \<and> cs ! i \<le> m"
  by (simp add: units_ok_def)

lemma tokens_until_mono:
  assumes "units_ok m cs" "i \<le> j" "j \<le> length cs"
  shows "tokens_until cs i \<le> tokens_until cs j"
  using assms(2,3)
proof (induction rule: dec_induct)
  case (step n)
  then show ?case using unit_bounds [OF assms(1), of n] tokens_until_Suc [of n cs] by simp
qed simp

lemma tokens_until_slice:
  assumes "i \<le> j"
  shows "sum_list (take (j - i) (drop i cs)) = tokens_until cs j - tokens_until cs i"
proof -
  have "take j cs = take i cs @ take (j - i) (drop i cs)"
    using take_add [of i "j - i" cs] assms by simp
  then show ?thesis by (simp add: tokens_until_def)
qed

section \<open>The farthest end of a fragment\<close>

definition farthest :: "int \<Rightarrow> int list \<Rightarrow> nat \<Rightarrow> nat \<Rightarrow> bool" where
  "farthest m cs i e \<longleftrightarrow> i < e \<and> e \<le> length cs \<and> tokens_until cs e - tokens_until cs i \<le> m \<and>
     (e < length cs \<longrightarrow> m < tokens_until cs (Suc e) - tokens_until cs i)"

lemma farthest_max:
  assumes "units_ok m cs" "farthest m cs i e" "j \<le> length cs" "tokens_until cs j - tokens_until cs i \<le> m"
  shows "j \<le> e"
proof (rule ccontr)
  assume "\<not> j \<le> e"
  then have "tokens_until cs (Suc e) \<le> tokens_until cs j" "e < length cs"
    using assms(3) by (auto intro: tokens_until_mono [OF assms(1)])
  then show False using assms(2,4) by (simp add: farthest_def)
qed

lemma grow_farthest:
  assumes "units_ok m cs" "e \<le> length cs" "t = tokens_until cs e - tokens_until cs i" "t \<le> m"
    "grow m cs e t = (e', t')"
  shows "e \<le> e' \<and> e' \<le> length cs \<and> t' = tokens_until cs e' - tokens_until cs i \<and> t' \<le> m \<and>
    (e' < length cs \<longrightarrow> m < tokens_until cs (Suc e') - tokens_until cs i)"
  using assms(2-5)
proof (induction m cs e t rule: grow.induct)
  case (1 m cs e t)
  show ?case
  proof (cases "e < length cs \<and> t + cs ! e \<le> m")
    case True
    then have "grow m cs (Suc e) (t + cs ! e) = (e', t')" using "1.prems"(4) by (simp add: grow.simps [of m cs e t])
    then show ?thesis using "1.IH" [OF True] True "1.prems" tokens_until_Suc [of e cs] by simp
  next
    case False
    then have "grow m cs e t = (e, t)" unfolding grow.simps [of m cs e t] by (simp only: if_False)
    then have "e' = e" "t' = t" using "1.prems"(4) by simp_all
    then show ?thesis using False "1.prems"(1-3) tokens_until_Suc [of e cs] by auto
  qed
qed

lemma next_starts_farthest:
  assumes "units_ok m cs" "s \<le> length cs" "s \<le> e" "e \<le> length cs" "t = tokens_until cs e - tokens_until cs s" "t \<le> m"
  shows "length (next_starts m cs [s..<length cs] e t) = length cs - s \<and>
    (\<forall>k<length cs - s. farthest m cs (s + k) (next_starts m cs [s..<length cs] e t ! k))"
  using assms(2-6)
proof (induction "length cs - s" arbitrary: s e t)
  case 0
  then show ?case by simp
next
  case (Suc n)
  then have s: "s < length cs" by simp
  obtain e' t' where g: "grow m cs e t = (e', t')" by fastforce
  note f = grow_farthest [OF assms(1) Suc.prems(3-5) g]
  have first: "0 < cs ! s" "cs ! s \<le> m" using unit_bounds [OF assms(1) s] by simp_all
  have far: "farthest m cs s e'"
  proof -
    have "s \<noteq> e'" using f s first(2) tokens_until_Suc [OF s] by auto
    then show ?thesis using f Suc.prems(2) by (simp add: farthest_def)
  qed
  have run: "next_starts m cs [s..<length cs] e t = e' # next_starts m cs [Suc s..<length cs] e' (t' - cs ! s)"
    using s g by (simp add: upt_conv_Cons)
  have ih: "length (next_starts m cs [Suc s..<length cs] e' (t' - cs ! s)) = length cs - Suc s \<and>
      (\<forall>k<length cs - Suc s. farthest m cs (Suc s + k) (next_starts m cs [Suc s..<length cs] e' (t' - cs ! s) ! k))"
    by (rule Suc.hyps) (use Suc.hyps(2) f far first tokens_until_Suc [OF s] in \<open>auto simp: farthest_def\<close>)
  show ?case unfolding run
    using ih far s by (auto simp: nth_Cons split: nat.split)
qed

lemma next_fragment_start_farthest:
  assumes "units_ok m cs" "0 < m"
  shows "length (next_fragment_start m cs) = length cs"
    "i < length cs \<Longrightarrow> farthest m cs i (next_fragment_start m cs ! i)"
  using next_starts_farthest [OF assms(1), of 0 0 0] assms(2) by (simp_all add: next_fragment_start_def)

section \<open>The least number of fragments\<close>

lemma minimum_fragments_step:
  assumes "\<And>i. i < length nxt \<Longrightarrow> i < nxt ! i \<and> nxt ! i \<le> length nxt" "i \<le> length nxt"
  defines "ms \<equiv> foldr (\<lambda>i ms. Suc (ms ! (nxt ! i - Suc i)) # ms) [i..<length nxt] [0]"
  shows "length ms = Suc (length nxt) - i \<and> ms ! (length nxt - i) = 0 \<and>
    (\<forall>k<length nxt - i. ms ! k = Suc (ms ! (nxt ! (i + k) - i)))"
  using assms(2) unfolding ms_def
proof (induction "length nxt - i" arbitrary: i)
  case 0
  then show ?case by simp
next
  case (Suc n)
  let ?f = "\<lambda>i ms. Suc (ms ! (nxt ! i - Suc i)) # ms"
  let ?ms = "foldr ?f [Suc i..<length nxt] [0]"
  have i: "i < length nxt" using Suc.hyps(2) by simp
  have ih: "length ?ms = Suc (length nxt) - Suc i" "?ms ! (length nxt - Suc i) = 0"
    "\<And>k. k < length nxt - Suc i \<Longrightarrow> ?ms ! k = Suc (?ms ! (nxt ! (Suc i + k) - Suc i))"
    using Suc.hyps(1) [of "Suc i"] Suc.hyps(2) by auto
  have run: "foldr ?f [i..<length nxt] [0] = Suc (?ms ! (nxt ! i - Suc i)) # ?ms"
    using i by (simp add: upt_conv_Cons)
  have behind: "(Suc (?ms ! (nxt ! i - Suc i)) # ?ms) ! (nxt ! j - i) = ?ms ! (nxt ! j - Suc i)"
    if "i \<le> j" "j < length nxt" for j
    using assms(1) [OF that(2)] that(1) by (simp add: nth_Cons' Suc_diff_Suc)
  have step: "(Suc (?ms ! (nxt ! i - Suc i)) # ?ms) ! k = Suc (?ms ! (nxt ! (i + k) - Suc i))"
    if "k < length nxt - i" for k
    using ih(3) [of "k - 1"] that i by (cases k) auto
  show ?case unfolding run
    using ih(1,2) i step behind by (auto simp: nth_Cons')
qed

definition least_from :: "int \<Rightarrow> int list \<Rightarrow> nat \<Rightarrow> nat" where
  "least_from m cs i = minimum_fragments_from (next_fragment_start m cs) ! i"

lemma least_from_step:
  assumes "units_ok m cs" "0 < m"
  shows "least_from m cs (length cs) = 0"
    "i < length cs \<Longrightarrow> least_from m cs i = Suc (least_from m cs (next_fragment_start m cs ! i))"
proof -
  let ?nxt = "next_fragment_start m cs"
  note far = next_fragment_start_farthest [OF assms]
  have "\<And>i. i < length ?nxt \<Longrightarrow> i < ?nxt ! i \<and> ?nxt ! i \<le> length ?nxt"
    using far by (simp add: farthest_def)
  from minimum_fragments_step [OF this, of 0]
  show "least_from m cs (length cs) = 0"
    "i < length cs \<Longrightarrow> least_from m cs i = Suc (least_from m cs (?nxt ! i))"
    by (simp_all add: least_from_def minimum_fragments_from_def far(1))
qed

lemma least_from_antimono:
  assumes "units_ok m cs" "0 < m" "i \<le> j" "j \<le> length cs"
  shows "least_from m cs j \<le> least_from m cs i"
  using assms(3,4)
proof (induction "length cs - i" arbitrary: i j rule: less_induct)
  case less
  note step = least_from_step [OF assms(1,2)]
  let ?n = "\<lambda>i. next_fragment_start m cs ! i"
  show ?case
  proof (cases "j = length cs \<or> i = j")
    case True
    then show ?thesis using step(1) by auto
  next
    case False
    then have ij: "i < length cs" "j < length cs" "i < j" using less.prems by auto
    note fi = next_fragment_start_farthest(2) [OF assms(1,2) ij(1)]
    note fj = next_fragment_start_farthest(2) [OF assms(1,2) ij(2)]
    show ?thesis
    proof (cases "?n i \<le> j")
      case True
      then have "least_from m cs j \<le> least_from m cs (?n i)"
        using fi ij by (intro less.hyps) (auto simp: farthest_def)
      then show ?thesis using step(2) [OF ij(1)] by simp
    next
      case False
      have "tokens_until cs (?n i) - tokens_until cs j \<le> m"
        using fi tokens_until_mono [OF assms(1), of i j] ij by (simp add: farthest_def)
      then have "?n i \<le> ?n j" using fi by (intro farthest_max [OF assms(1) fj]) (auto simp: farthest_def)
      then have "least_from m cs (?n j) \<le> least_from m cs (?n i)"
        using fi fj ij by (intro less.hyps) (auto simp: farthest_def)
      then show ?thesis using step(2) [OF ij(1)] step(2) [OF ij(2)] by simp
    qed
  qed
qed

text \<open>A grouping of units into fragments that fit.\<close>

definition groups_fit :: "int \<Rightarrow> int list list \<Rightarrow> bool" where
  "groups_fit m gs \<longleftrightarrow> (\<forall>g\<in>set gs. g \<noteq> [] \<and> sum_list g \<le> m)"

lemma least_from_minimal:
  assumes "units_ok m cs" "0 < m" "i \<le> length cs" "concat gs = drop i cs" "groups_fit m gs"
  shows "least_from m cs i \<le> length gs"
  using assms(3-5)
proof (induction gs arbitrary: i)
  case Nil
  then show ?case using least_from_step(1) [OF assms(1,2)] by simp
next
  case (Cons g gs)
  let ?e = "i + length g"
  have g: "g \<noteq> []" "sum_list g \<le> m" using Cons.prems(3) by (simp_all add: groups_fit_def)
  have cut: "g = take (length g) (drop i cs)" "concat gs = drop (length g) (drop i cs)"
    using Cons.prems(2) by (metis append_eq_conv_conj concat.simps(2))+
  have e: "?e \<le> length cs"
    using arg_cong [OF Cons.prems(2), of length] Cons.prems(1) by simp
  have i: "i < length cs" using e g(1) by (cases g) auto
  have "sum_list g = tokens_until cs ?e - tokens_until cs i"
    using tokens_until_slice [of i ?e cs] cut(1) by simp
  then have le: "?e \<le> next_fragment_start m cs ! i"
    using g(2) by (intro farthest_max [OF assms(1) next_fragment_start_farthest(2) [OF assms(1,2) i] e]) simp
  have "least_from m cs ?e \<le> length gs"
    by (rule Cons.IH [OF e]) (use cut(2) Cons.prems(3) in \<open>auto simp: groups_fit_def add.commute\<close>)
  moreover have "least_from m cs (next_fragment_start m cs ! i) \<le> least_from m cs ?e"
    using le next_fragment_start_farthest(2) [OF assms(1,2) i]
    by (intro least_from_antimono [OF assms(1,2)]) (auto simp: farthest_def)
  ultimately show ?case using least_from_step(2) [OF assms(1,2) i] by simp
qed

lemma least_from_bound:
  assumes "units_ok m cs" "0 < m" "i \<le> length cs"
  shows "least_from m cs i \<le> length cs - i"
proof -
  have "least_from m cs i \<le> length (map (\<lambda>c. [c]) (drop i cs))"
    by (rule least_from_minimal [OF assms])
      (use assms(1) in \<open>auto simp: groups_fit_def units_ok_def concat_map_singleton dest: in_set_dropD\<close>)
  then show ?thesis by simp
qed

section \<open>The forward pass\<close>

text \<open>An end that the fragment from \<open>s\<close> may take when \<open>r\<close> fragments are to follow.\<close>

definition end_ok :: "int \<Rightarrow> int list \<Rightarrow> nat \<Rightarrow> nat \<Rightarrow> nat \<Rightarrow> int \<Rightarrow> bool" where
  "end_ok m cs s r e t \<longleftrightarrow> s < e \<and> e \<le> length cs - r \<and> t = tokens_until cs e - tokens_until cs s \<and> t \<le> m \<and>
     least_from m cs e \<le> r"

definition end_list :: "int list \<Rightarrow> nat \<Rightarrow> nat \<Rightarrow> (nat \<times> int) list" where
  "end_list cs a b = map (\<lambda>e. (e, cs ! (e - 1))) [a..<b]"

lemma end_list_Cons: "a < b \<Longrightarrow> end_list cs a b = (a, cs ! (a - 1)) # end_list cs (Suc a) b"
  by (simp add: end_list_def upt_conv_Cons)

lemma choose_end_ok:
  assumes "units_ok m cs" "mins = minimum_fragments_from (next_fragment_start m cs)" "r \<le> length cs"
    and "s < a" "a \<le> Suc (length cs - r)" "running = tokens_until cs (a - 1) - tokens_until cs s"
    and "case best of None \<Rightarrow> True | Some (e, t, d) \<Rightarrow> end_ok m cs s r e t"
  shows "case choose_end m mins r target (end_list cs a (Suc (length cs - r))) running best of
      None \<Rightarrow> best = None \<and> (\<forall>e t. a \<le> e \<longrightarrow> \<not> end_ok m cs s r e t)
    | Some (e, t, d) \<Rightarrow> end_ok m cs s r e t"
  using assms(4-7)
proof (induction "Suc (length cs - r) - a" arbitrary: a running best)
  case 0
  then have "end_list cs a (Suc (length cs - r)) = []" by (simp add: end_list_def)
  then show ?case using 0 by (auto simp: end_ok_def split: option.splits)
next
  case (Suc n)
  have a: "a \<le> length cs - r" "0 < a" using Suc.hyps(2) Suc.prems(1) by simp_all
  let ?R = "running + cs ! (a - 1)"
  have R: "?R = tokens_until cs a - tokens_until cs s"
    using tokens_until_Suc [of "a - 1" cs] a assms(3) Suc.prems(3) by simp
  have mins: "mins ! a = least_from m cs a" by (simp add: least_from_def assms(2))
  have ih: "case choose_end m mins r target (end_list cs (Suc a) (Suc (length cs - r))) ?R best' of
      None \<Rightarrow> best' = None \<and> (\<forall>e t. Suc a \<le> e \<longrightarrow> \<not> end_ok m cs s r e t)
    | Some (e, t, d) \<Rightarrow> end_ok m cs s r e t"
    if "case best' of None \<Rightarrow> True | Some (e, t, d) \<Rightarrow> end_ok m cs s r e t" for best'
    by (rule Suc.hyps(1)) (use Suc.hyps(2) a R that Suc.prems(1) in auto)
  have only: "a \<le> e \<longleftrightarrow> e = a \<or> Suc a \<le> e" for e by auto
  note run = end_list_Cons [of a "Suc (length cs - r)" cs]
  show ?case
  proof (cases "?R > m")
    case True
    have "\<not> end_ok m cs s r e t" if "a \<le> e" for e t
    proof
      assume e: "end_ok m cs s r e t"
      have "tokens_until cs a \<le> tokens_until cs e"
        using e that by (intro tokens_until_mono [OF assms(1)]) (auto simp: end_ok_def)
      then show False using e R True by (simp add: end_ok_def)
    qed
    moreover have "choose_end m mins r target (end_list cs a (Suc (length cs - r))) running best = best"
      using True a by (simp add: run Let_def)
    ultimately show ?thesis using Suc.prems(4) by (cases best) auto
  next
    case small: False
    show ?thesis
    proof (cases "mins ! a > r")
      case True
      then have no: "\<not> end_ok m cs s r a t" for t by (simp add: end_ok_def mins)
      have eq: "choose_end m mins r target (end_list cs a (Suc (length cs - r))) running best =
          choose_end m mins r target (end_list cs (Suc a) (Suc (length cs - r))) ?R best"
        using True small a by (simp add: run Let_def)
      show ?thesis unfolding eq using ih [OF Suc.prems(4)] no by (auto simp: only split: option.splits)
    next
      case False
      then have ok: "end_ok m cs s r a ?R" using small a Suc.prems(1) R mins by (simp add: end_ok_def)
      define best' where "best' = (if (case best of None \<Rightarrow> True | Some (be, bt, bd) \<Rightarrow>
            float_distance ?R target < bd \<or> float_distance ?R target = bd \<and> ?R > bt)
          then Some (a, ?R, float_distance ?R target) else best)"
      have some: "best' \<noteq> None" by (auto simp: best'_def split: option.splits)
      have good: "case best' of None \<Rightarrow> True | Some (e, t, d) \<Rightarrow> end_ok m cs s r e t"
        using Suc.prems(4) ok by (auto simp: best'_def split: option.splits)
      have "choose_end m mins r target (end_list cs a (Suc (length cs - r))) running best =
          (if of_int ?R \<ge> target \<and> best' \<noteq> None then best'
           else choose_end m mins r target (end_list cs (Suc a) (Suc (length cs - r))) ?R best')"
        unfolding run [OF le_imp_less_Suc [OF a(1)]] choose_end.simps(2) Let_def best'_def [symmetric]
        using small False by simp
      then show ?thesis using ih [OF good] good some by (auto split: option.splits)
    qed
  qed
qed

fun chop :: "nat list \<Rightarrow> 'a list \<Rightarrow> 'a list list" where
  "chop [] xs = []"
| "chop (n # ns) xs = take n xs # chop ns (drop n xs)"

lemma length_chop [simp]: "length (chop ns xs) = length ns"
  by (induction ns arbitrary: xs) auto

lemma concat_chop: "sum_list ns = length xs \<Longrightarrow> concat (chop ns xs) = xs"
  by (induction ns arbitrary: xs) auto

lemma plan_loop_ok:
  assumes "units_ok m cs" "0 < m" "mins = minimum_fragments_from (next_fragment_start m cs)"
    and "s < length cs" "0 < k" "least_from m cs s \<le> k" "k \<le> length cs - s"
    and "remaining = tokens_until cs (length cs) - tokens_until cs s"
  shows "\<exists>us ts. plan_loop m cs mins k s remaining = Inr (us, ts) \<and> length us = k \<and> (\<forall>u\<in>set us. 0 < u) \<and>
    sum_list us = length cs - s \<and> ts = map sum_list (chop us (drop s cs)) \<and> (\<forall>t\<in>set ts. t \<le> m)"
  using assms(4-8)
proof (induction k arbitrary: s remaining)
  case 0
  then show ?case by simp
next
  case (Suc k)
  note step = least_from_step [OF assms(1,2)]
  note far = next_fragment_start_farthest(2) [OF assms(1,2) Suc.prems(1)]
  let ?nx = "next_fragment_start m cs ! s"
  have next_le: "least_from m cs ?nx \<le> k" using step(2) [OF Suc.prems(1)] Suc.prems(3) by simp
  show ?case
  proof (cases k)
    case 0
    have "?nx = length cs"
    proof (rule ccontr)
      assume "?nx \<noteq> length cs"
      then have "?nx < length cs" using far by (simp add: farthest_def)
      then show False using step(2) [of ?nx] next_le 0 by simp
    qed
    then have "remaining \<le> m" using far Suc.prems(5) by (simp add: farthest_def)
    moreover have "remaining = sum_list (take (length cs - s) (drop s cs))"
      using tokens_until_slice [of s "length cs" cs] Suc.prems(1,5) by simp
    ultimately show ?thesis using Suc.prems(1) 0 by simp
  next
    case (Suc k')
    define c where "c = choose_end m mins k (int_div_float remaining (Suc k)) (end_list cs (Suc s) (Suc (length cs - k))) 0 None"
    have k: "k \<le> length cs" "s \<le> length cs - k" "0 < k" using Suc.prems(4) Suc by auto
    have spec: "case c of None \<Rightarrow> \<forall>e t. Suc s \<le> e \<longrightarrow> \<not> end_ok m cs s k e t | Some (e, t, d) \<Rightarrow> end_ok m cs s k e t"
      using choose_end_ok [OF assms(1,3) k(1), of s "Suc s" 0 None "int_div_float remaining (Suc k)"] k
      by (auto simp: c_def split: option.splits)
    define e0 where "e0 = min ?nx (length cs - k)"
    have "end_ok m cs s k e0 (tokens_until cs e0 - tokens_until cs s)"
    proof -
      have lt: "s < e0" using far Suc.prems(1,4) k by (auto simp: e0_def farthest_def)
      have "tokens_until cs e0 \<le> tokens_until cs ?nx"
        using far by (intro tokens_until_mono [OF assms(1)]) (auto simp: e0_def farthest_def)
      moreover have "least_from m cs e0 \<le> k"
        using next_le least_from_bound [OF assms(1,2), of "length cs - k"] k(1) by (auto simp: e0_def min_def)
      ultimately show ?thesis using lt far by (auto simp: end_ok_def farthest_def e0_def)
    qed
    then obtain e t d where c: "c = Some (e, t, d)" "end_ok m cs s k e t"
      using spec by (fastforce simp: end_ok_def split: option.splits)
    have e: "s < e" "e \<le> length cs - k" "t = tokens_until cs e - tokens_until cs s" "t \<le> m" "least_from m cs e \<le> k"
      using c(2) by (simp_all add: end_ok_def)
    obtain us ts where ih: "plan_loop m cs mins k e (remaining - t) = Inr (us, ts)" "length us = k" "\<forall>u\<in>set us. 0 < u"
      "sum_list us = length cs - e" "ts = map sum_list (chop us (drop e cs))" "\<forall>t\<in>set ts. t \<le> m"
    proof -
      have lt: "e < length cs" "k \<le> length cs - e" using e k by auto
      have rem: "remaining - t = tokens_until cs (length cs) - tokens_until cs e" using e(3) Suc.prems(5) by simp
      show thesis using Suc.IH [OF lt(1) k(3) e(5) lt(2) rem] that by blast
    qed
    have "plan_loop m cs mins (Suc k) s remaining = Inr ((e - s) # us, t # ts)"
      using c(1) ih(1) Suc by (simp add: c_def end_list_def Let_def)
    moreover have "sum_list (take (e - s) (drop s cs)) = t" using tokens_until_slice [of s e cs] e by simp
    ultimately show ?thesis using ih e k by simp
  qed
qed

lemma check_units_ok: "check_units m cs = None \<longleftrightarrow> units_ok m cs"
  by (induction cs) (auto simp: units_ok_def)

text \<open>C40: For every positive budget and all unit sizes the plan either refuses the first unit that
  is not positive or exceeds the budget, or it succeeds: the fragments are non-empty, consecutive
  and cover all units, the recorded sizes are theirs, every fragment respects the budget, and no
  other grouping of the units within the budget has fewer fragments. In particular the two
  checks for an inconsistent count, which guard the forward pass, never fire.\<close>

theorem balanced_plan_correct:
  assumes "0 < m"
  shows "case build_balanced_fragment_plan cs m of
      Inl e \<Rightarrow> check_units m cs = Some e
    | Inr p \<Rightarrow> units_ok m cs \<and> concat (chop (unit_counts p) cs) = cs \<and> (\<forall>u\<in>set (unit_counts p). 0 < u) \<and>
        token_counts p = map sum_list (chop (unit_counts p) cs) \<and> (\<forall>t\<in>set (token_counts p). t \<le> m) \<and>
        (\<forall>gs. concat gs = cs \<longrightarrow> groups_fit m gs \<longrightarrow> fragment_count p \<le> length gs)"
proof (cases "cs = [] \<or> check_units m cs \<noteq> None")
  case True
  then show ?thesis using assms
    by (auto simp: build_balanced_fragment_plan_def units_ok_def fragment_count_def)
next
  case False
  then have ok: "units_ok m cs" and ne: "0 < length cs" by (simp_all add: check_units_ok)
  let ?mins = "minimum_fragments_from (next_fragment_start m cs)"
  have k: "?mins ! 0 = least_from m cs 0" by (simp add: least_from_def)
  obtain us ts where p: "plan_loop m cs ?mins (?mins ! 0) 0 (sum_list cs) = Inr (us, ts)"
    "length us = ?mins ! 0" "\<forall>u\<in>set us. 0 < u" "sum_list us = length cs"
    "ts = map sum_list (chop us cs)" "\<forall>t\<in>set ts. t \<le> m"
    using plan_loop_ok [OF ok assms refl ne, of "?mins ! 0" "sum_list cs"] least_from_step(2) [OF ok assms ne]
      least_from_bound [OF ok assms, of 0] k by auto
  have "fragment_count \<lparr>unit_counts = us, token_counts = ts\<rparr> \<le> length gs"
    if "concat gs = cs" "groups_fit m gs" for gs
    using least_from_minimal [OF ok assms, of 0 gs] that p(2) k by (simp add: fragment_count_def)
  then show ?thesis
    using False assms ok p concat_chop [of us cs] by (simp add: build_balanced_fragment_plan_def Let_def)
qed

theorem balanced_plan_witness:
  "\<exists>p. build_balanced_fragment_plan [10, 20, 30, 5] 35 = Inr p \<and> concat (chop (unit_counts p) [10, 20, 30, 5]) = [10, 20, 30, 5 :: int] \<and>
     (\<forall>t\<in>set (token_counts p). t \<le> 35) \<and> fragment_count p \<le> 2"
proof -
  have "check_units 35 [10, 20, 30, 5] = None" by simp
  moreover have "groups_fit 35 [[10, 20], [30, 5]]" by (simp add: groups_fit_def)
  ultimately show ?thesis
    using balanced_plan_correct [of 35 "[10, 20, 30, 5]"]
    by (cases "build_balanced_fragment_plan [10, 20, 30, 5] 35") (auto dest: spec [of _ "[[10, 20], [30, 5]]"])
qed

end
