(* ===== verification/Context_Pipeline.thy ===== *)
theory Context_Pipeline
  imports Prelude
begin

text \<open>
  The bounded pipeline that summarises the fragments of a conversation
  (\<open>run_bounded_fragment_pipeline\<close> of \<open>src/app/core/utils/context_summary/pipeline.py\<close>): a producer
  puts fragments into a bounded queue, several workers turn them into results and put those into a
  second bounded queue, and one task persists the results in the order of their index. The producer
  takes a slot of a semaphore for each fragment, which is given back when its result is persisted.

  A task is a state machine whose states are its suspension points; one step runs it to the next
  one, so every schedule of asyncio (and finer ones) is a sequence of steps. A step that would block is
  not enabled. An exception ends its task and is collected in \<open>raised\<close>; from then on the task
  group may cancel the other tasks at any of their suspension points. The source of the fragments and the two
  callbacks are parameters. The field \<open>persisted\<close> is the log of the calls of \<open>persist_fragment\<close> that returned.
\<close>

section \<open>State\<close>

record fragment_input =
  fi_index :: int
  fi_start :: int
  fi_end :: int
  fi_tokens :: int
  fi_content :: string
  fi_existing :: "string option"

record fragment_result =
  fr_index :: int
  fr_start :: int
  fr_end :: int
  fr_content :: string
  fr_tokens :: int

record pipeline =
  expected_count :: int
  first_index :: int
  concurrency :: int
  input_capacity :: int
  result_capacity :: int
  reorder_window :: int
  process_fragment :: "fragment_input \<Rightarrow> py_error + fragment_result"
  persist_fragment :: "fragment_result \<Rightarrow> py_error option"

record pipeline_stats =
  max_active :: nat
  max_input :: nat
  max_results :: nat
  max_reorder :: nat

datatype producer = Fetching | Acquiring fragment_input | Putting fragment_input | Stopping nat | P_ended
datatype worker = Getting | Processing fragment_input | Delivering fragment_result | W_ended
datatype persister = Receiving | Draining | Persisting fragment_result | S_ended

record pipe_state =
  fragments :: "(py_error + fragment_input) list"
  producer :: producer
  produced_count :: int
  slots :: int
  input_queue :: "fragment_input option list"
  workers :: "worker list"
  active_tasks :: nat
  result_queue :: "fragment_result list"
  persister :: persister
  next_index :: int
  reorder_buffer :: "(int \<times> fragment_result) list"
  persisted :: "fragment_result list"
  stats :: pipeline_stats
  raised :: "py_error list"

section \<open>The tasks\<close>

text \<open>\<open>produce\<close>: one step of the producer; \<open>None\<close> when it waits or has ended.\<close>

definition produce_step :: "pipeline \<Rightarrow> pipe_state \<Rightarrow> pipe_state option" where
  "produce_step p s = (case producer s of
      Fetching \<Rightarrow>
        (case fragments s of
           [] \<Rightarrow> Some (if produced_count s \<noteq> expected_count p
                      then s\<lparr>producer := P_ended, raised := raised s @ [RuntimeError ''ERR_CONTEXT_SUMMARY_FRAGMENT_COUNT_MISMATCH'']\<rparr>
                      else s\<lparr>producer := Stopping (nat (concurrency p))\<rparr>)
         | Inl e # fs \<Rightarrow> Some (s\<lparr>fragments := fs, producer := P_ended, raised := raised s @ [e]\<rparr>)
         | Inr f # fs \<Rightarrow> Some (s\<lparr>fragments := fs\<rparr>
             \<lparr>producer := (if fi_index f \<noteq> produced_count s \<or> produced_count s \<ge> expected_count p then P_ended else Acquiring f),
              raised := raised s @ (if fi_index f \<noteq> produced_count s then [RuntimeError ''ERR_CONTEXT_SUMMARY_FRAGMENT_ORDER_INVALID'']
                 else if produced_count s \<ge> expected_count p then [RuntimeError ''ERR_CONTEXT_SUMMARY_FRAGMENT_COUNT_EXCEEDED'']
                 else [])\<rparr>))
    | Acquiring f \<Rightarrow> (if slots s > 0 then Some (s\<lparr>slots := slots s - 1, producer := Putting f\<rparr>) else None)
    | Putting f \<Rightarrow>
        (if int (length (input_queue s)) < input_capacity p
         then Some (s\<lparr>input_queue := input_queue s @ [Some f], produced_count := produced_count s + 1, producer := Fetching,
                      stats := (stats s)\<lparr>max_input := max (max_input (stats s)) (Suc (length (input_queue s)))\<rparr>\<rparr>)
         else None)
    | Stopping 0 \<Rightarrow> Some (s\<lparr>producer := P_ended\<rparr>)
    | Stopping (Suc n) \<Rightarrow>
        (if int (length (input_queue s)) < input_capacity p
         then Some (s\<lparr>input_queue := input_queue s @ [None], producer := Stopping n\<rparr>)
         else None)
    | P_ended \<Rightarrow> None)"

text \<open>\<open>work\<close>: one step of a worker whose own state is \<open>w\<close>.\<close>

definition work_step :: "pipeline \<Rightarrow> worker \<Rightarrow> pipe_state \<Rightarrow> (worker \<times> pipe_state) option" where
  "work_step p w s = (case w of
      Getting \<Rightarrow>
        (case input_queue s of
           [] \<Rightarrow> None
         | None # q \<Rightarrow> Some (W_ended, s\<lparr>input_queue := q\<rparr>)
         | Some f # q \<Rightarrow> Some (Processing f, s\<lparr>input_queue := q, active_tasks := Suc (active_tasks s),
             stats := (stats s)\<lparr>max_active := max (max_active (stats s)) (Suc (active_tasks s))\<rparr>\<rparr>))
    | Processing f \<Rightarrow>
        (let s' = s\<lparr>active_tasks := active_tasks s - 1\<rparr> in
         case process_fragment p f of
           Inl e \<Rightarrow> Some (W_ended, s'\<lparr>raised := raised s @ [e]\<rparr>)
         | Inr r \<Rightarrow> Some (if fr_index r \<noteq> fi_index f
             then (W_ended, s'\<lparr>raised := raised s @ [RuntimeError ''ERR_CONTEXT_SUMMARY_RESULT_INDEX_MISMATCH'']\<rparr>)
             else (Delivering r, s')))
    | Delivering r \<Rightarrow>
        (if int (length (result_queue s)) < result_capacity p
         then Some (Getting, s\<lparr>result_queue := result_queue s @ [r],
                stats := (stats s)\<lparr>max_results := max (max_results (stats s)) (Suc (length (result_queue s)))\<rparr>\<rparr>)
         else None)
    | W_ended \<Rightarrow> None)"

definition waiting_count :: "int \<Rightarrow> (int \<times> fragment_result) list \<Rightarrow> nat" where
  "waiting_count n b = length (filter (\<lambda>(i, r). i > n) b)"

text \<open>\<open>persist_in_order\<close>: the loop over the received results and the inner loop over the buffer.\<close>

definition persist_step :: "pipeline \<Rightarrow> pipe_state \<Rightarrow> pipe_state option" where
  "persist_step p s = (case persister s of
      Receiving \<Rightarrow>
        (if next_index s < expected_count p
         then (case result_queue s of
                 [] \<Rightarrow> None
               | r # q \<Rightarrow> Some (if fr_index r < next_index s \<or> map_of (reorder_buffer s) (fr_index r) \<noteq> None
                   then s\<lparr>result_queue := q, persister := S_ended,
                          raised := raised s @ [RuntimeError ''ERR_CONTEXT_SUMMARY_FRAGMENT_DUPLICATED'']\<rparr>
                   else (let b = (fr_index r, r) # reorder_buffer s
                         in s\<lparr>result_queue := q, persister := Draining, reorder_buffer := b,
                              stats := (stats s)\<lparr>max_reorder := max (max_reorder (stats s)) (waiting_count (next_index s) b)\<rparr>\<rparr>)))
         else Some (s\<lparr>persister := S_ended, raised := raised s @
           (if reorder_buffer s \<noteq> [] then [RuntimeError ''ERR_CONTEXT_SUMMARY_REORDER_RESULTS_RETAINED''] else [])\<rparr>))
    | Draining \<Rightarrow>
        (case map_of (reorder_buffer s) (next_index s) of
           None \<Rightarrow> Some (s\<lparr>persister := Receiving\<rparr>)
         | Some r \<Rightarrow> Some (s\<lparr>persister := Persisting r, reorder_buffer := AList.delete (next_index s) (reorder_buffer s)\<rparr>))
    | Persisting r \<Rightarrow>
        (case persist_fragment p r of
           Some e \<Rightarrow> Some (s\<lparr>persister := S_ended, raised := raised s @ [e]\<rparr>)
         | None \<Rightarrow> Some (s\<lparr>persister := Draining, persisted := persisted s @ [r], slots := slots s + 1, next_index := next_index s + 1\<rparr>))
    | S_ended \<Rightarrow> None)"

section \<open>The task group\<close>

definition validate_pipeline :: "pipeline \<Rightarrow> py_error option" where
  "validate_pipeline p =
     (if expected_count p \<le> 0 then Some (ValueError ''ERR_VALUE_MUST_BE_POSITIVE'')
      else if \<not> (0 \<le> first_index p \<and> first_index p < expected_count p) then Some (ValueError ''ERR_CONTEXT_SUMMARY_FRAGMENT_INDEX_UNPLANNED'')
      else if concurrency p \<le> 0 \<or> input_capacity p \<le> 0 \<or> result_capacity p \<le> 0 \<or> reorder_window p \<le> 0
      then Some (ValueError ''ERR_VALUE_MUST_BE_POSITIVE'')
      else None)"

definition start_state :: "pipeline \<Rightarrow> (py_error + fragment_input) list \<Rightarrow> pipe_state" where
  "start_state p fs = \<lparr>fragments = fs, producer = Fetching, produced_count = first_index p, slots = reorder_window p + 1,
     input_queue = [], workers = replicate (nat (concurrency p)) Getting, active_tasks = 0, result_queue = [],
     persister = Receiving, next_index = first_index p, reorder_buffer = [], persisted = [],
     stats = \<lparr>max_active = 0, max_input = 0, max_results = 0, max_reorder = 0\<rparr>, raised = []\<rparr>"

definition start_pipeline :: "pipeline \<Rightarrow> (py_error + fragment_input) list \<Rightarrow> py_error + pipe_state" where
  "start_pipeline p fs = (case validate_pipeline p of Some e \<Rightarrow> Inl e | None \<Rightarrow> Inr (start_state p fs))"

inductive pipe_step :: "pipeline \<Rightarrow> pipe_state \<Rightarrow> pipe_state \<Rightarrow> bool" for p :: pipeline where
  produce: "produce_step p s = Some s' \<Longrightarrow> pipe_step p s s'"
| work: "\<lbrakk>workers s = ws @ w # vs; work_step p w s = Some (w', s')\<rbrakk> \<Longrightarrow>
    pipe_step p s (s'\<lparr>workers := ws @ w' # vs\<rparr>)"
| persist: "persist_step p s = Some s' \<Longrightarrow> pipe_step p s s'"
| cancel_producer: "\<lbrakk>raised s \<noteq> []; producer s \<noteq> P_ended\<rbrakk> \<Longrightarrow> pipe_step p s (s\<lparr>producer := P_ended\<rparr>)"
| cancel_worker: "\<lbrakk>raised s \<noteq> []; workers s = ws @ w # vs; w \<noteq> W_ended\<rbrakk> \<Longrightarrow>
    pipe_step p s (s\<lparr>workers := ws @ W_ended # vs,
      active_tasks := (case w of Processing f \<Rightarrow> active_tasks s - 1 | _ \<Rightarrow> active_tasks s)\<rparr>)"
| cancel_persister: "\<lbrakk>raised s \<noteq> []; persister s \<noteq> S_ended\<rbrakk> \<Longrightarrow> pipe_step p s (s\<lparr>persister := S_ended\<rparr>)"

text \<open>The group ends when all its tasks have ended; the call returns the statistics or raises the group of exceptions.\<close>

definition all_ended :: "pipe_state \<Rightarrow> bool" where
  "all_ended s \<longleftrightarrow> producer s = P_ended \<and> set (workers s) \<subseteq> {W_ended} \<and> persister s = S_ended"

definition pipeline_outcome :: "pipe_state \<Rightarrow> py_error list + pipeline_stats" where
  "pipeline_outcome s = (if raised s = [] then Inr (stats s) else Inl (raised s))"

end
