(* ===== verification/Context_Stages.thy ===== *)
theory Context_Stages
  imports Context_Pipeline Task_Tables
begin

text \<open>
  The stages of a context summary and their fragments (\<open>src/app/models/context_summary_stage.py\<close>,
  \<open>stage.py\<close> and \<open>fragment.py\<close> of \<open>src/app/core/crud/context_summary/\<close>), the loop that removes a
  finished work (\<open>cleanup.py\<close> of \<open>src/app/core/utils/context_summary/\<close>) and the callback that
  persists the results of the pipeline (\<open>stage.py\<close> there). Of a chat message only its key, owner
  and session are read. \<open>sha256\<close> stands for the hash of the standard library, as hexadecimal text.
\<close>

section \<open>Tables\<close>

datatype stage_status = CS_RUNNING | CS_COMPLETED | CS_FAILED | CS_INVALIDATED
datatype fragment_status = CF_COMPLETED | CF_INVALIDATED

record summary_stage =
  cs_id :: int
  cs_uid :: string
  cs_session_id :: string
  cs_work_id :: int
  cs_work_dedupe_key :: string
  cs_snapshot_key :: string
  cs_stage_key :: string
  cs_lower_stage_key :: "string option"
  cs_model_key :: string
  cs_channel_id :: int
  cs_model_id :: string
  cs_context_window_k :: int
  cs_max_output_tokens :: int
  cs_safety_margin_tokens :: int
  cs_expected_summary_message_id :: "int option"
  cs_expected_summary_revision :: int
  cs_expected_content_revision :: int
  cs_snapshot_max_message_id :: int
  cs_persistent_summary_target_id :: int
  cs_expected_fragment_count :: int
  cs_succeeded_fragment_count :: int
  cs_status :: stage_status
  cs_error :: "string option"
  cs_created_at :: int
  cs_completed_at :: "int option"

record summary_fragment =
  cf_id :: int
  cf_dedupe_key :: string
  cf_uid :: string
  cf_session_id :: string
  cf_work_id :: int
  cf_work_dedupe_key :: string
  cf_snapshot_key :: string
  cf_stage_key :: string
  cf_model_key :: string
  cf_fragment_index :: int
  cf_message_start_id :: int
  cf_message_end_id :: int
  cf_channel_id :: int
  cf_model_id :: string
  cf_token_count :: int
  cf_content :: string
  cf_status :: fragment_status
  cf_created_at :: int

record chat_row =
  ch_id :: int
  ch_uid :: string
  ch_session_id :: string

record summary_db =
  sd_stages :: "summary_stage list"
  sd_fragments :: "summary_fragment list"
  sd_messages :: "chat_row list"

definition update_stages ::
    "(summary_stage \<Rightarrow> bool) \<Rightarrow> (summary_stage \<Rightarrow> summary_stage) \<Rightarrow> summary_db dbsession \<Rightarrow> summary_db dbsession \<times> nat" where
  "update_stages p f s =
     (execute (\<lambda>d. d\<lparr>sd_stages := sql_update p f (sd_stages d)\<rparr>) s, rowcount p (sd_stages (cur s)))"

section \<open>Fragments\<close>

definition fragment_dedupe_key :: "(string \<Rightarrow> string) \<Rightarrow> string \<Rightarrow> string \<Rightarrow> string \<Rightarrow> int \<Rightarrow> string" where
  "fragment_dedupe_key sha256 work stage model i =
     sha256 (work @ [CHR 0x1F] @ stage @ [CHR 0x1F] @ model @ [CHR 0x1F] @ str_int i)"

definition get_fragment :: "string \<Rightarrow> summary_db \<Rightarrow> summary_fragment option" where
  "get_fragment key d = find (\<lambda>f. cf_dedupe_key f = key) (sd_fragments d)"

definition belongs :: "summary_fragment \<Rightarrow> summary_stage \<Rightarrow> bool" where
  "belongs f st \<longleftrightarrow> cs_uid st = cf_uid f \<and> cs_session_id st = cf_session_id f \<and> cs_work_id st = cf_work_id f \<and>
     cs_work_dedupe_key st = cf_work_dedupe_key f \<and> cs_snapshot_key st = cf_snapshot_key f \<and>
     cs_stage_key st = cf_stage_key f \<and> cs_model_key st = cf_model_key f \<and> cs_channel_id st = cf_channel_id f \<and>
     cs_model_id st = cf_model_id f"

definition accepts_next :: "summary_fragment \<Rightarrow> summary_stage \<Rightarrow> bool" where
  "accepts_next f st \<longleftrightarrow> belongs f st \<and> cs_status st = CS_RUNNING \<and>
     cs_succeeded_fragment_count st = cf_fragment_index f \<and> cs_succeeded_fragment_count st < cs_expected_fragment_count st"

definition fragment_conflict :: "summary_fragment \<Rightarrow> summary_db \<Rightarrow> bool" where
  "fragment_conflict f d \<longleftrightarrow> (\<exists>g\<in>set (sd_fragments d). cf_dedupe_key g = cf_dedupe_key f \<or>
     cf_work_dedupe_key g = cf_work_dedupe_key f \<and> cf_stage_key g = cf_stage_key f \<and> cf_fragment_index g = cf_fragment_index f)"

definition write_ordered :: "(string \<Rightarrow> string) \<Rightarrow> summary_fragment \<Rightarrow> summary_db dbsession \<Rightarrow>
    summary_db dbsession \<times> summary_fragment option \<times> bool" where
  "write_ordered sha256 f s =
     (if cf_dedupe_key f \<noteq> fragment_dedupe_key sha256 (cf_work_dedupe_key f) (cf_stage_key f) (cf_model_key f) (cf_fragment_index f)
      then (s, None, False)
      else (case get_fragment (cf_dedupe_key f) (cur s) of
          Some g \<Rightarrow>
            (if cf_work_dedupe_key g = cf_work_dedupe_key f \<and> cf_stage_key g = cf_stage_key f \<and>
                cf_model_key g = cf_model_key f \<and> cf_fragment_index g = cf_fragment_index f
             then (s, Some g, False) else (s, None, False))
        | None \<Rightarrow>
            if cf_status f \<noteq> CF_COMPLETED then (s, None, False)
            else (let (s1, n) = update_stages (accepts_next f)
                      (\<lambda>st. st\<lparr>cs_succeeded_fragment_count := cs_succeeded_fragment_count st + 1\<rparr>) s
                  in if n \<noteq> 1
                     then (let s2 = rollback s1 in (s2, get_fragment (cf_dedupe_key f) (cur s2), False))
                     else if fragment_conflict f (cur s1)
                     then (let s2 = rollback s1 in (s2, get_fragment (cf_dedupe_key f) (cur s2), False))
                     else (let row = f\<lparr>cf_id := fresh_id cf_id (sd_fragments (cur s1))\<rparr>
                           in (commit (execute (\<lambda>d. d\<lparr>sd_fragments := sd_fragments d @ [row]\<rparr>) s1), Some row, True)))))"

section \<open>Stages\<close>

definition FROZEN_CONTEXT_SUMMARY_WORK_KEY_PREFIX :: string where
  "FROZEN_CONTEXT_SUMMARY_WORK_KEY_PREFIX = ''frozen-context-summary:''"

definition stage_by_identity :: "string \<Rightarrow> string \<Rightarrow> summary_db \<Rightarrow> summary_stage option" where
  "stage_by_identity work stage d = find (\<lambda>st. cs_work_dedupe_key st = work \<and> cs_stage_key st = stage) (sd_stages d)"

definition fragment_page :: "string \<Rightarrow> string \<Rightarrow> int option \<Rightarrow> int option \<Rightarrow> int \<Rightarrow> summary_db \<Rightarrow>
    py_error + (summary_stage \<times> summary_fragment list) option" where
  "fragment_page work stage after_message after_index limit d =
     (if \<not> (1 \<le> limit \<and> limit \<le> 500) then Inl (ValueError ''ERR_VALUE_MUST_BE_BETWEEN'')
      else if (case after_message of None \<Rightarrow> False | Some m \<Rightarrow> m < 1) then Inl (ValueError ''ERR_VALUE_MUST_BE_POSITIVE'')
      else if (case after_index of None \<Rightarrow> False | Some i \<Rightarrow> i < 0) then Inl (ValueError ''ERR_VALUE_MUST_BE_NON_NEGATIVE'')
      else (case find (\<lambda>st. cs_work_dedupe_key st = work \<and> cs_stage_key st = stage \<and> cs_status st = CS_COMPLETED \<and>
                        cs_succeeded_fragment_count st = cs_expected_fragment_count st) (sd_stages d) of
              None \<Rightarrow> Inr None
            | Some st \<Rightarrow>
                Inr (Some (st, sql_limit limit (sort_key cf_fragment_index
                  (filter (\<lambda>f. belongs f st \<and> cf_status f = CF_COMPLETED \<and>
                     (case after_index of Some i \<Rightarrow> cf_fragment_index f > i
                      | None \<Rightarrow> (case after_message of Some m \<Rightarrow> cf_message_start_id f > m | None \<Rightarrow> True)))
                   (sd_fragments d)))))))"

definition create_stage :: "summary_stage \<Rightarrow> summary_db dbsession \<Rightarrow> summary_db dbsession \<times> (py_error + summary_stage \<times> bool)" where
  "create_stage st s =
     (if stage_by_identity (cs_work_dedupe_key st) (cs_stage_key st) (cur s) \<noteq> None
      then (let s1 = rollback s in
            case stage_by_identity (cs_work_dedupe_key st) (cs_stage_key st) (cur s1) of
              None \<Rightarrow> (s1, Inl IntegrityError)
            | Some existing \<Rightarrow> (s1, Inr (existing, False)))
      else (let row = st\<lparr>cs_id := fresh_id cs_id (sd_stages (cur s))\<rparr>
            in (commit (execute (\<lambda>d. d\<lparr>sd_stages := sd_stages d @ [row]\<rparr>) s), Inr (row, True))))"

definition is_stage :: "string \<Rightarrow> string \<Rightarrow> string \<Rightarrow> summary_stage \<Rightarrow> bool" where
  "is_stage work stage model st \<longleftrightarrow>
     cs_work_dedupe_key st = work \<and> cs_stage_key st = stage \<and> cs_model_key st = model"

definition or_zero :: "int option \<Rightarrow> int" where
  "or_zero x = (case x of None \<Rightarrow> 0 | Some i \<Rightarrow> i)"

definition is_task_snapshot :: "summary_stage \<Rightarrow> bool" where
  "is_task_snapshot st \<longleftrightarrow> take (length FROZEN_CONTEXT_SUMMARY_WORK_KEY_PREFIX) (cs_work_dedupe_key st) = FROZEN_CONTEXT_SUMMARY_WORK_KEY_PREFIX"

text \<open>The loop over the fragments of the stage; \<open>n\<close> counts them, \<open>previous\<close> is the range of the last one.
  The result is \<open>None\<close> where the code rolls back.\<close>

fun check_fragments :: "summary_stage \<Rightarrow> summary_fragment list \<Rightarrow> int \<Rightarrow> (int \<times> int) option \<Rightarrow> (int \<times> int option) option" where
  "check_fragments st [] n previous = Some (n, map_option snd previous)"
| "check_fragments st (f # fs) n previous =
     (if cf_fragment_index f \<noteq> n \<or> cf_uid f \<noteq> cs_uid st \<or> cf_session_id f \<noteq> cs_session_id st \<or>
         cf_work_id f \<noteq> cs_work_id st \<or> cf_snapshot_key f \<noteq> cs_snapshot_key st \<or> cf_model_key f \<noteq> cs_model_key st \<or>
         cf_channel_id f \<noteq> cs_channel_id st \<or> cf_model_id f \<noteq> cs_model_id st \<or> cf_status f \<noteq> CF_COMPLETED \<or>
         cf_message_start_id f > cf_message_end_id f \<or>
         (case previous of None \<Rightarrow> False
          | Some (a, b) \<Rightarrow> cf_message_start_id f < b \<and> (cf_message_start_id f \<noteq> a \<or> cf_message_end_id f \<noteq> b)) \<or>
         is_task_snapshot st \<and> cf_message_start_id f > or_zero (map_option snd previous) + 1
      then None
      else if n = 0 \<and> (cf_message_start_id f \<le> or_zero (cs_expected_summary_message_id st) \<or>
             is_task_snapshot st \<and> cf_message_start_id f \<noteq> 1)
      then None
      else check_fragments st fs (n + 1) (Some (cf_message_start_id f, cf_message_end_id f)))"

definition has_message :: "summary_db \<Rightarrow> summary_stage \<Rightarrow> int \<Rightarrow> bool" where
  "has_message d st i \<longleftrightarrow> (\<exists>m\<in>set (sd_messages d). ch_id m = i \<and> ch_uid m = cs_uid st \<and> ch_session_id m = cs_session_id st)"

definition completed_fragment :: "string \<Rightarrow> string \<Rightarrow> string \<Rightarrow> summary_fragment \<Rightarrow> bool" where
  "completed_fragment work stage model f \<longleftrightarrow> cf_work_dedupe_key f = work \<and> cf_stage_key f = stage \<and>
     cf_model_key f = model \<and> cf_status f = CF_COMPLETED"

definition invalid_endpoint :: "summary_db \<Rightarrow> summary_stage \<Rightarrow> (summary_fragment \<Rightarrow> bool) \<Rightarrow> bool" where
  "invalid_endpoint d st p \<longleftrightarrow> (\<exists>f\<in>set (sd_fragments d). p f \<and>
     (\<not> has_message d st (cf_message_start_id f) \<or> \<not> has_message d st (cf_message_end_id f)))"

definition missing_message :: "summary_db \<Rightarrow> summary_stage \<Rightarrow> (summary_fragment \<Rightarrow> bool) \<Rightarrow> bool" where
  "missing_message d st p \<longleftrightarrow> (\<exists>m\<in>set (sd_messages d). ch_uid m = cs_uid st \<and> ch_session_id m = cs_session_id st \<and>
     ch_id m > or_zero (cs_expected_summary_message_id st) \<and> ch_id m \<le> cs_persistent_summary_target_id st \<and>
     \<not> (\<exists>f\<in>set (sd_fragments d). p f \<and> cf_message_start_id f \<le> ch_id m \<and> cf_message_end_id f \<ge> ch_id m))"

definition stage_mark_completed :: "string \<Rightarrow> string \<Rightarrow> string \<Rightarrow> int \<Rightarrow> summary_db dbsession \<Rightarrow> summary_db dbsession \<times> bool" where
  "stage_mark_completed work stage model now s =
     (case find (\<lambda>st. is_stage work stage model st \<and> cs_status st = CS_RUNNING) (sd_stages (cur s)) of
        None \<Rightarrow> (rollback s, False)
      | Some st \<Rightarrow>
          if cs_succeeded_fragment_count st \<noteq> cs_expected_fragment_count st then (rollback s, False)
          else (case check_fragments st (sort_key cf_fragment_index
                       (filter (\<lambda>f. cf_work_dedupe_key f = work \<and> cf_stage_key f = stage) (sd_fragments (cur s)))) 0 None of
                  None \<Rightarrow> (rollback s, False)
                | Some (n, last_end) \<Rightarrow>
                    if n \<noteq> cs_expected_fragment_count st \<or> last_end \<noteq> Some (cs_persistent_summary_target_id st)
                    then (rollback s, False)
                    else if \<not> is_task_snapshot st \<and> invalid_endpoint (cur s) st (completed_fragment work stage model)
                    then (rollback s, False)
                    else if \<not> is_task_snapshot st \<and> missing_message (cur s) st (completed_fragment work stage model)
                    then (rollback s, False)
                    else (let (s1, k) = update_stages
                              (\<lambda>r. cs_id r = cs_id st \<and> is_stage work stage model r \<and> cs_status r = CS_RUNNING \<and>
                                 cs_succeeded_fragment_count r = cs_expected_fragment_count r)
                              (\<lambda>r. r\<lparr>cs_status := CS_COMPLETED, cs_completed_at := Some now, cs_error := None\<rparr>) s
                          in if k \<noteq> 1 then (rollback s1, False) else (commit s1, True))))"

definition stage_mark_failed :: "string \<Rightarrow> string \<Rightarrow> string \<Rightarrow> string \<Rightarrow> summary_db dbsession \<Rightarrow> summary_db dbsession \<times> bool" where
  "stage_mark_failed work stage model err s =
     (let (s1, n) = update_stages (\<lambda>st. is_stage work stage model st \<and> cs_status st = CS_RUNNING)
            (\<lambda>st. st\<lparr>cs_status := CS_FAILED, cs_error := Some err, cs_completed_at := None\<rparr>) s
      in (commit s1, n = 1))"

definition stage_invalidate :: "string \<Rightarrow> string \<Rightarrow> string \<Rightarrow> summary_db dbsession \<Rightarrow> summary_db dbsession \<times> bool" where
  "stage_invalidate work stage model s =
     (let (s1, n) = update_stages (\<lambda>st. is_stage work stage model st \<and> cs_status st \<in> {CS_RUNNING, CS_FAILED})
            (\<lambda>st. st\<lparr>cs_status := CS_INVALIDATED, cs_completed_at := None\<rparr>) s
      in if n \<noteq> 1 then (rollback s1, False)
         else (commit (execute (\<lambda>d. d\<lparr>sd_fragments := sql_update (completed_fragment work stage model)
                  (\<lambda>f. f\<lparr>cf_status := CF_INVALIDATED\<rparr>) (sd_fragments d)\<rparr>) s1), True))"

section \<open>Cleanup\<close>

definition check_batch_size :: "int \<Rightarrow> py_error option" where
  "check_batch_size n = (if \<not> (1 \<le> n \<and> n \<le> 1000) then Some (ValueError ''ERR_VALUE_MUST_BE_BETWEEN'') else None)"

text \<open>One batch: the first rows that \<open>p\<close> selects, by their key; the number of deleted rows.\<close>

definition delete_fragments :: "(summary_fragment \<Rightarrow> bool) \<Rightarrow> int \<Rightarrow> summary_db dbsession \<Rightarrow> (summary_db dbsession \<times> nat) option" where
  "delete_fragments p n s =
     (let ids = map cf_id (sql_limit n (sort_key cf_id (filter p (sd_fragments (cur s)))))
      in if ids = [] then None
         else Some (commit (execute (\<lambda>d. d\<lparr>sd_fragments := sql_delete (\<lambda>f. cf_id f \<in> set ids) (sd_fragments d)\<rparr>) s),
                    rowcount (\<lambda>f. cf_id f \<in> set ids) (sd_fragments (cur s))))"

definition delete_stages :: "(summary_stage \<Rightarrow> bool) \<Rightarrow> int \<Rightarrow> summary_db dbsession \<Rightarrow> summary_db dbsession \<times> nat" where
  "delete_stages p n s =
     (let ids = map cs_id (sql_limit n (sort_key cs_id (filter p (sd_stages (cur s)))))
      in if ids = [] then (s, 0)
         else (commit (execute (\<lambda>d. d\<lparr>sd_stages := sql_delete (\<lambda>st. cs_id st \<in> set ids) (sd_stages d)\<rparr>) s),
               rowcount (\<lambda>st. cs_id st \<in> set ids) (sd_stages (cur s))))"

definition cleanup_by_work :: "string \<Rightarrow> int \<Rightarrow> summary_db dbsession \<Rightarrow> summary_db dbsession \<times> (py_error + nat)" where
  "cleanup_by_work work n s =
     (case check_batch_size n of
        Some e \<Rightarrow> (s, Inl e)
      | None \<Rightarrow>
          (case delete_fragments (\<lambda>f. cf_work_dedupe_key f = work) n s of
             Some (t, k) \<Rightarrow> (t, Inr k)
           | None \<Rightarrow> (let (t, k) = delete_stages (\<lambda>st. cs_work_dedupe_key st = work) n s in (t, Inr k))))"

definition has_fragments :: "summary_db \<Rightarrow> summary_stage \<Rightarrow> bool" where
  "has_fragments d st \<longleftrightarrow> (\<exists>f\<in>set (sd_fragments d).
     cf_work_dedupe_key f = cs_work_dedupe_key st \<and> cf_stage_key f = cs_stage_key st)"

definition stage_cleanup_expired :: "int \<Rightarrow> int \<Rightarrow> summary_db dbsession \<Rightarrow> summary_db dbsession \<times> (py_error + nat)" where
  "stage_cleanup_expired before n s =
     (case check_batch_size n of
        Some e \<Rightarrow> (s, Inl e)
      | None \<Rightarrow>
          (case delete_fragments (\<lambda>f. cf_created_at f < before) n s of
             Some (t, k) \<Rightarrow> (t, Inr k)
           | None \<Rightarrow> (let (t, k) = delete_stages (\<lambda>st. cs_created_at st < before \<and> \<not> has_fragments (cur s) st) n s
                      in (t, Inr k))))"

text \<open>\<open>cleanup_context_summary_work\<close> repeats a batch until nothing is left; each batch has its own session.
  The loop over expired rows is the same with \<open>stage_cleanup_expired\<close>.\<close>

partial_function (option) repeat_batches ::
    "(summary_db dbsession \<Rightarrow> summary_db dbsession \<times> (py_error + nat)) \<Rightarrow> summary_db \<Rightarrow> nat \<Rightarrow> (summary_db \<times> (py_error + nat)) option" where
  "repeat_batches batch d deleted =
     (case batch (open_session d) of
        (s, Inl e) \<Rightarrow> Some (saved s, Inl e)
      | (s, Inr k) \<Rightarrow> if k = 0 then Some (saved s, Inr deleted) else repeat_batches batch (saved s) (deleted + k))"

definition cleanup_context_summary_work :: "string \<Rightarrow> summary_db \<Rightarrow> (summary_db \<times> (py_error + nat)) option" where
  "cleanup_context_summary_work work d = repeat_batches (cleanup_by_work work 200) d 0"

definition cleanup_expired_context_summary_stages :: "int \<Rightarrow> int \<Rightarrow> summary_db \<Rightarrow> (summary_db \<times> (py_error + nat)) option" where
  "cleanup_expired_context_summary_stages retention_hours now d =
     (if retention_hours < 1 then Some (d, Inl (ValueError ''ERR_VALUE_MUST_BE_POSITIVE''))
      else repeat_batches (stage_cleanup_expired (now - 3600 * retention_hours) 200) d 0)"

section \<open>The callback of the pipeline\<close>

definition fragment_of :: "(string \<Rightarrow> string) \<Rightarrow> summary_stage \<Rightarrow> fragment_result \<Rightarrow> int \<Rightarrow> summary_fragment" where
  "fragment_of sha256 st r now = \<lparr>cf_id = 0,
     cf_dedupe_key = fragment_dedupe_key sha256 (cs_work_dedupe_key st) (cs_stage_key st) (cs_model_key st) (fr_index r),
     cf_uid = cs_uid st, cf_session_id = cs_session_id st, cf_work_id = cs_work_id st,
     cf_work_dedupe_key = cs_work_dedupe_key st, cf_snapshot_key = cs_snapshot_key st, cf_stage_key = cs_stage_key st,
     cf_model_key = cs_model_key st, cf_fragment_index = fr_index r, cf_message_start_id = fr_start r,
     cf_message_end_id = fr_end r, cf_channel_id = cs_channel_id st, cf_model_id = cs_model_id st,
     cf_token_count = fr_tokens r, cf_content = fr_content r, cf_status = CF_COMPLETED, cf_created_at = now\<rparr>"

definition write_summary_fragment :: "(string \<Rightarrow> string) \<Rightarrow> summary_stage \<Rightarrow> fragment_result \<Rightarrow> int \<Rightarrow> summary_db \<Rightarrow>
    summary_db \<times> py_error option" where
  "write_summary_fragment sha256 st r now d =
     (case write_ordered sha256 (fragment_of sha256 st r now) (open_session d) of
        (s, None, created) \<Rightarrow> (saved s, Some (RuntimeError ''ERR_CONTEXT_SUMMARY_FRAGMENT_WRITE_ORDER_FAILED''))
      | (s, Some f, created) \<Rightarrow>
          (saved s, if \<not> created \<and> (cf_message_start_id f \<noteq> fr_start r \<or> cf_message_end_id f \<noteq> fr_end r \<or> cf_content f \<noteq> fr_content r)
                    then Some (RuntimeError ''ERR_CONTEXT_SUMMARY_FRAGMENT_RESULT_CONFLICT'') else None))"

end
