(* ===== verification/Context_Merge.thy ===== *)
theory Context_Merge
  imports Context_Stages
begin

text \<open>
  Merging the summaries of a completed stage (\<open>src/app/core/utils/context_summary/merge.py\<close>). The
  fragments are read back page by page and checked; each is wrapped in a tag, split when it exceeds
  the budget, and packed with its neighbours into groups, the inputs of the next stage. A generator is
  the list of what it yields with the exception that ends it, if any. \<open>token_counter\<close> is a parameter.
\<close>

section \<open>Formatting and splitting one fragment\<close>

record lower_fragment =
  lf_index :: int
  lf_start :: int
  lf_end :: int
  lf_content :: string

definition DQ :: string where
  "DQ = [CHR 0x22]"

definition format_fragment :: "lower_fragment \<Rightarrow> nat option \<Rightarrow> string option \<Rightarrow> string" where
  "format_fragment f part content =
     ''<summary_fragment index='' @ DQ @ str_int (lf_index f) @ DQ @ '' from_message_id='' @ DQ @ str_int (lf_start f) @ DQ @
     '' through_message_id='' @ DQ @ str_int (lf_end f) @ DQ @
     (case part of None \<Rightarrow> [] | Some i \<Rightarrow> '' part='' @ DQ @ str_int (int i) @ DQ) @ ''>'' @ [CHR 0x0A] @
     (case content of None \<Rightarrow> lf_content f | Some c \<Rightarrow> c) @ [CHR 0x0A] @ ''</summary_fragment>''"

text \<open>The binary search for the largest prefix that fits.\<close>

function search_prefix :: "(int \<Rightarrow> bool) \<Rightarrow> int \<Rightarrow> int \<Rightarrow> int \<Rightarrow> int" where
  "search_prefix fits low high best =
     (if low \<le> high
      then (let middle = (low + high) div 2
            in if fits middle then search_prefix fits (middle + 1) high middle
               else search_prefix fits low (middle - 1) best)
      else best)"
  by pat_completeness auto
termination by (relation "measure (\<lambda>(fits, low, high, best). nat (high + 1 - low))") auto

declare search_prefix.simps [simp del]

function split_parts :: "lower_fragment \<Rightarrow> int \<Rightarrow> (string \<Rightarrow> int) \<Rightarrow> nat \<Rightarrow> string \<Rightarrow> py_error + string list" where
  "split_parts f m count part remaining =
     (if remaining = [] then Inr []
      else (let best = search_prefix
                  (\<lambda>k. count (format_fragment f (Some part) (Some (take (nat k) remaining))) \<le> m) 1 (int (length remaining)) 0
            in if best \<le> 0 then Inl (RuntimeError ''ERR_CONTEXT_SUMMARY_MERGE_METADATA_OVER_BUDGET'')
               else (case split_parts f m count (Suc part) (drop (nat best) remaining) of
                       Inl e \<Rightarrow> Inl e
                     | Inr ps \<Rightarrow> Inr (format_fragment f (Some part) (Some (take (nat best) remaining)) # ps))))"
  by pat_completeness auto
termination by (relation "measure (\<lambda>(f, m, count, part, remaining). length remaining)") auto

declare split_parts.simps [simp del]

definition split_completed_fragment :: "lower_fragment \<Rightarrow> int \<Rightarrow> (string \<Rightarrow> int) \<Rightarrow> py_error + string list" where
  "split_completed_fragment f m count =
     (if count (format_fragment f None None) \<le> m then Inr [format_fragment f None None]
      else split_parts f m count 0 (lf_content f))"

section \<open>Reading the lower stage\<close>

definition lower_fragment_of :: "summary_fragment \<Rightarrow> lower_fragment" where
  "lower_fragment_of f = \<lparr>lf_index = cf_fragment_index f, lf_start = cf_message_start_id f, lf_end = cf_message_end_id f,
     lf_content = cf_content f\<rparr>"

definition stage_identity where
  "stage_identity st = (cs_uid st, cs_session_id st, cs_work_id st, cs_work_dedupe_key st, cs_snapshot_key st, cs_stage_key st,
     cs_model_key st, cs_channel_id st, cs_model_id st, cs_expected_summary_message_id st, cs_expected_summary_revision st,
     cs_expected_content_revision st, cs_snapshot_max_message_id st, cs_persistent_summary_target_id st, cs_expected_fragment_count st)"

text \<open>The checks on the fragments of one page; \<open>n\<close> is the expected index, \<open>previous\<close> the range of the
  last fragment. The fragments yielded before an error are in the result.\<close>

fun check_page :: "int option \<Rightarrow> lower_fragment list \<Rightarrow> int \<Rightarrow> (int \<times> int) option \<Rightarrow>
    lower_fragment list \<times> (py_error + int \<times> (int \<times> int) option)" where
  "check_page old_target [] n previous = ([], Inr (n, previous))"
| "check_page old_target (f # fs) n previous =
     (if lf_index f \<noteq> n then ([], Inl (RuntimeError ''ERR_CONTEXT_SUMMARY_LOWER_FRAGMENTS_DISCONTINUOUS''))
      else if lf_start f > lf_end f \<or> n = 0 \<and> lf_start f \<le> or_zero old_target \<or>
         (case previous of None \<Rightarrow> False | Some (a, b) \<Rightarrow> lf_start f < b \<and> \<not> (lf_start f = a \<and> lf_end f = b))
      then ([], Inl (RuntimeError ''ERR_CONTEXT_SUMMARY_LOWER_FRAGMENT_RANGE_INVALID''))
      else (let (ys, r) = check_page old_target fs (n + 1) (Some (lf_start f, lf_end f)) in (f # ys, r)))"

text \<open>Each page is read in a session of its own; \<open>dbs k\<close> is the database when the \<open>k\<close>-th page is read. The loop
  carries the stage of the first page, the expected index and the last range.\<close>

partial_function (option) read_lower ::
    "(nat \<Rightarrow> summary_db) \<Rightarrow> string \<Rightarrow> string \<Rightarrow> int \<Rightarrow> nat \<Rightarrow> int option \<Rightarrow> summary_stage option \<Rightarrow> int \<Rightarrow> (int \<times> int) option \<Rightarrow>
     (lower_fragment list \<times> py_error option) option" where
  "read_lower dbs work stage page_size k after first n previous =
     (case fragment_page work stage None after page_size (dbs k) of
        Inl e \<Rightarrow> Some ([], Some e)
      | Inr None \<Rightarrow> Some ([], Some (RuntimeError ''ERR_CONTEXT_SUMMARY_LOWER_STAGE_INCOMPLETE''))
      | Inr (Some (st, rows)) \<Rightarrow>
          if (case first of None \<Rightarrow> False | Some st0 \<Rightarrow> stage_identity st \<noteq> stage_identity st0)
          then Some ([], Some (RuntimeError ''ERR_CONTEXT_SUMMARY_LOWER_STAGE_CHANGED''))
          else if rows = []
          then Some ([], if n \<noteq> cs_expected_fragment_count st \<or> map_option snd previous \<noteq> Some (cs_persistent_summary_target_id st)
                         then Some (RuntimeError ''ERR_CONTEXT_SUMMARY_LOWER_FRAGMENT_SET_INCOMPLETE'') else None)
          else (case check_page (cs_expected_summary_message_id st) (map lower_fragment_of rows) n previous of
                  (ys, Inl e) \<Rightarrow> Some (ys, Some e)
                | (ys, Inr (n', previous')) \<Rightarrow>
                    Option.bind (read_lower dbs work stage page_size (Suc k) (Some (cf_fragment_index (last rows)))
                        (Some (case first of None \<Rightarrow> st | Some st0 \<Rightarrow> st0)) n' previous')
                      (\<lambda>(zs, e). Some (ys @ zs, e))))"

definition iter_completed_lower_stage_fragments ::
    "(nat \<Rightarrow> summary_db) \<Rightarrow> string \<Rightarrow> string \<Rightarrow> int \<Rightarrow> (lower_fragment list \<times> py_error option) option" where
  "iter_completed_lower_stage_fragments dbs work stage page_size = read_lower dbs work stage page_size 0 None None 0 None"

section \<open>Packing into groups\<close>

record merge_state =
  mg_index :: int
  mg_parts :: "string list"
  mg_floor :: int
  mg_start :: "int option"
  mg_end :: "int option"
  mg_previous_index :: "int option"
  mg_previous :: "(int \<times> int) option"
  mg_isolated :: bool
  mg_out :: "fragment_input list"

definition merge_start :: merge_state where
  "merge_start = \<lparr>mg_index = 0, mg_parts = [], mg_floor = 0, mg_start = None, mg_end = None, mg_previous_index = None,
     mg_previous = None, mg_isolated = False, mg_out = []\<rparr>"

fun join_lines :: "string list \<Rightarrow> string" where
  "join_lines [] = []"
| "join_lines [x] = x"
| "join_lines (x # xs) = x @ [CHR 0x0A] @ join_lines xs"

definition build_group :: "(string \<Rightarrow> int) \<Rightarrow> merge_state \<Rightarrow> py_error + fragment_input" where
  "build_group count g =
     (case (mg_start g, mg_end g) of
        (Some a, Some b) \<Rightarrow> Inr \<lparr>fi_index = mg_index g, fi_start = a, fi_end = b,
            fi_tokens = max (mg_floor g) (max 1 (count (join_lines (mg_parts g)))), fi_content = join_lines (mg_parts g), fi_existing = None\<rparr>
      | _ \<Rightarrow> Inl (RuntimeError ''ERR_CONTEXT_SUMMARY_MERGE_GROUP_EMPTY''))"

definition yield_group :: "int \<Rightarrow> (string \<Rightarrow> int) \<Rightarrow> merge_state \<Rightarrow> merge_state \<times> py_error option" where
  "yield_group first_group count g =
     (if mg_index g \<ge> first_group
      then (case build_group count g of Inl e \<Rightarrow> (g, Some e) | Inr x \<Rightarrow> (g\<lparr>mg_out := mg_out g @ [x]\<rparr>, None))
      else (g, None))"

text \<open>The loop over the parts of one fragment.\<close>

fun add_parts :: "int \<Rightarrow> int \<Rightarrow> (string \<Rightarrow> int) \<Rightarrow> lower_fragment \<Rightarrow> bool \<Rightarrow> nat \<Rightarrow> string list \<Rightarrow> merge_state \<Rightarrow> merge_state \<times> py_error option" where
  "add_parts m first_group count f boundary i [] g = (g, None)"
| "add_parts m first_group count f boundary i (part # parts) g =
     (let part_floor = max 1 (count part);
          candidate = max (mg_floor g + part_floor) (max 1 (count (join_lines (mg_parts g @ [part]))));
          (g1, e) = (if mg_parts g \<noteq> [] \<and> (candidate > m \<or> i = 0 \<and> boundary)
                     then (let (g', e') = yield_group first_group count g
                           in (g'\<lparr>mg_index := mg_index g + 1, mg_parts := [], mg_floor := 0, mg_start := None\<rparr>, e'))
                     else (g, None))
      in case e of
           Some err \<Rightarrow> (g1, Some err)
         | None \<Rightarrow> add_parts m first_group count f boundary (Suc i) parts
             (g1\<lparr>mg_start := (if mg_parts g1 = [] then Some (lf_start f) else mg_start g1), mg_parts := mg_parts g1 @ [part],
                 mg_floor := mg_floor g1 + part_floor, mg_end := Some (lf_end f)\<rparr>))"

definition fragment_isolated :: "lower_fragment \<Rightarrow> lower_fragment option \<Rightarrow> nat \<Rightarrow> bool \<Rightarrow> bool" where
  "fragment_isolated f nxt parts repeated \<longleftrightarrow> lf_start f \<noteq> lf_end f \<and>
     (parts > 1 \<or> repeated \<or> (case nxt of None \<Rightarrow> False | Some h \<Rightarrow> lf_start h = lf_start f \<and> lf_end h = lf_end f))"

definition add_fragment :: "int \<Rightarrow> int \<Rightarrow> (string \<Rightarrow> int) \<Rightarrow> lower_fragment \<Rightarrow> lower_fragment option \<Rightarrow> merge_state \<Rightarrow> merge_state \<times> py_error option" where
  "add_fragment m first_group count f nxt g =
     (if (case mg_previous_index g of None \<Rightarrow> False | Some i \<Rightarrow> lf_index f \<noteq> i + 1)
      then (g, Some (RuntimeError ''ERR_CONTEXT_SUMMARY_LOWER_FRAGMENTS_DISCONTINUOUS''))
      else (let repeated = mg_previous g = Some (lf_start f, lf_end f)
            in if (case mg_previous g of None \<Rightarrow> False | Some (a, b) \<Rightarrow> lf_start f < b) \<and> \<not> repeated
               then (g, Some (RuntimeError ''ERR_CONTEXT_SUMMARY_LOWER_FRAGMENT_RANGES_OVERLAP''))
               else (case split_completed_fragment f m count of
                       Inl e \<Rightarrow> (g, Some e)
                     | Inr parts \<Rightarrow>
                         (let isolated = fragment_isolated f nxt (length parts) repeated;
                              boundary = mg_previous g \<noteq> None \<and> mg_previous g \<noteq> Some (lf_start f, lf_end f) \<and> (isolated \<or> mg_isolated g);
                              (g1, e) = add_parts m first_group count f boundary 0 parts g
                          in case e of
                               Some err \<Rightarrow> (g1, Some err)
                             | None \<Rightarrow> (g1\<lparr>mg_previous_index := Some (lf_index f), mg_previous := Some (lf_start f, lf_end f),
                                           mg_isolated := isolated\<rparr>, None)))))"

text \<open>The outer loop fetches one fragment ahead; \<open>failure\<close> is the exception that ends the source.\<close>

fun merge_loop :: "int \<Rightarrow> int \<Rightarrow> (string \<Rightarrow> int) \<Rightarrow> py_error option \<Rightarrow> lower_fragment list \<Rightarrow> merge_state \<Rightarrow> merge_state \<times> py_error option" where
  "merge_loop m first_group count failure [] g = (g, failure)"
| "merge_loop m first_group count failure (f # fs) g =
     (if fs = [] \<and> failure \<noteq> None then (g, failure)
      else (case add_fragment m first_group count f (case fs of [] \<Rightarrow> None | h # _ \<Rightarrow> Some h) g of
              (g1, Some e) \<Rightarrow> (g1, Some e)
            | (g1, None) \<Rightarrow> merge_loop m first_group count failure fs g1))"

definition group_completed_summary_fragments ::
    "int \<Rightarrow> int \<Rightarrow> (string \<Rightarrow> int) \<Rightarrow> lower_fragment list \<times> py_error option \<Rightarrow> fragment_input list \<times> py_error option" where
  "group_completed_summary_fragments m first_group count source =
     (if m \<le> 0 then ([], Some (ValueError ''ERR_VALUE_MUST_BE_POSITIVE''))
      else if first_group < 0 then ([], Some (ValueError ''ERR_VALUE_MUST_BE_NON_NEGATIVE''))
      else (case merge_loop m first_group count (snd source) (fst source) merge_start of
              (g, Some e) \<Rightarrow> (mg_out g, Some e)
            | (g, None) \<Rightarrow>
                if mg_parts g \<noteq> [] then (let (g', e) = yield_group first_group count g in (mg_out g', e))
                else (mg_out g, None)))"

definition iter_lower_stage_merge_groups ::
    "(nat \<Rightarrow> summary_db) \<Rightarrow> string \<Rightarrow> string \<Rightarrow> int \<Rightarrow> int \<Rightarrow> int \<Rightarrow> (string \<Rightarrow> int) \<Rightarrow> (fragment_input list \<times> py_error option) option" where
  "iter_lower_stage_merge_groups dbs work stage m page_size first_group count =
     map_option (group_completed_summary_fragments m first_group count) (iter_completed_lower_stage_fragments dbs work stage page_size)"

text \<open>The number of groups; the exception of the generator is raised.\<close>

definition count_lower_stage_merge_groups ::
    "(nat \<Rightarrow> summary_db) \<Rightarrow> string \<Rightarrow> string \<Rightarrow> int \<Rightarrow> int \<Rightarrow> (string \<Rightarrow> int) \<Rightarrow> (py_error + nat) option" where
  "count_lower_stage_merge_groups dbs work stage m page_size count =
     map_option (\<lambda>(gs, e). case e of None \<Rightarrow> Inr (length gs) | Some err \<Rightarrow> Inl err)
       (iter_lower_stage_merge_groups dbs work stage m page_size 0 count)"

end
