(* ===== verification/Context_Pipeline_Laws.thy ===== *)
theory Context_Pipeline_Laws
  imports Context_Pipeline "HOL-Library.Multiset"
begin

text \<open>
  Laws of the fragment pipeline under every schedule of its tasks. Three invariants are kept by each
  step: the bounds of the queues, the slots and the statistics; the contents of queues, workers and
  buffer (each item stems from the source fragment of its index); and the account of the fragments
  in flight (no index twice, all between the next one to persist and the last one produced, none
  lost while no task has failed). From them follow the order of the results, freedom from deadlock and
  the outcome; a measure on states shows that every run ends.
\<close>

section \<open>Helper functions\<close>

fun queued :: "fragment_input option list \<Rightarrow> fragment_input list" where
  "queued [] = []"
| "queued (None # q) = queued q"
| "queued (Some f # q) = f # queued q"

lemma queued_append [simp]: "queued (q @ q') = queued q @ queued q'"
  by (induction q rule: queued.induct) auto

lemma queued_in: "f \<in> set (queued q) \<longleftrightarrow> Some f \<in> set q"
  by (induction q rule: queued.induct) auto

fun busy :: "worker \<Rightarrow> nat" where
  "busy (Processing f) = 1"
| "busy w = 0"

definition active_workers :: "pipe_state \<Rightarrow> nat" where
  "active_workers s = sum_list (map busy (workers s))"

lemma busy_le: "sum_list (map busy ws) \<le> length ws"
proof (induction ws)
  case (Cons w ws)
  then show ?case by (cases w) auto
qed simp

lemma pipe_stepE [consumes 1, case_names produce work persist cancel_producer cancel_worker cancel_persister]:
  assumes "pipe_step p s s'"
  obtains "produce_step p s = Some s'"
  | ws w vs w' t where "workers s = ws @ w # vs" "work_step p w s = Some (w', t)" "s' = t\<lparr>workers := ws @ w' # vs\<rparr>"
  | "persist_step p s = Some s'"
  | "raised s \<noteq> []" "producer s \<noteq> P_ended" "s' = s\<lparr>producer := P_ended\<rparr>"
  | ws w vs where "raised s \<noteq> []" "workers s = ws @ w # vs" "w \<noteq> W_ended"
      "s' = s\<lparr>workers := ws @ W_ended # vs,
        active_tasks := (case w of Processing f \<Rightarrow> active_tasks s - 1 | _ \<Rightarrow> active_tasks s)\<rparr>"
  | "raised s \<noteq> []" "persister s \<noteq> S_ended" "s' = s\<lparr>persister := S_ended\<rparr>"
  using assms by (cases rule: pipe_step.cases) (assumption | rule that; assumption?)+

section \<open>Bounds\<close>

definition pipe_bounded :: "pipeline \<Rightarrow> pipe_state \<Rightarrow> bool" where
  "pipe_bounded p s \<longleftrightarrow>
     length (workers s) = nat (concurrency p) \<and> active_tasks s = active_workers s \<and>
     int (length (input_queue s)) \<le> input_capacity p \<and> int (length (result_queue s)) \<le> result_capacity p \<and>
     int (max_active (stats s)) \<le> concurrency p \<and> int (max_input (stats s)) \<le> input_capacity p \<and>
     int (max_results (stats s)) \<le> result_capacity p \<and>
     active_tasks s \<le> max_active (stats s) \<and> length (result_queue s) \<le> max_results (stats s)"

lemma produce_step_bounded:
  assumes "pipe_bounded p s" "produce_step p s = Some s'"
  shows "pipe_bounded p s'"
  using assms unfolding produce_step_def pipe_bounded_def active_workers_def
  by (auto split: producer.splits list.splits sum.splits nat.splits if_splits)

lemma work_step_bounded:
  assumes "pipe_bounded p s" "workers s = ws @ w # vs" "work_step p w s = Some (w', t)"
  shows "pipe_bounded p (t\<lparr>workers := ws @ w' # vs\<rparr>)"
proof -
  have "int (sum_list (map busy ws) + sum_list (map busy vs) + 1) \<le> concurrency p"
    using assms(1,2) busy_le [of ws] busy_le [of vs] unfolding pipe_bounded_def by auto
  then show ?thesis using assms unfolding work_step_def pipe_bounded_def active_workers_def
    by (auto simp: Let_def split: worker.splits list.splits option.splits sum.splits if_splits)
qed

lemma persist_step_bounded:
  assumes "pipe_bounded p s" "persist_step p s = Some s'"
  shows "pipe_bounded p s'"
  using assms unfolding persist_step_def pipe_bounded_def active_workers_def
  by (auto simp: Let_def split: persister.splits list.splits option.splits if_splits)

lemma pipe_step_bounded:
  assumes "pipe_step p s s'" "pipe_bounded p s"
  shows "pipe_bounded p s'"
  using assms
proof (cases rule: pipe_stepE)
  case (cancel_worker ws w vs)
  then show ?thesis using assms(2) unfolding pipe_bounded_def active_workers_def by (cases w) auto
next
  case (work ws w vs w' t)
  then show ?thesis using work_step_bounded [OF assms(2)] by simp
next
  case produce
  then show ?thesis using produce_step_bounded [OF assms(2)] by simp
next
  case persist
  then show ?thesis using persist_step_bounded [OF assms(2)] by simp
qed (use assms(2) in \<open>simp_all add: pipe_bounded_def active_workers_def\<close>)

section \<open>Contents\<close>

definition fetched :: "pipeline \<Rightarrow> (py_error + fragment_input) list \<Rightarrow> fragment_input \<Rightarrow> bool" where
  "fetched p fs f \<longleftrightarrow> (\<exists>k<length fs. fs ! k = Inr f \<and> fi_index f = first_index p + int k \<and> fi_index f < expected_count p)"

definition computed :: "pipeline \<Rightarrow> (py_error + fragment_input) list \<Rightarrow> fragment_result \<Rightarrow> bool" where
  "computed p fs r \<longleftrightarrow> (\<exists>f. fetched p fs f \<and> process_fragment p f = Inr r \<and> fr_index r = fi_index f)"

text \<open>The fragments already taken from the source are those in front, with consecutive indices.\<close>

definition taken_in_order :: "pipeline \<Rightarrow> (py_error + fragment_input) list \<Rightarrow> int \<Rightarrow> bool" where
  "taken_in_order p fs n \<longleftrightarrow> first_index p \<le> n \<and> n \<le> expected_count p \<and> nat (n - first_index p) \<le> length fs \<and>
     (\<forall>k<nat (n - first_index p). \<exists>f. fs ! k = Inr f \<and> fi_index f = first_index p + int k)"

definition source_ok :: "pipeline \<Rightarrow> (py_error + fragment_input) list \<Rightarrow> pipe_state \<Rightarrow> bool" where
  "source_ok p fs s \<longleftrightarrow> taken_in_order p fs (produced_count s) \<and>
     (case producer s of
        Fetching \<Rightarrow> fragments s = drop (nat (produced_count s - first_index p)) fs
      | Acquiring f \<Rightarrow> fragments s = drop (Suc (nat (produced_count s - first_index p))) fs \<and> fetched p fs f \<and> fi_index f = produced_count s
      | Putting f \<Rightarrow> fragments s = drop (Suc (nat (produced_count s - first_index p))) fs \<and> fetched p fs f \<and> fi_index f = produced_count s
      | Stopping n \<Rightarrow> produced_count s = expected_count p \<and> length fs = nat (expected_count p - first_index p)
      | P_ended \<Rightarrow> raised s = [] \<longrightarrow> produced_count s = expected_count p \<and> length fs = nat (expected_count p - first_index p))"

fun worker_ok :: "pipeline \<Rightarrow> (py_error + fragment_input) list \<Rightarrow> worker \<Rightarrow> bool" where
  "worker_ok p fs (Processing f) = fetched p fs f"
| "worker_ok p fs (Delivering r) = computed p fs r"
| "worker_ok p fs w = True"

fun persister_ok :: "pipeline \<Rightarrow> (py_error + fragment_input) list \<Rightarrow> int \<Rightarrow> persister \<Rightarrow> bool" where
  "persister_ok p fs n (Persisting r) \<longleftrightarrow> computed p fs r \<and> fr_index r = n"
| "persister_ok p fs n st \<longleftrightarrow> True"

definition items_ok :: "pipeline \<Rightarrow> (py_error + fragment_input) list \<Rightarrow> pipe_state \<Rightarrow> bool" where
  "items_ok p fs s \<longleftrightarrow> (\<forall>f. Some f \<in> set (input_queue s) \<longrightarrow> fetched p fs f) \<and> (\<forall>w\<in>set (workers s). worker_ok p fs w) \<and>
     (\<forall>r\<in>set (result_queue s). computed p fs r) \<and> (\<forall>(i, r)\<in>set (reorder_buffer s). i = fr_index r \<and> computed p fs r) \<and>
     persister_ok p fs (next_index s) (persister s)"

definition log_ok :: "pipeline \<Rightarrow> (py_error + fragment_input) list \<Rightarrow> pipe_state \<Rightarrow> bool" where
  "log_ok p fs s \<longleftrightarrow> first_index p \<le> next_index s \<and> next_index s \<le> expected_count p \<and>
     length (persisted s) = nat (next_index s - first_index p) \<and>
     (\<forall>k<length (persisted s). computed p fs (persisted s ! k) \<and> fr_index (persisted s ! k) = first_index p + int k)"

lemma computed_index: "computed p fs r \<Longrightarrow> first_index p \<le> fr_index r \<and> fr_index r < expected_count p"
  unfolding computed_def fetched_def by auto

lemma take_next:
  assumes "taken_in_order p fs n" "fs' = drop (nat (n - first_index p)) fs" "fs' = Inr f # gs" "fi_index f = n" "n < expected_count p"
  shows "gs = drop (Suc (nat (n - first_index p))) fs \<and> fetched p fs f \<and> taken_in_order p fs (n + 1)"
proof -
  let ?k = "nat (n - first_index p)"
  have k: "?k < length fs" "fs ! ?k = Inr f" "gs = drop (Suc ?k) fs"
    using assms(2,3) by (metis drop_all list.distinct(1) not_le, metis nth_via_drop, metis drop_Suc list.sel(3) tl_drop)
  have "first_index p \<le> n" using assms(1) by (simp add: taken_in_order_def)
  then have idx: "fi_index f = first_index p + int ?k" "nat (n + 1 - first_index p) = Suc ?k" using assms(4) by auto
  then show ?thesis using k assms(1,4,5) unfolding taken_in_order_def fetched_def
    by (auto simp: less_Suc_eq)
qed

lemma fetched_taken:
  assumes "taken_in_order p fs n" "fetched p fs f" "fi_index f = n"
  shows "taken_in_order p fs (n + 1)"
proof -
  obtain k where k: "k < length fs" "fs ! k = Inr f" "n = first_index p + int k" "n < expected_count p"
    using assms(2,3) by (auto simp: fetched_def)
  then have "nat (n - first_index p) = k" "nat (n + 1 - first_index p) = Suc k" by auto
  then show ?thesis using assms(1,3) k by (auto simp: taken_in_order_def less_Suc_eq)
qed

lemma produce_step_contents:
  assumes "produce_step p s = Some s'" "source_ok p fs s" "items_ok p fs s"
  shows "source_ok p fs s' \<and> items_ok p fs s'"
proof (cases "producer s")
  case Fetching
  show ?thesis
  proof (cases "fragments s")
    case Nil
    have "length fs = nat (expected_count p - first_index p)" if "produced_count s = expected_count p"
      using that assms(2) Fetching Nil by (auto simp: source_ok_def taken_in_order_def)
    then show ?thesis using assms Fetching Nil
      by (auto simp: produce_step_def source_ok_def items_ok_def split: if_splits)
  next
    case (Cons x gs)
    show ?thesis
    proof (cases x)
      case (Inr f)
      have "gs = drop (Suc (nat (produced_count s - first_index p))) fs \<and> fetched p fs f"
        if "fi_index f = produced_count s" "produced_count s < expected_count p"
        using take_next [of p fs "produced_count s" "fragments s" f gs] that assms(2) Fetching Cons Inr by (auto simp: source_ok_def)
      then show ?thesis using assms Fetching Cons Inr
        by (auto simp: produce_step_def source_ok_def items_ok_def)
    qed (use assms Fetching Cons in \<open>auto simp: produce_step_def source_ok_def items_ok_def\<close>)
  qed
next
  case (Putting f)
  have idx: "fetched p fs f" "fi_index f = produced_count s" "taken_in_order p fs (produced_count s)"
    using assms(2) Putting by (auto simp: source_ok_def)
  then have "nat (produced_count s + 1 - first_index p) = Suc (nat (produced_count s - first_index p))"
    by (auto simp: taken_in_order_def)
  then show ?thesis using assms Putting fetched_taken [OF idx(3,1,2)]
    by (auto simp: produce_step_def source_ok_def items_ok_def split: if_splits)
next
  case (Stopping n)
  then show ?thesis using assms by (cases n) (auto simp: produce_step_def source_ok_def items_ok_def split: if_splits)
qed (use assms in \<open>auto simp: produce_step_def source_ok_def items_ok_def split: if_splits\<close>)

lemma source_ok_mono:
  assumes "source_ok p fs s" "producer t = producer s" "produced_count t = produced_count s"
    "fragments t = fragments s" "raised s \<noteq> [] \<longrightarrow> raised t \<noteq> []"
  shows "source_ok p fs t"
  using assms by (cases "producer s") (auto simp: source_ok_def)

lemma work_step_fields:
  assumes "work_step p w s = Some (w', t)"
  shows "producer t = producer s \<and> produced_count t = produced_count s \<and> fragments t = fragments s \<and>
    (raised s \<noteq> [] \<longrightarrow> raised t \<noteq> []) \<and> workers t = workers s \<and> persister t = persister s \<and> next_index t = next_index s \<and>
    reorder_buffer t = reorder_buffer s \<and> persisted t = persisted s \<and> slots t = slots s"
  using assms unfolding work_step_def
  by (auto simp: Let_def split: worker.splits list.splits option.splits sum.splits if_splits)

lemma persist_step_fields:
  assumes "persist_step p s = Some t"
  shows "producer t = producer s \<and> produced_count t = produced_count s \<and> fragments t = fragments s \<and>
    (raised s \<noteq> [] \<longrightarrow> raised t \<noteq> []) \<and> workers t = workers s \<and> input_queue t = input_queue s"
  using assms unfolding persist_step_def
  by (auto simp: Let_def split: persister.splits list.splits option.splits if_splits)

lemma produce_step_fields:
  assumes "produce_step p s = Some t"
  shows "persister t = persister s \<and> next_index t = next_index s \<and> reorder_buffer t = reorder_buffer s \<and>
    persisted t = persisted s \<and> workers t = workers s \<and> result_queue t = result_queue s \<and>
    (raised s \<noteq> [] \<longrightarrow> raised t \<noteq> [])"
  using assms unfolding produce_step_def
  by (auto split: producer.splits list.splits sum.splits nat.splits if_splits)

lemma work_step_contents:
  assumes "workers s = ws @ w # vs" "work_step p w s = Some (w', t)" "items_ok p fs s"
  shows "items_ok p fs (t\<lparr>workers := ws @ w' # vs\<rparr>)"
proof (cases w)
  case Getting
  then show ?thesis using assms unfolding work_step_def items_ok_def
    by (cases "input_queue s") (auto split: option.splits)
next
  case (Processing f)
  then have "fetched p fs f" using assms(1,3) by (auto simp: items_ok_def)
  then show ?thesis using Processing assms unfolding work_step_def items_ok_def
    by (auto simp: Let_def computed_def split: sum.splits if_splits)
next
  case (Delivering r)
  then show ?thesis using assms unfolding work_step_def items_ok_def by (auto split: if_splits)
qed (use assms in \<open>simp add: work_step_def\<close>)

lemma persist_step_contents:
  assumes "persist_step p s = Some s'" "items_ok p fs s" "log_ok p fs s"
  shows "items_ok p fs s' \<and> log_ok p fs s'"
proof (cases "persister s")
  case Receiving
  then show ?thesis using assms unfolding persist_step_def items_ok_def log_ok_def
    by (auto simp: Let_def split: list.splits if_splits)
next
  case Draining
  then show ?thesis using assms unfolding persist_step_def items_ok_def log_ok_def
    by (auto simp: AList.delete_eq split: option.splits dest!: map_of_SomeD)
next
  case (Persisting r)
  then have r: "computed p fs r" "fr_index r = next_index s" using assms(2) by (auto simp: items_ok_def)
  then show ?thesis using Persisting assms computed_index [OF r(1)] unfolding persist_step_def items_ok_def log_ok_def
    by (auto simp: nth_append less_Suc_eq split: option.splits)
qed (use assms in \<open>simp add: persist_step_def\<close>)

definition contents_ok :: "pipeline \<Rightarrow> (py_error + fragment_input) list \<Rightarrow> pipe_state \<Rightarrow> bool" where
  "contents_ok p fs s \<longleftrightarrow> source_ok p fs s \<and> items_ok p fs s \<and> log_ok p fs s"

lemma pipe_step_contents:
  assumes "pipe_step p s s'" "contents_ok p fs s"
  shows "contents_ok p fs s'"
  using assms(1)
proof (cases rule: pipe_stepE)
  case produce
  then show ?thesis using produce_step_contents [OF produce] produce_step_fields [OF produce] assms(2)
    by (simp add: contents_ok_def log_ok_def)
next
  case (work ws w vs w' t)
  then show ?thesis using work_step_contents [OF work(1,2)] work_step_fields [OF work(2)] assms(2)
    source_ok_mono [of p fs s "t\<lparr>workers := ws @ w' # vs\<rparr>"]
    by (simp add: contents_ok_def log_ok_def)
next
  case persist
  then show ?thesis using persist_step_contents [OF persist] persist_step_fields [OF persist] assms(2)
    source_ok_mono [of p fs s s'] by (simp add: contents_ok_def)
next
  case cancel_producer
  then show ?thesis using assms(2) by (cases "producer s") (auto simp: contents_ok_def source_ok_def items_ok_def log_ok_def)
next
  case (cancel_worker ws w vs)
  then show ?thesis using assms(2) source_ok_mono [of p fs s s'] by (auto simp: contents_ok_def items_ok_def log_ok_def)
next
  case cancel_persister
  then show ?thesis using assms(2) source_ok_mono [of p fs s s'] by (auto simp: contents_ok_def items_ok_def log_ok_def)
qed

section \<open>Fragments in flight\<close>

fun carried :: "worker \<Rightarrow> int multiset" where
  "carried (Processing f) = {#fi_index f#}"
| "carried (Delivering r) = {#fr_index r#}"
| "carried w = {#}"

fun producing :: "producer \<Rightarrow> int multiset" where
  "producing (Putting f) = {#fi_index f#}"
| "producing st = {#}"

fun persisting :: "persister \<Rightarrow> int multiset" where
  "persisting (Persisting r) = {#fr_index r#}"
| "persisting st = {#}"

definition in_flight :: "pipe_state \<Rightarrow> int multiset" where
  "in_flight s = producing (producer s) + mset (map fi_index (queued (input_queue s))) + sum_list (map carried (workers s)) +
     mset (map fr_index (result_queue s)) + mset (map fst (reorder_buffer s)) + persisting (persister s)"

text \<open>One more than the last index a slot was taken for.\<close>

definition taken_until :: "pipeline \<Rightarrow> pipe_state \<Rightarrow> int" where
  "taken_until p s = next_index s + (reorder_window p + 1) - slots s"

text \<open>The indices from \<open>a\<close> up to \<open>b\<close> are in flight at most once, and all of them when nothing was lost.\<close>

definition account :: "int \<Rightarrow> int \<Rightarrow> bool \<Rightarrow> int multiset \<Rightarrow> bool" where
  "account a b lossless m \<longleftrightarrow> (\<forall>x. count m x \<le> 1) \<and> set_mset m \<subseteq> {a..<b} \<and>
     (lossless \<longrightarrow> {a..<b} \<subseteq> set_mset m)"

fun producer_at :: "producer \<Rightarrow> bool \<Rightarrow> int \<Rightarrow> int \<Rightarrow> bool" where
  "producer_at (Putting f) lossless n u \<longleftrightarrow> u = n + 1"
| "producer_at P_ended lossless n u \<longleftrightarrow> (lossless \<longrightarrow> u = n)"
| "producer_at st lossless n u \<longleftrightarrow> u = n"

fun persister_at :: "persister \<Rightarrow> bool \<Rightarrow> bool \<Rightarrow> int \<Rightarrow> int set \<Rightarrow> bool" where
  "persister_at Receiving lossless at_end n ks \<longleftrightarrow> n \<notin> ks"
| "persister_at S_ended lossless at_end n ks \<longleftrightarrow> (lossless \<longrightarrow> at_end \<and> ks = {})"
| "persister_at st lossless at_end n ks \<longleftrightarrow> True"

definition flight_ok :: "pipeline \<Rightarrow> pipe_state \<Rightarrow> bool" where
  "flight_ok p s \<longleftrightarrow> 0 \<le> slots s \<and> account (next_index s) (taken_until p s) (raised s = []) (in_flight s) \<and>
     next_index s \<le> taken_until p s \<and> taken_until p s \<le> expected_count p \<and>
     producer_at (producer s) (raised s = []) (produced_count s) (taken_until p s) \<and>
     persister_at (persister s) (raised s = []) (next_index s = expected_count p) (next_index s) (fst ` set (reorder_buffer s))"

lemma account_shrink:
  assumes "account a b ok m" "m' \<subseteq># m" "ok' \<longrightarrow> m' = m" "ok' \<longrightarrow> ok"
  shows "account a b ok' m'"
  using assms mset_subset_eq_count [OF assms(2)] set_mset_mono [OF assms(2)] unfolding account_def
  by (meson order_trans)

lemma producer_at_lossy: "producer_at st ok n u \<Longrightarrow> (ok' \<longrightarrow> ok) \<Longrightarrow> producer_at st ok' n u"
  by (cases st) auto

lemma persister_at_lossy: "persister_at st ok e n ks \<Longrightarrow> (ok' \<longrightarrow> ok) \<Longrightarrow> persister_at st ok' e n ks"
  by (cases st) auto

lemma work_step_flight:
  assumes "workers s = ws @ w # vs" "work_step p w s = Some (w', t)"
  shows "in_flight (t\<lparr>workers := ws @ w' # vs\<rparr>) \<subseteq># in_flight s" (is "in_flight ?t \<subseteq># _")
    and "raised t = [] \<Longrightarrow> in_flight (t\<lparr>workers := ws @ w' # vs\<rparr>) = in_flight s"
proof -
  have "in_flight ?t = in_flight s \<or> raised t \<noteq> [] \<and> in_flight ?t \<subseteq># in_flight s"
    using assms unfolding work_step_def in_flight_def
    by (auto simp: Let_def split: worker.splits list.splits option.splits sum.splits if_splits)
  then show "in_flight ?t \<subseteq># in_flight s" "raised t = [] \<Longrightarrow> in_flight ?t = in_flight s" by auto
qed

lemma flight_ok_shrink:
  assumes "flight_ok p s" "in_flight t \<subseteq># in_flight s" "raised t = [] \<longrightarrow> in_flight t = in_flight s"
    "raised s \<noteq> [] \<longrightarrow> raised t \<noteq> []"
    "\<forall>u. producer_at (producer s) (raised s = []) (produced_count s) u \<longrightarrow> producer_at (producer t) (raised t = []) (produced_count t) u"
    "persister t = persister s \<or> persister t = S_ended \<and> raised t \<noteq> []"
    "next_index t = next_index s" "slots t = slots s" "reorder_buffer t = reorder_buffer s"
  shows "flight_ok p t"
proof -
  have "taken_until p t = taken_until p s" using assms(7,8) by (simp add: taken_until_def)
  moreover have "account (next_index s) (taken_until p s) (raised t = []) (in_flight t)"
    using account_shrink [OF _ assms(2,3), of "next_index s" "taken_until p s" "raised s = []"] assms(1,4) by (auto simp: flight_ok_def)
  moreover have "producer_at (producer t) (raised t = []) (produced_count t) (taken_until p s)"
    using assms(1,5) by (simp add: flight_ok_def)
  moreover have "persister_at (persister t) (raised t = []) (next_index s = expected_count p) (next_index s) (fst ` set (reorder_buffer s))"
    using assms(1,4,6) persister_at_lossy [of "persister s" "raised s = []" _ _ _ "raised t = []"] by (auto simp: flight_ok_def)
  ultimately show ?thesis using assms(1,7,8,9) by (simp add: flight_ok_def)
qed

lemma account_extend:
  assumes "account a b ok m" "a \<le> b"
  shows "account a (b + 1) ok (add_mset b m)"
proof -
  have "b \<notin># m" using assms(1) by (auto simp: account_def)
  then have "count m b = 0" by (simp add: count_eq_zero_iff)
  then show ?thesis using assms unfolding account_def by auto
qed

lemma produce_step_flight:
  assumes "produce_step p s = Some t" "source_ok p fs s" "flight_ok p s"
  shows "flight_ok p t"
proof (cases "producer s")
  case Fetching
  have "producer t \<in> {Stopping (nat (concurrency p)), P_ended} \<union> range Acquiring" "producer t = P_ended \<longrightarrow> raised t \<noteq> []"
    "produced_count t = produced_count s" "slots t = slots s" "input_queue t = input_queue s"
    using assms(1) Fetching unfolding produce_step_def by (auto split: list.splits sum.splits if_splits)
  then show ?thesis using produce_step_fields [OF assms(1)] Fetching
    by (intro flight_ok_shrink [OF assms(3)]) (auto simp: in_flight_def)
next
  case (Acquiring f)
  then have f: "fi_index f = taken_until p s" "fi_index f < expected_count p" using assms(2,3)
    by (auto simp: source_ok_def flight_ok_def fetched_def)
  have t: "t = s\<lparr>slots := slots s - 1, producer := Putting f\<rparr>" "slots s > 0"
    using assms(1) Acquiring by (auto simp: produce_step_def split: if_splits)
  have "in_flight t = add_mset (taken_until p s) (in_flight s)" "taken_until p t = taken_until p s + 1"
    using t f Acquiring by (simp_all add: in_flight_def taken_until_def)
  moreover have "next_index s \<noteq> expected_count p" using f assms(3) by (auto simp: flight_ok_def)
  moreover have "account (next_index s) (taken_until p s + 1) (raised s = []) (add_mset (taken_until p s) (in_flight s))"
    using assms(3) by (intro account_extend) (simp_all add: flight_ok_def)
  ultimately show ?thesis using t f assms(3) Acquiring by (simp add: flight_ok_def)
next
  case (Putting f)
  then show ?thesis using assms unfolding produce_step_def flight_ok_def taken_until_def in_flight_def
    by (auto split: if_splits)
next
  case (Stopping n)
  then show ?thesis using assms unfolding produce_step_def flight_ok_def taken_until_def in_flight_def
    by (cases n) (auto split: if_splits)
qed (use assms in \<open>simp add: produce_step_def\<close>)

lemma account_drop:
  assumes "account a b ok (add_mset a m)"
  shows "account (a + 1) b ok m \<and> a < b"
proof -
  have all: "count (add_mset a m) x \<le> 1" for x using assms by (simp add: account_def)
  have "count m x \<le> count (add_mset a m) x" for x by simp
  then have c: "count m x \<le> 1" for x using all order_trans by blast
  have "a \<notin># m" using all [of a] by (simp add: not_in_iff)
  then have ne: "x \<noteq> a" if "x \<in># m" for x using that by auto
  have r: "{a + 1..<b} = {a..<b} - {a}" by auto
  have "set_mset m \<subseteq> {a + 1..<b}" using assms ne unfolding account_def r by auto
  moreover have "ok \<longrightarrow> {a + 1..<b} \<subseteq> set_mset m" using assms unfolding account_def r by auto
  moreover have "a < b" using assms unfolding account_def by auto
  ultimately show ?thesis using c by (simp add: account_def)
qed

lemma keys_delete: "image_mset fst (mset (AList.delete n b)) = filter_mset (\<lambda>k. k \<noteq> n) (image_mset fst (mset b))"
  by (induction b) (auto simp: AList.delete_eq)

lemma persist_step_flight:
  assumes "persist_step p s = Some t" "items_ok p fs s" "log_ok p fs s" "flight_ok p s"
  shows "flight_ok p t"
proof (cases "persister s")
  case Receiving
  show ?thesis
  proof (cases "next_index s < expected_count p")
    case True
    then obtain r q where r: "result_queue s = r # q" using assms(1) Receiving by (auto simp: persist_step_def split: list.splits)
    show ?thesis
    proof (cases "fr_index r < next_index s \<or> map_of (reorder_buffer s) (fr_index r) \<noteq> None")
      case True
      then show ?thesis using assms(1) Receiving \<open>next_index s < expected_count p\<close> r
        by (intro flight_ok_shrink [OF assms(4)])
           (auto simp: persist_step_def in_flight_def intro: producer_at_lossy)
    next
      case False
      then have "t = s\<lparr>result_queue := q, persister := Draining, reorder_buffer := (fr_index r, r) # reorder_buffer s, stats := stats t\<rparr>"
        using assms(1) Receiving \<open>next_index s < expected_count p\<close> r by (auto simp: persist_step_def Let_def)
      then obtain st where t: "t = s\<lparr>result_queue := q, persister := Draining, reorder_buffer := (fr_index r, r) # reorder_buffer s, stats := st\<rparr>" ..
      have "in_flight t = in_flight s" using Receiving r by (simp add: t in_flight_def)
      then show ?thesis using assms(4) by (simp add: t flight_ok_def taken_until_def)
    qed
  next
    case False
    then have e: "next_index s = expected_count p" using assms(3) by (simp add: log_ok_def)
    have b: "set (map fst (reorder_buffer s)) \<subseteq> set_mset (in_flight s)" by (auto simp: in_flight_def)
    have "set_mset (in_flight s) \<subseteq> {next_index s..<expected_count p}"
      using assms(4) unfolding flight_ok_def account_def by auto
    then have "reorder_buffer s = []" using b e by auto
    then have "t = s\<lparr>persister := S_ended\<rparr>" using assms(1) Receiving False by (simp add: persist_step_def)
    then show ?thesis using assms(4) e \<open>reorder_buffer s = []\<close> Receiving by (simp add: flight_ok_def taken_until_def in_flight_def)
  qed
next
  case Draining
  show ?thesis
  proof (cases "map_of (reorder_buffer s) (next_index s)")
    case None
    then have "t = s\<lparr>persister := Receiving\<rparr>" using assms(1) Draining by (simp add: persist_step_def)
    then show ?thesis using assms(4) None Draining by (simp add: flight_ok_def taken_until_def in_flight_def map_of_eq_None_iff)
  next
    case (Some r)
    let ?n = "next_index s" and ?b = "reorder_buffer s"
    have t: "t = s\<lparr>persister := Persisting r, reorder_buffer := AList.delete ?n ?b\<rparr>"
      using assms(1) Draining Some by (simp add: persist_step_def)
    have mem: "(?n, r) \<in> set ?b" using Some by (rule map_of_SomeD)
    then have idx: "fr_index r = ?n" using assms(2) by (auto simp: items_ok_def)
    have "count (mset (map fst ?b)) ?n \<le> count (in_flight s) ?n" by (simp add: in_flight_def)
    also have "\<dots> \<le> 1" using assms(4) by (simp add: flight_ok_def account_def)
    finally have le: "count (mset (map fst ?b)) ?n \<le> 1" .
    have "?n \<in># mset (map fst ?b)" using mem by force
    then have one: "count (mset (map fst ?b)) ?n = 1" using le by (metis One_nat_def count_greater_eq_one_iff le_antisym)
    have "add_mset ?n (mset (map fst (AList.delete ?n ?b))) = mset (map fst ?b)"
      using one by (intro multiset_eqI) (auto simp: keys_delete)
    then have "in_flight t = in_flight s" using Draining by (simp add: t in_flight_def idx)
    then show ?thesis using assms(4) Draining by (simp add: t flight_ok_def taken_until_def)
  qed
next
  case (Persisting r)
  let ?n = "next_index s"
  have idx: "fr_index r = ?n" using assms(2) Persisting by (simp add: items_ok_def)
  show ?thesis
  proof (cases "persist_fragment p r")
    case (Some e)
    then show ?thesis using assms(1) Persisting
      by (intro flight_ok_shrink [OF assms(4)]) (auto simp: persist_step_def in_flight_def intro: producer_at_lossy)
  next
    case None
    then have t: "t = s\<lparr>persister := Draining, persisted := persisted s @ [r], slots := slots s + 1, next_index := ?n + 1\<rparr>"
      using assms(1) Persisting by (simp add: persist_step_def)
    have fl: "in_flight s = add_mset ?n (in_flight t)" using Persisting by (simp add: t in_flight_def idx)
    have "account (?n + 1) (taken_until p s) (raised s = []) (in_flight t)"
      and "?n < taken_until p s"
      using account_drop [of ?n "taken_until p s" "raised s = []" "in_flight t"] assms(4) fl by (simp_all add: flight_ok_def)
    moreover have "taken_until p t = taken_until p s" "raised t = raised s" "persister t = Draining"
      "producer t = producer s" "produced_count t = produced_count s" "slots t = slots s + 1" "next_index t = ?n + 1"
      by (simp_all add: t taken_until_def)
    ultimately show ?thesis using assms(4) by (simp add: flight_ok_def)
  qed
qed (use assms in \<open>simp add: persist_step_def\<close>)

lemma pipe_step_flight:
  assumes "pipe_step p s s'" "contents_ok p fs s" "flight_ok p s"
  shows "flight_ok p s'"
  using assms(1)
proof (cases rule: pipe_stepE)
  case produce
  then show ?thesis using produce_step_flight assms(2,3) by (auto simp: contents_ok_def)
next
  case (work ws w vs w' t)
  show ?thesis using work_step_flight [OF work(1,2)] work_step_fields [OF work(2)] work(3)
    by (intro flight_ok_shrink [OF assms(3)]) (auto intro: producer_at_lossy)
next
  case persist
  then show ?thesis using persist_step_flight assms(2,3) by (auto simp: contents_ok_def)
next
  case cancel_producer
  then show ?thesis by (intro flight_ok_shrink [OF assms(3)]) (auto simp: in_flight_def)
next
  case (cancel_worker ws w vs)
  then show ?thesis by (intro flight_ok_shrink [OF assms(3)]) (auto simp: in_flight_def intro: producer_at_lossy)
next
  case cancel_persister
  then show ?thesis by (intro flight_ok_shrink [OF assms(3)]) (auto simp: in_flight_def intro: producer_at_lossy)
qed

section \<open>Stop marks\<close>

fun pills :: "fragment_input option list \<Rightarrow> nat" where
  "pills [] = 0"
| "pills (None # q) = Suc (pills q)"
| "pills (Some f # q) = pills q"

fun stops_last :: "fragment_input option list \<Rightarrow> bool" where
  "stops_last [] \<longleftrightarrow> True"
| "stops_last (None # q) \<longleftrightarrow> queued q = [] \<and> stops_last q"
| "stops_last (Some f # q) \<longleftrightarrow> stops_last q"

fun ended :: "worker \<Rightarrow> nat" where
  "ended W_ended = 1"
| "ended w = 0"

fun stops_at :: "producer \<Rightarrow> nat \<Rightarrow> nat \<Rightarrow> bool" where
  "stops_at (Stopping n) t c \<longleftrightarrow> t + n = c"
| "stops_at P_ended t c \<longleftrightarrow> t = c"
| "stops_at st t c \<longleftrightarrow> t = 0"

definition stopped :: "pipe_state \<Rightarrow> nat" where
  "stopped s = sum_list (map ended (workers s))"

definition stops_ok :: "pipeline \<Rightarrow> pipe_state \<Rightarrow> bool" where
  "stops_ok p s \<longleftrightarrow> (raised s = [] \<longrightarrow>
     stops_at (producer s) (pills (input_queue s) + stopped s) (nat (concurrency p)) \<and>
     (stopped s = 0 \<or> queued (input_queue s) = []) \<and> stops_last (input_queue s))"

lemma pills_append [simp]: "pills (q @ q') = pills q + pills q'"
  by (induction q rule: pills.induct) auto

lemma stops_last_stop: "stops_last q \<Longrightarrow> stops_last (q @ [None])"
  by (induction q rule: stops_last.induct) auto

lemma stops_last_fragment: "pills q = 0 \<Longrightarrow> stops_last (q @ [Some f])"
  by (induction q rule: stops_last.induct) auto

lemma produce_step_stops:
  assumes "produce_step p s = Some t" "stops_ok p s"
  shows "stops_ok p t"
  using assms unfolding produce_step_def stops_ok_def stopped_def
  by (cases "producer s")
     (auto intro: stops_last_stop stops_last_fragment split: list.splits sum.splits nat.splits if_splits)

lemma work_step_stops:
  assumes "workers s = ws @ w # vs" "work_step p w s = Some (w', t)" "stops_ok p s"
  shows "stops_ok p (t\<lparr>workers := ws @ w' # vs\<rparr>)"
proof (cases w)
  case Getting
  then show ?thesis using assms unfolding work_step_def stops_ok_def stopped_def
    by (cases "input_queue s") (auto split: option.splits)
next
  case (Processing f)
  then show ?thesis using assms unfolding work_step_def stops_ok_def stopped_def
    by (auto simp: Let_def split: sum.splits if_splits)
qed (use assms in \<open>auto simp: work_step_def stops_ok_def stopped_def split: if_splits\<close>)

lemma pipe_step_stops:
  assumes "pipe_step p s s'" "stops_ok p s"
  shows "stops_ok p s'"
  using assms(1)
proof (cases rule: pipe_stepE)
  case produce
  then show ?thesis using produce_step_stops assms(2) by auto
next
  case (work ws w vs w' t)
  then show ?thesis using work_step_stops assms(2) by auto
next
  case persist
  then show ?thesis using persist_step_fields [OF persist] assms(2) by (auto simp: stops_ok_def stopped_def)
qed (auto simp: stops_ok_def)

section \<open>Reachable states\<close>

definition pipe_ok :: "pipeline \<Rightarrow> (py_error + fragment_input) list \<Rightarrow> pipe_state \<Rightarrow> bool" where
  "pipe_ok p fs s \<longleftrightarrow> pipe_bounded p s \<and> contents_ok p fs s \<and> flight_ok p s \<and> stops_ok p s"

lemma start_pipeline_Inr:
  assumes "start_pipeline p fs = Inr s"
  shows "s = start_state p fs" "0 \<le> first_index p" "first_index p < expected_count p" "0 < concurrency p"
    "0 < input_capacity p" "0 < result_capacity p" "0 < reorder_window p"
  using assms by (auto simp: start_pipeline_def validate_pipeline_def split: if_splits)

lemma sum_list_replicate_0: "sum_list (replicate n {#}) = {#}"
  by (induction n) auto

lemma start_ok:
  assumes "start_pipeline p fs = Inr s"
  shows "pipe_ok p fs s"
  using start_pipeline_Inr [OF assms]
  by (auto simp: pipe_ok_def start_state_def pipe_bounded_def active_workers_def contents_ok_def source_ok_def
      taken_in_order_def items_ok_def log_ok_def flight_ok_def account_def taken_until_def in_flight_def stops_ok_def
      stopped_def sum_list_replicate_0)

lemma reachable_ok:
  assumes "start_pipeline p fs = Inr s0" "(pipe_step p)\<^sup>*\<^sup>* s0 s"
  shows "pipe_ok p fs s"
  using assms(2)
proof (induction rule: rtranclp_induct)
  case base
  show ?case using start_ok [OF assms(1)] .
next
  case (step t u)
  then show ?case using pipe_step_bounded pipe_step_contents pipe_step_flight pipe_step_stops by (auto simp: pipe_ok_def)
qed

lemma pipeline_order:
  assumes "start_pipeline p fs = Inr s0" "(pipe_step p)\<^sup>*\<^sup>* s0 s"
  shows "first_index p + int (length (persisted s)) = next_index s \<and> next_index s \<le> expected_count p \<and>
    (\<forall>k<length (persisted s). \<exists>f. k < length fs \<and> fs ! k = Inr f \<and> fi_index f = first_index p + int k \<and>
       process_fragment p f = Inr (persisted s ! k) \<and> fr_index (persisted s ! k) = first_index p + int k)"
proof -
  have ok: "log_ok p fs s" using reachable_ok [OF assms] by (simp add: pipe_ok_def contents_ok_def)
  then have "computed p fs (persisted s ! k)" "fr_index (persisted s ! k) = first_index p + int k" if "k < length (persisted s)" for k
    using that by (auto simp: log_ok_def)
  then show ?thesis using ok unfolding computed_def fetched_def log_ok_def by fastforce
qed

text \<open>C29: Results are persisted in order, once each. Under every schedule of the tasks and whatever the
  callbacks do, the \<open>k\<close>-th call of \<open>persist_fragment\<close> is for the result of the \<open>k\<close>-th fragment of the source, which has
  the index \<open>first_fragment_index + k\<close>; nothing behind the expected count is persisted.\<close>

theorem pipeline_persists_in_order:
  assumes "start_pipeline p fs = Inr s0" "(pipe_step p)\<^sup>*\<^sup>* s0 s"
  shows "first_index p + int (length (persisted s)) = next_index s \<and> next_index s \<le> expected_count p \<and>
    (\<forall>k<length (persisted s). \<exists>f. k < length fs \<and> fs ! k = Inr f \<and> fi_index f = first_index p + int k \<and>
       process_fragment p f = Inr (persisted s ! k) \<and> fr_index (persisted s ! k) = first_index p + int k)"
  using assms by (rule pipeline_order)

section \<open>Bounds of the queues and of the buffer\<close>

lemma size_at_most_once:
  assumes "\<And>x. count m x \<le> 1" "set_mset m \<subseteq> {a..<b :: int}"
  shows "size m \<le> nat (b - a)"
proof -
  have "m = mset_set (set_mset m)"
  proof (rule multiset_eqI)
    fix x
    show "count m x = count (mset_set (set_mset m)) x"
      using assms(1) [of x] by (cases "x \<in># m") (auto simp: not_in_iff count_greater_zero_iff [symmetric] simp del: count_greater_zero_iff)
  qed
  then have "size m = card (set_mset m)" by (metis size_mset_set)
  then show ?thesis using card_mono [OF _ assms(2)] by simp
qed

lemma waiting_le:
  assumes "flight_ok p s" "0 < reorder_window p"
  shows "int (waiting_count (next_index s) (reorder_buffer s)) \<le> reorder_window p"
    and "int (size (in_flight s)) \<le> reorder_window p + 1 - slots s"
proof -
  let ?n = "next_index s" and ?u = "taken_until p s"
  have a: "account ?n ?u (raised s = []) (in_flight s)" and n: "?n \<le> ?u" "0 \<le> slots s" using assms by (auto simp: flight_ok_def)
  have "size (in_flight s) \<le> nat (?u - ?n)" using a by (intro size_at_most_once) (auto simp: account_def)
  then show "int (size (in_flight s)) \<le> reorder_window p + 1 - slots s" using n by (simp add: taken_until_def)
  let ?w = "mset (map fst (filter (\<lambda>(i, r). i > ?n) (reorder_buffer s)))"
  have sub: "?w \<subseteq># in_flight s"
    by (simp add: in_flight_def) (meson image_mset_subseteq_mono mset_subset_eq_add_left mset_subset_eq_add_right multiset_filter_subset subset_mset.order_trans)
  have "count ?w x \<le> 1" for x
    using mset_subset_eq_count [OF sub, of x] a unfolding account_def by (meson order_trans)
  moreover have "set_mset ?w \<subseteq> {?n + 1..<?u}"
    using set_mset_mono [OF sub] a unfolding account_def by fastforce
  ultimately have "size ?w \<le> nat (?u - (?n + 1))" by (rule size_at_most_once)
  moreover have "size ?w = waiting_count ?n (reorder_buffer s)" by (simp only: waiting_count_def size_mset length_map)
  ultimately show "int (waiting_count ?n (reorder_buffer s)) \<le> reorder_window p"
    using n assms(2) by (simp add: taken_until_def)
qed

lemma max_reorder_le:
  assumes "start_pipeline p fs = Inr s0" "(pipe_step p)\<^sup>*\<^sup>* s0 s"
  shows "int (max_reorder (stats s)) \<le> reorder_window p"
  using assms(2)
proof (induction rule: rtranclp_induct)
  case base
  then show ?case using start_pipeline_Inr [OF assms(1)] by (simp add: start_state_def)
next
  case (step t u)
  have w: "int (waiting_count (next_index u) (reorder_buffer u)) \<le> reorder_window p"
    using reachable_ok [OF assms(1) rtranclp.rtrancl_into_rtrancl [OF step(1,2)]] start_pipeline_Inr(7) [OF assms(1)]
    by (intro waiting_le) (simp_all add: pipe_ok_def)
  show ?case using step(2)
  proof (cases rule: pipe_stepE)
    case produce
    then have "max_reorder (stats u) = max_reorder (stats t)"
      unfolding produce_step_def by (auto split: producer.splits list.splits sum.splits nat.splits if_splits)
    then show ?thesis using step.IH by simp
  next
    case (work ws w vs w' v)
    then have "max_reorder (stats u) = max_reorder (stats t)"
      unfolding work_step_def by (auto simp: Let_def split: worker.splits list.splits option.splits sum.splits if_splits)
    then show ?thesis using step.IH by simp
  next
    case persist
    then have "max_reorder (stats u) = max_reorder (stats t) \<or>
        max_reorder (stats u) = max (max_reorder (stats t)) (waiting_count (next_index u) (reorder_buffer u))"
      unfolding persist_step_def by (auto simp: Let_def split: persister.splits list.splits option.splits if_splits)
    then show ?thesis using step.IH w by auto
  qed (use step.IH in simp_all)
qed


section \<open>Every run ends\<close>

fun producer_weight :: "nat \<Rightarrow> producer \<Rightarrow> nat" where
  "producer_weight c Fetching = 2 * c + 2"
| "producer_weight c (Acquiring f) = 2 * c + 11"
| "producer_weight c (Putting f) = 2 * c + 10"
| "producer_weight c (Stopping n) = 2 * n + 1"
| "producer_weight c P_ended = 0"

fun worker_weight :: "worker \<Rightarrow> nat" where
  "worker_weight Getting = 1"
| "worker_weight (Processing f) = 7"
| "worker_weight (Delivering r) = 6"
| "worker_weight W_ended = 0"

fun persister_weight :: "persister \<Rightarrow> nat" where
  "persister_weight Receiving = 1"
| "persister_weight Draining = 2"
| "persister_weight (Persisting r) = 3"
| "persister_weight S_ended = 0"

definition weight :: "pipeline \<Rightarrow> pipe_state \<Rightarrow> nat" where
  "weight p s = 10 * length (fragments s) + producer_weight (nat (concurrency p)) (producer s) +
     7 * length (queued (input_queue s)) + pills (input_queue s) + sum_list (map worker_weight (workers s)) +
     4 * length (result_queue s) + 2 * length (reorder_buffer s) + persister_weight (persister s)"

lemma produce_step_weight: "produce_step p s = Some t \<Longrightarrow> weight p t < weight p s"
  unfolding produce_step_def weight_def by (auto split: producer.splits list.splits sum.splits nat.splits if_splits)

lemma work_step_weight:
  "workers s = ws @ w # vs \<Longrightarrow> work_step p w s = Some (w', t) \<Longrightarrow> weight p (t\<lparr>workers := ws @ w' # vs\<rparr>) < weight p s"
  unfolding work_step_def weight_def
  by (auto simp: Let_def split: worker.splits list.splits option.splits sum.splits if_splits)

lemma length_delete: "map_of b k = Some r \<Longrightarrow> length (AList.delete k b) < length b"
  by (induction b) (auto simp: AList.delete_eq intro: le_less_trans [OF length_filter_le])

lemma persist_step_weight: "persist_step p s = Some t \<Longrightarrow> weight p t < weight p s"
  unfolding persist_step_def weight_def
  by (auto simp: Let_def split: persister.splits list.splits option.splits if_splits dest!: length_delete)

lemma pipe_step_weight:
  assumes "pipe_step p s t"
  shows "weight p t < weight p s"
  using assms
proof (cases rule: pipe_stepE)
  case cancel_producer
  then show ?thesis by (cases "producer s") (auto simp: weight_def)
next
  case (cancel_worker ws w vs)
  then show ?thesis by (cases w) (auto simp: weight_def)
next
  case cancel_persister
  then show ?thesis by (cases "persister s") (auto simp: weight_def)
qed (simp_all add: produce_step_weight work_step_weight persist_step_weight)

lemma pipe_run_weight: "(pipe_step p ^^ n) s t \<Longrightarrow> weight p t + n \<le> weight p s"
proof (induction n arbitrary: t)
  case (Suc n)
  then obtain u where "(pipe_step p ^^ n) s u" "pipe_step p u t" by auto
  then show ?case using Suc.IH [of u] pipe_step_weight [of p u t] by simp
qed simp

lemma start_weight: "weight p (start_state p fs) = 10 * length fs + 3 * nat (concurrency p) + 3"
  by (simp add: weight_def start_state_def sum_list_replicate)

text \<open>C31: Every run of the pipeline ends. Whatever the source and the callbacks do, no schedule makes more
  than \<open>10\<close> steps per element of the source, \<open>3\<close> per worker and \<open>3\<close> more: there is no livelock.\<close>

theorem pipeline_run_ends:
  assumes "start_pipeline p fs = Inr s0" "(pipe_step p ^^ n) s0 s"
  shows "n \<le> 10 * length fs + 3 * nat (concurrency p) + 3"
  using pipe_run_weight [OF assms(2)] start_pipeline_Inr(1) [OF assms(1)] start_weight [of p fs] by simp

section \<open>No deadlock\<close>

definition stuck :: "pipeline \<Rightarrow> pipe_state \<Rightarrow> bool" where
  "stuck p s \<longleftrightarrow> (\<forall>t. \<not> pipe_step p s t)"

lemma stuckD:
  assumes "stuck p s"
  shows "produce_step p s = None" "persist_step p s = None" "w \<in> set (workers s) \<Longrightarrow> work_step p w s = None"
proof -
  show "produce_step p s = None" "persist_step p s = None"
    using assms pipe_step.produce [of p s] pipe_step.persist [of p s]
    by (cases "produce_step p s"; cases "persist_step p s"; auto simp: stuck_def)+
  assume "w \<in> set (workers s)"
  then obtain ws vs where ws: "workers s = ws @ w # vs" by (auto simp: in_set_conv_decomp)
  show "work_step p w s = None"
    using assms pipe_step.work [OF ws, of p] by (cases "work_step p w s") (auto simp: stuck_def)
qed

lemma stuck_failed:
  assumes "stuck p s" "raised s \<noteq> []"
  shows "all_ended s"
proof -
  have "producer s = P_ended" "persister s = S_ended"
    using assms pipe_step.cancel_producer [of s p] pipe_step.cancel_persister [of s p] by (auto simp: stuck_def)
  moreover have "w = W_ended" if "w \<in> set (workers s)" for w
  proof (rule ccontr)
    assume "w \<noteq> W_ended"
    obtain ws vs where "workers s = ws @ w # vs" using \<open>w \<in> set (workers s)\<close> by (auto simp: in_set_conv_decomp)
    then show False using pipe_step.cancel_worker [OF assms(2) _ \<open>w \<noteq> W_ended\<close>] assms(1) by (fastforce simp: stuck_def)
  qed
  ultimately show ?thesis by (auto simp: all_ended_def)
qed

lemma stuck_workers:
  assumes "stuck p s" "w \<in> set (workers s)"
  shows "w = W_ended \<or> w = Getting \<and> input_queue s = [] \<or> (\<exists>r. w = Delivering r \<and> result_capacity p \<le> int (length (result_queue s)))"
  using stuckD(3) [OF assms]
  by (auto simp: work_step_def Let_def split: worker.splits list.splits option.splits sum.splits if_splits)

lemma stuck_producer:
  assumes "stuck p s"
  shows "producer s = P_ended \<or> (\<exists>f. producer s = Acquiring f \<and> slots s \<le> 0) \<or>
    ((\<exists>f. producer s = Putting f) \<or> (\<exists>n. producer s = Stopping (Suc n))) \<and> input_capacity p \<le> int (length (input_queue s))"
  using stuckD(1) [OF assms]
  by (auto simp: produce_step_def split: producer.splits list.splits sum.splits nat.splits if_splits)

lemma stuck_persister:
  assumes "stuck p s"
  shows "persister s = S_ended \<or> persister s = Receiving \<and> next_index s < expected_count p \<and> result_queue s = []"
  using stuckD(2) [OF assms]
  by (auto simp: persist_step_def Let_def split: persister.splits list.splits option.splits if_splits)

lemma no_carrier: "\<forall>w\<in>set ws. w = W_ended \<or> w = Getting \<Longrightarrow> sum_list (map carried ws) = {#}"
  by (induction ws) auto

lemma all_stopped: "\<forall>w\<in>set ws. w = W_ended \<Longrightarrow> sum_list (map ended ws) = length ws"
  by (induction ws) auto

lemma ended_le: "sum_list (map ended ws) \<le> length ws"
proof (induction ws)
  case (Cons w ws)
  then show ?case by (cases w) auto
qed simp

lemma stopped_all: "sum_list (map ended ws) = length ws \<Longrightarrow> w \<in> set ws \<Longrightarrow> w = W_ended"
proof (induction ws)
  case (Cons v ws)
  then show ?case using ended_le [of ws] by (cases v) auto
qed simp

lemma stuck_pipe:
  assumes ok: "pipe_ok p fs s" and st: "stuck p s" and r: "raised s = []"
    and pos: "0 < concurrency p" "0 < input_capacity p" "0 < result_capacity p" "0 < reorder_window p"
  shows "all_ended s"
proof -
  let ?n = "next_index s" and ?u = "taken_until p s" and ?q = "input_queue s"
  have len: "length (workers s) = nat (concurrency p)" using ok by (simp add: pipe_ok_def pipe_bounded_def)
  have src: "source_ok p fs s" and fl: "flight_ok p s" and sp: "stops_ok p s" using ok by (simp_all add: pipe_ok_def contents_ok_def)
  have acc: "{?n..<?u} = set_mset (in_flight s)" and nu: "?n \<le> ?u" "?u \<le> expected_count p"
    and at: "producer_at (producer s) True (produced_count s) ?u"
      "persister_at (persister s) True (?n = expected_count p) ?n (fst ` set (reorder_buffer s))"
    using fl r by (auto simp: flight_ok_def account_def)
  have stops: "stops_at (producer s) (pills ?q + stopped s) (nat (concurrency p))" "stopped s = 0 \<or> queued ?q = []"
    using sp r by (simp_all add: stops_ok_def)
  have busy_queue: "stopped s = nat (concurrency p)" "set (workers s) \<subseteq> {W_ended}"
    if "?q \<noteq> []" "\<forall>w\<in>set (workers s). w = W_ended \<or> w = Getting"
  proof -
    have "\<forall>w\<in>set (workers s). w = W_ended" using that stuck_workers [OF st] by fastforce
    then show "stopped s = nat (concurrency p)" "set (workers s) \<subseteq> {W_ended}"
      using all_stopped len by (auto simp: stopped_def)
  qed
  have full: "?q \<noteq> []" if "input_capacity p \<le> int (length ?q)" using that pos(2) by auto
  consider "persister s = S_ended" | "persister s = Receiving" "?n < expected_count p" "result_queue s = []"
    using stuck_persister [OF st] by blast
  then show ?thesis
  proof cases
    case 1
    then have e: "?n = expected_count p" using at by simp
    then have none: "in_flight s = {#}" using acc nu by auto
    then have idle: "queued ?q = []" "producing (producer s) = {#}" "sum_list (map carried (workers s)) = {#}"
      by (auto simp: in_flight_def)
    have calm: "\<forall>w\<in>set (workers s). w = W_ended \<or> w = Getting"
    proof
      fix w assume "w \<in> set (workers s)"
      then have "carried w = {#}" using idle(3) by (auto simp: in_set_conv_decomp)
      then show "w = W_ended \<or> w = Getting" by (cases w) auto
    qed
    have "producer s = P_ended"
    proof -
      have "producer s \<noteq> Acquiring f" for f using src at e nu by (auto simp: source_ok_def fetched_def)
      moreover have "producer s \<noteq> Putting f" for f using idle(2) by auto
      moreover have "producer s \<noteq> Stopping (Suc n)" for n
      proof
        assume p: "producer s = Stopping (Suc n)"
        then have "?q \<noteq> []" using stuck_producer [OF st] full by auto
        then show False using p stops busy_queue calm by auto
      qed
      ultimately show ?thesis using stuck_producer [OF st] by auto
    qed
    moreover have "set (workers s) \<subseteq> {W_ended}"
    proof (cases "?q = []")
      case True
      then show ?thesis using stops(1) \<open>producer s = P_ended\<close> stopped_all [of "workers s"] len by (auto simp: stopped_def)
    qed (use busy_queue calm in blast)
    ultimately show ?thesis using 1 by (simp add: all_ended_def)
  next
    case 2
    have calm: "\<forall>w\<in>set (workers s). w = W_ended \<or> w = Getting" using stuck_workers [OF st] 2(3) pos(3) by fastforce
    have no_put: "producer s \<noteq> Putting f" for f
    proof
      assume p: "producer s = Putting f"
      then have "?q \<noteq> []" using stuck_producer [OF st] full by auto
      then show False using p stops busy_queue calm pos(1) by auto
    qed
    have "queued ?q = []"
    proof (cases "?q = []")
      case False
      then show ?thesis using busy_queue calm stops(2) pos(1) by auto
    qed simp
    moreover have "producing (producer s) = {#}" using no_put by (cases "producer s") auto
    ultimately have "set_mset (in_flight s) = fst ` set (reorder_buffer s)"
      using no_carrier [OF calm] 2 by (simp add: in_flight_def)
    moreover have "?n \<notin> fst ` set (reorder_buffer s)" using at(2) 2(1) by simp
    ultimately have "?n = ?u" using acc nu(1) by (metis atLeastLessThan_iff le_less order_refl)
    moreover have "producer s \<noteq> Acquiring f" for f
      using stuck_producer [OF st] \<open>?n = ?u\<close> pos(4) by (auto simp: taken_until_def)
    moreover have "producer s \<noteq> Stopping n" for n using src at 2(2) \<open>?n = ?u\<close> by (auto simp: source_ok_def)
    moreover have "producer s \<noteq> P_ended" using src at 2(2) \<open>?n = ?u\<close> r by (auto simp: source_ok_def)
    ultimately have False using stuck_producer [OF st] no_put by auto
    then show ?thesis ..
  qed
qed

text \<open>A source that delivers exactly the planned fragments, and callbacks that do not fail on them.\<close>

definition sound_source :: "pipeline \<Rightarrow> (py_error + fragment_input) list \<Rightarrow> bool" where
  "sound_source p fs \<longleftrightarrow> int (length fs) = expected_count p - first_index p \<and>
     (\<forall>k<length fs. \<exists>f r. fs ! k = Inr f \<and> fi_index f = first_index p + int k \<and>
        process_fragment p f = Inr r \<and> fr_index r = fi_index f \<and> persist_fragment p r = None)"

lemma sound_fetched:
  assumes "sound_source p fs" "fetched p fs f"
  obtains r where "process_fragment p f = Inr r" "fr_index r = fi_index f" "persist_fragment p r = None"
  using assms unfolding sound_source_def fetched_def by fastforce

lemma sound_computed: "sound_source p fs \<Longrightarrow> computed p fs r \<Longrightarrow> persist_fragment p r = None"
  unfolding computed_def by (metis Inr_inject sound_fetched)

lemma sound_produce:
  assumes "sound_source p fs" "source_ok p fs s" "raised s = []" "produce_step p s = Some t"
  shows "raised t = []"
proof (cases "producer s")
  case Fetching
  let ?k = "nat (produced_count s - first_index p)"
  have fr: "fragments s = drop ?k fs" and tk: "first_index p \<le> produced_count s" "produced_count s \<le> expected_count p"
    using assms(2) Fetching by (auto simp: source_ok_def taken_in_order_def)
  show ?thesis
  proof (cases "?k < length fs")
    case True
    then obtain f where f: "fs ! ?k = Inr f" "fi_index f = first_index p + int ?k" using assms(1) by (auto simp: sound_source_def)
    have "fragments s = Inr f # drop (Suc ?k) fs" using fr True f(1) Cons_nth_drop_Suc [of ?k fs] by simp
    moreover have "fi_index f = produced_count s" "produced_count s < expected_count p"
      using f(2) tk True assms(1) by (auto simp: sound_source_def)
    ultimately show ?thesis using assms(3,4) Fetching by (auto simp: produce_step_def)
  next
    case False
    then have "fragments s = []" "produced_count s = expected_count p" using fr tk assms(1) by (auto simp: sound_source_def)
    then show ?thesis using assms(3,4) Fetching by (auto simp: produce_step_def)
  qed
qed (use assms(3,4) in \<open>auto simp: produce_step_def split: if_splits nat.splits\<close>)

lemma sound_work:
  assumes "sound_source p fs" "worker_ok p fs w" "raised s = []" "work_step p w s = Some (w', t)"
  shows "raised t = []"
proof (cases w)
  case (Processing f)
  then have "fetched p fs f" using assms(2) by simp
  then obtain r where "process_fragment p f = Inr r" "fr_index r = fi_index f" by (rule sound_fetched [OF assms(1)])
  then show ?thesis using assms(3,4) Processing by (auto simp: work_step_def Let_def)
next
  case Getting
  then show ?thesis using assms(3,4) by (auto simp: work_step_def split: list.splits option.splits)
qed (use assms(3,4) in \<open>simp_all add: work_step_def split: if_splits, auto\<close>)

lemma sound_persist:
  assumes "sound_source p fs" "contents_ok p fs s" "flight_ok p s" "raised s = []" "persist_step p s = Some t"
  shows "raised t = []"
proof (cases "persister s")
  case Receiving
  have acc: "set_mset (in_flight s) \<subseteq> {next_index s..<expected_count p}" "count (in_flight s) x \<le> 1" for x
    using assms(3) by (auto simp: flight_ok_def account_def)
  show ?thesis
  proof (cases "next_index s < expected_count p")
    case True
    then obtain r q where r: "result_queue s = r # q" using assms(5) Receiving by (auto simp: persist_step_def split: list.splits)
    have "fr_index r \<in># in_flight s" using r by (simp add: in_flight_def)
    then have "next_index s \<le> fr_index r" using acc(1) by auto
    moreover have "map_of (reorder_buffer s) (fr_index r) = None"
    proof (rule ccontr)
      assume "map_of (reorder_buffer s) (fr_index r) \<noteq> None"
      then have "fr_index r \<in># mset (map fst (reorder_buffer s))" by (simp add: map_of_eq_None_iff)
      then have "1 \<le> count (mset (map fst (reorder_buffer s))) (fr_index r)" by (simp only: count_greater_eq_one_iff)
      moreover have "Suc (count (mset (map fst (reorder_buffer s))) (fr_index r)) \<le> count (in_flight s) (fr_index r)"
        using r by (simp add: in_flight_def)
      ultimately show False using acc(2) [of "fr_index r"] by linarith
    qed
    ultimately show ?thesis using assms(4,5) Receiving True r by (auto simp: persist_step_def Let_def)
  next
    case False
    then have "set (map fst (reorder_buffer s)) \<subseteq> {}" using acc(1) by (auto simp: in_flight_def)
    then show ?thesis using assms(4,5) Receiving False by (auto simp: persist_step_def)
  qed
next
  case (Persisting r)
  then have "persist_fragment p r = None" using sound_computed [OF assms(1)] assms(2) by (auto simp: contents_ok_def items_ok_def)
  then show ?thesis using assms(4,5) Persisting by (auto simp: persist_step_def)
qed (use assms(4,5) in \<open>auto simp: persist_step_def split: option.splits\<close>)

lemma sound_never_raises:
  assumes "start_pipeline p fs = Inr s0" "sound_source p fs" "(pipe_step p)\<^sup>*\<^sup>* s0 s"
  shows "raised s = []"
  using assms(3)
proof (induction rule: rtranclp_induct)
  case base
  show ?case using start_pipeline_Inr(1) [OF assms(1)] by (simp add: start_state_def)
next
  case (step s t)
  have ok: "contents_ok p fs s" "flight_ok p s" using reachable_ok [OF assms(1) step(1)] by (simp_all add: pipe_ok_def)
  show ?case using step(2)
  proof (cases rule: pipe_stepE)
    case produce
    then show ?thesis using sound_produce [OF assms(2)] ok step.IH by (auto simp: contents_ok_def)
  next
    case (work ws w vs w' u)
    then have "worker_ok p fs w" using ok(1) by (auto simp: contents_ok_def items_ok_def)
    then show ?thesis using sound_work [OF assms(2) _ step.IH work(2)] work(3) by simp
  next
    case persist
    then show ?thesis using sound_persist [OF assms(2) ok step.IH] by simp
  qed (use step.IH in simp_all)
qed

lemma pipeline_end:
  assumes "start_pipeline p fs = Inr s0" "(pipe_step p)\<^sup>*\<^sup>* s0 s" "\<forall>t. \<not> pipe_step p s t"
  shows "all_ended s" and "sound_source p fs \<longrightarrow> raised s = []"
    and "raised s = [] \<longrightarrow> int (length fs) = expected_count p - first_index p \<and> next_index s = expected_count p \<and>
      map Inr (persisted s) = map (case_sum Inl (process_fragment p)) fs \<and> pipeline_outcome s = Inr (stats s)"
proof -
  have ok: "pipe_ok p fs s" using reachable_ok [OF assms(1,2)] .
  have st: "stuck p s" using assms(3) by (simp add: stuck_def)
  show e: "all_ended s"
    using stuck_failed [OF st] stuck_pipe [OF ok st] start_pipeline_Inr [OF assms(1)] by blast
  show "sound_source p fs \<longrightarrow> raised s = []" using sound_never_raises [OF assms(1) _ assms(2)] by blast
  show "raised s = [] \<longrightarrow> int (length fs) = expected_count p - first_index p \<and> next_index s = expected_count p \<and>
      map Inr (persisted s) = map (case_sum Inl (process_fragment p)) fs \<and> pipeline_outcome s = Inr (stats s)"
  proof
    assume r: "raised s = []"
    have "producer s = P_ended" "persister s = S_ended" using e by (simp_all add: all_ended_def)
    then have n: "length fs = nat (expected_count p - first_index p)" "next_index s = expected_count p"
      using ok r by (auto simp: pipe_ok_def contents_ok_def source_ok_def flight_ok_def)
    have ord: "first_index p + int (length (persisted s)) = next_index s"
      "\<forall>k<length (persisted s). \<exists>f. fs ! k = Inr f \<and> process_fragment p f = Inr (persisted s ! k)"
      using pipeline_order [OF assms(1,2)] by blast+
    have "map Inr (persisted s) = map (case_sum Inl (process_fragment p)) fs"
      using ord n by (intro nth_equalityI) auto
    then show "int (length fs) = expected_count p - first_index p \<and> next_index s = expected_count p \<and>
      map Inr (persisted s) = map (case_sum Inl (process_fragment p)) fs \<and> pipeline_outcome s = Inr (stats s)"
      using n r start_pipeline_Inr [OF assms(1)] by (simp add: pipeline_outcome_def)
  qed
qed

text \<open>C28: The pipeline cannot deadlock, and it ends with the right outcome. A reachable state in which no
  task can move is one in which all tasks have ended. If then no exception was raised, the source delivered
  exactly the planned fragments and the results of all of them, from \<open>first_fragment_index\<close> to the expected count, are
  persisted. And no exception is raised when the source is as planned and the callbacks do not fail: in that case
  every schedule ends with all results persisted.\<close>

theorem pipeline_ends_complete:
  assumes "start_pipeline p fs = Inr s0" "(pipe_step p)\<^sup>*\<^sup>* s0 s" "\<forall>t. \<not> pipe_step p s t"
  shows "all_ended s \<and> (sound_source p fs \<longrightarrow> raised s = []) \<and>
    (raised s = [] \<longrightarrow> int (length fs) = expected_count p - first_index p \<and> next_index s = expected_count p \<and>
      map Inr (persisted s) = map (case_sum Inl (process_fragment p)) fs \<and> pipeline_outcome s = Inr (stats s))"
  using pipeline_end [OF assms] by blast

section \<open>A run\<close>

datatype task = Produce | Work nat | Persist

fun take_turn :: "pipeline \<Rightarrow> task \<Rightarrow> pipe_state \<Rightarrow> pipe_state option" where
  "take_turn p Produce s = produce_step p s"
| "take_turn p Persist s = persist_step p s"
| "take_turn p (Work i) s =
     (if i < length (workers s)
      then (case work_step p (workers s ! i) s of
              None \<Rightarrow> None
            | Some (w, t) \<Rightarrow> Some (t\<lparr>workers := take i (workers s) @ w # drop (Suc i) (workers s)\<rparr>))
      else None)"

fun run_tasks :: "pipeline \<Rightarrow> task list \<Rightarrow> pipe_state \<Rightarrow> pipe_state option" where
  "run_tasks p [] s = Some s"
| "run_tasks p (t # ts) s = (case take_turn p t s of None \<Rightarrow> None | Some s' \<Rightarrow> run_tasks p ts s')"

lemma take_turn_step: "take_turn p t s = Some s' \<Longrightarrow> pipe_step p s s'"
proof (cases t)
  case (Work i)
  assume "take_turn p t s = Some s'"
  then obtain w u where "i < length (workers s)" "work_step p (workers s ! i) s = Some (w, u)"
    "s' = u\<lparr>workers := take i (workers s) @ w # drop (Suc i) (workers s)\<rparr>"
    using Work by (auto split: if_splits option.splits)
  then show ?thesis using pipe_step.work [OF id_take_nth_drop, of i s p w u] by simp
qed (auto intro: pipe_step.produce pipe_step.persist)

lemma run_tasks_steps: "run_tasks p ts s = Some s' \<Longrightarrow> (pipe_step p ^^ length ts) s s'"
proof (induction ts arbitrary: s)
  case (Cons t ts)
  then obtain u where "take_turn p t s = Some u" "run_tasks p ts u = Some s'" by (auto split: option.splits)
  then show ?case using relpowp_Suc_I2 [OF take_turn_step Cons.IH] by fastforce
qed simp

lemma ended_stuck:
  assumes "all_ended s" "raised s = []"
  shows "\<not> pipe_step p s t"
proof
  assume "pipe_step p s t"
  then show False using assms
    by (cases rule: pipe_stepE) (auto simp: all_ended_def produce_step_def work_step_def persist_step_def)
qed

definition sample_pipeline :: pipeline where
  "sample_pipeline = \<lparr>expected_count = 3, first_index = 1, concurrency = 2, input_capacity = 1, result_capacity = 1,
     reorder_window = 1, process_fragment = (\<lambda>f. Inr \<lparr>fr_index = fi_index f, fr_start = fi_start f, fr_end = fi_end f,
       fr_content = ''summary'', fr_tokens = 5\<rparr>), persist_fragment = (\<lambda>r. None)\<rparr>"

definition sample_source :: "(py_error + fragment_input) list" where
  "sample_source = map (\<lambda>i. Inr \<lparr>fi_index = i, fi_start = 10 * i, fi_end = 10 * i + 9, fi_tokens = 7,
     fi_content = ''text'', fi_existing = None\<rparr>) [1, 2]"

text \<open>The second worker finishes first, so its result waits in the buffer.\<close>

definition sample_schedule :: "task list" where
  "sample_schedule = [Produce, Produce, Produce, Work 0, Produce, Produce, Produce, Work 1, Work 1, Work 1, Persist, Persist,
     Work 0, Work 0, Persist, Persist, Persist, Persist, Persist, Persist, Persist, Produce, Produce, Work 0, Produce, Work 1, Produce]"

definition sample_end :: pipe_state where
  "sample_end = the (run_tasks sample_pipeline sample_schedule (start_state sample_pipeline sample_source))"

lemma sample_run:
  "run_tasks sample_pipeline sample_schedule (start_state sample_pipeline sample_source) = Some sample_end \<and>
   start_pipeline sample_pipeline sample_source = Inr (start_state sample_pipeline sample_source) \<and>
   all_ended sample_end \<and> raised sample_end = [] \<and> map fr_index (persisted sample_end) = [1, 2] \<and>
   max_reorder (stats sample_end) = 1"
  by code_simp

lemma sample_reached:
  "(pipe_step sample_pipeline ^^ 27) (start_state sample_pipeline sample_source) sample_end"
  "(pipe_step sample_pipeline)\<^sup>*\<^sup>* (start_state sample_pipeline sample_source) sample_end"
proof -
  show n: "(pipe_step sample_pipeline ^^ 27) (start_state sample_pipeline sample_source) sample_end"
  proof -
    have "length sample_schedule = 27" by (simp add: sample_schedule_def)
    then show ?thesis using run_tasks_steps [OF conjunct1 [OF sample_run]] by metis
  qed
  show "(pipe_step sample_pipeline)\<^sup>*\<^sup>* (start_state sample_pipeline sample_source) sample_end"
    by (rule relpowp_imp_rtranclp [OF n])
qed

lemma expected_value: "expected_count sample_pipeline = 3"
  by (simp add: sample_pipeline_def)

lemma sample_started: "start_pipeline sample_pipeline sample_source = Inr (start_state sample_pipeline sample_source)"
  using sample_run by blast

theorem pipeline_persists_in_order_witness:
  "length (persisted sample_end) = 2 \<and> next_index sample_end = 3 \<and>
   (\<exists>f. sample_source ! 1 = Inr f \<and> process_fragment sample_pipeline f = Inr (persisted sample_end ! 1))"
proof -
  have l: "length (persisted sample_end) = 2" using sample_run by (metis length_map list.size(3,4) Suc_1 One_nat_def add.commute plus_1_eq_Suc)
  have n: "first_index sample_pipeline = 1" by (simp add: sample_pipeline_def)
  have k: "1 < length (persisted sample_end)" using l by simp
  note all = pipeline_persists_in_order [OF sample_started sample_reached(2)]
  have "\<exists>f. sample_source ! 1 = Inr f \<and> process_fragment sample_pipeline f = Inr (persisted sample_end ! 1)"
    using conjunct2 [OF conjunct2 [OF all]] k by blast
  then show ?thesis using conjunct1 [OF all] l n by simp
qed


theorem pipeline_run_ends_witness: "(27 :: nat) \<le> 10 * 2 + 3 * 2 + 3"
  using pipeline_run_ends [OF sample_started sample_reached(1)]
  by (simp add: sample_pipeline_def sample_source_def)

theorem pipeline_ends_complete_witness:
  "all_ended sample_end \<and> next_index sample_end = 3 \<and>
   map Inr (persisted sample_end) = map (case_sum Inl (process_fragment sample_pipeline)) sample_source"
proof -
  have "\<forall>t. \<not> pipe_step sample_pipeline sample_end t" using ended_stuck sample_run by blast
  then show ?thesis using pipeline_ends_complete [OF sample_started sample_reached(2)] sample_run
    by (metis expected_value)
qed

end
