(* ===== verification/Context_Stages_Laws.thy ===== *)
theory Context_Stages_Laws
  imports Context_Stages Context_Pipeline_Laws
begin

text \<open>
  Laws of the summary stages. Each operation keeps the tables well formed: the fragments of a stage
  have its identity columns and indices below its counter, and as long as no cleanup touches them they
  are exactly the indices below the counter. A completed stage covers every message up to its target.
  The fragments that a pipeline persists are the ones the stage holds.
\<close>

section \<open>Well-formed tables\<close>

definition stage_key_of :: "summary_stage \<Rightarrow> string \<times> string" where
  "stage_key_of st = (cs_work_dedupe_key st, cs_stage_key st)"

definition fragment_key_of :: "summary_fragment \<Rightarrow> string \<times> string \<times> int" where
  "fragment_key_of f = (cf_work_dedupe_key f, cf_stage_key f, cf_fragment_index f)"

definition stage_ok :: "summary_stage \<Rightarrow> bool" where
  "stage_ok st \<longleftrightarrow> 0 \<le> cs_succeeded_fragment_count st \<and> cs_succeeded_fragment_count st \<le> cs_expected_fragment_count st \<and>
     (cs_status st = CS_COMPLETED \<longrightarrow> cs_succeeded_fragment_count st = cs_expected_fragment_count st)"

definition fragment_ok :: "summary_stage list \<Rightarrow> summary_fragment \<Rightarrow> bool" where
  "fragment_ok sts f \<longleftrightarrow> (\<exists>st\<in>set sts. belongs f st \<and> 0 \<le> cf_fragment_index f \<and>
     cf_fragment_index f < cs_succeeded_fragment_count st \<and> (cs_status st \<noteq> CS_INVALIDATED \<longrightarrow> cf_status f = CF_COMPLETED))"

definition summary_ok :: "summary_db \<Rightarrow> bool" where
  "summary_ok d \<longleftrightarrow> distinct (map cs_id (sd_stages d)) \<and> distinct (map stage_key_of (sd_stages d)) \<and>
     distinct (map cf_id (sd_fragments d)) \<and> distinct (map fragment_key_of (sd_fragments d)) \<and>
     distinct (map cf_dedupe_key (sd_fragments d)) \<and>
     (\<forall>st\<in>set (sd_stages d). stage_ok st) \<and> (\<forall>f\<in>set (sd_fragments d). fragment_ok (sd_stages d) f)"

text \<open>The stage holds all fragments it counted.\<close>

definition holds_all :: "summary_db \<Rightarrow> summary_stage \<Rightarrow> bool" where
  "holds_all d st \<longleftrightarrow> (\<forall>i. 0 \<le> i \<and> i < cs_succeeded_fragment_count st \<longrightarrow>
     (\<exists>f\<in>set (sd_fragments d). belongs f st \<and> cf_fragment_index f = i))"

definition work_complete :: "string \<Rightarrow> summary_db \<Rightarrow> bool" where
  "work_complete work d \<longleftrightarrow> (\<forall>st\<in>set (sd_stages d). cs_work_dedupe_key st = work \<longrightarrow> holds_all d st)"

lemma update_stages_simps [simp]:
  "sd_stages (cur (fst (update_stages p f s))) = sql_update p f (sd_stages (cur s))"
  "sd_fragments (cur (fst (update_stages p f s))) = sd_fragments (cur s)"
  "sd_messages (cur (fst (update_stages p f s))) = sd_messages (cur s)"
  "saved (fst (update_stages p f s)) = saved s"
  "snd (update_stages p f s) = rowcount p (sd_stages (cur s))"
  by (simp_all add: update_stages_def execute_def)

lemma cur_update_stages: "cur (fst (update_stages p f s)) = (cur s)\<lparr>sd_stages := sql_update p f (sd_stages (cur s))\<rparr>"
  by (simp add: update_stages_def execute_def)

lemma open_session_simps [simp]: "cur (open_session d) = d" "saved (open_session d) = d"
  by (simp_all add: open_session_def)

text \<open>Everything the statements keep of a stage.\<close>

definition same_stage :: "summary_stage \<Rightarrow> summary_stage \<Rightarrow> bool" where
  "same_stage st st' \<longleftrightarrow> st' = st\<lparr>cs_succeeded_fragment_count := cs_succeeded_fragment_count st',
     cs_status := cs_status st', cs_error := cs_error st', cs_completed_at := cs_completed_at st'\<rparr>"

lemma same_stage_columns:
  assumes "same_stage st st'"
  shows "cs_id st' = cs_id st" "stage_key_of st' = stage_key_of st" "belongs f st' = belongs f st"
    "cs_work_dedupe_key st' = cs_work_dedupe_key st" "cs_stage_key st' = cs_stage_key st"
    "cs_expected_fragment_count st' = cs_expected_fragment_count st" "is_stage w s m st' = is_stage w s m st"
  using arg_cong [OF assms [unfolded same_stage_def], of cs_id]
    arg_cong [OF assms [unfolded same_stage_def], of stage_key_of]
    arg_cong [OF assms [unfolded same_stage_def], of "belongs f"]
    arg_cong [OF assms [unfolded same_stage_def], of cs_work_dedupe_key]
    arg_cong [OF assms [unfolded same_stage_def], of cs_stage_key]
    arg_cong [OF assms [unfolded same_stage_def], of cs_expected_fragment_count]
    arg_cong [OF assms [unfolded same_stage_def], of "is_stage w s m"]
  by (simp_all add: stage_key_of_def belongs_def is_stage_def)

lemma same_key_stage:
  assumes "distinct (map stage_key_of sts)" "st \<in> set sts" "st' \<in> set sts" "belongs f st" "belongs f st'"
  shows "st = st'"
  using distinct_key_eq [OF assms(1,2,3)] assms(4,5) by (simp add: belongs_def stage_key_of_def)

section \<open>Changes of stages\<close>

text \<open>An update of stages that does not lose fragments.\<close>

lemma summary_ok_update:
  assumes ok: "summary_ok d"
    and g: "\<forall>st\<in>set (sd_stages d). p st \<longrightarrow> same_stage st (g st) \<and> stage_ok (g st) \<and>
      cs_succeeded_fragment_count st \<le> cs_succeeded_fragment_count (g st) \<and>
      (cs_status st = CS_INVALIDATED \<longrightarrow> cs_status (g st) = CS_INVALIDATED)"
  shows "summary_ok (d\<lparr>sd_stages := sql_update p g (sd_stages d)\<rparr>)"
proof -
  let ?h = "\<lambda>st. if p st then g st else st"
  have "map cs_id (sql_update p g (sd_stages d)) = map cs_id (sd_stages d)"
    "map stage_key_of (sql_update p g (sd_stages d)) = map stage_key_of (sd_stages d)"
    using g same_stage_columns(1,2) unfolding sql_update_def by auto
  moreover have "stage_ok st" if "st \<in> set (sql_update p g (sd_stages d))" for st
    using that g ok by (auto simp: sql_update_def summary_ok_def)
  moreover have "fragment_ok (sql_update p g (sd_stages d)) f" if f: "f \<in> set (sd_fragments d)" for f
  proof -
    obtain st where st: "st \<in> set (sd_stages d)" "belongs f st" "0 \<le> cf_fragment_index f"
      "cf_fragment_index f < cs_succeeded_fragment_count st" "cs_status st \<noteq> CS_INVALIDATED \<longrightarrow> cf_status f = CF_COMPLETED"
      using ok f by (auto simp: summary_ok_def fragment_ok_def)
    have "?h st \<in> set (sql_update p g (sd_stages d))" using st(1) by (auto simp: sql_update_def)
    moreover have "belongs f (?h st) \<and> cf_fragment_index f < cs_succeeded_fragment_count (?h st) \<and>
      (cs_status (?h st) \<noteq> CS_INVALIDATED \<longrightarrow> cf_status f = CF_COMPLETED)"
    proof (cases "p st")
      case True
      then have "same_stage st (g st)" "cs_succeeded_fragment_count st \<le> cs_succeeded_fragment_count (g st)"
        "cs_status (g st) \<noteq> CS_INVALIDATED \<longrightarrow> cs_status st \<noteq> CS_INVALIDATED" using g st(1) by auto
      then show ?thesis using True st same_stage_columns(3) [of st "g st" f] by simp
    qed (use st in simp)
    ultimately show ?thesis using st(3) unfolding fragment_ok_def by blast
  qed
  ultimately show ?thesis using ok by (simp add: summary_ok_def)
qed

lemma work_complete_update:
  assumes "work_complete work d"
    and g: "\<forall>st\<in>set (sd_stages d). p st \<longrightarrow> same_stage st (g st) \<and> cs_succeeded_fragment_count (g st) = cs_succeeded_fragment_count st"
  shows "work_complete work (d\<lparr>sd_stages := sql_update p g (sd_stages d)\<rparr>)"
proof -
  have "holds_all (d\<lparr>sd_stages := sql_update p g (sd_stages d)\<rparr>) (if p st then g st else st)"
    if "st \<in> set (sd_stages d)" "cs_work_dedupe_key (if p st then g st else st) = work" for st
  proof -
    have "cs_work_dedupe_key st = work" using that g same_stage_columns(4) [of st "g st"] by (cases "p st") auto
    then have "holds_all d st" using assms(1) that(1) by (simp add: work_complete_def)
    then show ?thesis using that(1) g same_stage_columns(3) [of st "g st"] by (cases "p st") (auto simp: holds_all_def)
  qed
  note kept = this
  show ?thesis unfolding work_complete_def
  proof (intro ballI impI)
    fix x assume x: "x \<in> set (sd_stages (d\<lparr>sd_stages := sql_update p g (sd_stages d)\<rparr>))" "cs_work_dedupe_key x = work"
    then obtain st where "st \<in> set (sd_stages d)" "x = (if p st then g st else st)" by (auto simp: sql_update_def)
    then show "holds_all (d\<lparr>sd_stages := sql_update p g (sd_stages d)\<rparr>) x" using kept x(2) by blast
  qed
qed

section \<open>Operations\<close>

lemma write_ordered_cases:
  assumes "write_ordered sha f (open_session d) = (s, r, created)"
  shows "saved s = d \<and> \<not> created \<or> created \<and> get_fragment (cf_dedupe_key f) d = None \<and> \<not> fragment_conflict f d \<and>
    cf_status f = CF_COMPLETED \<and> rowcount (accepts_next f) (sd_stages d) = 1 \<and>
    cf_dedupe_key f = fragment_dedupe_key sha (cf_work_dedupe_key f) (cf_stage_key f) (cf_model_key f) (cf_fragment_index f) \<and>
    (let row = f\<lparr>cf_id := fresh_id cf_id (sd_fragments d)\<rparr> in r = Some row \<and>
       saved s = d\<lparr>sd_stages := sql_update (accepts_next f) (\<lambda>st. st\<lparr>cs_succeeded_fragment_count := cs_succeeded_fragment_count st + 1\<rparr>) (sd_stages d),
                   sd_fragments := sd_fragments d @ [row]\<rparr>)"
  using assms unfolding write_ordered_def
  by (auto simp: Let_def split_def cur_update_stages execute_def fragment_conflict_def split: if_splits option.splits)

lemma mark_completed_cases:
  assumes "stage_mark_completed work stage model now (open_session d) = (s, done_ok)"
  shows "saved s = d \<and> \<not> done_ok \<or> done_ok \<and> (\<exists>st. find (\<lambda>st. is_stage work stage model st \<and> cs_status st = CS_RUNNING) (sd_stages d) = Some st \<and>
    cs_succeeded_fragment_count st = cs_expected_fragment_count st \<and>
    check_fragments st (sort_key cf_fragment_index (filter (\<lambda>f. cf_work_dedupe_key f = work \<and> cf_stage_key f = stage) (sd_fragments d))) 0 None =
      Some (cs_expected_fragment_count st, Some (cs_persistent_summary_target_id st)) \<and>
    (is_task_snapshot st \<or> \<not> missing_message d st (completed_fragment work stage model)) \<and>
    saved s = d\<lparr>sd_stages := sql_update (\<lambda>r. cs_id r = cs_id st \<and> is_stage work stage model r \<and> cs_status r = CS_RUNNING \<and>
        cs_succeeded_fragment_count r = cs_expected_fragment_count r)
      (\<lambda>r. r\<lparr>cs_status := CS_COMPLETED, cs_completed_at := Some now, cs_error := None\<rparr>) (sd_stages d)\<rparr>)"
  using assms unfolding stage_mark_completed_def
  by (auto simp: Let_def split_def cur_update_stages split: if_splits option.splits prod.splits)

lemma mark_failed_saved:
  "saved (fst (stage_mark_failed work stage model err (open_session d))) =
    d\<lparr>sd_stages := sql_update (\<lambda>st. is_stage work stage model st \<and> cs_status st = CS_RUNNING)
        (\<lambda>st. st\<lparr>cs_status := CS_FAILED, cs_error := Some err, cs_completed_at := None\<rparr>) (sd_stages d)\<rparr>"
  by (simp add: stage_mark_failed_def Let_def split_def cur_update_stages)

lemma invalidate_cases:
  assumes "stage_invalidate work stage model (open_session d) = (s, ok)"
  shows "saved s = d \<or> saved s = d\<lparr>sd_stages := sql_update (\<lambda>st. is_stage work stage model st \<and> cs_status st \<in> {CS_RUNNING, CS_FAILED})
        (\<lambda>st. st\<lparr>cs_status := CS_INVALIDATED, cs_completed_at := None\<rparr>) (sd_stages d),
      sd_fragments := sql_update (completed_fragment work stage model) (\<lambda>f. f\<lparr>cf_status := CF_INVALIDATED\<rparr>) (sd_fragments d)\<rparr> \<and>
    rowcount (\<lambda>st. is_stage work stage model st \<and> cs_status st \<in> {CS_RUNNING, CS_FAILED}) (sd_stages d) = 1"
  using assms unfolding stage_invalidate_def
  by (auto simp: Let_def split_def cur_update_stages execute_def split: if_splits)

lemma create_cases:
  assumes "create_stage st (open_session d) = (s, r)"
  shows "saved s = d \<or> stage_by_identity (cs_work_dedupe_key st) (cs_stage_key st) d = None \<and>
    saved s = d\<lparr>sd_stages := sd_stages d @ [st\<lparr>cs_id := fresh_id cs_id (sd_stages d)\<rparr>]\<rparr>"
  using assms unfolding create_stage_def by (auto simp: Let_def execute_def split: if_splits option.splits)

lemma limited_ids:
  assumes "distinct (map k t)" "x \<in> set t" "k x \<in> set (map k (sql_limit n (sort_key k (filter p t))))"
  shows "p x"
proof -
  obtain y where y: "y \<in> set (sql_limit n (sort_key k (filter p t)))" "k y = k x" using assms(3) by auto
  then have "y \<in> set t" "p y" using sql_limit_subset by fastforce+
  then show ?thesis using distinct_key_eq [OF assms(1) _ assms(2) y(2)] by blast
qed

lemma limit_empty: "1 \<le> n \<Longrightarrow> sql_limit n (sort_key k (filter p t)) = [] \<longleftrightarrow> (\<forall>x\<in>set t. \<not> p x)"
proof -
  assume "1 \<le> n"
  then have "sql_limit n (sort_key k (filter p t)) = [] \<longleftrightarrow> sort_key k (filter p t) = []" by (simp add: sql_limit_def)
  also have "\<dots> \<longleftrightarrow> filter p t = []" by (metis set_sort set_empty)
  finally show ?thesis by (simp add: filter_empty_conv)
qed

lemma delete_fragments_cases:
  assumes "1 \<le> n" "distinct (map cf_id (sd_fragments d))"
  shows "case delete_fragments p n (open_session d) of
      None \<Rightarrow> \<forall>f\<in>set (sd_fragments d). \<not> p f
    | Some (s, k) \<Rightarrow> \<exists>q. saved s = d\<lparr>sd_fragments := sql_delete q (sd_fragments d)\<rparr> \<and>
        (\<forall>f\<in>set (sd_fragments d). q f \<longrightarrow> p f) \<and> k = rowcount q (sd_fragments d) \<and> 0 < k"
proof -
  let ?ids = "map cf_id (sql_limit n (sort_key cf_id (filter p (sd_fragments d))))"
  let ?q = "\<lambda>f :: summary_fragment. cf_id f \<in> set ?ids"
  have q: "\<forall>f\<in>set (sd_fragments d). ?q f \<longrightarrow> p f" using limited_ids [OF assms(2)] by blast
  show ?thesis
  proof (cases "?ids = []")
    case True
    then have "sql_limit n (sort_key cf_id (filter p (sd_fragments d))) = []" by simp
    then show ?thesis using True limit_empty [OF assms(1), of cf_id p] by (simp add: delete_fragments_def)
  next
    case False
    then have "sql_limit n (sort_key cf_id (filter p (sd_fragments d))) \<noteq> []" by simp
    then obtain y where y: "y \<in> set (sql_limit n (sort_key cf_id (filter p (sd_fragments d))))" by (rule that [OF hd_in_set])
    then have "y \<in> set (sd_fragments d)" using sql_limit_subset by fastforce
    then have "0 < rowcount ?q (sd_fragments d)" using y unfolding rowcount_pos_iff by auto
    moreover have "delete_fragments p n (open_session d) = Some (commit (execute (\<lambda>d. d\<lparr>sd_fragments := sql_delete ?q (sd_fragments d)\<rparr>)
        (open_session d)), rowcount ?q (sd_fragments d))"
      using False by (simp only: delete_fragments_def Let_def open_session_simps if_False)
    moreover have "saved (commit (execute (\<lambda>d. d\<lparr>sd_fragments := sql_delete ?q (sd_fragments d)\<rparr>) (open_session d))) =
        d\<lparr>sd_fragments := sql_delete ?q (sd_fragments d)\<rparr>" by (simp add: execute_def)
    ultimately show ?thesis using q by (simp only: option.case prod.case) blast
  qed
qed

lemma delete_stages_cases:
  assumes "1 \<le> n" "distinct (map cs_id (sd_stages d))"
  shows "\<exists>q. saved (fst (delete_stages p n (open_session d))) = d\<lparr>sd_stages := sql_delete q (sd_stages d)\<rparr> \<and>
    (\<forall>st\<in>set (sd_stages d). q st \<longrightarrow> p st) \<and> snd (delete_stages p n (open_session d)) = rowcount q (sd_stages d) \<and>
    (rowcount q (sd_stages d) = 0 \<longleftrightarrow> (\<forall>st\<in>set (sd_stages d). \<not> p st))"
proof -
  let ?ids = "map cs_id (sql_limit n (sort_key cs_id (filter p (sd_stages d))))"
  let ?q = "\<lambda>st :: summary_stage. cs_id st \<in> set ?ids"
  have q: "\<forall>st\<in>set (sd_stages d). ?q st \<longrightarrow> p st" using limited_ids [OF assms(2)] by blast
  show ?thesis
  proof (cases "?ids = []")
    case True
    then have e: "sql_limit n (sort_key cs_id (filter p (sd_stages d))) = []" by simp
    have "sql_delete (\<lambda>_. False) (sd_stages d) = sd_stages d" "rowcount (\<lambda>_. False) (sd_stages d) = 0"
      by (simp_all add: sql_delete_def rowcount_def)
    moreover have "\<forall>st\<in>set (sd_stages d). \<not> p st" using e limit_empty [OF assms(1), of cs_id p] by simp
    moreover have "delete_stages p n (open_session d) = (open_session d, 0)"
      using True by (simp only: delete_stages_def Let_def open_session_simps refl if_True)
    ultimately show ?thesis by (intro exI [of _ "\<lambda>_. False"]) simp
  next
    case False
    then have "sql_limit n (sort_key cs_id (filter p (sd_stages d))) \<noteq> []" by simp
    then obtain y where y: "y \<in> set (sql_limit n (sort_key cs_id (filter p (sd_stages d))))" by (rule that [OF hd_in_set])
    then have mem: "y \<in> set (sd_stages d)" "p y" using sql_limit_subset by fastforce+
    then have pos: "0 < rowcount ?q (sd_stages d)" using y unfolding rowcount_pos_iff by auto
    have ds: "delete_stages p n (open_session d) = (commit (execute (\<lambda>d. d\<lparr>sd_stages := sql_delete ?q (sd_stages d)\<rparr>)
        (open_session d)), rowcount ?q (sd_stages d))"
      using False by (simp only: delete_stages_def Let_def open_session_simps if_False)
    have sv: "saved (commit (execute (\<lambda>d. d\<lparr>sd_stages := sql_delete ?q (sd_stages d)\<rparr>) (open_session d))) =
        d\<lparr>sd_stages := sql_delete ?q (sd_stages d)\<rparr>" by (simp add: execute_def)
    show ?thesis
    proof (intro exI [of _ ?q] conjI)
      show "saved (fst (delete_stages p n (open_session d))) = d\<lparr>sd_stages := sql_delete ?q (sd_stages d)\<rparr>"
        unfolding ds fst_conv by (rule sv)
      show "snd (delete_stages p n (open_session d)) = rowcount ?q (sd_stages d)" unfolding ds snd_conv ..
      show "rowcount ?q (sd_stages d) = 0 \<longleftrightarrow> (\<forall>st\<in>set (sd_stages d). \<not> p st)"
        using gr_implies_not0 [OF pos] mem by metis
    qed (rule q)
  qed
qed

section \<open>Every operation keeps the tables well formed\<close>

datatype summary_op = Create_stage summary_stage | Write_fragment summary_fragment | Complete_stage string string string int
  | Fail_stage string string string string | Invalidate_stage string string string
  | Clean_work string int | Clean_expired int int

fun run_summary_op :: "(string \<Rightarrow> string) \<Rightarrow> summary_op \<Rightarrow> summary_db \<Rightarrow> summary_db" where
  "run_summary_op sha (Create_stage st) d = saved (fst (create_stage st (open_session d)))"
| "run_summary_op sha (Write_fragment f) d = saved (fst (write_ordered sha f (open_session d)))"
| "run_summary_op sha (Complete_stage w k m now) d = saved (fst (stage_mark_completed w k m now (open_session d)))"
| "run_summary_op sha (Fail_stage w k m e) d = saved (fst (stage_mark_failed w k m e (open_session d)))"
| "run_summary_op sha (Invalidate_stage w k m) d = saved (fst (stage_invalidate w k m (open_session d)))"
| "run_summary_op sha (Clean_work w n) d = saved (fst (cleanup_by_work w n (open_session d)))"
| "run_summary_op sha (Clean_expired before n) d = saved (fst (stage_cleanup_expired before n (open_session d)))"

text \<open>The rows that \<open>generate_snapshot_summary_with_model\<close> creates have the defaults of the model and a positive count.\<close>

definition new_stage :: "summary_stage \<Rightarrow> bool" where
  "new_stage st \<longleftrightarrow> cs_status st = CS_RUNNING \<and> cs_succeeded_fragment_count st = 0 \<and> 0 < cs_expected_fragment_count st"

fun valid_op :: "summary_op \<Rightarrow> bool" where
  "valid_op (Create_stage st) \<longleftrightarrow> new_stage st"
| "valid_op op \<longleftrightarrow> True"

fun cleans :: "string \<Rightarrow> summary_op \<Rightarrow> bool" where
  "cleans work (Clean_work w n) \<longleftrightarrow> w = work"
| "cleans work (Clean_expired before n) \<longleftrightarrow> True"
| "cleans work op \<longleftrightarrow> False"

lemma create_keeps:
  assumes "summary_ok d" "new_stage st" "create_stage st (open_session d) = (s, r)"
  shows "summary_ok (saved s) \<and> (work_complete work d \<longrightarrow> work_complete work (saved s))"
proof -
  let ?row = "st\<lparr>cs_id := fresh_id cs_id (sd_stages d)\<rparr>"
  have "summary_ok (d\<lparr>sd_stages := sd_stages d @ [?row]\<rparr>) \<and> (work_complete work d \<longrightarrow> work_complete work (d\<lparr>sd_stages := sd_stages d @ [?row]\<rparr>))"
    if none: "stage_by_identity (cs_work_dedupe_key st) (cs_stage_key st) d = None"
  proof -
    have "stage_key_of ?row \<notin> stage_key_of ` set (sd_stages d)"
      using none unfolding stage_by_identity_def find_None_all by (auto simp: stage_key_of_def)
    moreover have "fragment_ok (sd_stages d @ [?row]) f" if "fragment_ok (sd_stages d) f" for f
      using that unfolding fragment_ok_def by auto
    ultimately show ?thesis using assms(1,2) fresh_id_not_in [of cs_id "sd_stages d"]
      unfolding summary_ok_def work_complete_def new_stage_def
      by (auto simp: stage_ok_def holds_all_def)
  qed
  then show ?thesis using create_cases [OF assms(3)] assms(1) by auto
qed

lemma write_keeps:
  assumes "summary_ok d" "write_ordered sha f (open_session d) = (s, r, created)"
  shows "summary_ok (saved s) \<and> (work_complete work d \<longrightarrow> work_complete work (saved s))"
proof (cases created)
  case False
  then show ?thesis using write_ordered_cases [OF assms(2)] assms(1) by auto
next
  case True
  let ?g = "\<lambda>st. st\<lparr>cs_succeeded_fragment_count := cs_succeeded_fragment_count st + 1\<rparr>"
  let ?row = "f\<lparr>cf_id := fresh_id cf_id (sd_fragments d)\<rparr>" and ?T = "sql_update (accepts_next f) ?g (sd_stages d)"
  have w: "\<not> fragment_conflict f d" "cf_status f = CF_COMPLETED" "rowcount (accepts_next f) (sd_stages d) = 1"
    "saved s = d\<lparr>sd_stages := ?T, sd_fragments := sd_fragments d @ [?row]\<rparr>"
    using write_ordered_cases [OF assms(2)] True by (auto simp: Let_def)
  obtain st where st: "st \<in> set (sd_stages d)" "accepts_next f st" using rowcount_1_obtain [OF w(3)] by blast
  have bel: "belongs ?row x = belongs f x" for x by (simp add: belongs_def)
  have rng: "0 \<le> cs_succeeded_fragment_count st" using assms(1) st(1) by (auto simp: summary_ok_def stage_ok_def)
  have T: "?g st \<in> set ?T" using st by (auto simp: sql_update_def)
  have ok: "summary_ok (d\<lparr>sd_stages := ?T\<rparr>)"
    using assms(1) by (intro summary_ok_update) (auto simp: same_stage_def stage_ok_def summary_ok_def accepts_next_def)
  have "fragment_ok ?T ?row" unfolding fragment_ok_def
    using T st(2) rng w(2) by (intro bexI [of _ "?g st"]) (auto simp: accepts_next_def belongs_def)
  moreover have "fragment_key_of ?row \<notin> fragment_key_of ` set (sd_fragments d)" "cf_dedupe_key ?row \<notin> cf_dedupe_key ` set (sd_fragments d)"
    using w(1) by (auto simp: fragment_conflict_def fragment_key_of_def)
  ultimately have "summary_ok (saved s)" using ok fresh_id_not_in [of cf_id "sd_fragments d"]
    by (auto simp: w(4) summary_ok_def)
  moreover have "work_complete work (saved s)" if wc: "work_complete work d"
    unfolding work_complete_def
  proof (intro ballI impI)
    fix x assume x: "x \<in> set (sd_stages (saved s))" "cs_work_dedupe_key x = work"
    then obtain y where y: "y \<in> set (sd_stages d)" "x = (if accepts_next f y then ?g y else y)"
      by (auto simp: w(4) sql_update_def)
    then have hold: "holds_all d y" using wc x(2) by (auto simp: work_complete_def split: if_splits)
    have same: "belongs g x = belongs g y" for g using y(2) by (auto simp: belongs_def)
    have new: "belongs ?row x \<and> cf_fragment_index ?row = cs_succeeded_fragment_count y" if "accepts_next f y"
      using that y(2) by (auto simp: accepts_next_def belongs_def)
    have cnt: "cs_succeeded_fragment_count x = cs_succeeded_fragment_count y + (if accepts_next f y then 1 else 0)"
      using y(2) by auto
    have frags: "set (sd_fragments (saved s)) = insert ?row (set (sd_fragments d))" by (simp add: w(4))
    show "holds_all (saved s) x" unfolding holds_all_def
    proof (intro allI impI)
      fix i assume i: "0 \<le> i \<and> i < cs_succeeded_fragment_count x"
      show "\<exists>g\<in>set (sd_fragments (saved s)). belongs g x \<and> cf_fragment_index g = i"
      proof (cases "i < cs_succeeded_fragment_count y")
        case True
        then show ?thesis using hold i same unfolding holds_all_def frags by blast
      next
        case False
        then have "accepts_next f y" "i = cs_succeeded_fragment_count y" using i cnt by (auto split: if_splits)
        then show ?thesis using new unfolding frags by blast
      qed
    qed
  qed
  ultimately show ?thesis by blast
qed

lemma complete_keeps:
  assumes "summary_ok d" "stage_mark_completed w k m now (open_session d) = (s, r)"
  shows "summary_ok (saved s) \<and> (work_complete work d \<longrightarrow> work_complete work (saved s))"
proof (cases r)
  case True
  then obtain st :: summary_stage where saved: "saved s = d\<lparr>sd_stages := sql_update (\<lambda>r. cs_id r = cs_id st \<and> is_stage w k m r \<and> cs_status r = CS_RUNNING \<and>
        cs_succeeded_fragment_count r = cs_expected_fragment_count r)
      (\<lambda>r. r\<lparr>cs_status := CS_COMPLETED, cs_completed_at := Some now, cs_error := None\<rparr>) (sd_stages d)\<rparr>"
    using mark_completed_cases [OF assms(2)] by blast
  show ?thesis unfolding saved
    using assms(1) by (intro conjI impI summary_ok_update work_complete_update) (auto simp: same_stage_def stage_ok_def summary_ok_def)
qed (use assms(1) mark_completed_cases [OF assms(2)] in auto)

lemma fail_keeps:
  assumes "summary_ok d"
  shows "summary_ok (saved (fst (stage_mark_failed w k m e (open_session d)))) \<and>
    (work_complete work d \<longrightarrow> work_complete work (saved (fst (stage_mark_failed w k m e (open_session d)))))"
  unfolding mark_failed_saved
  using assms by (intro conjI impI summary_ok_update work_complete_update) (auto simp: same_stage_def stage_ok_def summary_ok_def)

lemma invalidate_keeps:
  assumes "summary_ok d" "stage_invalidate w k m (open_session d) = (s, r)"
  shows "summary_ok (saved s) \<and> (work_complete work d \<longrightarrow> work_complete work (saved s))"
proof (cases "saved s = d")
  case False
  let ?p = "\<lambda>st. is_stage w k m st \<and> cs_status st \<in> {CS_RUNNING, CS_FAILED}"
  let ?T = "sql_update ?p (\<lambda>st. st\<lparr>cs_status := CS_INVALIDATED, cs_completed_at := None\<rparr>) (sd_stages d)"
  let ?h = "\<lambda>f. if completed_fragment w k m f then f\<lparr>cf_status := CF_INVALIDATED\<rparr> else f"
  have d: "saved s = d\<lparr>sd_stages := ?T, sd_fragments := map ?h (sd_fragments d)\<rparr>" "rowcount ?p (sd_stages d) = 1"
    using invalidate_cases [OF assms(2)] False by (auto simp: sql_update_def)
  have ok: "summary_ok (d\<lparr>sd_stages := ?T\<rparr>)"
    using assms(1) by (intro summary_ok_update) (auto simp: same_stage_def stage_ok_def summary_ok_def)
  obtain st where st: "st \<in> set (sd_stages d)" "?p st" using rowcount_1_obtain [OF d(2)] by blast
  have cols: "belongs (?h f) = belongs f" "cf_fragment_index (?h f) = cf_fragment_index f"
    "cf_id (?h f) = cf_id f" "fragment_key_of (?h f) = fragment_key_of f" "cf_dedupe_key (?h f) = cf_dedupe_key f" for f
    by (auto simp: belongs_def fragment_key_of_def)
  have hit: "cs_status x = CS_INVALIDATED" if "completed_fragment w k m f" "belongs f x" "x \<in> set ?T" for f x
  proof -
    obtain y where y: "y \<in> set (sd_stages d)" "x = (if ?p y then y\<lparr>cs_status := CS_INVALIDATED, cs_completed_at := None\<rparr> else y)"
      using \<open>x \<in> set ?T\<close> by (auto simp: sql_update_def)
    have "stage_key_of y = stage_key_of st"
      using y(2) that(1,2) st(2) by (auto simp: stage_key_of_def completed_fragment_def belongs_def is_stage_def split: if_splits)
    then have "y = st" using assms(1) st(1) y(1) by (metis distinct_key_eq summary_ok_def)
    then show ?thesis using st(2) y(2) by simp
  qed
  have frag: "fragment_ok ?T (?h f)" if "f \<in> set (sd_fragments d)" for f
  proof -
    have "fragment_ok ?T f" using ok that by (simp add: summary_ok_def)
    then obtain x where "x \<in> set ?T" "belongs f x" "0 \<le> cf_fragment_index f" "cf_fragment_index f < cs_succeeded_fragment_count x"
      "cs_status x \<noteq> CS_INVALIDATED \<longrightarrow> cf_status f = CF_COMPLETED"
      unfolding fragment_ok_def by blast
    then show ?thesis using hit unfolding fragment_ok_def by (intro bexI [of _ x]) (auto simp: belongs_def)
  qed
  have maps: "map cf_id (map ?h (sd_fragments d)) = map cf_id (sd_fragments d)"
    "map fragment_key_of (map ?h (sd_fragments d)) = map fragment_key_of (sd_fragments d)"
    "map cf_dedupe_key (map ?h (sd_fragments d)) = map cf_dedupe_key (sd_fragments d)"
    using cols by simp_all
  have "\<forall>g\<in>set (map ?h (sd_fragments d)). fragment_ok ?T g" unfolding set_map using frag by blast
  then have "summary_ok (saved s)"
    using ok maps unfolding d(1) summary_ok_def by (simp del: map_map set_map image_iff list.set_map)
  moreover have "work_complete work (saved s)" if "work_complete work d"
  proof -
    have wc: "work_complete work (d\<lparr>sd_stages := ?T\<rparr>)"
      using that by (intro work_complete_update) (auto simp: same_stage_def)
    have "\<exists>g\<in>set (map ?h (sd_fragments d)). belongs g x \<and> cf_fragment_index g = i"
      if "\<exists>g\<in>set (sd_fragments d). belongs g x \<and> cf_fragment_index g = i" for x i
    proof -
      obtain g where g: "g \<in> set (sd_fragments d)" "belongs g x" "cf_fragment_index g = i" using \<open>\<exists>g\<in>_. _\<close> by blast
      then have "?h g \<in> set (map ?h (sd_fragments d))" "belongs (?h g) x" "cf_fragment_index (?h g) = i" using cols(1,2) by simp_all
      then show ?thesis by blast
    qed
    then show ?thesis using wc unfolding d(1) work_complete_def holds_all_def by simp
  qed
  ultimately show ?thesis by blast
qed (use assms(1) in auto)

lemma delete_fragments_keeps:
  assumes "summary_ok d" "\<forall>f\<in>set (sd_fragments d). q f \<longrightarrow> cf_work_dedupe_key f \<noteq> work"
  shows "summary_ok (d\<lparr>sd_fragments := sql_delete q (sd_fragments d)\<rparr>) \<and>
    (work_complete work d \<longrightarrow> work_complete work (d\<lparr>sd_fragments := sql_delete q (sd_fragments d)\<rparr>))"
proof -
  have "holds_all (d\<lparr>sd_fragments := sql_delete q (sd_fragments d)\<rparr>) st" if "holds_all d st" "cs_work_dedupe_key st = work" for st
    using that assms(2) unfolding holds_all_def by (fastforce simp: belongs_def)
  then show ?thesis using assms(1) unfolding summary_ok_def work_complete_def
    by (auto simp: sql_delete_def distinct_map_filter)
qed

lemma delete_fragments_ok: "summary_ok d \<Longrightarrow> summary_ok (d\<lparr>sd_fragments := sql_delete q (sd_fragments d)\<rparr>)"
  by (auto simp: summary_ok_def sql_delete_def distinct_map_filter)

lemma delete_stages_keeps:
  assumes "summary_ok d" "\<forall>st\<in>set (sd_stages d). q st \<longrightarrow> \<not> has_fragments d st"
  shows "summary_ok (d\<lparr>sd_stages := sql_delete q (sd_stages d)\<rparr>) \<and>
    (work_complete work d \<longrightarrow> work_complete work (d\<lparr>sd_stages := sql_delete q (sd_stages d)\<rparr>))"
proof -
  have "fragment_ok (sql_delete q (sd_stages d)) f" if f: "f \<in> set (sd_fragments d)" for f
  proof -
    obtain st where st: "st \<in> set (sd_stages d)" "belongs f st" "0 \<le> cf_fragment_index f"
      "cf_fragment_index f < cs_succeeded_fragment_count st" "cs_status st \<noteq> CS_INVALIDATED \<longrightarrow> cf_status f = CF_COMPLETED"
      using assms(1) f unfolding summary_ok_def fragment_ok_def by blast
    then have "has_fragments d st" using f unfolding has_fragments_def belongs_def by auto
    then have "\<not> q st" using assms(2) st(1) by blast
    then show ?thesis using st unfolding fragment_ok_def by auto
  qed
  then show ?thesis using assms(1) unfolding summary_ok_def work_complete_def holds_all_def
    by (auto simp: sql_delete_def distinct_map_filter)
qed

lemma work_cleanup_keeps:
  assumes "summary_ok d"
  shows "summary_ok (saved (fst (cleanup_by_work w n (open_session d)))) \<and>
    (w \<noteq> work \<and> work_complete work d \<longrightarrow> work_complete work (saved (fst (cleanup_by_work w n (open_session d)))))"
proof (cases "check_batch_size n")
  case None
  then have n: "1 \<le> n" by (auto simp: check_batch_size_def split: if_splits)
  have ids: "distinct (map cf_id (sd_fragments d))" "distinct (map cs_id (sd_stages d))" using assms by (simp_all add: summary_ok_def)
  show ?thesis
  proof (cases "delete_fragments (\<lambda>f. cf_work_dedupe_key f = w) n (open_session d)")
    case (Some x)
    obtain s k where x: "x = (s, k)" by (cases x)
    obtain q where q: "saved s = d\<lparr>sd_fragments := sql_delete q (sd_fragments d)\<rparr>"
      "\<forall>f\<in>set (sd_fragments d). q f \<longrightarrow> cf_work_dedupe_key f = w"
      using delete_fragments_cases [OF n ids(1), of "\<lambda>f. cf_work_dedupe_key f = w"] Some x by auto
    have "cleanup_by_work w n (open_session d) = (s, Inr k)" using None Some x by (simp add: cleanup_by_work_def)
    moreover have "w \<noteq> work \<longrightarrow> (\<forall>f\<in>set (sd_fragments d). q f \<longrightarrow> cf_work_dedupe_key f \<noteq> work)" using q(2) by blast
    ultimately show ?thesis using delete_fragments_keeps [OF assms, of q work] delete_fragments_ok [OF assms, of q] q(1) by auto
  next
    case empty: None
    then have none: "\<forall>f\<in>set (sd_fragments d). cf_work_dedupe_key f \<noteq> w"
      using delete_fragments_cases [OF n ids(1), of "\<lambda>f. cf_work_dedupe_key f = w"] by simp
    obtain q where q: "saved (fst (delete_stages (\<lambda>st. cs_work_dedupe_key st = w) n (open_session d))) = d\<lparr>sd_stages := sql_delete q (sd_stages d)\<rparr>"
      "\<forall>st\<in>set (sd_stages d). q st \<longrightarrow> cs_work_dedupe_key st = w"
      using delete_stages_cases [OF n ids(2), of "\<lambda>st. cs_work_dedupe_key st = w"] by blast
    have "\<forall>st\<in>set (sd_stages d). q st \<longrightarrow> \<not> has_fragments d st" using q(2) none by (auto simp: has_fragments_def)
    from delete_stages_keeps [OF assms this] show ?thesis
      using None empty q(1) by (simp add: cleanup_by_work_def Let_def split_def)
  qed
qed (simp add: cleanup_by_work_def assms)

lemma expired_cleanup_keeps:
  assumes "summary_ok d"
  shows "summary_ok (saved (fst (stage_cleanup_expired before n (open_session d))))"
proof (cases "check_batch_size n")
  case None
  then have n: "1 \<le> n" by (auto simp: check_batch_size_def split: if_splits)
  have ids: "distinct (map cf_id (sd_fragments d))" "distinct (map cs_id (sd_stages d))" using assms by (simp_all add: summary_ok_def)
  let ?p = "\<lambda>f. cf_created_at f < before" and ?r = "\<lambda>st. cs_created_at st < before \<and> \<not> has_fragments d st"
  show ?thesis
  proof (cases "delete_fragments ?p n (open_session d)")
    case (Some x)
    obtain s k where x: "x = (s, k)" by (cases x)
    obtain q where "saved s = d\<lparr>sd_fragments := sql_delete q (sd_fragments d)\<rparr>"
      using delete_fragments_cases [OF n ids(1), of ?p] Some x by auto
    moreover have "stage_cleanup_expired before n (open_session d) = (s, Inr k)" using None Some x by (simp add: stage_cleanup_expired_def)
    ultimately show ?thesis using delete_fragments_ok [OF assms] by simp
  next
    case empty: None
    obtain q where q: "saved (fst (delete_stages ?r n (open_session d))) = d\<lparr>sd_stages := sql_delete q (sd_stages d)\<rparr>"
      "\<forall>st\<in>set (sd_stages d). q st \<longrightarrow> ?r st"
      using delete_stages_cases [OF n ids(2), of ?r] by blast
    then have "\<forall>st\<in>set (sd_stages d). q st \<longrightarrow> \<not> has_fragments d st" by blast
    from delete_stages_keeps [OF assms this] show ?thesis
      using None empty q(1) by (simp add: stage_cleanup_expired_def Let_def split_def)
  qed
qed (simp add: stage_cleanup_expired_def assms)

lemma summary_op_keeps:
  assumes "summary_ok d" "valid_op op"
  shows "summary_ok (run_summary_op sha op d) \<and> (\<not> cleans work op \<and> work_complete work d \<longrightarrow> work_complete work (run_summary_op sha op d))"
proof (cases op)
  case (Create_stage st)
  then show ?thesis using create_keeps [OF assms(1), of st] assms(2) by (cases "create_stage st (open_session d)") auto
next
  case (Write_fragment f)
  then show ?thesis using write_keeps [OF assms(1)] by (cases "write_ordered sha f (open_session d)") auto
next
  case (Complete_stage w k m now)
  then show ?thesis using complete_keeps [OF assms(1)] by (cases "stage_mark_completed w k m now (open_session d)") auto
next
  case (Invalidate_stage w k m)
  then show ?thesis using invalidate_keeps [OF assms(1)] by (cases "stage_invalidate w k m (open_session d)") auto
qed (use fail_keeps work_cleanup_keeps expired_cleanup_keeps assms(1) in auto)

text \<open>C34: The stage tables stay well formed. Whatever operations run, keys stay unique, a stage counts between 0
  and its expected number of fragments, a completed stage counts all of them, every fragment carries the identity of a stage that
  counted it, and only fragments of invalidated stages are invalid. As long as no cleanup runs for its work or by age, every
  stage of a work holds exactly the fragments it counted: none is lost and none is stored twice.\<close>

theorem summary_stages_invariant:
  assumes "summary_ok d" "\<forall>op\<in>set ops. valid_op op"
  shows "summary_ok (fold (run_summary_op sha) ops d) \<and>
    ((\<forall>op\<in>set ops. \<not> cleans work op) \<and> work_complete work d \<longrightarrow> work_complete work (fold (run_summary_op sha) ops d))"
  using assms
proof (induction ops arbitrary: d)
  case (Cons op ops)
  then show ?case using summary_op_keeps [of d op sha work] by simp
qed simp

section \<open>A completed stage covers its messages\<close>

definition stage_fragments :: "summary_db \<Rightarrow> summary_stage \<Rightarrow> summary_fragment list" where
  "stage_fragments d st = sort_key cf_fragment_index (filter (\<lambda>f. belongs f st) (sd_fragments d))"

lemma check_fragments_Some:
  assumes "check_fragments st fs n previous = Some (n', e)"
  shows "n' = n + int (length fs) \<and> map cf_fragment_index fs = map (\<lambda>i. n + int i) [0..<length fs] \<and>
    (\<forall>f\<in>set fs. cf_uid f = cs_uid st \<and> cf_session_id f = cs_session_id st \<and> cf_work_id f = cs_work_id st \<and>
       cf_snapshot_key f = cs_snapshot_key st \<and> cf_model_key f = cs_model_key st \<and> cf_channel_id f = cs_channel_id st \<and>
       cf_model_id f = cs_model_id st \<and> cf_status f = CF_COMPLETED \<and> cf_message_start_id f \<le> cf_message_end_id f) \<and>
    e = (if fs = [] then map_option snd previous else Some (cf_message_end_id (last fs)))"
  using assms
proof (induction fs arbitrary: n previous)
  case (Cons f fs)
  then have f: "cf_fragment_index f = n" "cf_status f = CF_COMPLETED" "cf_message_start_id f \<le> cf_message_end_id f"
    "cf_uid f = cs_uid st \<and> cf_session_id f = cs_session_id st \<and> cf_work_id f = cs_work_id st \<and>
       cf_snapshot_key f = cs_snapshot_key st \<and> cf_model_key f = cs_model_key st \<and> cf_channel_id f = cs_channel_id st \<and>
       cf_model_id f = cs_model_id st"
    and rest: "check_fragments st fs (n + 1) (Some (cf_message_start_id f, cf_message_end_id f)) = Some (n', e)"
    by (simp_all split: if_splits)
  note ih = Cons.IH [OF rest]
  have "[0..<length (f # fs)] = 0 # map Suc [0..<length fs]" by (metis length_Cons map_Suc_upt upt_conv_Cons zero_less_Suc)
  then show ?case using ih f by (auto simp: algebra_simps)
qed simp

lemma check_fragments_contiguous:
  assumes "check_fragments st fs n previous = Some (n', Some e)" "is_task_snapshot st"
    "or_zero (map_option snd previous) < i" "i \<le> e"
  shows "\<exists>f\<in>set fs. cf_message_start_id f \<le> i \<and> i \<le> cf_message_end_id f"
  using assms(1,3,4)
proof (induction fs arbitrary: n previous)
  case Nil
  then show ?case by (auto simp: or_zero_def)
next
  case (Cons f fs)
  then have f: "cf_message_start_id f \<le> or_zero (map_option snd previous) + 1"
    and rest: "check_fragments st fs (n + 1) (Some (cf_message_start_id f, cf_message_end_id f)) = Some (n', Some e)"
    using assms(2) by (simp_all split: if_splits)
  show ?case
  proof (cases "i \<le> cf_message_end_id f")
    case True
    then show ?thesis using f Cons.prems(2) by auto
  next
    case False
    then show ?thesis using Cons.IH [OF rest _ Cons.prems(3)] by (auto simp: or_zero_def)
  qed
qed

definition now_completed :: "int \<Rightarrow> summary_stage \<Rightarrow> summary_stage" where
  "now_completed now st = st\<lparr>cs_status := CS_COMPLETED, cs_completed_at := Some now, cs_error := None\<rparr>"

lemma completed_stage_checked:
  assumes "summary_ok d" "stage_mark_completed work stage model now (open_session d) = (s, True)"
  obtains st where "st \<in> set (sd_stages d)" "is_stage work stage model st"
    "cs_succeeded_fragment_count st = cs_expected_fragment_count st"
    "now_completed now st \<in> set (sd_stages (saved s))"
    "stage_fragments (saved s) (now_completed now st) =
      sort_key cf_fragment_index (filter (\<lambda>f. cf_work_dedupe_key f = work \<and> cf_stage_key f = stage) (sd_fragments d))"
    "check_fragments st (stage_fragments (saved s) (now_completed now st)) 0 None =
      Some (cs_expected_fragment_count st, Some (cs_persistent_summary_target_id st))"
    "is_task_snapshot st \<or> \<not> missing_message d st (completed_fragment work stage model)"
    "sd_messages (saved s) = sd_messages d"
proof -
  let ?keys = "\<lambda>f. cf_work_dedupe_key f = work \<and> cf_stage_key f = stage"
  let ?fs = "sort_key cf_fragment_index (filter ?keys (sd_fragments d))"
  obtain st :: summary_stage where st: "find (\<lambda>st. is_stage work stage model st \<and> cs_status st = CS_RUNNING) (sd_stages d) = Some st"
    and cnt: "cs_succeeded_fragment_count st = cs_expected_fragment_count st"
    and chk: "check_fragments st ?fs 0 None = Some (cs_expected_fragment_count st, Some (cs_persistent_summary_target_id st))"
    and mis: "is_task_snapshot st \<or> \<not> missing_message d st (completed_fragment work stage model)"
    and sv: "saved s = d\<lparr>sd_stages := sql_update (\<lambda>r. cs_id r = cs_id st \<and> is_stage work stage model r \<and> cs_status r = CS_RUNNING \<and>
        cs_succeeded_fragment_count r = cs_expected_fragment_count r)
      (\<lambda>r. r\<lparr>cs_status := CS_COMPLETED, cs_completed_at := Some now, cs_error := None\<rparr>) (sd_stages d)\<rparr>"
    using mark_completed_cases [OF assms(2)] by blast
  have s: "st \<in> set (sd_stages d)" "is_stage work stage model st" "cs_status st = CS_RUNNING" using find_Some_iff_in [OF st] by auto
  let ?t = "now_completed now st"
  have mem: "?t \<in> set (sd_stages (saved s))" using s cnt by (auto simp: sv sql_update_def now_completed_def)
  note ranges = check_fragments_Some [OF chk]
  have keys: "belongs f ?t \<longleftrightarrow> ?keys f" if "f \<in> set (sd_fragments d)" for f
  proof
    assume k: "?keys f"
    then have "f \<in> set ?fs" using that by simp
    then have "cf_uid f = cs_uid st \<and> cf_session_id f = cs_session_id st \<and> cf_work_id f = cs_work_id st \<and>
       cf_snapshot_key f = cs_snapshot_key st \<and> cf_model_key f = cs_model_key st \<and> cf_channel_id f = cs_channel_id st \<and>
       cf_model_id f = cs_model_id st" using ranges by blast
    then show "belongs f ?t" using k s(2) by (simp add: belongs_def is_stage_def now_completed_def)
  qed (use s(2) in \<open>simp add: belongs_def is_stage_def now_completed_def\<close>)
  then have frs: "stage_fragments (saved s) ?t = ?fs"
    unfolding stage_fragments_def sv by (simp cong: filter_cong)
  show thesis using that [OF s(1,2) cnt mem frs] chk mis unfolding frs by (simp add: sv)
qed

text \<open>C32: A stage is marked completed only when nothing is missing. If \<open>mark_completed\<close> succeeds, the stage's
  fragments have the indices from 0 to the expected count, all are complete, the last ends at the target message, and every
  message of the session behind the old summary up to the target lies inside one of them; for a frozen task context every
  number from 1 to the target does. If it does not succeed, nothing is changed.\<close>

theorem completed_stage_covers:
  assumes "summary_ok d" "stage_mark_completed work stage model now (open_session d) = (s, done_ok)"
  shows "if done_ok then \<exists>st\<in>set (sd_stages (saved s)). is_stage work stage model st \<and> cs_status st = CS_COMPLETED \<and>
      (let fs = stage_fragments (saved s) st in
        map cf_fragment_index fs = map int [0..<nat (cs_expected_fragment_count st)] \<and>
        (\<forall>f\<in>set fs. cf_status f = CF_COMPLETED) \<and> fs \<noteq> [] \<and> cf_message_end_id (last fs) = cs_persistent_summary_target_id st \<and>
        (\<not> is_task_snapshot st \<longrightarrow> (\<forall>c\<in>set (sd_messages (saved s)). ch_uid c = cs_uid st \<and> ch_session_id c = cs_session_id st \<and>
           or_zero (cs_expected_summary_message_id st) < ch_id c \<and> ch_id c \<le> cs_persistent_summary_target_id st \<longrightarrow>
           (\<exists>f\<in>set fs. cf_message_start_id f \<le> ch_id c \<and> ch_id c \<le> cf_message_end_id f))) \<and>
        (is_task_snapshot st \<longrightarrow> (\<forall>i. 1 \<le> i \<and> i \<le> cs_persistent_summary_target_id st \<longrightarrow>
           (\<exists>f\<in>set fs. cf_message_start_id f \<le> i \<and> i \<le> cf_message_end_id f))))
    else saved s = d"
proof (cases done_ok)
  case False
  then show ?thesis using mark_completed_cases [OF assms(2)] by simp
next
  case True
  let ?keys = "\<lambda>f. cf_work_dedupe_key f = work \<and> cf_stage_key f = stage"
  let ?fs = "sort_key cf_fragment_index (filter ?keys (sd_fragments d))"
  have "stage_mark_completed work stage model now (open_session d) = (s, True)" using assms(2) True by simp
  then obtain st where s: "st \<in> set (sd_stages d)" "is_stage work stage model st"
    and mem: "now_completed now st \<in> set (sd_stages (saved s))"
    and frs: "stage_fragments (saved s) (now_completed now st) = ?fs"
    and chk: "check_fragments st ?fs 0 None = Some (cs_expected_fragment_count st, Some (cs_persistent_summary_target_id st))"
    and mis: "is_task_snapshot st \<or> \<not> missing_message d st (completed_fragment work stage model)"
    and msg: "sd_messages (saved s) = sd_messages d"
    by (rule completed_stage_checked [OF assms(1)]) (use that in simp)
  let ?t = "now_completed now st"
  note ranges = check_fragments_Some [OF chk]
  have len: "cs_expected_fragment_count st = int (length ?fs)" using ranges by linarith
  have z: "(\<lambda>i. 0 + int i) = int" by auto
  have idx: "map cf_fragment_index ?fs = map int [0..<length ?fs]" using conjunct1 [OF conjunct2 [OF ranges]] unfolding z .
  have last: "Some (cs_persistent_summary_target_id st) = (if ?fs = [] then map_option snd (None :: (int \<times> int) option) else Some (cf_message_end_id (last ?fs)))"
    using conjunct2 [OF conjunct2 [OF conjunct2 [OF ranges]]] .
  have ne: "?fs \<noteq> []" "cf_message_end_id (last ?fs) = cs_persistent_summary_target_id st"
    using last by (cases "?fs = []"; simp only: if_True if_False option.map option.distinct option.inject refl not_False_eq_True)+
  have cover: "\<exists>f\<in>set ?fs. cf_message_start_id f \<le> ch_id c \<and> ch_id c \<le> cf_message_end_id f"
    if "\<not> is_task_snapshot st" "c \<in> set (sd_messages d)" "ch_uid c = cs_uid st" "ch_session_id c = cs_session_id st"
      "or_zero (cs_expected_summary_message_id st) < ch_id c" "ch_id c \<le> cs_persistent_summary_target_id st" for c
    using mis that by (auto simp: missing_message_def completed_fragment_def)
  have task: "\<exists>f\<in>set ?fs. cf_message_start_id f \<le> i \<and> i \<le> cf_message_end_id f"
    if "is_task_snapshot st" "1 \<le> i" "i \<le> cs_persistent_summary_target_id st" for i
    using check_fragments_contiguous [OF chk that(1)] that(2,3) by (simp add: or_zero_def)
  have simps: "cs_expected_fragment_count ?t = cs_expected_fragment_count st" "is_task_snapshot ?t = is_task_snapshot st"
    "cs_persistent_summary_target_id ?t = cs_persistent_summary_target_id st" "cs_uid ?t = cs_uid st"
    "cs_session_id ?t = cs_session_id st" "cs_expected_summary_message_id ?t = cs_expected_summary_message_id st"
    "is_stage work stage model ?t = is_stage work stage model st" "cs_status ?t = CS_COMPLETED" "sd_messages (saved s) = sd_messages d"
    by (simp_all add: is_task_snapshot_def is_stage_def now_completed_def msg)
  have status: "\<forall>f\<in>set ?fs. cf_status f = CF_COMPLETED" using ranges by blast
  show ?thesis unfolding if_P [OF True]
  proof (rule bexI [OF _ mem], unfold Let_def frs simps, intro conjI impI ballI allI)
    show "is_stage work stage model st" by (rule s(2))
    show "map cf_fragment_index ?fs = map int [0..<nat (cs_expected_fragment_count st)]" unfolding len nat_int by (rule idx)
    show "cf_status f = CF_COMPLETED" if "f \<in> set ?fs" for f using status that by blast
    show "?fs \<noteq> []" "cf_message_end_id (last ?fs) = cs_persistent_summary_target_id st" by (rule ne)+
    show "\<exists>f\<in>set ?fs. cf_message_start_id f \<le> ch_id c \<and> ch_id c \<le> cf_message_end_id f"
      if "\<not> is_task_snapshot st" "c \<in> set (sd_messages d)" "ch_uid c = cs_uid st \<and> ch_session_id c = cs_session_id st \<and>
        or_zero (cs_expected_summary_message_id st) < ch_id c \<and> ch_id c \<le> cs_persistent_summary_target_id st" for c
      using cover that by blast
    show "\<exists>f\<in>set ?fs. cf_message_start_id f \<le> i \<and> i \<le> cf_message_end_id f"
      if "is_task_snapshot st" "1 \<le> i \<and> i \<le> cs_persistent_summary_target_id st" for i
      using task that by blast
  qed (rule refl)
qed

end
