(* ===== verification/Context_Stages_Runs.thy ===== *)
theory Context_Stages_Runs
  imports Context_Stages_Laws
begin

text \<open>
  Runs over the stage tables: the pipeline's results are written one after the other and become the
  fragments of the stage, also when it resumes a stage that was left behind; the cleanup of a finished
  work repeats its batches until all rows of the work, and only those, are gone.
\<close>

section \<open>The pipeline writes its stage\<close>

fun persist_results :: "(string \<Rightarrow> string) \<Rightarrow> summary_stage \<Rightarrow> int \<Rightarrow> fragment_result list \<Rightarrow> summary_db \<Rightarrow>
    summary_db \<times> py_error option" where
  "persist_results sha st now [] d = (d, None)"
| "persist_results sha st now (r # rs) d =
     (case write_summary_fragment sha st r now d of
        (d', Some e) \<Rightarrow> (d', Some e)
      | (d', None) \<Rightarrow> persist_results sha st now rs d')"

definition stage_fragment_key :: "(string \<Rightarrow> string) \<Rightarrow> summary_stage \<Rightarrow> int \<Rightarrow> string" where
  "stage_fragment_key sha st i = fragment_dedupe_key sha (cs_work_dedupe_key st) (cs_stage_key st) (cs_model_key st) i"

text \<open>The hash does not collide on the keys of the stage: not among its own fragments, and not with stored rows
  of other identities.\<close>

definition collision_free :: "(string \<Rightarrow> string) \<Rightarrow> summary_stage \<Rightarrow> summary_db \<Rightarrow> bool" where
  "collision_free sha st d \<longleftrightarrow>
     inj_on (stage_fragment_key sha st) {0..<cs_expected_fragment_count st} \<and>
     (\<forall>f\<in>set (sd_fragments d). \<forall>i\<in>{0..<cs_expected_fragment_count st}.
        cf_dedupe_key f = stage_fragment_key sha st i \<longrightarrow> fragment_key_of f = (cs_work_dedupe_key st, cs_stage_key st, i))"

definition result_row :: "fragment_result \<Rightarrow> int \<times> int \<times> int \<times> string \<times> int" where
  "result_row r = (fr_index r, fr_start r, fr_end r, fr_content r, fr_tokens r)"

definition fragment_row :: "summary_fragment \<Rightarrow> int \<times> int \<times> int \<times> string \<times> int" where
  "fragment_row f = (cf_fragment_index f, cf_message_start_id f, cf_message_end_id f, cf_content f, cf_token_count f)"

definition stage_rows :: "summary_db \<Rightarrow> summary_stage \<Rightarrow> (int \<times> int \<times> int \<times> string \<times> int) list" where
  "stage_rows d st = map fragment_row (filter (\<lambda>f. belongs f st) (sd_fragments d))"

lemma fragment_of_fields [simp]:
  "cf_dedupe_key (fragment_of sha st r now) = stage_fragment_key sha st (fr_index r)"
  "cf_work_dedupe_key (fragment_of sha st r now) = cs_work_dedupe_key st" "cf_stage_key (fragment_of sha st r now) = cs_stage_key st"
  "cf_model_key (fragment_of sha st r now) = cs_model_key st" "cf_fragment_index (fragment_of sha st r now) = fr_index r"
  "cf_status (fragment_of sha st r now) = CF_COMPLETED" "belongs (fragment_of sha st r now) st"
  "fragment_row (fragment_of sha st r now\<lparr>cf_id := i\<rparr>) = result_row r" "belongs (fragment_of sha st r now\<lparr>cf_id := i\<rparr>) x = belongs (fragment_of sha st r now) x"
  by (simp_all add: fragment_of_def stage_fragment_key_def belongs_def fragment_row_def result_row_def)

lemma write_next:
  assumes ok: "summary_ok d" and y: "y \<in> set (sd_stages d)" "same_stage st y" "cs_status y = CS_RUNNING"
    and idx: "fr_index r = cs_succeeded_fragment_count y" "fr_index r < cs_expected_fragment_count st"
    and cf: "collision_free sha st d"
  obtains d' where "write_summary_fragment sha st r now d = (d', None)" "summary_ok d'" "collision_free sha st d'"
    "y\<lparr>cs_succeeded_fragment_count := cs_succeeded_fragment_count y + 1\<rparr> \<in> set (sd_stages d')"
    "stage_rows d' st = stage_rows d st @ [result_row r]" "sd_messages d' = sd_messages d"
proof -
  let ?f = "fragment_of sha st r now" and ?i = "fr_index r"
  have bel: "belongs f y = belongs f st" for f using same_stage_columns(3) [OF y(2)] .
  have exp: "cs_expected_fragment_count y = cs_expected_fragment_count st" using same_stage_columns(6) [OF y(2)] .
  have i: "?i \<in> {0..<cs_expected_fragment_count st}" using ok y(1) idx by (auto simp: summary_ok_def stage_ok_def)
  have acc: "accepts_next ?f x \<longleftrightarrow> x = y" if "x \<in> set (sd_stages d)" for x
  proof
    assume "accepts_next ?f x"
    then have "belongs ?f x" by (simp add: accepts_next_def)
    moreover have "belongs ?f y" by (simp add: bel)
    ultimately show "x = y" using same_key_stage [of "sd_stages d" x y ?f] ok that y(1) by (simp add: summary_ok_def)
  qed (use idx y(3) exp bel in \<open>simp add: accepts_next_def\<close>)
  have new: "fragment_key_of f \<noteq> (cs_work_dedupe_key st, cs_stage_key st, ?i)" if f: "f \<in> set (sd_fragments d)" for f
  proof
    assume k: "fragment_key_of f = (cs_work_dedupe_key st, cs_stage_key st, ?i)"
    obtain x where x: "x \<in> set (sd_stages d)" "belongs f x" "cf_fragment_index f < cs_succeeded_fragment_count x"
      using ok f unfolding summary_ok_def fragment_ok_def by blast
    have "stage_key_of x = stage_key_of y"
      using k x(2) same_stage_columns(4,5) [OF y(2)] by (auto simp: fragment_key_of_def belongs_def stage_key_of_def)
    then have "x = y" using ok x(1) y(1) by (metis distinct_key_eq summary_ok_def)
    then show False using x(3) k idx by (simp add: fragment_key_of_def)
  qed
  have keys: "cf_dedupe_key f \<noteq> stage_fragment_key sha st ?i" if "f \<in> set (sd_fragments d)" for f
    using cf new [OF that] that i unfolding collision_free_def by blast
  then have none: "get_fragment (stage_fragment_key sha st ?i) d = None" by (simp add: get_fragment_def find_None_all)
  have nc: "\<not> fragment_conflict ?f d"
    using keys new unfolding fragment_conflict_def by (auto simp: fragment_key_of_def)
  have rc: "rowcount (accepts_next ?f) (sd_stages d) = 1"
    using rowcount_key_eq_1 [of cs_id "sd_stages d" "\<lambda>x. x = y" "cs_id y"] acc y(1) ok
    by (simp add: summary_ok_def rowcount_def cong: filter_cong)
  let ?g = "\<lambda>x. x\<lparr>cs_succeeded_fragment_count := cs_succeeded_fragment_count x + 1\<rparr>"
  let ?T = "sql_update (accepts_next ?f) ?g (sd_stages d)" and ?row = "?f\<lparr>cf_id := fresh_id cf_id (sd_fragments d)\<rparr>"
  let ?d = "d\<lparr>sd_stages := ?T, sd_fragments := sd_fragments d @ [?row]\<rparr>"
  obtain s where w: "write_ordered sha ?f (open_session d) = (s, Some ?row, True)" "saved s = ?d"
    using none nc rc unfolding write_ordered_def
    by (auto simp: Let_def split_def stage_fragment_key_def [symmetric] cur_update_stages execute_def fragment_conflict_def)
  have res: "write_summary_fragment sha st r now d = (?d, None)" using w by (simp add: write_summary_fragment_def)
  have "summary_ok ?d" using write_keeps [OF ok w(1)] w(2) by simp
  moreover have "collision_free sha st ?d"
    using cf i unfolding collision_free_def by (auto simp: fragment_key_of_def inj_on_eq_iff)
  moreover have "?g y \<in> set (sd_stages ?d)" using y(1) acc [OF y(1)] by (auto simp: sql_update_def)
  moreover have "stage_rows ?d st = stage_rows d st @ [result_row r]" by (simp add: stage_rows_def)
  ultimately show thesis using that [OF res] by simp
qed

lemma same_stage_counted: "same_stage st y \<Longrightarrow> same_stage st (y\<lparr>cs_succeeded_fragment_count := n\<rparr>)"
  by (cases st, cases y) (simp add: same_stage_def)

lemma write_all:
  assumes "summary_ok d" "y \<in> set (sd_stages d)" "same_stage st y" "cs_status y = CS_RUNNING" "collision_free sha st d"
    "map fr_index rs = map (\<lambda>k. cs_succeeded_fragment_count y + int k) [0..<length rs]"
    "cs_succeeded_fragment_count y + int (length rs) \<le> cs_expected_fragment_count st"
  shows "\<exists>d'. persist_results sha st now rs d = (d', None) \<and> summary_ok d' \<and>
    y\<lparr>cs_succeeded_fragment_count := cs_succeeded_fragment_count y + int (length rs)\<rparr> \<in> set (sd_stages d') \<and>
    stage_rows d' st = stage_rows d st @ map result_row rs \<and> sd_messages d' = sd_messages d"
  using assms
proof (induction rs arbitrary: d y)
  case (Cons r rs)
  let ?y = "y\<lparr>cs_succeeded_fragment_count := cs_succeeded_fragment_count y + 1\<rparr>"
  have ix: "fr_index r = cs_succeeded_fragment_count y" "map fr_index rs = map (\<lambda>k. cs_succeeded_fragment_count ?y + int k) [0..<length rs]"
  proof -
    have "[0..<length (r # rs)] = 0 # map Suc [0..<length rs]" by (metis length_Cons map_Suc_upt upt_conv_Cons zero_less_Suc)
    then show "fr_index r = cs_succeeded_fragment_count y" "map fr_index rs = map (\<lambda>k. cs_succeeded_fragment_count ?y + int k) [0..<length rs]"
      using Cons.prems(6) by (simp_all add: algebra_simps)
  qed
  have lt: "fr_index r < cs_expected_fragment_count st" using ix(1) Cons.prems(7) by simp
  obtain d1 where d1: "write_summary_fragment sha st r now d = (d1, None)" "summary_ok d1" "collision_free sha st d1"
    "?y \<in> set (sd_stages d1)" "stage_rows d1 st = stage_rows d st @ [result_row r]" "sd_messages d1 = sd_messages d"
    by (rule write_next [OF Cons.prems(1-4) ix(1) lt Cons.prems(5)])
  have same: "same_stage st ?y" using Cons.prems(3) by (rule same_stage_counted)
  have y: "cs_status ?y = CS_RUNNING" "cs_succeeded_fragment_count ?y + int (length rs) \<le> cs_expected_fragment_count st"
    using Cons.prems(4,7) by simp_all
  from Cons.IH [OF d1(2,4) same y(1) d1(3) ix(2) y(2)] show ?case using d1 by (auto simp: algebra_simps)
qed (auto simp: stage_rows_def)

text \<open>C33: The stage holds what the pipeline persisted. A pipeline is started on a running stage at the number of fragments
  the stage has already counted, so it resumes where an earlier run stopped. In every state it can reach, writing the
  results it persisted succeeds one after the other, the counter of the stage is the next index of the pipeline, and the
  fragments of the stage are the ones it held before followed by those results in order, provided that the hash does not
  collide on the keys of the stage.\<close>

theorem pipeline_results_stored:
  assumes "summary_ok d" "y \<in> set (sd_stages d)" "same_stage st y" "cs_status y = CS_RUNNING" "collision_free sha st d"
    and "first_index p = cs_succeeded_fragment_count y" "expected_count p = cs_expected_fragment_count st"
    and "start_pipeline p fs = Inr s0" "(pipe_step p)\<^sup>*\<^sup>* s0 s"
  shows "\<exists>d'. persist_results sha st now (persisted s) d = (d', None) \<and> summary_ok d' \<and>
    y\<lparr>cs_succeeded_fragment_count := next_index s\<rparr> \<in> set (sd_stages d') \<and>
    stage_rows d' st = stage_rows d st @ map result_row (persisted s)"
proof -
  note ord = pipeline_order [OF assms(8,9)]
  have "map fr_index (persisted s) = map (\<lambda>k. cs_succeeded_fragment_count y + int k) [0..<length (persisted s)]"
    using ord assms(6) by (intro nth_equalityI) auto
  moreover have n: "cs_succeeded_fragment_count y + int (length (persisted s)) = next_index s" using ord assms(6) by simp
  moreover have "cs_succeeded_fragment_count y + int (length (persisted s)) \<le> cs_expected_fragment_count st"
    using ord assms(6,7) by simp
  ultimately show ?thesis using write_all [OF assms(1-5), of "persisted s" now] unfolding n by blast
qed

section \<open>Cleanup of a work\<close>

lemma repeat_batches_ends:
  assumes step: "\<And>x s r. P x \<Longrightarrow> batch (open_session x) = (s, r) \<Longrightarrow>
      \<exists>k. r = Inr k \<and> P (saved s) \<and> \<mu> (saved s) + k = \<mu> x \<and> (k = 0 \<longrightarrow> Q (saved s))"
    and "P d"
  shows "\<exists>d'. repeat_batches batch d c = Some (d', Inr (c + (\<mu> d - \<mu> d'))) \<and> P d' \<and> Q d' \<and> \<mu> d' \<le> (\<mu> d :: nat)"
  using assms(2)
proof (induction "\<mu> d" arbitrary: d c rule: less_induct)
  case less
  obtain s r where b: "batch (open_session d) = (s, r)" by fastforce
  obtain k where k: "r = Inr k" "P (saved s)" "\<mu> (saved s) + k = \<mu> d" "k = 0 \<longrightarrow> Q (saved s)" using step [OF less.prems b] by blast
  show ?case
  proof (cases "k = 0")
    case True
    then show ?thesis using b k by (subst repeat_batches.simps) auto
  next
    case False
    then have "\<mu> (saved s) < \<mu> d" using k(3) by simp
    from less.hyps [OF this k(2), of "c + k"] obtain d' where
      "repeat_batches batch (saved s) (c + k) = Some (d', Inr (c + k + (\<mu> (saved s) - \<mu> d')))" "P d'" "Q d'" "\<mu> d' \<le> \<mu> (saved s)"
      by blast
    then show ?thesis using b k False by (subst repeat_batches.simps) auto
  qed
qed

text \<open>What is left of the tables without a work.\<close>

definition without_work :: "string \<Rightarrow> summary_db \<Rightarrow> summary_db" where
  "without_work work d = d\<lparr>sd_stages := filter (\<lambda>st. cs_work_dedupe_key st \<noteq> work) (sd_stages d),
     sd_fragments := filter (\<lambda>f. cf_work_dedupe_key f \<noteq> work) (sd_fragments d)\<rparr>"

lemma rows_deleted:
  assumes "\<forall>x\<in>set t. q x \<longrightarrow> p x"
  shows "filter (\<lambda>x. \<not> p x) (sql_delete q t) = filter (\<lambda>x. \<not> p x) t" "length (sql_delete q t) + rowcount q t = length t"
proof -
  show "filter (\<lambda>x. \<not> p x) (sql_delete q t) = filter (\<lambda>x. \<not> p x) t"
    using assms by (induction t) (auto simp: sql_delete_def)
  show "length (sql_delete q t) + rowcount q t = length t"
    by (induction t) (auto simp: sql_delete_def rowcount_def)
qed

lemma work_batch:
  assumes "summary_ok d" "cleanup_by_work w 200 (open_session d) = (s, r)"
  shows "\<exists>k. r = Inr k \<and> without_work w (saved s) = without_work w d \<and>
    (length (sd_stages (saved s)) + length (sd_fragments (saved s))) + k = length (sd_stages d) + length (sd_fragments d) \<and>
    (k = 0 \<longrightarrow> saved s = without_work w (saved s))"
proof -
  have ids: "distinct (map cf_id (sd_fragments d))" "distinct (map cs_id (sd_stages d))" using assms by (simp_all add: summary_ok_def)
  have one: "1 \<le> (200 :: int)" by simp
  have n: "check_batch_size 200 = None" by (simp add: check_batch_size_def)
  show ?thesis
  proof (cases "delete_fragments (\<lambda>f. cf_work_dedupe_key f = w) 200 (open_session d)")
    case (Some x)
    obtain u k where x: "x = (u, k)" by (cases x)
    obtain q where q: "saved u = d\<lparr>sd_fragments := sql_delete q (sd_fragments d)\<rparr>" "k = rowcount q (sd_fragments d)" "0 < k"
      "\<forall>f\<in>set (sd_fragments d). q f \<longrightarrow> cf_work_dedupe_key f = w"
      using delete_fragments_cases [OF _ ids(1), of 200 "\<lambda>f. cf_work_dedupe_key f = w"] Some x by auto
    have "s = u" "r = Inr k" using assms(2) n Some x by (simp_all add: cleanup_by_work_def)
    then show ?thesis using q rows_deleted [OF q(4)] by (simp add: without_work_def)
  next
    case None
    then have none: "\<forall>f\<in>set (sd_fragments d). cf_work_dedupe_key f \<noteq> w"
      using delete_fragments_cases [OF _ ids(1), of 200 "\<lambda>f. cf_work_dedupe_key f = w"] by simp
    let ?p = "\<lambda>st. cs_work_dedupe_key st = w"
    obtain q where q: "saved (fst (delete_stages ?p 200 (open_session d))) = d\<lparr>sd_stages := sql_delete q (sd_stages d)\<rparr>"
      "\<forall>st\<in>set (sd_stages d). q st \<longrightarrow> cs_work_dedupe_key st = w"
      "snd (delete_stages ?p 200 (open_session d)) = rowcount q (sd_stages d)"
      "rowcount q (sd_stages d) = 0 \<longleftrightarrow> (\<forall>st\<in>set (sd_stages d). \<not> ?p st)"
      using delete_stages_cases [OF one ids(2), of ?p] by (elim exE conjE) (rule that)
    have sr: "saved s = d\<lparr>sd_stages := sql_delete q (sd_stages d)\<rparr>" "r = Inr (rowcount q (sd_stages d))"
      using assms(2) n None q(1,3) by (auto simp: cleanup_by_work_def Let_def split_def)
    have "sql_delete q (sd_stages d) = sd_stages d" if "rowcount q (sd_stages d) = 0"
      using that by (simp add: rowcount_0_iff sql_delete_def filter_id_conv)
    then show ?thesis using sr q(4) none rows_deleted [OF q(2)]
      by (auto simp: without_work_def filter_id_conv intro!: summary_db.equality)
  qed
qed

text \<open>C39: The cleanup of a work ends and is exact. \<open>cleanup_context_summary_work\<close>, which deletes in batches until a batch is
  empty, always returns; it reports the number of deleted rows, all stages and fragments of the work are gone, and all other
  rows are untouched and in their order.\<close>

theorem work_cleanup_ends:
  assumes "summary_ok d"
  shows "cleanup_context_summary_work work d = Some (without_work work d,
    Inr (length (sd_stages d) + length (sd_fragments d) -
      (length (sd_stages (without_work work d)) + length (sd_fragments (without_work work d)))))"
proof -
  let ?P = "\<lambda>x. summary_ok x \<and> without_work work x = without_work work d"
  let ?\<mu> = "\<lambda>x. length (sd_stages x) + length (sd_fragments x)"
  have "\<exists>k. r = Inr k \<and> ?P (saved s) \<and> ?\<mu> (saved s) + k = ?\<mu> x \<and> (k = 0 \<longrightarrow> saved s = without_work work (saved s))"
    if "?P x" "cleanup_by_work work 200 (open_session x) = (s, r)" for x s r
    using work_batch [of x work s r] work_cleanup_keeps [of x work 200 work] that by auto
  note step = this
  have "\<exists>d'. repeat_batches (cleanup_by_work work 200) d 0 = Some (d', Inr (0 + (?\<mu> d - ?\<mu> d'))) \<and> ?P d' \<and>
      d' = without_work work d' \<and> ?\<mu> d' \<le> ?\<mu> d"
    by (rule repeat_batches_ends [of ?P]) (use step assms in blast)+
  then obtain d' where
    "cleanup_context_summary_work work d = Some (d', Inr (?\<mu> d - ?\<mu> d'))" "without_work work d' = without_work work d" "d' = without_work work d'"
    unfolding cleanup_context_summary_work_def by auto
  then show ?thesis by metis
qed

section \<open>Examples\<close>

definition sample_stage :: summary_stage where
  "sample_stage = \<lparr>cs_id = 1, cs_uid = ''u'', cs_session_id = ''s'', cs_work_id = 7, cs_work_dedupe_key = ''context-summary:k'',
     cs_snapshot_key = ''k'', cs_stage_key = ''raw'', cs_lower_stage_key = None, cs_model_key = ''m'', cs_channel_id = 1,
     cs_model_id = ''gpt'', cs_context_window_k = 8, cs_max_output_tokens = 100, cs_safety_margin_tokens = 10,
     cs_expected_summary_message_id = None, cs_expected_summary_revision = 0, cs_expected_content_revision = 0,
     cs_snapshot_max_message_id = 30, cs_persistent_summary_target_id = 29, cs_expected_fragment_count = 3,
     cs_succeeded_fragment_count = 1, cs_status = CS_RUNNING, cs_error = None, cs_created_at = 0, cs_completed_at = None\<rparr>"

definition sample_result :: "int \<Rightarrow> int \<Rightarrow> int \<Rightarrow> fragment_result" where
  "sample_result i a b = \<lparr>fr_index = i, fr_start = a, fr_end = b, fr_content = ''summary'', fr_tokens = 5\<rparr>"

text \<open>A stage that was left behind after its first fragment.\<close>

definition sample_summaries :: summary_db where
  "sample_summaries = \<lparr>sd_stages = [sample_stage],
     sd_fragments = [(fragment_of (\<lambda>x. x) sample_stage (sample_result 0 1 9) 0)\<lparr>cf_id := 1\<rparr>],
     sd_messages = map (\<lambda>i. \<lparr>ch_id = i, ch_uid = ''u'', ch_session_id = ''s''\<rparr>) [1, 9, 10, 19, 20, 29]\<rparr>"

definition sample_results :: "fragment_result list" where
  "sample_results = [sample_result 1 10 19, sample_result 2 20 29]"

definition sample_written :: summary_db where
  "sample_written = fst (persist_results (\<lambda>x. x) sample_stage 5 sample_results sample_summaries)"

lemma sample_summaries_ok: "summary_ok sample_summaries"
  by (simp add: summary_ok_def sample_summaries_def stage_ok_def fragment_ok_def sample_stage_def fragment_of_def belongs_def sample_result_def)

lemma sample_collision_free: "collision_free (\<lambda>x. x) sample_stage sample_summaries"
proof -
  have "stage_fragment_key (\<lambda>x. x) sample_stage 0 \<noteq> stage_fragment_key (\<lambda>x. x) sample_stage 1 \<and>
    stage_fragment_key (\<lambda>x. x) sample_stage 0 \<noteq> stage_fragment_key (\<lambda>x. x) sample_stage 2 \<and>
    stage_fragment_key (\<lambda>x. x) sample_stage 1 \<noteq> stage_fragment_key (\<lambda>x. x) sample_stage 2"
    by code_simp
  moreover have "{0..<3 :: int} = {0, 1, 2}" by auto
  ultimately show ?thesis
    by (auto simp: collision_free_def sample_summaries_def fragment_key_of_def sample_result_def sample_stage_def inj_on_def fragment_of_def stage_fragment_key_def)
qed

lemma sample_persisted: "persisted sample_end = sample_results"
  by code_simp

lemma sample_completes:
  "snd (persist_results (\<lambda>x. x) sample_stage 5 sample_results sample_summaries) = None \<and>
   snd (stage_mark_completed ''context-summary:k'' ''raw'' ''m'' 9 (open_session sample_written))"
  by code_simp

theorem summary_stages_invariant_witness:
  "summary_ok (fold (run_summary_op (\<lambda>x. x)) [Write_fragment (fragment_of (\<lambda>x. x) sample_stage (sample_result 1 10 19) 5),
     Invalidate_stage ''context-summary:k'' ''raw'' ''m''] sample_summaries) \<and>
   work_complete ''context-summary:k'' (fold (run_summary_op (\<lambda>x. x)) [Write_fragment (fragment_of (\<lambda>x. x) sample_stage (sample_result 1 10 19) 5),
     Invalidate_stage ''context-summary:k'' ''raw'' ''m''] sample_summaries)"
proof -
  have "work_complete ''context-summary:k'' sample_summaries"
    by (auto simp: work_complete_def holds_all_def sample_summaries_def sample_stage_def fragment_of_def belongs_def sample_result_def)
  then show ?thesis
    using summary_stages_invariant [OF sample_summaries_ok, of "[Write_fragment (fragment_of (\<lambda>x. x) sample_stage (sample_result 1 10 19) 5),
      Invalidate_stage ''context-summary:k'' ''raw'' ''m'']" "\<lambda>x. x" "''context-summary:k''"] by simp
qed

theorem pipeline_results_stored_witness:
  "snd (persist_results (\<lambda>x. x) sample_stage 5 (persisted sample_end) sample_summaries) = None \<and>
   map fst (stage_rows (fst (persist_results (\<lambda>x. x) sample_stage 5 (persisted sample_end) sample_summaries)) sample_stage) = [0, 1, 2]"
proof -
  have st: "sample_stage \<in> set (sd_stages sample_summaries)" "same_stage sample_stage sample_stage" "cs_status sample_stage = CS_RUNNING"
    "first_index sample_pipeline = cs_succeeded_fragment_count sample_stage"
    "expected_count sample_pipeline = cs_expected_fragment_count sample_stage"
    by (simp_all add: sample_summaries_def same_stage_def sample_stage_def sample_pipeline_def)
  have "map fst (stage_rows sample_summaries sample_stage) = [0]"
    by (simp add: stage_rows_def sample_summaries_def sample_stage_def fragment_of_def belongs_def sample_result_def fragment_row_def)
  moreover have "map fst (map result_row (persisted sample_end)) = [1, 2]" by (simp add: sample_persisted sample_results_def result_row_def sample_result_def)
  ultimately show ?thesis
    using pipeline_results_stored [OF sample_summaries_ok st(1-3) sample_collision_free st(4,5) sample_started sample_reached(2), of 5] by auto
qed

lemma sample_written_ok: "summary_ok sample_written"
proof -
  have st: "sample_stage \<in> set (sd_stages sample_summaries)" "same_stage sample_stage sample_stage" "cs_status sample_stage = CS_RUNNING"
    by (simp_all add: sample_summaries_def same_stage_def sample_stage_def)
  have "map fr_index sample_results = map (\<lambda>k. cs_succeeded_fragment_count sample_stage + int k) [0..<length sample_results]"
    "cs_succeeded_fragment_count sample_stage + int (length sample_results) \<le> cs_expected_fragment_count sample_stage"
    by (simp_all add: sample_results_def sample_result_def sample_stage_def)
  from write_all [OF sample_summaries_ok st sample_collision_free this, of 5] show ?thesis by (auto simp: sample_written_def)
qed

theorem completed_stage_covers_witness:
  "\<exists>st\<in>set (sd_stages (saved (fst (stage_mark_completed ''context-summary:k'' ''raw'' ''m'' 9 (open_session sample_written))))).
     cs_status st = CS_COMPLETED \<and> stage_fragments (saved (fst (stage_mark_completed ''context-summary:k'' ''raw'' ''m'' 9 (open_session sample_written)))) st \<noteq> []"
proof -
  have done_ok: "snd (stage_mark_completed ''context-summary:k'' ''raw'' ''m'' 9 (open_session sample_written))" using sample_completes by blast
  obtain s r where r: "stage_mark_completed ''context-summary:k'' ''raw'' ''m'' 9 (open_session sample_written) = (s, r)" by fastforce
  then have "r" using done_ok by simp
  then show ?thesis using completed_stage_covers [OF sample_written_ok r] r unfolding Let_def by auto
qed

theorem work_cleanup_ends_witness:
  "\<exists>d. cleanup_context_summary_work ''context-summary:k'' sample_summaries = Some (d, Inr 2) \<and> sd_stages d = [] \<and> sd_fragments d = []"
  using work_cleanup_ends [OF sample_summaries_ok, of "''context-summary:k''"]
  by (simp add: without_work_def sample_summaries_def sample_stage_def fragment_of_def)

end
