(* ===== verification/Context_Merge_Laws.thy ===== *)
theory Context_Merge_Laws
  imports Context_Merge Context_Stages_Runs
begin

text \<open>
  Laws of the merge of a completed stage: splitting loses nothing and respects the budget; the pages
  give back the fragments of the stage; the groups carry all parts in order within the budget, resuming yields the
  remaining groups, and the message ranges of the groups pass the checks that the next stage makes
  when it is completed.
\<close>

section \<open>Splitting a fragment\<close>

lemma search_prefix_fits: "search_prefix fits low high best = best \<or> low \<le> search_prefix fits low high best \<and>
    search_prefix fits low high best \<le> high \<and> fits (search_prefix fits low high best)"
proof (induction fits low high best rule: search_prefix.induct)
  case (1 fits low high best)
  let ?m = "(low + high) div 2"
  show ?case
  proof (cases "low \<le> high")
    case True
    then have m: "low \<le> ?m" "?m \<le> high" by auto
    show ?thesis
    proof (cases "fits ?m")
      case fits: True
      then have "search_prefix fits low high best = search_prefix fits (?m + 1) high ?m"
        using True by (subst search_prefix.simps) (simp add: Let_def)
      then show ?thesis using "1.IH"(1) [OF True refl fits] m fits by auto
    next
      case False
      then have "search_prefix fits low high best = search_prefix fits low (?m - 1) best"
        using True by (subst search_prefix.simps) (simp add: Let_def)
      then show ?thesis using "1.IH"(2) [OF True refl False] m by auto
    qed
  qed (subst search_prefix.simps, simp)
qed

text \<open>When fitting is inherited by shorter prefixes, the search finds the largest one.\<close>

lemma search_prefix_largest:
  assumes "\<And>i j. low \<le> i \<Longrightarrow> i \<le> j \<Longrightarrow> fits j \<Longrightarrow> fits i" "low \<le> k" "k \<le> high" "fits k" 
  shows "k \<le> search_prefix fits low high best"
  using assms
proof (induction fits low high best rule: search_prefix.induct)
  case (1 fits low high best)
  let ?m = "(low + high) div 2"
  have lh: "low \<le> high" "low \<le> ?m" using "1.prems" by auto
  show ?case
  proof (cases "fits ?m")
    case fits: True
    then have e: "search_prefix fits low high best = search_prefix fits (?m + 1) high ?m"
      using lh by (subst search_prefix.simps) (simp add: Let_def)
    show ?thesis
    proof (cases "k \<le> ?m")
      case True
      then show ?thesis unfolding e using search_prefix_fits [of fits "?m + 1" high ?m] by auto
    next
      case False
      then show ?thesis unfolding e using "1.IH"(1) [OF lh(1) refl fits] "1.prems" lh(2) by auto
    qed
  next
    case False
    then have e: "search_prefix fits low high best = search_prefix fits low (?m - 1) best"
      using lh by (subst search_prefix.simps) (simp add: Let_def)
    have "k < ?m" using "1.prems" False lh(2) by (meson linorder_not_less)
    then show ?thesis unfolding e using "1.IH"(2) [OF lh(1) refl False] "1.prems" by auto
  qed
qed

definition pieces :: "lower_fragment \<Rightarrow> nat \<Rightarrow> string list \<Rightarrow> string list" where
  "pieces f part cs = map (\<lambda>(i, c). format_fragment f (Some i) (Some c)) (enumerate part cs)"

lemma split_parts_Inr:
  assumes "split_parts f m tc part remaining = Inr ps"
  shows "\<exists>cs. concat cs = remaining \<and> (\<forall>c\<in>set cs. c \<noteq> []) \<and> ps = pieces f part cs \<and> (\<forall>p\<in>set ps. tc p \<le> m)"
  using assms
proof (induction f m tc part remaining arbitrary: ps rule: split_parts.induct)
  case (1 f m tc part remaining)
  show ?case
  proof (cases "remaining = []")
    case True
    then show ?thesis using "1.prems" by (intro exI [of _ "[]"]) (simp add: split_parts.simps pieces_def)
  next
    case False
    let ?fits = "\<lambda>k. tc (format_fragment f (Some part) (Some (take (nat k) remaining))) \<le> m"
    let ?best = "search_prefix ?fits 1 (int (length remaining)) 0"
    have pos: "\<not> ?best \<le> 0" using "1.prems" False by (subst (asm) split_parts.simps) (auto simp: Let_def)
    then obtain qs where qs: "split_parts f m tc (Suc part) (drop (nat ?best) remaining) = Inr qs"
      "ps = format_fragment f (Some part) (Some (take (nat ?best) remaining)) # qs"
      using "1.prems" False by (subst (asm) split_parts.simps) (auto simp: Let_def split: sum.splits)
    obtain cs where cs: "concat cs = drop (nat ?best) remaining" "\<forall>c\<in>set cs. c \<noteq> []" "qs = pieces f (Suc part) cs" "\<forall>p\<in>set qs. tc p \<le> m"
      using "1.IH" [OF False refl pos qs(1)] by blast
    have "?fits ?best" using search_prefix_fits [of ?fits 1 "int (length remaining)" 0] pos by auto
    then show ?thesis using cs qs(2) False pos
      by (intro exI [of _ "take (nat ?best) remaining # cs"]) (auto simp: pieces_def)
  qed
qed

lemma split_parts_succeeds:
  assumes "\<And>part xs ys. xs \<noteq> [] \<Longrightarrow> tc (format_fragment f (Some part) (Some xs)) \<le> tc (format_fragment f (Some part) (Some (xs @ ys)))"
    and "\<And>p c. part \<le> p \<Longrightarrow> p < part + length remaining \<Longrightarrow> c \<in> set remaining \<Longrightarrow> tc (format_fragment f (Some p) (Some [c])) \<le> m"
  shows "\<exists>ps. split_parts f m tc part remaining = Inr ps"
  using assms
proof (induction f m tc part remaining rule: split_parts.induct)
  case (1 f m tc part remaining)
  show ?case
  proof (cases "remaining = []")
    case False
    let ?fits = "\<lambda>k. tc (format_fragment f (Some part) (Some (take (nat k) remaining))) \<le> m"
    let ?best = "search_prefix ?fits 1 (int (length remaining)) 0"
    have "?fits i" if "1 \<le> i" "i \<le> j" "?fits j" for i j
    proof -
      have "take (nat j) remaining = take (nat i) remaining @ take (nat j - nat i) (drop (nat i) remaining)"
        using that(1,2) by (metis add_diff_inverse_nat nat_mono not_less take_add)
      moreover have "take (nat i) remaining \<noteq> []" using that(1) False by auto
      ultimately show ?thesis using "1.prems"(1) [of "take (nat i) remaining"] that(3) by (metis order_trans)
    qed
    moreover have "?fits 1" using False "1.prems"(2) by (cases remaining) auto
    moreover have "1 \<le> int (length remaining)" using False by (cases remaining) auto
    ultimately have pos: "\<not> ?best \<le> 0" using search_prefix_largest [of 1 ?fits 1 "int (length remaining)" 0] by force
    have "\<exists>qs. split_parts f m tc (Suc part) (drop (nat ?best) remaining) = Inr qs"
    proof (rule "1.IH" [OF False refl pos "1.prems"(1)])
      fix p c assume p: "Suc part \<le> p" "p < Suc part + length (drop (nat ?best) remaining)" "c \<in> set (drop (nat ?best) remaining)"
      then show "tc (format_fragment f (Some p) (Some [c])) \<le> m"
        using pos in_set_dropD [OF p(3)] by (intro "1.prems"(2)) auto
    qed
    then show ?thesis using False pos by (subst split_parts.simps) (auto simp: Let_def)
  qed (simp add: split_parts.simps)
qed

text \<open>C38: Splitting a lower fragment loses nothing. If a fragment can be split, either its one part is the whole
  fragment, or its parts are consecutive non-empty pieces of the content with the numbers 0, 1, 2 and so on, whose
  contents give back the content; every part is within the budget. It can be split whenever longer text never counts
  fewer tokens and a single character with its tag is within the budget.\<close>

theorem split_fragment_correct:
  shows "(\<forall>ps. split_completed_fragment f m tc = Inr ps \<longrightarrow> (\<forall>p\<in>set ps. tc p \<le> m) \<and>
      (ps = [format_fragment f None None] \<or> (\<exists>cs. concat cs = lf_content f \<and> [] \<notin> set cs \<and> ps = pieces f 0 cs))) \<and>
    ((\<forall>part xs ys. xs \<noteq> [] \<longrightarrow> tc (format_fragment f (Some part) (Some xs)) \<le> tc (format_fragment f (Some part) (Some (xs @ ys)))) \<longrightarrow>
     (\<forall>part<length (lf_content f). \<forall>c\<in>set (lf_content f). tc (format_fragment f (Some part) (Some [c])) \<le> m) \<longrightarrow>
     (\<exists>ps. split_completed_fragment f m tc = Inr ps))"
proof (intro conjI allI impI)
  fix ps assume ps: "split_completed_fragment f m tc = Inr ps"
  show "\<forall>p\<in>set ps. tc p \<le> m" "ps = [format_fragment f None None] \<or> (\<exists>cs. concat cs = lf_content f \<and> [] \<notin> set cs \<and> ps = pieces f 0 cs)"
    using ps split_parts_Inr [of f m tc 0 "lf_content f" ps] by (auto simp: split_completed_fragment_def split: if_splits)
next
  assume "\<forall>part xs ys. xs \<noteq> [] \<longrightarrow> tc (format_fragment f (Some part) (Some xs)) \<le> tc (format_fragment f (Some part) (Some (xs @ ys)))"
    "\<forall>part<length (lf_content f). \<forall>c\<in>set (lf_content f). tc (format_fragment f (Some part) (Some [c])) \<le> m"
  then show "\<exists>ps. split_completed_fragment f m tc = Inr ps"
    using split_parts_succeeds [of tc f 0 "lf_content f" m] by (auto simp: split_completed_fragment_def)
qed

section \<open>Reading the lower stage\<close>

lemma numbered_drop:
  assumes "map cf_fragment_index fs = map int [0..<length fs]"
  shows "filter (\<lambda>f. cf_fragment_index f > int j - 1) fs = drop j fs"
proof -
  have idx: "cf_fragment_index (fs ! i) = int i" if "i < length fs" for i using arg_cong [OF assms, of "\<lambda>xs. xs ! i"] that by simp
  have "filter (\<lambda>f. cf_fragment_index f > int j - 1) (take j fs) = []"
    using idx by (auto simp: filter_empty_conv in_set_conv_nth)
  moreover have "filter (\<lambda>f. cf_fragment_index f > int j - 1) (drop j fs) = drop j fs"
    using idx by (auto simp: filter_id_conv in_set_conv_nth)
  ultimately show ?thesis using filter_append [of _ "take j fs" "drop j fs"] by simp
qed

text \<open>The page behind the first \<open>j\<close> fragments.\<close>

lemma fragment_page_numbered:
  assumes st: "find (\<lambda>st. cs_work_dedupe_key st = work \<and> cs_stage_key st = stage \<and> cs_status st = CS_COMPLETED \<and>
      cs_succeeded_fragment_count st = cs_expected_fragment_count st) (sd_stages d) = Some st"
    and fs: "fs = stage_fragments d st" "map cf_fragment_index fs = map int [0..<length fs]" "\<forall>f\<in>set fs. cf_status f = CF_COMPLETED"
    and n: "1 \<le> n" "n \<le> 500"
    and after: "after = (if j = 0 then None else Some (int j - 1))"
  shows "fragment_page work stage None after n d = Inr (Some (st, take (nat n) (drop j fs)))"
proof -
  let ?a = "\<lambda>f. case after of Some i \<Rightarrow> cf_fragment_index f > i | None \<Rightarrow> True"
  have "sort_key cf_fragment_index (filter (\<lambda>f. belongs f st \<and> cf_status f = CF_COMPLETED \<and> ?a f) (sd_fragments d)) =
      filter (\<lambda>f. cf_status f = CF_COMPLETED \<and> ?a f) fs"
    unfolding fs(1) stage_fragments_def filter_sort filter_filter by (rule arg_cong [where f = "sort_key _"]) (auto intro: filter_cong)
  also have "\<dots> = filter ?a fs" using fs(3) by (intro filter_cong) auto
  also have "\<dots> = drop j fs" using after numbered_drop [OF fs(2), of j] by (cases "j = 0") (auto simp: filter_id_conv)
  finally have e: "sort_key cf_fragment_index (filter (\<lambda>f. belongs f st \<and> cf_status f = CF_COMPLETED \<and> ?a f) (sd_fragments d)) = drop j fs" .
  have "\<not> (case after of None \<Rightarrow> False | Some i \<Rightarrow> i < 0)" using after by auto
  then show ?thesis using st n e by (cases after) (simp_all add: fragment_page_def sql_limit_def)
qed

text \<open>The checks of completion imply those of reading.\<close>

lemma check_page_completed:
  assumes "check_fragments st fs n previous = Some (n', e)"
  shows "check_page (cs_expected_summary_message_id st) (map lower_fragment_of fs) n previous =
    (map lower_fragment_of fs, Inr (n', if fs = [] then previous else Some (cf_message_start_id (last fs), cf_message_end_id (last fs))))"
  using assms
proof (induction fs arbitrary: n previous)
  case (Cons f fs)
  then have rest: "check_fragments st fs (n + 1) (Some (cf_message_start_id f, cf_message_end_id f)) = Some (n', e)"
    by (simp split: if_splits)
  then show ?case using Cons.prems Cons.IH [OF rest]
    by (auto simp: lower_fragment_of_def split: if_splits option.splits)
qed simp

lemma check_page_append:
  assumes "check_page old (xs @ ys) n previous = (xs @ ys, Inr (n', p'))"
  shows "check_page old xs n previous = (xs, Inr (n + int (length xs), if xs = [] then previous else Some (lf_start (last xs), lf_end (last xs)))) \<and>
    check_page old ys (n + int (length xs)) (if xs = [] then previous else Some (lf_start (last xs), lf_end (last xs))) = (ys, Inr (n', p'))"
  using assms
proof (induction xs arbitrary: n previous)
  case (Cons f xs)
  obtain zs r where z: "check_page old (xs @ ys) (n + 1) (Some (lf_start f, lf_end f)) = (zs, r)" by fastforce
  then have "zs = xs @ ys" "r = Inr (n', p')" using Cons.prems by (auto simp: split: if_splits)
  then have "check_page old (xs @ ys) (n + 1) (Some (lf_start f, lf_end f)) = (xs @ ys, Inr (n', p'))" using z by simp
  from Cons.IH [OF this] show ?case using Cons.prems by (auto simp: algebra_simps split: if_splits)
qed simp

definition range_after :: "summary_fragment list \<Rightarrow> nat \<Rightarrow> (int \<times> int) option" where
  "range_after fs j = (if j = 0 then None else Some (cf_message_start_id (fs ! (j - 1)), cf_message_end_id (fs ! (j - 1))))"

lemma read_lower_numbered:
  assumes st: "find (\<lambda>st. cs_work_dedupe_key st = work \<and> cs_stage_key st = stage \<and> cs_status st = CS_COMPLETED \<and>
      cs_succeeded_fragment_count st = cs_expected_fragment_count st) (sd_stages d) = Some st"
    and fs: "fs = stage_fragments d st" "map cf_fragment_index fs = map int [0..<length fs]" "\<forall>f\<in>set fs. cf_status f = CF_COMPLETED"
    and n: "1 \<le> n" "n \<le> 500"
    and whole: "check_page (cs_expected_summary_message_id st) (map lower_fragment_of fs) 0 None = (map lower_fragment_of fs, Inr (n', p'))"
    and last_end: "fs \<noteq> []" "cf_message_end_id (last fs) = cs_persistent_summary_target_id st" "int (length fs) = cs_expected_fragment_count st"
    and j: "j \<le> length fs" "first = None \<or> first = Some st"
  shows "read_lower (\<lambda>_. d) work stage n k (if j = 0 then None else Some (int j - 1)) first (int j) (range_after fs j) =
    Some (map lower_fragment_of (drop j fs), None)"
  using j
proof (induction "length fs - j" arbitrary: j k first rule: less_induct)
  case less
  let ?after = "if j = 0 then None else Some (int j - 1)" and ?rows = "take (nat n) (drop j fs)"
  have page: "fragment_page work stage None ?after n d = Inr (Some (st, ?rows))"
    by (rule fragment_page_numbered [OF st fs n refl])
  have same: "\<not> (case first of None \<Rightarrow> False | Some st0 \<Rightarrow> stage_identity st \<noteq> stage_identity st0)" using less.prems(2) by auto
  show ?case
  proof (cases "j = length fs")
    case True
    then have "range_after fs j = Some (cf_message_start_id (last fs), cf_message_end_id (last fs))"
      using last_end(1) by (simp add: range_after_def last_conv_nth)
    then show ?thesis using True page same last_end by (subst read_lower.simps) simp
  next
    case False
    then have lt: "j < length fs" using less.prems(1) by simp
    let ?c = "min (nat n) (length fs - j)"
    have c: "0 < ?c" "length ?rows = ?c" "?rows \<noteq> []" using lt n(1) by auto
    have split: "fs = take j fs @ ?rows @ drop (j + ?c) fs"
      by (metis append_take_drop_id drop_drop add.commute take_all_iff min_def nat_le_linear drop_all length_drop)
    have tj: "(if map lower_fragment_of (take j fs) = [] then None else Some (lf_start (last (map lower_fragment_of (take j fs))), lf_end (last (map lower_fragment_of (take j fs))))) =
        range_after fs j"
      using lt by (auto simp: range_after_def last_map lower_fragment_of_def last_conv_nth)
    have "check_page (cs_expected_summary_message_id st) (map lower_fragment_of (?rows @ drop (j + ?c) fs)) (int j) (range_after fs j) =
        (map lower_fragment_of (?rows @ drop (j + ?c) fs), Inr (n', p'))"
      using check_page_append [of _ "map lower_fragment_of (take j fs)" "map lower_fragment_of (?rows @ drop (j + ?c) fs)" 0 None n' p']
        whole split lt unfolding tj by (simp flip: map_append)
    then have chk: "check_page (cs_expected_summary_message_id st) (map lower_fragment_of ?rows) (int j) (range_after fs j) =
        (map lower_fragment_of ?rows, Inr (int j + int ?c, Some (lf_start (last (map lower_fragment_of ?rows)), lf_end (last (map lower_fragment_of ?rows)))))"
      using check_page_append [of _ "map lower_fragment_of ?rows" "map lower_fragment_of (drop (j + ?c) fs)" "int j" "range_after fs j" n' p'] c
      by (simp del: take_eq_Nil2)
    have "?c - 1 < nat n" "j + (?c - 1) = j + ?c - 1" using c(1) by auto
    then have lastr: "last ?rows = fs ! (j + ?c - 1)" unfolding last_conv_nth [OF c(3)] c(2) using lt by simp
    then have rng: "Some (lf_start (last (map lower_fragment_of ?rows)), lf_end (last (map lower_fragment_of ?rows))) = range_after fs (j + ?c)"
      using c by (simp add: last_map lower_fragment_of_def range_after_def)
    have idx: "cf_fragment_index (last ?rows) = int (j + ?c) - 1"
    proof -
      have lt2: "j + ?c - 1 < length fs" using c(1) lt by linarith
      have "cf_fragment_index (fs ! (j + ?c - 1)) = int (j + ?c - 1)"
        using arg_cong [OF fs(2), of "\<lambda>xs. xs ! (j + ?c - 1)"] lt2 by simp
      moreover have "int (j + ?c - 1) = int (j + ?c) - 1" using c(1) by linarith
      ultimately show ?thesis unfolding lastr by simp
    qed
    have "length fs - (j + ?c) < length fs - j" using c(1) lt by linarith
    from less.hyps [OF this, of "Some st" "Suc k"] have ih:
      "read_lower (\<lambda>_. d) work stage n (Suc k) (Some (int (j + ?c) - 1)) (Some st) (int (j + ?c)) (range_after fs (j + ?c)) =
        Some (map lower_fragment_of (drop (j + ?c) fs), None)"
      using c lt by simp
    have fst_st: "(case first of None \<Rightarrow> st | Some st0 \<Rightarrow> st0) = st" using less.prems(2) by auto
    have "drop j fs = ?rows @ drop (j + ?c) fs" using split by (metis append_eq_conv_conj append_take_drop_id same_append_eq)
    then show ?thesis using page same c(3) chk ih idx rng fst_st
      by (subst read_lower.simps) (simp del: take_eq_Nil take_eq_Nil2 flip: map_append)
  qed
qed

lemma completed_read_back:
  assumes "summary_ok d" "stage_mark_completed work stage model now (open_session d) = (s, True)" "1 \<le> n" "n \<le> 500"
  obtains st where "now_completed now st \<in> set (sd_stages (saved s))" "is_stage work stage model st"
    "check_fragments st (stage_fragments (saved s) (now_completed now st)) 0 None =
      Some (cs_expected_fragment_count st, Some (cs_persistent_summary_target_id st))"
    "iter_completed_lower_stage_fragments (\<lambda>_. saved s) work stage n =
      Some (map lower_fragment_of (stage_fragments (saved s) (now_completed now st)), None)"
proof -
  obtain st where st: "st \<in> set (sd_stages d)" "is_stage work stage model st" "cs_succeeded_fragment_count st = cs_expected_fragment_count st"
    "now_completed now st \<in> set (sd_stages (saved s))"
    "check_fragments st (stage_fragments (saved s) (now_completed now st)) 0 None =
      Some (cs_expected_fragment_count st, Some (cs_persistent_summary_target_id st))"
    by (rule completed_stage_checked [OF assms(1,2)])
  let ?t = "now_completed now st" let ?fs = "stage_fragments (saved s) ?t"
  have cols: "is_stage work stage model ?t" "cs_status ?t = CS_COMPLETED" "cs_succeeded_fragment_count ?t = cs_expected_fragment_count ?t"
    "cs_expected_summary_message_id ?t = cs_expected_summary_message_id st" "cs_expected_fragment_count ?t = cs_expected_fragment_count st"
    "cs_persistent_summary_target_id ?t = cs_persistent_summary_target_id st"
    using st(2,3) by (simp_all add: now_completed_def is_stage_def)
  have ok: "summary_ok (saved s)" using complete_keeps [OF assms(1,2)] by blast
  let ?p = "\<lambda>st. cs_work_dedupe_key st = work \<and> cs_stage_key st = stage \<and> cs_status st = CS_COMPLETED \<and>
      cs_succeeded_fragment_count st = cs_expected_fragment_count st"
  obtain u where u: "find ?p (sd_stages (saved s)) = Some u"
    using find_ex [OF st(4), of ?p] cols by (auto simp: is_stage_def)
  then have "u \<in> set (sd_stages (saved s))" "stage_key_of u = stage_key_of ?t"
    using find_Some_iff_in [OF u] cols(1) by (auto simp: stage_key_of_def is_stage_def)
  then have "u = ?t" using ok st(4) by (metis distinct_key_eq summary_ok_def)
  then have found: "find ?p (sd_stages (saved s)) = Some ?t" using u by simp
  note ranges = check_fragments_Some [OF st(5)]
  have z: "(\<lambda>i. 0 + int i) = int" by auto
  have idx: "map cf_fragment_index ?fs = map int [0..<length ?fs]" using conjunct1 [OF conjunct2 [OF ranges]] unfolding z .
  have status: "\<forall>f\<in>set ?fs. cf_status f = CF_COMPLETED" using ranges by blast
  have len: "int (length ?fs) = cs_expected_fragment_count ?t" using conjunct1 [OF ranges] cols(5) by simp
  have last: "Some (cs_persistent_summary_target_id st) = (if ?fs = [] then map_option snd (None :: (int \<times> int) option) else Some (cf_message_end_id (last ?fs)))"
    using conjunct2 [OF conjunct2 [OF conjunct2 [OF ranges]]] .
  have ne: "?fs \<noteq> []" "cf_message_end_id (last ?fs) = cs_persistent_summary_target_id ?t"
    using last unfolding cols(6)
    by (cases "?fs = []"; simp only: if_True if_False option.map option.distinct option.inject refl not_False_eq_True)+
  note whole = check_page_completed [OF st(5), folded cols(4)]
  have "read_lower (\<lambda>_. saved s) work stage n 0 None None 0 None = Some (map lower_fragment_of ?fs, None)"
    using read_lower_numbered [OF found refl idx status assms(3,4) whole ne len, of 0 None 0] by (simp add: range_after_def)
  then show thesis using that [OF st(4,2,5)] unfolding iter_completed_lower_stage_fragments_def by blast
qed

text \<open>C36: A completed stage is read back. After \<open>mark_completed\<close> has succeeded, reading the stage page by page with any admissible
  page size ends without an error and yields exactly the fragments of the stage, each once and in the order of their index: the
  checks made when a stage is completed imply all the checks made when it is read.\<close>

theorem completed_stage_read_back:
  assumes "summary_ok d" "stage_mark_completed work stage model now (open_session d) = (s, True)" "1 \<le> n" "n \<le> 500"
  shows "\<exists>st\<in>set (sd_stages (saved s)). is_stage work stage model st \<and>
    iter_completed_lower_stage_fragments (\<lambda>_. saved s) work stage n = Some (map lower_fragment_of (stage_fragments (saved s) st), None)"
proof -
  obtain st where st: "now_completed now st \<in> set (sd_stages (saved s))" "is_stage work stage model st"
    "iter_completed_lower_stage_fragments (\<lambda>_. saved s) work stage n =
      Some (map lower_fragment_of (stage_fragments (saved s) (now_completed now st)), None)"
    by (rule completed_read_back [OF assms])
  have "is_stage work stage model (now_completed now st)" using st(2) by (simp add: now_completed_def is_stage_def)
  then show ?thesis using st(1,3) by blast
qed

end
