(* ===== verification/Context_Merge_Groups.thy ===== *)
theory Context_Merge_Groups
  imports Context_Merge_Laws
begin

text \<open>
  The groups that a merge packs. On fragments that pass the checks of reading, packing raises
  nothing and is a fold of \<open>add_one\<close> over the parts. Three facts are kept by \<open>add_one\<close>: the groups and the open group hold
  all parts so far in order and within the budget; the ranges of the groups do not overlap, or are equal;
  and a run that starts at a later group differs only by the groups it leaves out.
\<close>

section \<open>Packing as a fold\<close>

definition floor_of :: "(string \<Rightarrow> int) \<Rightarrow> string list \<Rightarrow> int" where
  "floor_of tc ps = sum_list (map (\<lambda>p. max 1 (tc p)) ps)"

definition group_tokens :: "(string \<Rightarrow> int) \<Rightarrow> string list \<Rightarrow> int" where
  "group_tokens tc ps = max (floor_of tc ps) (max 1 (tc (join_lines ps)))"

definition the_group :: "(string \<Rightarrow> int) \<Rightarrow> merge_state \<Rightarrow> fragment_input" where
  "the_group tc g = \<lparr>fi_index = mg_index g, fi_start = the (mg_start g), fi_end = the (mg_end g),
     fi_tokens = max (mg_floor g) (max 1 (tc (join_lines (mg_parts g)))), fi_content = join_lines (mg_parts g), fi_existing = None\<rparr>"

definition started :: "merge_state \<Rightarrow> bool" where
  "started g \<longleftrightarrow> (mg_parts g \<noteq> [] \<longrightarrow> mg_start g \<noteq> None \<and> mg_end g \<noteq> None)"

definition close_group :: "int \<Rightarrow> (string \<Rightarrow> int) \<Rightarrow> merge_state \<Rightarrow> merge_state" where
  "close_group k tc g = g\<lparr>mg_out := (if mg_index g \<ge> k then mg_out g @ [the_group tc g] else mg_out g), mg_index := mg_index g + 1,
     mg_parts := [], mg_floor := 0, mg_start := None\<rparr>"

definition add_one :: "int \<Rightarrow> int \<Rightarrow> (string \<Rightarrow> int) \<Rightarrow> lower_fragment \<Rightarrow> bool \<Rightarrow> string \<Rightarrow> merge_state \<Rightarrow> merge_state" where
  "add_one m k tc f boundary part g =
     (let g1 = (if mg_parts g \<noteq> [] \<and> (max (mg_floor g + max 1 (tc part)) (max 1 (tc (join_lines (mg_parts g @ [part])))) > m \<or> boundary)
                then close_group k tc g else g)
      in g1\<lparr>mg_start := (if mg_parts g1 = [] then Some (lf_start f) else mg_start g1), mg_parts := mg_parts g1 @ [part],
            mg_floor := mg_floor g1 + max 1 (tc part), mg_end := Some (lf_end f)\<rparr>)"

lemma yield_started: "started g \<Longrightarrow> mg_parts g \<noteq> [] \<Longrightarrow>
    yield_group k tc g = (g\<lparr>mg_out := (if mg_index g \<ge> k then mg_out g @ [the_group tc g] else mg_out g)\<rparr>, None)"
  by (auto simp: yield_group_def build_group_def the_group_def started_def)

lemma add_one_started: "started g \<Longrightarrow> started (add_one m k tc f boundary part g)"
  by (auto simp add: add_one_def started_def Let_def close_group_def)

lemma add_parts_Cons:
  assumes "started g"
  shows "add_parts m k tc f boundary i (part # parts) g =
    add_parts m k tc f boundary (Suc i) parts (add_one m k tc f (i = 0 \<and> boundary) part g)"
proof (cases "mg_parts g \<noteq> [] \<and> (max (mg_floor g + max 1 (tc part)) (max 1 (tc (join_lines (mg_parts g @ [part])))) > m \<or> i = 0 \<and> boundary)")
  case True
  then show ?thesis using yield_started [OF assms, of k tc] by (simp add: add_one_def Let_def close_group_def)
next
  case False
  then show ?thesis by (simp only: add_parts.simps add_one_def Let_def if_False prod.case option.case)
qed

fun add_all :: "int \<Rightarrow> int \<Rightarrow> (string \<Rightarrow> int) \<Rightarrow> lower_fragment \<Rightarrow> bool \<Rightarrow> string list \<Rightarrow> merge_state \<Rightarrow> merge_state" where
  "add_all m k tc f boundary [] g = g"
| "add_all m k tc f boundary (p # ps) g = add_all m k tc f False ps (add_one m k tc f boundary p g)"

lemma add_parts_later: "started g \<Longrightarrow> add_parts m k tc f boundary (Suc i) ps g = (add_all m k tc f False ps g, None)"
  by (induction ps arbitrary: i g) (simp_all add: add_parts_Cons add_one_started del: add_parts.simps(2))

lemma add_parts_all: "started g \<Longrightarrow> add_parts m k tc f boundary 0 ps g = (add_all m k tc f boundary ps g, None)"
  by (cases ps) (simp_all add: add_parts_Cons add_one_started add_parts_later del: add_parts.simps(2))

definition range_of :: "lower_fragment \<Rightarrow> int \<times> int" where
  "range_of f = (lf_start f, lf_end f)"

definition parts_of :: "int \<Rightarrow> (string \<Rightarrow> int) \<Rightarrow> lower_fragment \<Rightarrow> string list" where
  "parts_of m tc f = (case split_completed_fragment f m tc of Inr ps \<Rightarrow> ps | Inl e \<Rightarrow> [])"

definition isolated_at :: "int \<Rightarrow> (string \<Rightarrow> int) \<Rightarrow> lower_fragment \<Rightarrow> lower_fragment option \<Rightarrow> merge_state \<Rightarrow> bool" where
  "isolated_at m tc f nxt g = fragment_isolated f nxt (length (parts_of m tc f)) (mg_previous g = Some (range_of f))"

definition boundary_at :: "int \<Rightarrow> (string \<Rightarrow> int) \<Rightarrow> lower_fragment \<Rightarrow> lower_fragment option \<Rightarrow> merge_state \<Rightarrow> bool" where
  "boundary_at m tc f nxt g \<longleftrightarrow> mg_previous g \<noteq> None \<and> mg_previous g \<noteq> Some (range_of f) \<and> (isolated_at m tc f nxt g \<or> mg_isolated g)"

definition pack_one :: "int \<Rightarrow> int \<Rightarrow> (string \<Rightarrow> int) \<Rightarrow> lower_fragment \<Rightarrow> lower_fragment option \<Rightarrow> merge_state \<Rightarrow> merge_state" where
  "pack_one m k tc f nxt g = (add_all m k tc f (boundary_at m tc f nxt g) (parts_of m tc f) g)
     \<lparr>mg_previous_index := Some (lf_index f), mg_previous := Some (range_of f), mg_isolated := isolated_at m tc f nxt g\<rparr>"

definition next_of :: "lower_fragment list \<Rightarrow> lower_fragment option" where
  "next_of fs = (case fs of [] \<Rightarrow> None | h # _ \<Rightarrow> Some h)"

fun pack :: "int \<Rightarrow> int \<Rightarrow> (string \<Rightarrow> int) \<Rightarrow> lower_fragment list \<Rightarrow> merge_state \<Rightarrow> merge_state" where
  "pack m k tc [] g = g"
| "pack m k tc (f # fs) g = pack m k tc fs (pack_one m k tc f (next_of fs) g)"

text \<open>What the reading of the lower stage guarantees of two neighbours.\<close>

definition follows :: "lower_fragment \<Rightarrow> lower_fragment \<Rightarrow> bool" where
  "follows f h \<longleftrightarrow> lf_index h = lf_index f + 1 \<and> (lf_end f \<le> lf_start h \<or> range_of h = range_of f)"

definition lower_ok :: "int \<Rightarrow> (string \<Rightarrow> int) \<Rightarrow> lower_fragment list \<Rightarrow> bool" where
  "lower_ok m tc fs \<longleftrightarrow> successively follows fs \<and> (\<forall>f\<in>set fs. lf_start f \<le> lf_end f) \<and>
     (\<forall>f\<in>set fs. \<exists>ps. split_completed_fragment f m tc = Inr ps \<and> ps \<noteq> [])"

definition after_fragment :: "lower_fragment list \<Rightarrow> merge_state \<Rightarrow> bool" where
  "after_fragment fs g \<longleftrightarrow> (case fs of [] \<Rightarrow> True
     | f # _ \<Rightarrow> (\<forall>i. mg_previous_index g = Some i \<longrightarrow> lf_index f = i + 1) \<and>
         (\<forall>a b. mg_previous g = Some (a, b) \<longrightarrow> b \<le> lf_start f \<or> (a, b) = range_of f))"

lemma add_all_started: "started g \<Longrightarrow> started (add_all m k tc f boundary ps g)"
  by (induction ps arbitrary: boundary g) (simp_all add: add_one_started)

lemma add_fragment_pack:
  assumes "started g" "split_completed_fragment f m tc = Inr ps" "after_fragment (f # fs) g"
  shows "add_fragment m k tc f nxt g = (pack_one m k tc f nxt g, None)"
proof -
  have "\<not> (case mg_previous_index g of None \<Rightarrow> False | Some i \<Rightarrow> lf_index f \<noteq> i + 1)"
    using assms(3) by (auto simp: after_fragment_def split: option.splits)
  moreover have "\<not> ((case mg_previous g of None \<Rightarrow> False | Some (a, b) \<Rightarrow> lf_start f < b) \<and> mg_previous g \<noteq> Some (lf_start f, lf_end f))"
    using assms(3) by (auto simp: after_fragment_def range_of_def split: option.splits)
  ultimately show ?thesis using assms(2) add_parts_all [OF assms(1), of m k tc f _ ps]
    by (simp add: add_fragment_def pack_one_def parts_of_def Let_def isolated_at_def boundary_at_def range_of_def)
qed

lemma merge_loop_pack:
  assumes "lower_ok m tc fs" "started g" "after_fragment fs g"
  shows "merge_loop m k tc None fs g = (pack m k tc fs g, None) \<and> started (pack m k tc fs g)"
  using assms
proof (induction fs arbitrary: g)
  case (Cons f fs)
  obtain ps where ps: "split_completed_fragment f m tc = Inr ps" using Cons.prems(1) by (auto simp: lower_ok_def)
  let ?g = "pack_one m k tc f (next_of fs) g"
  have "started ?g" using add_all_started [OF Cons.prems(2)] by (simp add: pack_one_def started_def)
  moreover have "lower_ok m tc fs" using Cons.prems(1) by (auto simp: lower_ok_def successively_Cons)
  moreover have "after_fragment fs ?g"
    using Cons.prems(1) by (cases fs) (auto simp: after_fragment_def pack_one_def lower_ok_def follows_def range_of_def)
  ultimately show ?case
    using Cons.IH [of ?g] add_fragment_pack [OF Cons.prems(2) ps Cons.prems(3)] by (simp add: next_of_def)
qed simp

section \<open>Contents and budget\<close>

definition group_of :: "(string \<Rightarrow> int) \<Rightarrow> string list \<Rightarrow> fragment_input \<Rightarrow> bool" where
  "group_of tc ps x \<longleftrightarrow> ps \<noteq> [] \<and> fi_content x = join_lines ps \<and> fi_tokens x = group_tokens tc ps"

definition packed :: "int \<Rightarrow> (string \<Rightarrow> int) \<Rightarrow> string list \<Rightarrow> merge_state \<Rightarrow> bool" where
  "packed m tc done g \<longleftrightarrow> (\<exists>pss. list_all2 (group_of tc) pss (mg_out g) \<and> concat pss @ mg_parts g = done) \<and>
     map fi_index (mg_out g) = map int [0..<length (mg_out g)] \<and> mg_index g = int (length (mg_out g)) \<and>
     mg_floor g = floor_of tc (mg_parts g) \<and> started g \<and> (mg_parts g \<noteq> [] \<longrightarrow> group_tokens tc (mg_parts g) \<le> m) \<and>
     (\<forall>x\<in>set (mg_out g). fi_tokens x \<le> m)"

lemma packed_close:
  assumes "packed m tc xs g" "mg_parts g \<noteq> []"
  shows "packed m tc xs (close_group 0 tc g)"
proof -
  obtain pss where pss: "list_all2 (group_of tc) pss (mg_out g)" "concat pss @ mg_parts g = xs" using assms(1) by (auto simp: packed_def)
  have "group_of tc (mg_parts g) (the_group tc g)" using assms by (simp add: group_of_def the_group_def group_tokens_def packed_def)
  then have "list_all2 (group_of tc) (pss @ [mg_parts g]) (mg_out g @ [the_group tc g])" using pss(1) by (intro list_all2_appendI) simp_all
  moreover have "concat (pss @ [mg_parts g]) @ [] = xs" using pss(2) by simp
  ultimately show ?thesis using assms unfolding packed_def close_group_def
    by (auto simp: the_group_def floor_of_def started_def group_tokens_def)
qed

lemma packed_one:
  assumes "packed m tc xs g" "tc part \<le> m" "0 < m"
  shows "packed m tc (xs @ [part]) (add_one m 0 tc f boundary part g)"
proof -
  let ?full = "mg_parts g \<noteq> [] \<and> (max (mg_floor g + max 1 (tc part)) (max 1 (tc (join_lines (mg_parts g @ [part])))) > m \<or> boundary)"
  let ?g = "if ?full then close_group 0 tc g else g"
  have p: "packed m tc xs ?g" using packed_close [OF assms(1)] assms(1) by auto
  have "group_tokens tc (mg_parts ?g @ [part]) \<le> m"
  proof (cases "mg_parts ?g = []")
    case True
    then show ?thesis using assms(2,3) by (simp add: group_tokens_def floor_of_def)
  next
    case False
    then have "\<not> ?full" "mg_parts g \<noteq> []" by (auto simp: close_group_def split: if_splits)
    then show ?thesis using assms(1) by (auto simp: group_tokens_def packed_def floor_of_def)
  qed
  then show ?thesis using p unfolding packed_def add_one_def Let_def
    by (auto simp: floor_of_def started_def)
qed

lemma packed_all:
  assumes "packed m tc xs g" "\<forall>p\<in>set ps. tc p \<le> m" "0 < m"
  shows "packed m tc (xs @ ps) (add_all m 0 tc f boundary ps g)"
  using assms(1,2)
proof (induction ps arbitrary: xs boundary g)
  case (Cons p ps)
  have "packed m tc (xs @ [p]) (add_one m 0 tc f boundary p g)" using packed_one [OF Cons.prems(1) _ assms(3)] Cons.prems(2) by simp
  from Cons.IH [OF this, of False] Cons.prems(2) show ?case by simp
qed simp

lemma parts_within: "p \<in> set (parts_of m tc f) \<Longrightarrow> tc p \<le> m"
  by (auto simp: parts_of_def split_completed_fragment_def split: sum.splits if_splits dest!: split_parts_Inr [OF sym])

lemma packed_pack:
  assumes "packed m tc xs g" "0 < m"
  shows "packed m tc (xs @ concat (map (parts_of m tc) fs)) (pack m 0 tc fs g)"
  using assms(1)
proof (induction fs arbitrary: xs g)
  case (Cons f fs)
  have "packed m tc (xs @ parts_of m tc f) (pack_one m 0 tc f (next_of fs) g)"
  proof -
    have "packed m tc (xs @ parts_of m tc f) (add_all m 0 tc f (boundary_at m tc f (next_of fs) g) (parts_of m tc f) g)"
      using packed_all [OF Cons.prems(1) _ assms(2)] parts_within by blast
    then show ?thesis by (simp add: pack_one_def packed_def started_def)
  qed
  from Cons.IH [OF this] show ?case by simp
qed simp

section \<open>Resuming at a later group\<close>

definition skips :: "int \<Rightarrow> merge_state \<Rightarrow> merge_state \<Rightarrow> bool" where
  "skips k g g' \<longleftrightarrow> g' = g\<lparr>mg_out := drop (nat k) (mg_out g)\<rparr> \<and> mg_index g = int (length (mg_out g))"

lemma skips_close:
  assumes "skips k g g'" "0 \<le> k"
  shows "skips k (close_group 0 tc g) (close_group k tc g')"
  using assms by (auto simp: skips_def close_group_def the_group_def)

lemma skips_one: "skips k g g' \<Longrightarrow> 0 \<le> k \<Longrightarrow> skips k (add_one m 0 tc f boundary part g) (add_one m k tc f boundary part g')"
  using skips_close [of k g g' tc] by (auto simp: add_one_def Let_def skips_def)

lemma skips_all: "skips k g g' \<Longrightarrow> 0 \<le> k \<Longrightarrow> skips k (add_all m 0 tc f boundary ps g) (add_all m k tc f boundary ps g')"
  by (induction ps arbitrary: boundary g g') (simp_all add: skips_one)

lemma skips_pack:
  assumes "skips k g g'" "0 \<le> k"
  shows "skips k (pack m 0 tc fs g) (pack m k tc fs g')"
  using assms(1)
proof (induction fs arbitrary: g g')
  case (Cons f fs)
  have "mg_previous g' = mg_previous g" "mg_isolated g' = mg_isolated g" using Cons.prems by (auto simp: skips_def)
  then have "isolated_at m tc f n g' = isolated_at m tc f n g" "boundary_at m tc f n g' = boundary_at m tc f n g" for n
    by (simp_all add: isolated_at_def boundary_at_def)
  then have "skips k (pack_one m 0 tc f (next_of fs) g) (pack_one m k tc f (next_of fs) g')"
    using skips_all [OF Cons.prems assms(2)] by (simp add: pack_one_def skips_def)
  from Cons.IH [OF this] show ?case by simp
qed simp

section \<open>Ranges of the groups\<close>

definition chain_ok :: "(int \<times> int) list \<Rightarrow> bool" where
  "chain_ok rs \<longleftrightarrow> successively (\<lambda>x y. snd x \<le> fst y \<or> x = y) rs \<and> (\<forall>(a, b)\<in>set rs. a \<le> b)"

definition group_ranges :: "merge_state \<Rightarrow> (int \<times> int) list" where
  "group_ranges g = map (\<lambda>x. (fi_start x, fi_end x)) (mg_out g)"

text \<open>The open group starts at \<open>s\<close> and ends where the last fragment, of range \<open>(c, d)\<close>, ends.\<close>

definition ranges_ok :: "int \<Rightarrow> int \<times> int \<Rightarrow> bool \<Rightarrow> merge_state \<Rightarrow> bool" where
  "ranges_ok a r isolated g \<longleftrightarrow> (case r of (c, d) \<Rightarrow> mg_parts g \<noteq> [] \<and> mg_end g = Some d \<and> c \<le> d \<and> (isolated \<longrightarrow> c \<noteq> d) \<and>
     (\<exists>s. mg_start g = Some s \<and> s \<le> c \<and> (isolated \<longrightarrow> s = c) \<and> chain_ok (group_ranges g) \<and>
       (if group_ranges g = [] then s = a
        else fst (hd (group_ranges g)) = a \<and>
          (snd (last (group_ranges g)) \<le> s \<or> last (group_ranges g) = (s, d) \<and> isolated))))"

lemma chain_snoc: "chain_ok (rs @ [x]) \<longleftrightarrow> chain_ok rs \<and> fst x \<le> snd x \<and> (rs = [] \<or> snd (last rs) \<le> fst x \<or> last rs = x)"
  by (auto simp: chain_ok_def successively_append_iff)

lemma ranges_closed:
  assumes "ranges_ok a (c, d) isolated g" "0 \<le> mg_index g"
  shows "chain_ok (group_ranges (close_group 0 tc g)) \<and> fst (hd (group_ranges (close_group 0 tc g))) = a \<and>
    last (group_ranges (close_group 0 tc g)) = (the (mg_start g), d) \<and> group_ranges (close_group 0 tc g) \<noteq> []"
  using assms unfolding ranges_ok_def
  by (auto simp: close_group_def group_ranges_def the_group_def chain_snoc hd_append split: if_splits)

lemma mg_index_close: "mg_index (close_group 0 tc g) = mg_index g + 1"
  by (simp add: close_group_def)

text \<open>A further part of the fragment whose first part is in the open group.\<close>

lemma ranges_more:
  assumes r: "ranges_ok a (lf_start f, lf_end f) isolated g" and i: "lf_start f \<noteq> lf_end f \<longrightarrow> isolated" and n: "0 \<le> mg_index g"
  shows "ranges_ok a (lf_start f, lf_end f) isolated (add_one m 0 tc f False part g)"
proof (cases "mg_parts g \<noteq> [] \<and> max (mg_floor g + max 1 (tc part)) (max 1 (tc (join_lines (mg_parts g @ [part])))) > m")
  case False
  then show ?thesis using r by (auto simp: add_one_def Let_def ranges_ok_def group_ranges_def)
next
  case True
  let ?g = "close_group 0 tc g"
  have e: "add_one m 0 tc f False part g = ?g\<lparr>mg_start := Some (lf_start f), mg_parts := [part], mg_floor := max 1 (tc part), mg_end := Some (lf_end f)\<rparr>"
    using True by (simp add: add_one_def Let_def close_group_def)
  have rs: "group_ranges (add_one m 0 tc f False part g) = group_ranges ?g" by (simp add: e group_ranges_def)
  obtain s where s: "mg_start g = Some s" "s \<le> lf_start f" "lf_start f \<le> lf_end f" "isolated \<longrightarrow> s = lf_start f \<and> lf_start f \<noteq> lf_end f"
    using r by (auto simp: ranges_ok_def)
  have c: "chain_ok (group_ranges ?g)" "fst (hd (group_ranges ?g)) = a" "last (group_ranges ?g) = (s, lf_end f)" "group_ranges ?g \<noteq> []"
    using ranges_closed [OF r n] s(1) by simp_all
  have "snd (last (group_ranges ?g)) \<le> lf_start f \<or> last (group_ranges ?g) = (lf_start f, lf_end f) \<and> isolated"
    unfolding c(3) using s i by auto
  then show ?thesis unfolding ranges_ok_def prod.case rs using c s(3,4) by (auto simp: e)
qed

lemma ranges_all:
  assumes "ranges_ok a (lf_start f, lf_end f) isolated g" "lf_start f \<noteq> lf_end f \<longrightarrow> isolated \<or> ps = []" "0 \<le> mg_index g"
  shows "ranges_ok a (lf_start f, lf_end f) isolated (add_all m 0 tc f False ps g) \<and> 0 \<le> mg_index (add_all m 0 tc f False ps g)"
  using assms
proof (induction ps arbitrary: g)
  case (Cons p ps)
  have "lf_start f \<noteq> lf_end f \<longrightarrow> isolated" using Cons.prems(2) by simp
  from Cons.IH [OF ranges_more [OF Cons.prems(1) this Cons.prems(3)]] \<open>lf_start f \<noteq> lf_end f \<longrightarrow> isolated\<close> Cons.prems(3)
  show ?case by (simp add: add_one_def Let_def close_group_def)
qed simp

text \<open>The first part of the next fragment.\<close>

lemma ranges_next:
  assumes r: "ranges_ok a (c, d) isolated g" and n: "0 \<le> mg_index g"
    and f: "lf_start f \<le> lf_end f" "d \<le> lf_start f \<or> (lf_start f, lf_end f) = (c, d)"
    and iso: "isolated' \<longrightarrow> lf_start f \<noteq> lf_end f" "(lf_start f, lf_end f) = (c, d) \<and> c \<noteq> d \<longrightarrow> isolated \<and> isolated'"
    and b: "boundary \<longleftrightarrow> (lf_start f, lf_end f) \<noteq> (c, d) \<and> (isolated' \<or> isolated)"
  shows "ranges_ok a (lf_start f, lf_end f) isolated' (add_one m 0 tc f boundary part g)"
proof -
  let ?full = "max (mg_floor g + max 1 (tc part)) (max 1 (tc (join_lines (mg_parts g @ [part])))) > m \<or> boundary"
  obtain s where s: "mg_start g = Some s" "s \<le> c" "c \<le> d" "isolated \<longrightarrow> s = c \<and> c \<noteq> d" "mg_parts g \<noteq> []" "mg_end g = Some d"
    using r by (auto simp: ranges_ok_def)
  show ?thesis
  proof (cases ?full)
    case True
    let ?g = "close_group 0 tc g"
    have e: "add_one m 0 tc f boundary part g = ?g\<lparr>mg_start := Some (lf_start f), mg_parts := [part], mg_floor := max 1 (tc part), mg_end := Some (lf_end f)\<rparr>"
      using True s(5) by (simp add: add_one_def Let_def close_group_def)
    have rs: "group_ranges (add_one m 0 tc f boundary part g) = group_ranges ?g" by (simp add: e group_ranges_def)
    have cl: "chain_ok (group_ranges ?g)" "fst (hd (group_ranges ?g)) = a" "last (group_ranges ?g) = (s, d)" "group_ranges ?g \<noteq> []"
      using ranges_closed [OF r n] s(1) by simp_all
    have "snd (last (group_ranges ?g)) \<le> lf_start f \<or> last (group_ranges ?g) = (lf_start f, lf_end f) \<and> isolated'"
      unfolding cl(3) using s f iso by auto
    then show ?thesis unfolding ranges_ok_def prod.case rs using cl f(1) iso(1) by (auto simp: e)
  next
    case False
    then have nb: "\<not> boundary" and e: "add_one m 0 tc f boundary part g =
      g\<lparr>mg_parts := mg_parts g @ [part], mg_floor := mg_floor g + max 1 (tc part), mg_end := Some (lf_end f)\<rparr>"
      using s(5) by (auto simp: add_one_def Let_def)
    have rs: "group_ranges (add_one m 0 tc f boundary part g) = group_ranges g" by (simp add: e group_ranges_def)
    have open_ok: "chain_ok (group_ranges g)" "if group_ranges g = [] then s = a else fst (hd (group_ranges g)) = a \<and>
          (snd (last (group_ranges g)) \<le> s \<or> last (group_ranges g) = (s, d) \<and> isolated)"
      using r s(1) by (auto simp: ranges_ok_def)
    have le: "s \<le> lf_start f" using s f(2) by auto
    have eq: "isolated' \<longrightarrow> s = lf_start f" using nb b iso s(4) by auto
    have link: "last (group_ranges g) = (s, d) \<and> isolated \<longrightarrow> (s, d) = (s, lf_end f) \<and> isolated'" using nb b iso s(4) by auto
    show ?thesis unfolding ranges_ok_def prod.case rs
      using open_ok le eq link f(1) iso(1) s(1) by (auto simp: e split: if_splits)
  qed
qed

lemma ranges_ok_fields: "ranges_ok a r i (g\<lparr>mg_previous_index := x, mg_previous := y, mg_isolated := z\<rparr>) = ranges_ok a r i g"
  by (simp add: ranges_ok_def group_ranges_def)

lemma ranges_first:
  assumes "mg_parts g = []" "mg_out g = []" "lf_start f \<le> lf_end f" "isolated \<longrightarrow> lf_start f \<noteq> lf_end f"
  shows "ranges_ok (lf_start f) (lf_start f, lf_end f) isolated (add_one m 0 tc f boundary part g)"
  using assms by (simp add: add_one_def Let_def ranges_ok_def group_ranges_def chain_ok_def)

lemma isolated_at_D:
  "isolated_at m tc f nxt g \<Longrightarrow> lf_start f \<noteq> lf_end f"
  "parts_of m tc f = p # q # qs \<Longrightarrow> lf_start f \<noteq> lf_end f \<Longrightarrow> isolated_at m tc f nxt g"
  "mg_previous g = Some (range_of f) \<Longrightarrow> lf_start f \<noteq> lf_end f \<Longrightarrow> isolated_at m tc f nxt g"
  "nxt = Some h \<Longrightarrow> range_of h = range_of f \<Longrightarrow> lf_start f \<noteq> lf_end f \<Longrightarrow> isolated_at m tc f nxt g"
  by (auto simp: isolated_at_def fragment_isolated_def range_of_def)

text \<open>Packing one fragment whose first part leaves the ranges in order.\<close>

lemma ranges_rest:
  assumes "parts_of m tc f = p # ps" "0 \<le> mg_index g"
    and one: "ranges_ok a (lf_start f, lf_end f) (isolated_at m tc f nxt g) (add_one m 0 tc f (boundary_at m tc f nxt g) p g)"
  shows "ranges_ok a (range_of f) (mg_isolated (pack_one m 0 tc f nxt g)) (pack_one m 0 tc f nxt g) \<and>
    0 \<le> mg_index (pack_one m 0 tc f nxt g) \<and> mg_previous (pack_one m 0 tc f nxt g) = Some (range_of f)"
proof -
  have "0 \<le> mg_index (add_one m 0 tc f (boundary_at m tc f nxt g) p g)"
    using assms(2) by (simp add: add_one_def Let_def close_group_def)
  moreover have "lf_start f \<noteq> lf_end f \<longrightarrow> isolated_at m tc f nxt g \<or> ps = []"
    using isolated_at_D(2) [of m tc f p _ _ nxt g] assms(1) by (cases ps) auto
  ultimately show ?thesis using ranges_all [OF one] assms(1)
    by (simp add: pack_one_def ranges_ok_fields) (simp add: range_of_def)
qed

lemma ranges_pack:
  assumes "lower_ok m tc (pf # fs)" "mg_previous g = Some (range_of pf)" "ranges_ok a (range_of pf) (mg_isolated g) g" "0 \<le> mg_index g"
    and "\<forall>h. next_of fs = Some h \<and> range_of h = range_of pf \<and> lf_start pf \<noteq> lf_end pf \<longrightarrow> mg_isolated g"
  shows "\<exists>isolated. ranges_ok a (range_of (last (pf # fs))) isolated (pack m 0 tc fs g) \<and> 0 \<le> mg_index (pack m 0 tc fs g)"
  using assms
proof (induction fs arbitrary: pf g)
  case (Cons f fs)
  have ok: "lower_ok m tc (f # fs)" "follows pf f" "lf_start f \<le> lf_end f"
    using Cons.prems(1) by (auto simp: lower_ok_def successively_Cons)
  obtain p ps where ps: "parts_of m tc f = p # ps"
    using Cons.prems(1) by (auto simp: lower_ok_def parts_of_def neq_Nil_conv)
  let ?n = "next_of fs" and ?g = "pack_one m 0 tc f (next_of fs) g"
  have "ranges_ok a (lf_start f, lf_end f) (isolated_at m tc f ?n g) (add_one m 0 tc f (boundary_at m tc f ?n g) p g)"
  proof (rule ranges_next [OF _ Cons.prems(4) ok(3)])
    show "ranges_ok a (lf_start pf, lf_end pf) (mg_isolated g) g" using Cons.prems(3) by (simp add: range_of_def)
    show "lf_end pf \<le> lf_start f \<or> (lf_start f, lf_end f) = (lf_start pf, lf_end pf)"
      using ok(2) by (auto simp: follows_def range_of_def)
    show "isolated_at m tc f ?n g \<longrightarrow> lf_start f \<noteq> lf_end f" using isolated_at_D(1) by blast
    show "(lf_start f, lf_end f) = (lf_start pf, lf_end pf) \<and> lf_start pf \<noteq> lf_end pf \<longrightarrow> mg_isolated g \<and> isolated_at m tc f ?n g"
      using Cons.prems(2,5) isolated_at_D(3) [of g f m tc ?n] by (auto simp: next_of_def range_of_def)
    show "boundary_at m tc f ?n g \<longleftrightarrow> (lf_start f, lf_end f) \<noteq> (lf_start pf, lf_end pf) \<and> (isolated_at m tc f ?n g \<or> mg_isolated g)"
      using Cons.prems(2) by (auto simp: boundary_at_def range_of_def)
  qed
  note rest = ranges_rest [OF ps Cons.prems(4) this]
  have "\<forall>h. ?n = Some h \<and> range_of h = range_of f \<and> lf_start f \<noteq> lf_end f \<longrightarrow> mg_isolated ?g"
    using isolated_at_D(4) [of ?n _ f m tc g] by (simp add: pack_one_def)
  from Cons.IH [OF ok(1) _ _ _ this] rest show ?case by simp
qed auto

lemma ranges_packed:
  assumes "lower_ok m tc (f # fs)"
  shows "\<exists>isolated. ranges_ok (lf_start f) (range_of (last (f # fs))) isolated (pack m 0 tc (f # fs) merge_start) \<and>
    0 \<le> mg_index (pack m 0 tc (f # fs) merge_start)"
proof -
  obtain p ps where ps: "parts_of m tc f = p # ps"
    using assms by (auto simp: lower_ok_def parts_of_def neq_Nil_conv)
  let ?n = "next_of fs" and ?g = "pack_one m 0 tc f (next_of fs) merge_start"
  have le: "lf_start f \<le> lf_end f" using assms by (simp add: lower_ok_def)
  have "ranges_ok (lf_start f) (lf_start f, lf_end f) (isolated_at m tc f ?n merge_start)
      (add_one m 0 tc f (boundary_at m tc f ?n merge_start) p merge_start)"
    using le isolated_at_D(1) by (intro ranges_first) (auto simp: merge_start_def)
  note rest = ranges_rest [OF ps _ this]
  have z: "0 \<le> mg_index merge_start" by (simp add: merge_start_def)
  have "\<forall>h. ?n = Some h \<and> range_of h = range_of f \<and> lf_start f \<noteq> lf_end f \<longrightarrow> mg_isolated ?g"
    using isolated_at_D(4) [of ?n _ f m tc merge_start] by (simp add: pack_one_def)
  from ranges_pack [OF assms _ _ _ this, of "lf_start f"] rest [OF z] show ?thesis by simp
qed

section \<open>The groups\<close>

lemma packed_start: "packed m tc [] merge_start"
  by (simp add: packed_def merge_start_def floor_of_def started_def)

lemma groups_of_pack:
  assumes "lower_ok m tc (f # fs)" "0 < m" "0 \<le> k"
  shows "group_completed_summary_fragments m k tc (f # fs, None) =
    (drop (nat k) (mg_out (close_group 0 tc (pack m 0 tc (f # fs) merge_start))), None)"
proof -
  let ?base = "pack m 0 tc (f # fs) merge_start" and ?run = "pack m k tc (f # fs) merge_start"
  have st: "started merge_start" "after_fragment (f # fs) merge_start" by (simp_all add: started_def merge_start_def after_fragment_def)
  note ml = merge_loop_pack [OF assms(1) st, of k]
  have "skips k merge_start merge_start" by (simp add: skips_def merge_start_def)
  then have sk: "skips k ?base ?run" using skips_pack [OF _ assms(3)] by blast
  obtain isolated where "ranges_ok (lf_start f) (range_of (last (f # fs))) isolated ?base" using ranges_packed [OF assms(1)] by blast
  then have ne: "mg_parts ?run \<noteq> []" using sk by (auto simp: ranges_ok_def skips_def split: prod.splits)
  have "group_completed_summary_fragments m k tc (f # fs, None) = (mg_out (close_group k tc ?run), None)"
    using ml ne yield_started [of ?run k tc] assms(2,3)
    by (simp add: group_completed_summary_fragments_def close_group_def del: pack.simps merge_loop.simps)
  moreover have "skips k (close_group 0 tc ?base) (close_group k tc ?run)" using skips_close [OF sk assms(3)] .
  ultimately show ?thesis by (simp add: skips_def)
qed

lemma groups_exist:
  assumes "lower_ok m tc (f # fs)" "0 < m"
  defines "gs \<equiv> mg_out (close_group 0 tc (pack m 0 tc (f # fs) merge_start))"
  shows "\<exists>pss. list_all2 (group_of tc) pss gs \<and> concat pss = concat (map (parts_of m tc) (f # fs))"
    and "map fi_index gs = map int [0..<length gs]" and "\<forall>x\<in>set gs. fi_tokens x \<le> m" and "gs \<noteq> []"
    and "chain_ok (map (\<lambda>x. (fi_start x, fi_end x)) gs)" and "fi_start (hd gs) = lf_start f" and "fi_end (last gs) = lf_end (last (f # fs))"
proof -
  let ?base = "pack m 0 tc (f # fs) merge_start"
  obtain isolated where r: "ranges_ok (lf_start f) (range_of (last (f # fs))) isolated ?base" "0 \<le> mg_index ?base"
    using ranges_packed [OF assms(1)] by blast
  have "mg_parts ?base \<noteq> []" using r(1) by (auto simp: ranges_ok_def split: prod.splits)
  from packed_close [OF packed_pack [OF packed_start assms(2)] this]
  have p: "packed m tc (concat (map (parts_of m tc) (f # fs))) (close_group 0 tc ?base)" by (simp only: append_Nil)
  have "mg_parts (close_group 0 tc ?base) = []" by (simp add: close_group_def)
  then show "\<exists>pss. list_all2 (group_of tc) pss gs \<and> concat pss = concat (map (parts_of m tc) (f # fs))"
    "map fi_index gs = map int [0..<length gs]" "\<forall>x\<in>set gs. fi_tokens x \<le> m"
    using p unfolding packed_def gs_def by auto
  have "ranges_ok (lf_start f) (lf_start (last (f # fs)), lf_end (last (f # fs))) isolated ?base" using r(1) by (simp only: range_of_def)
  note c = ranges_closed [OF this r(2), of tc]
  show ne: "gs \<noteq> []" using c by (auto simp: group_ranges_def gs_def)
  show "chain_ok (map (\<lambda>x. (fi_start x, fi_end x)) gs)" using c by (simp add: group_ranges_def gs_def)
  have rs: "group_ranges (close_group 0 tc ?base) = map (\<lambda>x. (fi_start x, fi_end x)) gs" by (simp only: group_ranges_def gs_def)
  then have "fst (hd (map (\<lambda>x. (fi_start x, fi_end x)) gs)) = lf_start f" using c by (simp only: rs)
  then show "fi_start (hd gs) = lf_start f" unfolding hd_map [OF ne] by simp
  show "fi_end (last gs) = lf_end (last (f # fs))" using c unfolding rs last_map [OF ne] by (simp del: pack.simps)
qed

text \<open>C37: The groups hold the parts of all fragments in order, within the budget. On lower fragments that can be split,
  grouping yields groups numbered from 0 that partition the sequence of all parts; each group's content is its
  parts joined by line feeds, its token count is the larger of the sum of its parts' counts and the count of the whole, and it
  is at most the budget. A run that resumes at group \<open>k\<close> yields exactly the groups from \<open>k\<close> on.\<close>

theorem merge_groups_content:
  assumes "lower_ok m tc fs" "fs \<noteq> []" "0 < m" "0 \<le> k"
  shows "\<exists>gs pss. group_completed_summary_fragments m 0 tc (fs, None) = (gs, None) \<and>
    group_completed_summary_fragments m k tc (fs, None) = (drop (nat k) gs, None) \<and>
    list_all2 (group_of tc) pss gs \<and> concat pss = concat (map (parts_of m tc) fs) \<and>
    map fi_index gs = map int [0..<length gs] \<and> (\<forall>x\<in>set gs. fi_tokens x \<le> m)"
proof -
  obtain f fs' where fs: "fs = f # fs'" using assms(2) by (cases fs) auto
  have ok: "lower_ok m tc (f # fs')" using assms(1) fs by simp
  obtain pss where "list_all2 (group_of tc) pss (mg_out (close_group 0 tc (pack m 0 tc (f # fs') merge_start)))"
    "concat pss = concat (map (parts_of m tc) (f # fs'))" using groups_exist(1) [OF ok assms(3)] by blast
  then show ?thesis
    using groups_of_pack [OF ok assms(3,4)] groups_of_pack [OF ok assms(3), of 0] groups_exist(2,3) [OF ok assms(3)]
    unfolding fs by (intro exI [of _ "mg_out (close_group 0 tc (pack m 0 tc (f # fs') merge_start))"] exI [of _ pss]) simp
qed

section \<open>From a completed stage to the inputs of the next one\<close>

lemma checked_follows:
  assumes "check_fragments st fs n previous = Some r"
  shows "successively follows (map lower_fragment_of fs) \<and> (\<forall>f\<in>set (map lower_fragment_of fs). lf_start f \<le> lf_end f) \<and>
    (fs \<noteq> [] \<and> n = 0 \<longrightarrow> or_zero (cs_expected_summary_message_id st) < lf_start (lower_fragment_of (hd fs))) \<and>
    (fs \<noteq> [] \<longrightarrow> cf_fragment_index (hd fs) = n) \<and>
    (\<forall>a b. fs \<noteq> [] \<and> previous = Some (a, b) \<longrightarrow> b \<le> cf_message_start_id (hd fs) \<or> (cf_message_start_id (hd fs), cf_message_end_id (hd fs)) = (a, b))"
  using assms
proof (induction fs arbitrary: n previous)
  case (Cons f fs)
  have rest: "check_fragments st fs (n + 1) (Some (cf_message_start_id f, cf_message_end_id f)) = Some r"
    and f: "cf_fragment_index f = n" "cf_message_start_id f \<le> cf_message_end_id f"
      "n = 0 \<longrightarrow> or_zero (cs_expected_summary_message_id st) < cf_message_start_id f"
      "\<forall>a b. previous = Some (a, b) \<longrightarrow> b \<le> cf_message_start_id f \<or> (cf_message_start_id f, cf_message_end_id f) = (a, b)"
    using Cons.prems by (auto split: if_splits)
  note ih = Cons.IH [OF rest]
  have chain: "successively follows (map lower_fragment_of (f # fs))"
  proof (cases fs)
    case (Cons h hs)
    then have "follows (lower_fragment_of f) (lower_fragment_of h)"
      using ih f(1) by (auto simp: follows_def range_of_def lower_fragment_of_def)
    then show ?thesis using ih Cons by simp
  qed simp
  have ends: "\<forall>g\<in>set (map lower_fragment_of (f # fs)). lf_start g \<le> lf_end g"
    using ih f(2) by (simp add: lower_fragment_of_def)
  have "lf_start (lower_fragment_of f) = cf_message_start_id f" by (simp add: lower_fragment_of_def)
  then show ?case using chain ends f unfolding list.sel by metis
qed simp


section \<open>An example\<close>

definition sample_lower :: "lower_fragment" where
  "sample_lower = \<lparr>lf_index = 0, lf_start = 1, lf_end = 9, lf_content = ''abcdefghijklmnopqrst''\<rparr>"

abbreviation text_length :: "string \<Rightarrow> int" where
  "text_length \<equiv> (\<lambda>x. int (length x))"

lemma sample_fits:
  "text_length (format_fragment sample_lower None None) = 112 \<and>
   list_all (\<lambda>i. list_all (\<lambda>c. text_length (format_fragment sample_lower (Some i) (Some [c])) \<le> 110) (lf_content sample_lower)) [0..<20]"
  by code_simp

theorem split_fragment_correct_witness:
  "\<exists>ps cs. split_completed_fragment sample_lower 110 text_length = Inr ps \<and> concat cs = lf_content sample_lower \<and> ps = pieces sample_lower 0 cs"
proof -
  have "\<forall>part<length (lf_content sample_lower). \<forall>c\<in>set (lf_content sample_lower).
      text_length (format_fragment sample_lower (Some part) (Some [c])) \<le> 110"
    using sample_fits by (auto simp: list_all_iff sample_lower_def)
  moreover have "text_length (format_fragment f (Some i) (Some xs)) \<le> text_length (format_fragment f (Some i) (Some (xs @ ys)))" for f i xs ys
    by (simp add: format_fragment_def)
  ultimately obtain ps where ps: "split_completed_fragment sample_lower 110 text_length = Inr ps"
    using split_fragment_correct [of sample_lower 110 text_length] by blast
  moreover have "ps \<noteq> [format_fragment sample_lower None None]"
    using split_fragment_correct [of sample_lower 110 text_length] ps sample_fits by force
  ultimately show ?thesis using split_fragment_correct [of sample_lower 110 text_length] by blast
qed

text \<open>The stage of the example of \<open>Context_Stages_Runs\<close>, read back and packed.\<close>

definition sample_done :: summary_db where
  "sample_done = saved (fst (stage_mark_completed ''context-summary:k'' ''raw'' ''m'' 9 (open_session sample_written)))"

lemma sample_done_marked:
  obtains s where "stage_mark_completed ''context-summary:k'' ''raw'' ''m'' 9 (open_session sample_written) = (s, True)" "saved s = sample_done"
proof -
  obtain s r where "stage_mark_completed ''context-summary:k'' ''raw'' ''m'' 9 (open_session sample_written) = (s, r)" by fastforce
  then show thesis using that sample_completes by (auto simp: sample_done_def)
qed

lemma sample_done_fits:
  "list_all (\<lambda>f. text_length (format_fragment (lower_fragment_of f) None None) \<le> 250) (sd_fragments sample_done)"
  by code_simp

theorem completed_stage_read_back_witness:
  "\<exists>st. st \<in> set (sd_stages sample_done) \<and> iter_completed_lower_stage_fragments (\<lambda>_. sample_done) ''context-summary:k'' ''raw'' 2 =
     Some (map lower_fragment_of (stage_fragments sample_done st), None)"
proof -
  obtain s where s: "stage_mark_completed ''context-summary:k'' ''raw'' ''m'' 9 (open_session sample_written) = (s, True)" "saved s = sample_done"
    by (rule sample_done_marked)
  show ?thesis using completed_stage_read_back [OF sample_written_ok s(1), of 2] unfolding s(2) by auto
qed

theorem merge_groups_content_witness:
  "\<exists>gs. group_completed_summary_fragments 110 0 text_length ([sample_lower], None) = (gs, None) \<and>
     group_completed_summary_fragments 110 1 text_length ([sample_lower], None) = (drop 1 gs, None)"
proof -
  have "case split_completed_fragment sample_lower 110 text_length of Inl _ \<Rightarrow> False | Inr ps \<Rightarrow> ps \<noteq> []" by code_simp
  then have "\<exists>ps. split_completed_fragment sample_lower 110 text_length = Inr ps \<and> ps \<noteq> []" by (simp split: sum.splits)
  then have "lower_ok 110 text_length [sample_lower]" by (simp add: lower_ok_def sample_lower_def)
  from merge_groups_content [OF this, of 1] show ?thesis by auto
qed


end
