(* ===== verification/Spec2Isabelle.thy ===== *)
theory Spec2Isabelle
  imports Worker_Lease Checkpoint_Store Reply_Queue_Laws Audit_Laws Audit_Outcomes Task_Recovery Splitter_Laws File_Executor Knowledge_Runs Context_Plan_Laws Context_Merge_Groups
begin

text \<open>
  MonoLight is an assistant server: clients send messages over HTTP or message platforms, sessions are
  answered by interactive and background agents, and agents call tools whose execution is audited. Its
  processes share one relational database, and the guarantees of the program (an item is worked on by one
  worker, a tool runs only with authority and only once, nothing is lost or answered twice) are carried by the
  statements its CRUD classes issue. This development models those classes and their tables.

  \<^bold>\<open>How the code is modelled.\<close> A table is the list of its rows, a row is a record with the columns of the
  SQLModel class (enumerations are datatypes, nullable columns are options, JSON columns are \<open>json\<close>,
  date-times and time stamps are integers). A request runs in a session \<open>'d dbsession\<close>: the database its open
  transaction sees (\<open>cur\<close>) and the one last committed (\<open>saved\<close>); \<open>commit\<close>, \<open>rollback\<close> and \<open>flush\<close> are
  where the code has them, with the code's \<open>commit\<close> arguments. Each statement is atomic, reads see the current
  rows, comparisons with \<open>NULL\<close> are false, and an exception is an \<open>Inl\<close> of \<open>py_error\<close>. Clock readings,
  random tokens, hashes and \<open>Path.resolve\<close> are arguments; localised messages are their keys. A violated
  constraint rolls the session back, foreign keys cascade as declared. Operations of several workers are
  sequences of the operations on one database, each with its own clock reading.

  \<^bold>\<open>Theories.\<close>
  \<^item> \<open>Prelude\<close>: tables, sessions, JSON values and the shared lemmas on them.
  \<^item> \<open>Lease_Interface\<close>: the contract of a leased resource (\<open>lease_keeper\<close>, \<open>lease_protocol\<close>) and its
    consequences; interpreted for worker roles, work items, task executions and task replies.
  \<^item> \<open>Worker_Lease\<close>: \<open>app/core/crud/worker/lease.py\<close>. Acquire in its three statements, interleaved between
    processes; a role is held by one process until its deadline.
  \<^item> \<open>Reply_Tables\<close>, \<open>Checkpoint_Store\<close>, \<open>Reply_Queue\<close>: \<open>app/models/session_reply_work_item.py\<close>,
    \<open>app/core/crud/session/reply_checkpoint_message.py\<close> and \<open>reply_work_item.py\<close>. The work queue of a session:
    enqueueing, claiming under the concurrency limits, checkpoints stored by content hash, recovery, merging,
    retention. \<open>Reply_Queue_Laws\<close>: idempotent enqueueing, exclusive and bounded claims, final states, recovery
    that repeats no side effect, bounded and safe retention, termination of merge chains.
  \<^item> \<open>Audit_Tables\<close>, \<open>Audit_Store\<close>: \<open>app/models/audit.py\<close> and \<open>app/core/crud/audit/\<close>. The audit of tool
    calls: preparation, confirmation, execution attempts, recovery. \<open>Audit_Laws\<close>: the invariant of the audit
    tables under every operation, with authority and success as its consequences. \<open>Audit_Outcomes\<close>: final
    states, exclusive approval, truthful preparation, the outcome of a round.
  \<^item> \<open>Task_Tables\<close>, \<open>Task_Store\<close>: \<open>app/models/background_task.py\<close> and \<open>app/core/crud/task/background.py\<close>.
    Background tasks, bound to audited executions. \<open>Task_Life\<close>: the abstract life cycle of a task, and the
    refinement: every operation moves rows along it only (interface \<open>task_table\<close>). \<open>Task_Laws\<close>,
    \<open>Task_Leases\<close>, \<open>Task_Audit\<close>, \<open>Task_Recovery\<close>: its invariants, the two leases, the joint marks of a task
    and its audit, and recovery.
  \<^item> \<open>Py_Text\<close>: Python strings (lists of code points), \<open>strip\<close>, slices.
  \<^item> \<open>Text_Splitter\<close>: \<open>app/core/utils/text_splitter.py\<close>, the chunks of a knowledge document and their
    spans. \<open>Splitter_Laws\<close>: splitting ends, loses no character, respects the sizes, is undone by
    \<open>reconstruct_chunk_range\<close>, and its limits refuse exactly what exceeds them.
  \<^item> \<open>File_Text\<close>, \<open>File_Tools\<close>: \<open>app/core/tools/file_tool/\<close> (\<open>text.py\<close>, \<open>read.py\<close>, \<open>write.py\<close>, \<open>edit.py\<close>,
    \<open>patch.py\<close>), with UTF-8 on bytes. \<open>File_Laws\<close>: edit is literal replacement, a patch applies
    completely or not at all and is undone by its reverse, pages cover a file. \<open>File_Executor\<close>:
    \<open>executor.py\<close>, \<open>paths.py\<close> and \<open>app/core/utils/operation_directories.py\<close>; writes stay inside the
    allowed directories.
  \<^item> \<open>Knowledge_Tables\<close>, \<open>Knowledge_Jobs\<close>: \<open>app/models/knowledge_base/job.py\<close> and
    \<open>app/core/crud/knowledge/job.py\<close>, the queue of knowledge jobs. \<open>Knowledge_Laws\<close>: every operation
    keeps the tables well formed and moves jobs along their life cycle. \<open>Knowledge_Leases\<close>: the lease
    contract on jobs and the protection of a claim. \<open>Knowledge_Runs\<close>: an organisation run succeeds
    only with all its children, recovery is one bulk update, a job whose workers keep dying ends.
  \<^item> \<open>Context_Plan\<close>: the plan of \<open>app/core/utils/context_summary/pipeline.py\<close>, which groups the units of
    a conversation into fragments, with IEEE floats. \<open>Context_Plan_Laws\<close>: the plan covers the units,
    respects the budget and has the least number of fragments.
  \<^item> \<open>Context_Pipeline\<close>: \<open>run_bounded_fragment_pipeline\<close> of the same file, the tasks as state machines whose
    steps end at the suspension points. \<open>Context_Pipeline_Laws\<close>: under every schedule the results are persisted in order,
    the bounds hold, the tasks cannot deadlock and every run ends.
  \<^item> \<open>Context_Stages\<close>: \<open>app/models/context_summary_stage.py\<close>, \<open>app/core/crud/context_summary/\<close>, \<open>cleanup.py\<close> and the
    callback \<open>write_summary_fragment\<close> of \<open>app/core/utils/context_summary/\<close>. \<open>Context_Stages_Laws\<close>: the tables stay well
    formed, a completed stage covers its messages. \<open>Context_Stages_Runs\<close>: the stage holds what the pipeline persisted, also
    when it is resumed; the cleanup of a work ends and is exact.
  \<^item> \<open>Context_Merge\<close>: \<open>merge.py\<close> of the same directory, which makes the inputs of the next stage from a
    completed one. \<open>Context_Merge_Laws\<close>: splitting loses nothing, a completed stage can be read back.
    \<open>Context_Merge_Groups\<close>: the groups hold all parts within the budget, their ranges are those of a stage
    and a resumed run continues with the same groups.
  \<^bold>\<open>Bounds and fuel.\<close> No definition runs out of fuel: loops over rows recurse on the list, following merged
  work items terminates by the set of visited identifiers, and a retention run is its five statements.
  The loop that cuts a long paragraph is a \<open>partial_function\<close>; it is proved to return for every splitter that
  the constructor accepts. \<open>int(chunk_size * 0.6)\<close> is modelled by integer arithmetic, which is exact below
  \<open>2 ^ 50\<close>. The reader of pages takes fuel; as many pages as the file has lines are proved to be enough.
  The rounds of claim, crash and recovery are a list; as many rounds as a job has attempts left are proved to end it.
  The loops \<open>repeat_batches\<close> and \<open>read_lower\<close> over the tables of stages are \<open>partial_function\<close>s, proved to return.
  \<^bold>\<open>Not modelled.\<close> The asynchronous executors, dispatchers and managers that call these operations, the
  clients of model providers, terminals and message platforms, memory, the executors of knowledge jobs, the HTTP
  interface and the user interface: they are orchestration and I/O around the modelled state. Of the work
  queue, \<open>get_audit_source_work\<close> and \<open>get_message_work_id\<close> (joins with the chat messages). The identity map
  of the ORM is not modelled: every read sees the table; where a rollback expires the rows that a loop still
  reads, the resulting exception is.
\<close>

end
